(* ===== verification/Prelude.thy ===== *)
theory Prelude
  imports Main "HOL-Library.Word" "HOL-Library.AList"
begin

text \<open>
  Shared vocabulary of the development: the result type of code that can abort, the
  fixed-width casts of C++, little-endian byte strings, and the lemmas on lists,
  association lists and sums that the component theories use.

  Conventions.
  \<^item> A C++ function that can abort the process, run into undefined behaviour or block on
    its own lock returns \<open>'a res\<close>: \<open>Inl f\<close> names what happened, \<open>Inr x\<close> is a normal
    return. \<open>rbind\<close> sequences two such computations.
  \<^item> \<open>int64_t\<close>, \<open>ptrdiff_t\<close> and \<open>int\<close> are \<open>int\<close>; \<open>size_t\<close> and \<open>uint64_t\<close> are \<open>nat\<close>.
    Every conversion between them, and every addition whose operands a client chooses, is
    written out with \<open>int64_of\<close>, \<open>uint64_of\<close>, \<open>int32_of\<close>, \<open>sadd64\<close> and \<open>ssub64\<close>. Running
    totals over live objects (\<open>used_capacity_\<close>, reference counts) are unbounded.
  \<^item> An \<open>unordered_map\<close> is an association list with distinct keys (\<open>map_of\<close>,
    \<open>AList.update\<close>, \<open>AList.delete\<close>); the order of the list is the iteration order, about
    which nothing is assumed.
\<close>

section \<open>Results\<close>

text \<open>
  The ways a C++ computation of this code base stops without returning.
  \<open>CheckFailed\<close>: an \<open>ARROW_CHECK\<close> or \<open>ARROW_LOG(FATAL)\<close>, which aborts the process.
  \<open>InvalidIterator\<close>: an iterator is advanced after its element was erased.
  \<open>OutOfBounds\<close>: a read past the end of a string, vector or repeated field.
  \<open>NullDeref\<close>: a null pointer is dereferenced. \<open>DanglingRef\<close>: a reference into a
  destroyed object is used. \<open>SelfDeadlock\<close>: a thread locks the \<open>std::mutex\<close> it holds.
  \<open>LengthError\<close>: a container is asked for more than \<open>max_size()\<close> elements.
  \<open>BadTable\<close>: a flatbuffer is read as a table of another type. \<open>OutOfFuel\<close> belongs to the
  model: the bound it puts on a loop was too small, which is shown not to happen.
\<close>

datatype fault =
    CheckFailed string
  | InvalidIterator
  | OutOfBounds
  | NullDeref
  | DanglingRef
  | SelfDeadlock
  | LengthError
  | BadTable
  | OutOfFuel

type_synonym 'a res = "fault + 'a"

definition rbind :: "'a res \<Rightarrow> ('a \<Rightarrow> 'b res) \<Rightarrow> 'b res" where
  "rbind m f = (case m of Inl e \<Rightarrow> Inl e | Inr x \<Rightarrow> f x)"

definition check :: "bool \<Rightarrow> string \<Rightarrow> unit res" where
  "check b msg = (if b then Inr () else Inl (CheckFailed msg))"

named_theorems res_simps \<open>evaluation of results\<close>
named_theorems cast_simps \<open>casts of values in range\<close>

lemma rbind_Inl [simp, res_simps]: "rbind (Inl e) f = Inl e"
  by (simp add: rbind_def)

lemma rbind_Inr [simp, res_simps]: "rbind (Inr x) f = f x"
  by (simp add: rbind_def)

lemma rbind_eq_Inr: "rbind m f = Inr y \<longleftrightarrow> (\<exists>x. m = Inr x \<and> f x = Inr y)"
  by (cases m) simp_all

lemma rbind_InrE:
  assumes "rbind m f = Inr y"
  obtains x where "m = Inr x" and "f x = Inr y"
  using assms by (auto simp: rbind_eq_Inr)

lemma rbind_cong [fundef_cong]:
  "m = m' \<Longrightarrow> (\<And>x. m' = Inr x \<Longrightarrow> f x = f' x) \<Longrightarrow> rbind m f = rbind m' f'"
  by (cases m') auto

lemma rbind_assoc: "rbind (rbind m f) g = rbind m (\<lambda>x. rbind (f x) g)"
  by (cases m) simp_all

lemma check_eq_Inr [simp]: "check b msg = Inr u \<longleftrightarrow> b"
  by (simp add: check_def)

lemma check_True [simp, res_simps]: "check True msg = Inr ()"
  by (simp add: check_def)

lemma check_False [simp, res_simps]: "check False msg = Inl (CheckFailed msg)"
  by (simp add: check_def)

lemma rbind_check_eq_Inr: "rbind (check b msg) f = Inr y \<longleftrightarrow> b \<and> f () = Inr y"
  by (simp add: check_def)

text \<open>A list traversal that stops at the first fault.\<close>

fun rfold :: "('a \<Rightarrow> 's \<Rightarrow> 's res) \<Rightarrow> 'a list \<Rightarrow> 's \<Rightarrow> 's res" where
  "rfold f [] s = Inr s"
| "rfold f (x # xs) s = rbind (f x s) (rfold f xs)"

lemma rfold_append: "rfold f (xs @ ys) s = rbind (rfold f xs s) (rfold f ys)"
  by (induction xs arbitrary: s) (simp_all add: rbind_assoc cong: rbind_cong)

lemma rfold_invariant:
  assumes "rfold f xs s = Inr s'" and "P s"
    and "\<And>x t t'. x \<in> set xs \<Longrightarrow> P t \<Longrightarrow> f x t = Inr t' \<Longrightarrow> P t'"
  shows "P s'"
  using assms
proof (induction xs arbitrary: s)
  case (Cons x xs)
  from Cons.prems(1) obtain t where t: "f x s = Inr t" "rfold f xs t = Inr s'"
    by (auto elim: rbind_InrE)
  show ?case
  proof (rule Cons.IH [OF t(2)])
    show "P t" using Cons.prems(2,3) t(1) by auto
    show "\<And>y u u'. y \<in> set xs \<Longrightarrow> P u \<Longrightarrow> f y u = Inr u' \<Longrightarrow> P u'"
      using Cons.prems(3) by (meson list.set_intros(2))
  qed
qed simp

section \<open>Fixed-width integers\<close>

text \<open>
  \<open>static_cast\<close> and the implicit conversions of the source: the value modulo the width,
  read as two's complement for the signed types.
\<close>

definition int64_of :: "int \<Rightarrow> int" where
  "int64_of x = (x + 2 ^ 63) mod 2 ^ 64 - 2 ^ 63"

definition int32_of :: "int \<Rightarrow> int" where
  "int32_of x = (x + 2 ^ 31) mod 2 ^ 32 - 2 ^ 31"

definition uint64_of :: "int \<Rightarrow> nat" where
  "uint64_of x = nat (x mod 2 ^ 64)"

definition in_int64 :: "int \<Rightarrow> bool" where
  "in_int64 x \<longleftrightarrow> - (2 ^ 63) \<le> x \<and> x < 2 ^ 63"

definition in_int32 :: "int \<Rightarrow> bool" where
  "in_int32 x \<longleftrightarrow> - (2 ^ 31) \<le> x \<and> x < 2 ^ 31"

text \<open>
  Signed 64-bit addition and subtraction. Overflow is undefined in C++; the model takes the
  two's complement result that the supported compilers produce on x86-64.
\<close>

definition sadd64 :: "int \<Rightarrow> int \<Rightarrow> int" where
  "sadd64 a b = int64_of (a + b)"

definition ssub64 :: "int \<Rightarrow> int \<Rightarrow> int" where
  "ssub64 a b = int64_of (a - b)"

lemma int64_of_id [cast_simps]: "in_int64 x \<Longrightarrow> int64_of x = x"
  by (simp add: in_int64_def int64_of_def)

lemma int64_of_small [cast_simps]: "- (2 ^ 63) \<le> x \<Longrightarrow> x < 2 ^ 63 \<Longrightarrow> int64_of x = x"
  by (simp add: int64_of_def)

lemma int32_of_small [cast_simps]: "- (2 ^ 31) \<le> x \<Longrightarrow> x < 2 ^ 31 \<Longrightarrow> int32_of x = x"
  by (simp add: int32_of_def)

lemma uint64_of_small [cast_simps]: "0 \<le> x \<Longrightarrow> x < 2 ^ 64 \<Longrightarrow> uint64_of x = nat x"
  by (simp add: uint64_of_def)

lemma uint64_of_int [cast_simps]: "n < 2 ^ 64 \<Longrightarrow> uint64_of (int n) = n"
  by (simp add: uint64_of_def nat_mod_distrib nat_power_eq)

lemma in_int64_int64_of: "in_int64 (int64_of x)"
  unfolding in_int64_def int64_of_def
  using pos_mod_sign [of "2 ^ 64" "x + 2 ^ 63"] pos_mod_bound [of "2 ^ 64" "x + 2 ^ 63"]
  by auto

lemma int64_of_uint64_of: "int64_of (int (uint64_of x)) = int64_of x"
  by (simp add: int64_of_def uint64_of_def mod_simps)

lemma int64_uint64_roundtrip: "in_int64 x \<Longrightarrow> int64_of (int (uint64_of x)) = x"
  by (simp add: int64_of_uint64_of int64_of_id)

lemma sadd64_id [cast_simps]: "in_int64 (a + b) \<Longrightarrow> sadd64 a b = a + b"
  by (simp add: sadd64_def int64_of_id)

lemma ssub64_id [cast_simps]: "in_int64 (a - b) \<Longrightarrow> ssub64 a b = a - b"
  by (simp add: ssub64_def int64_of_id)

text \<open>Integer division of C++ truncates towards zero.\<close>

definition cdiv :: "int \<Rightarrow> int \<Rightarrow> int" where
  "cdiv a b = sgn a * sgn b * (\<bar>a\<bar> div \<bar>b\<bar>)"

lemma cdiv_nonneg [cast_simps]: "0 \<le> a \<Longrightarrow> 0 < b \<Longrightarrow> cdiv a b = a div b"
  by (cases "a = 0") (simp_all add: cdiv_def)

text \<open>Decimal output of \<open>operator<<\<close>.\<close>

fun nat_string :: "nat \<Rightarrow> string" where
  "nat_string n = (if n < 10 then [''0123456789'' ! n]
                   else nat_string (n div 10) @ [''0123456789'' ! (n mod 10)])"

declare nat_string.simps [simp del]

definition int_string :: "int \<Rightarrow> string" where
  "int_string x = (if x < 0 then CHR ''-'' # nat_string (nat (- x)) else nat_string (nat x))"

section \<open>Bytes\<close>

type_synonym byte = "8 word"

text \<open>The \<open>n\<close> low bytes of an integer, least significant first, and their value.\<close>

fun le_bytes :: "nat \<Rightarrow> int \<Rightarrow> byte list" where
  "le_bytes 0 x = []"
| "le_bytes (Suc n) x = word_of_int x # le_bytes n (x div 256)"

fun le_value :: "byte list \<Rightarrow> int" where
  "le_value [] = 0"
| "le_value (b # bs) = uint b + 256 * le_value bs"

lemma length_le_bytes [simp]: "length (le_bytes n x) = n"
  by (induction n arbitrary: x) auto

lemma le_value_le_bytes: "le_value (le_bytes n x) = x mod 256 ^ n"
proof (induction n arbitrary: x)
  case (Suc n)
  have "uint (word_of_int x :: byte) = x mod 256"
    by (simp add: uint_word_of_int)
  moreover have "x mod (256 * 256 ^ n) = x mod 256 + 256 * (x div 256 mod 256 ^ n)"
    using zmod_zmult2_eq [of "256 ^ n" x 256] by simp
  ultimately show ?case using Suc.IH by simp
qed simp

lemma le_value_bounds: "0 \<le> le_value bs \<and> le_value bs < 256 ^ length bs"
proof (induction bs)
  case (Cons b bs)
  have "0 \<le> uint b" "uint b < 256"
    using uint_bounded [of b] by simp_all
  with Cons.IH show ?case by simp
qed simp

text \<open>The eight bytes of an \<open>int64_t\<close> on a little-endian machine, and back.\<close>

definition int64_bytes :: "int \<Rightarrow> byte list" where
  "int64_bytes x = le_bytes 8 x"

definition bytes_int64 :: "byte list \<Rightarrow> int" where
  "bytes_int64 bs = int64_of (le_value bs)"

lemma length_int64_bytes [simp]: "length (int64_bytes x) = 8"
  by (simp add: int64_bytes_def)

lemma bytes_int64_bytes: "in_int64 x \<Longrightarrow> bytes_int64 (int64_bytes x) = x"
proof -
  assume x: "in_int64 x"
  have "bytes_int64 (int64_bytes x) = int64_of (x mod 2 ^ 64)"
    by (simp add: bytes_int64_def int64_bytes_def le_value_le_bytes)
  also have "\<dots> = int64_of x"
    by (simp add: int64_of_def mod_simps)
  finally show ?thesis using x by (simp add: int64_of_id)
qed

section \<open>Association lists\<close>

text \<open>
  \<open>m[k] = v\<close> on a present key, \<open>find\<close>, \<open>erase\<close>. \<open>alist_ok\<close> is the well-formedness every
  map of the model keeps.
\<close>

definition alist_ok :: "('k \<times> 'v) list \<Rightarrow> bool" where
  "alist_ok al \<longleftrightarrow> distinct (map fst al)"

lemma alist_ok_Nil [simp]: "alist_ok []"
  by (simp add: alist_ok_def)

lemma alist_ok_update [simp]: "alist_ok al \<Longrightarrow> alist_ok (AList.update k v al)"
  by (simp add: alist_ok_def distinct_update)

lemma alist_ok_delete [simp]: "alist_ok al \<Longrightarrow> alist_ok (AList.delete k al)"
  by (simp add: alist_ok_def distinct_delete)

lemma map_of_update [simp]: "map_of (AList.update k v al) = (map_of al)(k \<mapsto> v)"
  by (rule update_conv')

lemma map_of_delete [simp]: "map_of (AList.delete k al) = (map_of al)(k := None)"
  by (rule delete_conv')

lemma alist_mem_iff: "alist_ok al \<Longrightarrow> (k, v) \<in> set al \<longleftrightarrow> map_of al k = Some v"
  by (simp add: alist_ok_def)

lemma keys_update [simp]: "fst ` set (AList.update k v al) = insert k (fst ` set al)"
  by (simp add: dom_map_of_conv_image_fst [symmetric])

lemma keys_delete [simp]: "fst ` set (AList.delete k al) = fst ` set al - {k}"
  by (auto simp: dom_map_of_conv_image_fst [symmetric])

section \<open>Lists\<close>

lemma remove1_append_mid: "x \<notin> set xs \<Longrightarrow> remove1 x (xs @ x # ys) = xs @ ys"
  by (simp add: remove1_append)

lemma sum_list_remove1:
  "x \<in> set xs \<Longrightarrow> sum_list (map f (remove1 x xs)) = sum_list (map f xs) - (f x :: int)"
  by (induction xs) auto

lemma dropWhile_takeWhile_split:
  "dropWhile P xs = y # ys \<Longrightarrow> xs = takeWhile P xs @ y # ys \<and> \<not> P y"
  by (metis hd_dropWhile list.distinct(1) list.sel(1) takeWhile_dropWhile_id)

end
