(* ===== verification/Common.thy ===== *)
theory Common
  imports Prelude
begin

text \<open>
  The data types every part of Plasma shares: \<open>arrow::Status\<close> with the Plasma error detail
  (src/arrow/cpp/src/plasma/common.cc), \<open>UniqueID\<close> with its textual form and its hash
  (common.cc), the object table entry (common.h), and \<open>PlasmaObject\<close>, \<open>Client\<close> and the
  signal-pipe helpers (plasma.h, plasma.cc, store.cc).
\<close>

unbundle bit_operations_syntax

section \<open>Status\<close>

datatype StatusCode =
    SC_OK | SC_OutOfMemory | SC_KeyError | SC_TypeError | SC_Invalid | SC_IOError
  | SC_CapacityError | SC_IndexError | SC_Cancelled | SC_UnknownError | SC_NotImplemented
  | SC_SerializationError | SC_RError | SC_CodeGenError | SC_ExpressionValidationError
  | SC_ExecutionError | SC_AlreadyExists

datatype PlasmaErrorCode =
    PlasmaObjectExists | PlasmaObjectNotFound | PlasmaStoreFull | PlasmaObjectAlreadySealed

text \<open>A status detail is one of Plasma's or one of another subsystem (with its type id).\<close>

datatype StatusDetail = PlasmaStatusDetail PlasmaErrorCode | OtherStatusDetail string

record Status =
  st_code :: StatusCode
  st_msg :: string
  st_detail :: "StatusDetail option"

definition Status_OK :: Status where
  "Status_OK = \<lparr>st_code = SC_OK, st_msg = '''', st_detail = None\<rparr>"

definition mk_status :: "StatusCode \<Rightarrow> string \<Rightarrow> Status" where
  "mk_status c m = \<lparr>st_code = c, st_msg = m, st_detail = None\<rparr>"

definition st_ok :: "Status \<Rightarrow> bool" where
  "st_ok s \<longleftrightarrow> st_code s = SC_OK"

definition IsIOError :: "Status \<Rightarrow> bool" where
  "IsIOError s \<longleftrightarrow> st_code s = SC_IOError"

fun PlasmaStatusDetail_ToString :: "PlasmaErrorCode \<Rightarrow> string" where
  "PlasmaStatusDetail_ToString PlasmaObjectExists = ''Plasma object is exists''"
| "PlasmaStatusDetail_ToString PlasmaObjectNotFound = ''Plasma object is not found''"
| "PlasmaStatusDetail_ToString PlasmaStoreFull = ''Plasma store is full''"
| "PlasmaStatusDetail_ToString PlasmaObjectAlreadySealed = ''Plasma object is already sealed''"

definition IsPlasmaStatus :: "Status \<Rightarrow> PlasmaErrorCode \<Rightarrow> bool" where
  "IsPlasmaStatus s code =
     (if st_ok s then False
      else (case st_detail s of
              Some (PlasmaStatusDetail c) \<Rightarrow> c = code
            | _ \<Rightarrow> False))"

fun MakePlasmaError :: "PlasmaErrorCode \<Rightarrow> string \<Rightarrow> Status" where
  "MakePlasmaError code message =
     \<lparr>st_code = (case code of
                   PlasmaObjectExists \<Rightarrow> SC_AlreadyExists
                 | PlasmaObjectNotFound \<Rightarrow> SC_KeyError
                 | PlasmaStoreFull \<Rightarrow> SC_CapacityError
                 | PlasmaObjectAlreadySealed \<Rightarrow> SC_TypeError),
      st_msg = message,
      st_detail = Some (PlasmaStatusDetail code)\<rparr>"

definition IsPlasmaObjectExists :: "Status \<Rightarrow> bool" where
  "IsPlasmaObjectExists s = IsPlasmaStatus s PlasmaObjectExists"

definition IsPlasmaObjectNotFound :: "Status \<Rightarrow> bool" where
  "IsPlasmaObjectNotFound s = IsPlasmaStatus s PlasmaObjectNotFound"

definition IsPlasmaObjectAlreadySealed :: "Status \<Rightarrow> bool" where
  "IsPlasmaObjectAlreadySealed s = IsPlasmaStatus s PlasmaObjectAlreadySealed"

definition IsPlasmaStoreFull :: "Status \<Rightarrow> bool" where
  "IsPlasmaStoreFull s = IsPlasmaStatus s PlasmaStoreFull"

section \<open>Unique identifiers\<close>

definition kUniqueIDSize :: nat where
  "kUniqueIDSize = 20"

datatype UniqueID = UniqueID (id_bytes: "byte list")

definition id_ok :: "UniqueID \<Rightarrow> bool" where
  "id_ok i \<longleftrightarrow> length (id_bytes i) = kUniqueIDSize"

text \<open>
  \<open>memcpy\<close> of twenty bytes from \<open>binary.data()\<close>. A \<open>std::string\<close> of nineteen bytes still has
  its terminating zero to read; anything shorter is read past its end.
\<close>

definition from_binary :: "byte list \<Rightarrow> UniqueID res" where
  "from_binary binary =
     (if kUniqueIDSize \<le> length (binary @ [0])
      then Inr (UniqueID (take kUniqueIDSize (binary @ [0])))
      else Inl OutOfBounds)"

definition id_binary :: "UniqueID \<Rightarrow> byte list" where
  "id_binary i = take kUniqueIDSize (id_bytes i)"

definition hex_char :: "nat \<Rightarrow> char" where
  "hex_char n = ''0123456789abcdef'' ! n"

definition id_hex :: "UniqueID \<Rightarrow> string" where
  "id_hex i = concat (map (\<lambda>b. [hex_char (unat (drop_bit 4 b)), hex_char (unat (b AND 15))])
                          (take kUniqueIDSize (id_bytes i)))"

definition id_eq :: "UniqueID \<Rightarrow> UniqueID \<Rightarrow> bool" where
  "id_eq a b \<longleftrightarrow> take kUniqueIDSize (id_bytes a) = take kUniqueIDSize (id_bytes b)"

text \<open>\<open>MurmurHash64A\<close>: eight-byte blocks, then the tail of the switch with its fall-through.\<close>

definition murmur_m :: "64 word" where
  "murmur_m = 0xc6a4a7935bd1e995"

definition safe_load64 :: "byte list \<Rightarrow> 64 word" where
  "safe_load64 bs = word_of_int (le_value (take 8 bs))"

fun murmur_blocks :: "nat \<Rightarrow> byte list \<Rightarrow> 64 word \<Rightarrow> 64 word \<times> byte list" where
  "murmur_blocks 0 data h = (h, data)"
| "murmur_blocks (Suc n) data h =
     (let k = safe_load64 data * murmur_m;
          k = (k XOR drop_bit 47 k) * murmur_m;
          h = (h XOR k) * murmur_m
      in murmur_blocks n (drop 8 data) h)"

definition murmur_tail :: "nat \<Rightarrow> byte list \<Rightarrow> 64 word \<Rightarrow> 64 word" where
  "murmur_tail n d h =
     (let h = (if 7 \<le> n then h XOR push_bit 48 (ucast (d ! 6)) else h);
          h = (if 6 \<le> n then h XOR push_bit 40 (ucast (d ! 5)) else h);
          h = (if 5 \<le> n then h XOR push_bit 32 (ucast (d ! 4)) else h);
          h = (if 4 \<le> n then h XOR push_bit 24 (ucast (d ! 3)) else h);
          h = (if 3 \<le> n then h XOR push_bit 16 (ucast (d ! 2)) else h);
          h = (if 2 \<le> n then h XOR push_bit 8 (ucast (d ! 1)) else h)
      in if 1 \<le> n then (h XOR ucast (d ! 0)) * murmur_m else h)"

definition MurmurHash64A :: "byte list \<Rightarrow> nat \<Rightarrow> 64 word \<Rightarrow> 64 word" where
  "MurmurHash64A key len seed =
     (let h = seed XOR (of_nat len * murmur_m);
          (h, data2) = murmur_blocks (len div 8) key h;
          h = murmur_tail (len mod 8) data2 h;
          h = h XOR drop_bit 47 h;
          h = h * murmur_m
      in h XOR drop_bit 47 h)"

definition id_hash :: "UniqueID \<Rightarrow> 64 word" where
  "id_hash i = MurmurHash64A (id_bytes i) kUniqueIDSize 0"

section \<open>Objects\<close>

datatype ObjectState = PLASMA_CREATED | PLASMA_SEALED | PLASMA_EVICTED

text \<open>
  A pointer is an address (\<open>nat\<close>); 0 is the null pointer. \<open>e_digest\<close> is the empty list until
  \<open>SealObjects\<close> writes it: the constructor leaves the array uninitialised.
\<close>

record ObjectTableEntry =
  e_fd :: int
  e_device_num :: int
  e_map_size :: int
  e_offset :: int
  e_pointer :: nat
  e_data_size :: int
  e_metadata_size :: int
  e_ref_count :: int
  e_create_time :: int
  e_construct_duration :: int
  e_state :: ObjectState
  e_digest :: "byte list"

definition new_ObjectTableEntry :: ObjectTableEntry where
  "new_ObjectTableEntry =
     \<lparr>e_fd = 0, e_device_num = 0, e_map_size = 0, e_offset = 0, e_pointer = 0, e_data_size = 0,
      e_metadata_size = 0, e_ref_count = 0, e_create_time = 0, e_construct_duration = 0,
      e_state = PLASMA_CREATED, e_digest = []\<rparr>"

type_synonym ObjectTable = "(UniqueID \<times> ObjectTableEntry) list"

definition GetObjectTableEntry :: "ObjectTable \<Rightarrow> UniqueID \<Rightarrow> ObjectTableEntry option" where
  "GetObjectTableEntry objects object_id = map_of objects object_id"

record PlasmaObject =
  o_store_fd :: int
  o_data_offset :: int
  o_metadata_offset :: int
  o_data_size :: int
  o_metadata_size :: int
  o_device_num :: int

definition zero_PlasmaObject :: PlasmaObject where
  "zero_PlasmaObject = \<lparr>o_store_fd = 0, o_data_offset = 0, o_metadata_offset = 0,
     o_data_size = 0, o_metadata_size = 0, o_device_num = 0\<rparr>"

definition PlasmaObject_eq :: "PlasmaObject \<Rightarrow> PlasmaObject \<Rightarrow> bool" where
  "PlasmaObject_eq a b \<longleftrightarrow>
     o_store_fd a = o_store_fd b \<and> o_data_offset a = o_data_offset b \<and>
     o_metadata_offset a = o_metadata_offset b \<and> o_data_size a = o_data_size b \<and>
     o_metadata_size a = o_metadata_size b \<and> o_device_num a = o_device_num b"

record Client =
  c_fd :: int
  c_object_ids :: "UniqueID list"
  c_used_fds :: "int list"
  c_notification_fd :: int
  c_name :: string

definition new_Client :: "int \<Rightarrow> Client" where
  "new_Client fd = \<lparr>c_fd = fd, c_object_ids = [], c_used_fds = [], c_notification_fd = -1,
     c_name = ''anonymous_client''\<rparr>"

datatype ObjectStatus = OBJECT_NOT_FOUND | OBJECT_FOUND

definition kBlockSize :: nat where
  "kBlockSize = 64"

definition kDigestSize :: nat where
  "kDigestSize = 8"

section \<open>Failed writes to a client\<close>

datatype errno = EAGAIN | EWOULDBLOCK | EINTR | EPIPE | EBADF | ECONNRESET | EMSGSIZE | EOTHER int

definition errno_retry :: "errno \<Rightarrow> bool" where
  "errno_retry e \<longleftrightarrow> e = EAGAIN \<or> e = EWOULDBLOCK \<or> e = EINTR"

definition errno_hangup :: "errno \<Rightarrow> bool" where
  "errno_hangup e \<longleftrightarrow> e = EPIPE \<or> e = EBADF \<or> e = ECONNRESET"

text \<open>\<open>WarnIfSigpipe\<close> aborts on every error that is not a hang-up of the client.\<close>

definition WarnIfSigpipe :: "int \<Rightarrow> errno \<Rightarrow> errno option res" where
  "WarnIfSigpipe status e =
     (if 0 \<le> status then Inr None
      else if errno_hangup e then Inr (Some e)
      else Inl (CheckFailed ''Failed to write message to client''))"

text \<open>\<open>HANDLE_SIGPIPE\<close>: \<open>None\<close> to go on, \<open>Some s\<close> when the enclosing function returns \<open>s\<close>.\<close>

definition HANDLE_SIGPIPE :: "Status \<Rightarrow> errno \<Rightarrow> Status option" where
  "HANDLE_SIGPIPE s e = (if st_ok s then None else if errno_hangup e then None else Some s)"

section \<open>Properties\<close>

lemma st_ok_OK [simp]: "st_ok Status_OK"
  by (simp add: st_ok_def Status_OK_def)

lemma MakePlasmaError_not_ok [simp]: "\<not> st_ok (MakePlasmaError c m)"
  by (cases c) (simp_all add: st_ok_def)

lemma IsPlasmaStatus_Make [simp]: "IsPlasmaStatus (MakePlasmaError c m) c' \<longleftrightarrow> c = c'"
  by (cases c) (auto simp: IsPlasmaStatus_def st_ok_def)

lemma IsPlasmaStatus_detail:
  "IsPlasmaStatus s c \<Longrightarrow> st_detail s = Some (PlasmaStatusDetail c)"
  by (auto simp: IsPlasmaStatus_def split: if_splits option.splits StatusDetail.splits)

lemma length_id_binary: "id_ok i \<Longrightarrow> length (id_binary i) = kUniqueIDSize"
  by (simp add: id_binary_def id_ok_def)

lemma id_binary_ok: "id_ok i \<Longrightarrow> id_binary i = id_bytes i"
  by (simp add: id_binary_def id_ok_def)

lemma from_binary_id_binary [simp]: "id_ok i \<Longrightarrow> from_binary (id_binary i) = Inr i"
  by (cases i) (simp add: from_binary_def id_binary_def id_ok_def)

lemma from_binary_ok: "from_binary bs = Inr i \<Longrightarrow> id_ok i"
  by (auto simp: from_binary_def id_ok_def kUniqueIDSize_def split: if_splits)

lemma id_eq_iff: "id_ok a \<Longrightarrow> id_ok b \<Longrightarrow> id_eq a b \<longleftrightarrow> a = b"
  by (cases a; cases b) (simp add: id_eq_def id_ok_def)

lemma murmur_blocks_rest: "snd (murmur_blocks n d h) = drop (8 * n) d"
  by (induction n arbitrary: d h) (simp_all add: Let_def add.commute)

lemma murmur_blocks_take:
  "8 * n \<le> m \<Longrightarrow> fst (murmur_blocks n (take m d) h) = fst (murmur_blocks n d h)"
proof (induction n arbitrary: m d h)
  case (Suc n)
  then have "8 * n \<le> m - 8" and "8 \<le> m" by simp_all
  then show ?case
    using Suc.IH [of "m - 8" "drop 8 d"]
    by (simp add: Let_def safe_load64_def drop_take min_def)
qed simp

lemma murmur_tail_take: "n < 8 \<Longrightarrow> n \<le> m \<Longrightarrow> murmur_tail n (take m d) h = murmur_tail n d h"
  unfolding murmur_tail_def by simp

text \<open>The hash looks at the first \<open>len\<close> bytes only, so equal identifiers have equal hashes.\<close>

lemma MurmurHash64A_take: "MurmurHash64A (take len key) len seed = MurmurHash64A key len seed"
proof -
  obtain h1 d1 where 1: "murmur_blocks (len div 8) (take len key) (seed XOR of_nat len * murmur_m) = (h1, d1)"
    by fastforce
  obtain h2 d2 where 2: "murmur_blocks (len div 8) key (seed XOR of_nat len * murmur_m) = (h2, d2)"
    by fastforce
  have h: "h1 = h2"
    using murmur_blocks_take [of "len div 8" len key] 1 2 by (metis fst_conv times_div_less_eq_dividend)
  have d1: "d1 = take (len mod 8) (drop (8 * (len div 8)) key)"
    using murmur_blocks_rest [of "len div 8" "take len key"] 1
    by (metis drop_take minus_mult_div_eq_mod snd_conv)
  have d2: "d2 = drop (8 * (len div 8)) key"
    using murmur_blocks_rest [of "len div 8" key] 2 by (metis snd_conv)
  have "murmur_tail (len mod 8) d1 h1 = murmur_tail (len mod 8) d2 h2"
    unfolding d1 d2 h by (rule murmur_tail_take) simp_all
  then show ?thesis by (simp add: MurmurHash64A_def Let_def 1 2)
qed

lemma id_hash_respects_eq: "id_eq a b \<Longrightarrow> id_hash a = id_hash b"
  unfolding id_hash_def id_eq_def by (metis MurmurHash64A_take)

end
