(* ===== verification/Allocator.thy ===== *)
theory Allocator
  imports Common "HOL-Library.Multiset"
begin

text \<open>
  The shared-memory allocator (src/arrow/cpp/src/plasma/plasma_allocator.cc and malloc.cc):
  one memory-mapped file of \<open>footprint_limit\<close> bytes and a multimap from region size to region
  offset that holds the free regions. \<open>FindRegion\<close> is a best-fit search, \<open>Memalign\<close> carves a
  block, \<open>Free\<close> gives it back and merges it with its free neighbours.

  \<open>Free\<close> erases an element of the multimap and then increments the erased iterator. The C++
  standard leaves that undefined; \<open>erase_sem\<close> selects whether the model reports it
  (\<open>Std_Erase\<close>) or goes on with the old successor (\<open>Node_Survives\<close>), which is what the loop
  relies on.

  The lemmas show that the free regions and the live blocks partition the pool and that
  every operation keeps this; that \<open>Memalign\<close> is a best fit; when \<open>Free\<close> is undefined; and
  what the 32-bit cast of the region size breaks.
\<close>

section \<open>The multimap\<close>

type_synonym regions = "(nat \<times> nat) list"

text \<open>
  \<open>std::multimap\<close> as the list of its elements in key order. \<open>emplace\<close> inserts after the
  elements with an equal key, \<open>lower_bound\<close> is the first element whose key is not less.
\<close>

definition mm_emplace :: "nat \<Rightarrow> nat \<Rightarrow> regions \<Rightarrow> regions" where
  "mm_emplace k v m =
     takeWhile (\<lambda>r. fst r \<le> k) m @ (k, v) # dropWhile (\<lambda>r. fst r \<le> k) m"

definition mm_lower_bound :: "nat \<Rightarrow> regions \<Rightarrow> (nat \<times> nat) option" where
  "mm_lower_bound k m =
     (case dropWhile (\<lambda>r. fst r < k) m of [] \<Rightarrow> None | r # _ \<Rightarrow> Some r)"

section \<open>The allocator\<close>

record MmapRecord =
  mr_fd :: int
  mr_size :: int

record PlasmaAllocator =
  footprint_limit :: int
  allocated :: int
  base_pointer :: nat
  available_regions :: regions
  pa_fd :: int
  mmap_records :: "(nat \<times> MmapRecord) list"

definition initial_PlasmaAllocator :: PlasmaAllocator where
  "initial_PlasmaAllocator = \<lparr>footprint_limit = 0, allocated = 0, base_pointer = 0,
     available_regions = [], pa_fd = 0, mmap_records = []\<rparr>"

definition SetFootprintLimit :: "nat \<Rightarrow> PlasmaAllocator \<Rightarrow> PlasmaAllocator" where
  "SetFootprintLimit bytes a = a\<lparr>footprint_limit := int64_of (int bytes)\<rparr>"

definition GetFootprintLimit :: "PlasmaAllocator \<Rightarrow> int" where
  "GetFootprintLimit a = footprint_limit a"

definition Allocated :: "PlasmaAllocator \<Rightarrow> int" where
  "Allocated a = allocated a"

definition Init :: "int \<Rightarrow> nat \<Rightarrow> PlasmaAllocator \<Rightarrow> PlasmaAllocator res" where
  "Init fd base a =
     rbind (check (base \<noteq> 0) ''base_pointer_'') (\<lambda>_.
     Inr (a\<lparr>pa_fd := fd, base_pointer := base,
            mmap_records := AList.update base \<lparr>mr_fd = fd, mr_size = footprint_limit a\<rparr>
                              (mmap_records a),
            available_regions :=
              mm_emplace (uint64_of (footprint_limit a)) 0 (available_regions a)\<rparr>))"

definition FindRegion :: "nat \<Rightarrow> PlasmaAllocator \<Rightarrow> int \<times> PlasmaAllocator" where
  "FindRegion bytes a =
     (case mm_lower_bound bytes (available_regions a) of
        None \<Rightarrow> (-1, a)
      | Some (k, v) \<Rightarrow>
          let off = int64_of (int v);
              m = (if bytes < k
                   then mm_emplace (k - bytes) (uint64_of (off + int bytes)) (available_regions a)
                   else available_regions a)
          in (off, a\<lparr>available_regions := remove1 (k, v) m\<rparr>))"

text \<open>The out parameters \<open>fd\<close>, \<open>map_size\<close> and \<open>offset\<close> of \<open>Memalign\<close>.\<close>

record AllocOut =
  out_fd :: int
  out_map_size :: int
  out_offset :: int

definition Memalign ::
    "nat \<Rightarrow> nat \<Rightarrow> AllocOut \<Rightarrow> PlasmaAllocator \<Rightarrow> nat \<times> AllocOut \<times> PlasmaAllocator" where
  "Memalign alignment bytes out a =
     (if footprint_limit a < sadd64 (allocated a) (int64_of (int bytes)) then (0, out, a)
      else case FindRegion bytes a of
        (off, a) \<Rightarrow>
          if off = -1 then (0, out\<lparr>out_offset := off\<rparr>, a)
          else (base_pointer a,
                \<lparr>out_fd = pa_fd a, out_map_size = int64_of (int bytes), out_offset = off\<rparr>,
                a\<lparr>allocated := int64_of (allocated a + int bytes)\<rparr>))"

datatype erase_sem = Std_Erase | Node_Survives

text \<open>
  The loop of \<open>Free\<close>. \<open>kept\<close> holds the elements already passed; the result is what is left
  of the multimap, the offset and the size of the merged region.
\<close>

fun Free_loop ::
    "erase_sem \<Rightarrow> int \<Rightarrow> int \<Rightarrow> regions \<Rightarrow> regions \<Rightarrow> int \<Rightarrow> nat \<Rightarrow> (regions \<times> int \<times> nat) res" where
  "Free_loop sem b e [] kept off sz = Inr (kept, off, sz)"
| "Free_loop sem b e ((k, v) # rest) kept off sz =
     (let regOffset = int64_of (int v) in
      if regOffset = e
      then (case sem of
              Std_Erase \<Rightarrow> Inl InvalidIterator
            | Node_Survives \<Rightarrow>
                Free_loop sem b e rest kept off (uint64_of (int sz + int k)))
      else if sadd64 regOffset (int32_of (int k)) = b
      then (case sem of
              Std_Erase \<Rightarrow> Inl InvalidIterator
            | Node_Survives \<Rightarrow>
                Free_loop sem b e rest kept regOffset (uint64_of (int sz + int k)))
      else Free_loop sem b e rest (kept @ [(k, v)]) off sz)"

definition Free :: "erase_sem \<Rightarrow> nat \<Rightarrow> nat \<Rightarrow> PlasmaAllocator \<Rightarrow> PlasmaAllocator res" where
  "Free sem mem bytes a =
     (let b = int mem - int (base_pointer a);
          e = int64_of (b + int bytes)
      in rbind (Free_loop sem b e (available_regions a) [] b bytes) (\<lambda>(m, off, sz).
         Inr (a\<lparr>available_regions := mm_emplace sz (uint64_of off) m,
                allocated := int64_of (allocated a - int bytes)\<rparr>)))"

definition GetMallocMapinfo :: "nat \<Rightarrow> (nat \<times> MmapRecord) list \<Rightarrow> int \<times> int \<times> int" where
  "GetMallocMapinfo addr recs =
     (case find (\<lambda>(p, r). p \<le> addr \<and> int addr < int p + mr_size r) recs of
        Some (p, r) \<Rightarrow> (mr_fd r, mr_size r, int addr - int p)
      | None \<Rightarrow> (-1, 0, 0))"

definition GetMmapSize :: "int \<Rightarrow> (nat \<times> MmapRecord) list \<Rightarrow> int res" where
  "GetMmapSize fd recs =
     (case find (\<lambda>(p, r). mr_fd r = fd) recs of
        Some (p, r) \<Rightarrow> Inr (mr_size r)
      | None \<Rightarrow> Inl (CheckFailed ''failed to find entry in mmap_records''))"

section \<open>The pool as a set of bytes\<close>

text \<open>
  The bytes of a region given as (size, offset), and the two halves of the invariant: the
  free regions and the live blocks are disjoint and cover the pool exactly.
\<close>

definition span :: "nat \<times> nat \<Rightarrow> nat set" where
  "span r = {snd r ..< snd r + fst r}"

definition spans :: "regions \<Rightarrow> nat set" where
  "spans rs = (\<Union>r \<in> set rs. span r)"

definition tsize :: "regions \<Rightarrow> nat" where
  "tsize rs = sum_list (map fst rs)"

text \<open>
  \<open>pool_partition rs N\<close>: the regions cover \<open>[0, N)\<close> and their sizes add up to \<open>N\<close>; so no byte is
  in two of them (\<open>tight_nth_disjoint\<close>).
\<close>

definition pool_partition :: "regions \<Rightarrow> nat \<Rightarrow> bool" where
  "pool_partition rs N \<longleftrightarrow>
     spans rs = {0 ..< N} \<and> tsize rs = N \<and> (\<forall>r \<in> set rs. snd r + fst r \<le> N)"

text \<open>
  \<open>pool_inv a L\<close>: \<open>L\<close> lists the live blocks as (size, offset) pairs. Below two gigabytes the
  32-bit cast of \<open>Free\<close> is the identity, which the invariant asks for.
\<close>

definition pool_inv :: "PlasmaAllocator \<Rightarrow> regions \<Rightarrow> bool" where
  "pool_inv a L \<longleftrightarrow>
     0 \<le> footprint_limit a \<and> footprint_limit a < 2 ^ 31 \<and> base_pointer a \<noteq> 0 \<and>
     sorted (map fst (available_regions a)) \<and>
     pool_partition (L @ available_regions a) (nat (footprint_limit a)) \<and>
     allocated a = int (tsize L)"

section \<open>Regions\<close>

lemma span_simp [simp]: "span (k, v) = {v ..< v + k}"
  by (simp add: span_def)

lemma spans_simps [simp]:
  "spans [] = {}" "spans (r # rs) = span r \<union> spans rs" "spans (xs @ ys) = spans xs \<union> spans ys"
  by (auto simp: spans_def)

lemma tsize_simps [simp]:
  "tsize [] = 0" "tsize (r # rs) = fst r + tsize rs" "tsize (xs @ ys) = tsize xs + tsize ys"
  by (simp_all add: tsize_def)

lemma finite_spans [simp]: "finite (spans rs)"
  by (simp add: spans_def span_def)

lemma spans_mset: "mset xs = mset ys \<Longrightarrow> spans xs = spans ys"
  by (metis set_mset_mset spans_def)

lemma tsize_mset: "mset xs = mset ys \<Longrightarrow> tsize xs = tsize ys"
  unfolding tsize_def by (metis mset_map sum_mset_sum_list)

lemma pool_partition_mset: "mset xs = mset ys \<Longrightarrow> pool_partition xs N \<longleftrightarrow> pool_partition ys N"
  unfolding pool_partition_def by (metis set_mset_mset spans_mset tsize_mset)

lemma card_spans_le: "card (spans rs) \<le> tsize rs"
proof (induction rs)
  case (Cons r rs)
  have "card (span r \<union> spans rs) \<le> card (span r) + card (spans rs)"
    by (rule card_Un_le)
  also have "\<dots> \<le> fst r + tsize rs"
    using Cons.IH by (simp add: span_def)
  finally show ?case by simp
qed simp

text \<open>No overlap: the sizes add up to the number of bytes covered.\<close>

definition tight :: "regions \<Rightarrow> bool" where
  "tight rs \<longleftrightarrow> card (spans rs) = tsize rs"

lemma tight_Cons: "tight (r # rs) \<longleftrightarrow> span r \<inter> spans rs = {} \<and> tight rs"
proof -
  have c: "card (span r) = fst r" and f: "finite (span r)" by (simp_all add: span_def)
  have u: "card (span r \<union> spans rs) + card (span r \<inter> spans rs) = card (span r) + card (spans rs)"
    using card_Un_Int [of "span r" "spans rs"] f by simp
  have z: "card (span r \<inter> spans rs) = 0 \<longleftrightarrow> span r \<inter> spans rs = {}"
    using f by simp
  show ?thesis
    unfolding tight_def z [symmetric] spans_simps tsize_simps
    using u c card_spans_le [of rs] by linarith
qed

lemma tight_mset: "mset xs = mset ys \<Longrightarrow> tight xs \<longleftrightarrow> tight ys"
  unfolding tight_def by (metis spans_mset tsize_mset)

lemma pool_partition_tight: "pool_partition rs N \<Longrightarrow> tight rs"
  by (simp add: pool_partition_def tight_def)

lemma tight_nth_disjoint:
  "tight rs \<Longrightarrow> i < j \<Longrightarrow> j < length rs \<Longrightarrow> span (rs ! i) \<inter> span (rs ! j) = {}"
proof (induction rs arbitrary: i j)
  case (Cons r rs)
  show ?case
  proof (cases i)
    case 0
    with Cons.prems have "rs ! (j - 1) \<in> set rs" by (auto intro!: nth_mem)
    then have "span (rs ! (j - 1)) \<subseteq> spans rs" by (auto simp: spans_def)
    with Cons.prems 0 show ?thesis by (auto simp: tight_Cons nth_Cons')
  next
    case (Suc i')
    with Cons.prems show ?thesis
      using Cons.IH [of i' "j - 1"] by (simp add: tight_Cons nth_Cons')
  qed
qed simp

section \<open>The multimap operations\<close>

lemma mset_mm_emplace [simp]: "mset (mm_emplace k v m) = add_mset (k, v) (mset m)"
proof -
  have "mset m = mset (takeWhile (\<lambda>r. fst r \<le> k) m) + mset (dropWhile (\<lambda>r. fst r \<le> k) m)"
    by (metis mset_append takeWhile_dropWhile_id)
  then show ?thesis by (simp add: mm_emplace_def)
qed

lemma set_mm_emplace [simp]: "set (mm_emplace k v m) = insert (k, v) (set m)"
  by (metis mset_mm_emplace set_mset_add_mset_insert set_mset_mset)

lemma spans_mm_emplace [simp]: "spans (mm_emplace k v m) = span (k, v) \<union> spans m"
  by (simp add: spans_def)

lemma tsize_mm_emplace [simp]: "tsize (mm_emplace k v m) = k + tsize m"
  using tsize_mset [of "mm_emplace k v m" "(k, v) # m"] by simp

lemma sorted_mm_emplace:
  assumes "sorted (map fst m)"
  shows "sorted (map fst (mm_emplace k v m))"
  using assms
proof (induction m)
  case (Cons r m)
  show ?case
  proof (cases "fst r \<le> k")
    case True
    then have "mm_emplace k v (r # m) = r # mm_emplace k v m" by (simp add: mm_emplace_def)
    with True Cons show ?thesis by auto
  next
    case False
    with Cons.prems show ?thesis by (auto simp: mm_emplace_def)
  qed
qed (simp add: mm_emplace_def)

lemma mm_lower_bound_None: "mm_lower_bound n m = None \<longleftrightarrow> (\<forall>r \<in> set m. fst r < n)"
proof -
  have "mm_lower_bound n m = None \<longleftrightarrow> dropWhile (\<lambda>r. fst r < n) m = []"
    by (simp add: mm_lower_bound_def list.case_eq_if)
  then show ?thesis by (simp only: dropWhile_eq_Nil_conv)
qed

lemma mm_lower_bound_SomeD:
  assumes "sorted (map fst m)" and "mm_lower_bound n m = Some r"
  shows "r \<in> set m" and "n \<le> fst r" and "\<And>r'. r' \<in> set m \<Longrightarrow> n \<le> fst r' \<Longrightarrow> fst r \<le> fst r'"
proof -
  obtain ys where d: "dropWhile (\<lambda>r. fst r < n) m = r # ys"
    using assms(2) by (auto simp: mm_lower_bound_def split: list.splits)
  from dropWhile_takeWhile_split [OF d]
  have m: "m = takeWhile (\<lambda>r. fst r < n) m @ r # ys" and n: "n \<le> fst r" by simp_all
  show "r \<in> set m" and "n \<le> fst r" using m n by (metis in_set_conv_decomp, simp)
  fix r' assume r': "r' \<in> set m" "n \<le> fst r'"
  with m have "r' \<in> set (r # ys)"
    by (metis Un_iff leD set_append set_takeWhileD)
  moreover have "sorted (map fst (r # ys))"
    using assms(1) by (subst (asm) m) (simp add: sorted_append)
  ultimately show "fst r \<le> fst r'" by auto
qed

lemma sorted_remove1_map: "sorted (map fst m) \<Longrightarrow> sorted (map fst (remove1 x m))"
  by (induction m) (auto dest: notin_set_remove1 in_set_remove1 [THEN iffD1, rotated] set_remove1_subset [THEN subsetD])

section \<open>Allocation\<close>

lemma pool_region_bound:
  assumes "pool_inv a L" and "(k, v) \<in> set (L @ available_regions a)"
  shows "v + k \<le> nat (footprint_limit a)" and "v + k < 2 ^ 31" and "int64_of (int v) = int v"
proof -
  show 1: "v + k \<le> nat (footprint_limit a)"
    using assms by (force simp: pool_inv_def pool_partition_def)
  moreover have "nat (footprint_limit a) < 2 ^ 31"
    using assms(1) by (simp add: pool_inv_def nat_less_iff)
  ultimately show "v + k < 2 ^ 31" by (rule le_less_trans)
  then show "int64_of (int v) = int v" by (simp add: int64_of_def)
qed

text \<open>Splitting a free region: \<open>(k, v)\<close> becomes the block \<open>(n, v)\<close> and the rest.\<close>

lemma carve_partition:
  assumes "pool_partition (L @ m) N" and "(k, v) \<in> set m" and "n \<le> k"
    and "mset m' = mset m - {#(k, v)#} + (if n < k then {#(k - n, v + n)#} else {#})"
  shows "pool_partition (((n, v) # L) @ m') N"
proof -
  let ?rest = "remove1 (k, v) m"
  let ?tail = "if n < k then [(k - n, v + n)] else []"
  have m: "mset (L @ m) = mset ((k, v) # L @ ?rest)"
    using assms(2) by simp
  have m': "mset (((n, v) # L) @ m') = mset ((n, v) # ?tail @ L @ ?rest)"
    using assms(4) by simp
  have p: "pool_partition ((k, v) # L @ ?rest) N"
    using assms(1) pool_partition_mset [OF m] by blast
  have "pool_partition ((n, v) # ?tail @ L @ ?rest) N"
    using p assms(3) unfolding pool_partition_def
    by (auto simp: atLeastLessThan_def lessThan_def atLeast_def)
  with pool_partition_mset [OF m'] show ?thesis by blast
qed

lemma FindRegion_pool:
  assumes "pool_inv a L" and "FindRegion n a = (off, a')" and "off \<noteq> -1"
  shows "0 \<le> off" and "pool_partition (((n, nat off) # L) @ available_regions a') (nat (footprint_limit a))"
    and "sorted (map fst (available_regions a'))"
    and "a' = a\<lparr>available_regions := available_regions a'\<rparr>"
    and "\<exists>k. (k, nat off) \<in> set (available_regions a) \<and> n \<le> k \<and>
             (\<forall>r \<in> set (available_regions a). n \<le> fst r \<longrightarrow> k \<le> fst r)"
proof -
  let ?m = "available_regions a" and ?N = "nat (footprint_limit a)"
  have inv: "pool_partition (L @ ?m) ?N" "sorted (map fst ?m)" "footprint_limit a < 2 ^ 31"
    using assms(1) by (simp_all add: pool_inv_def)
  obtain k v where kv: "mm_lower_bound n ?m = Some (k, v)"
    using assms(2,3) by (auto simp: FindRegion_def split: option.splits)
  note lb = mm_lower_bound_SomeD [OF inv(2) kv]
  have v31: "v + k < 2 ^ 31" and v: "int64_of (int v) = int v"
    using pool_region_bound [OF assms(1), of k v] lb(1) by simp_all
  have vn: "uint64_of (int v + int n) = v + n"
    using v31 lb(2) by (simp add: uint64_of_def nat_mod_distrib nat_add_distrib)
  let ?m' = "if n < k then mm_emplace (k - n) (v + n) ?m else ?m"
  have a': "a' = a\<lparr>available_regions := remove1 (k, v) ?m'\<rparr>" and off: "off = int v"
    using assms(2) kv by (auto simp: FindRegion_def v vn Let_def)
  show "0 \<le> off" and "a' = a\<lparr>available_regions := available_regions a'\<rparr>"
    using off a' by simp_all
  show "\<exists>k. (k, nat off) \<in> set ?m \<and> n \<le> k \<and> (\<forall>r \<in> set ?m. n \<le> fst r \<longrightarrow> k \<le> fst r)"
    using lb off by force
  show "sorted (map fst (available_regions a'))"
    using inv(2) by (simp add: a' sorted_remove1_map sorted_mm_emplace)
  have "mset (remove1 (k, v) ?m') =
        mset ?m - {#(k, v)#} + (if n < k then {#(k - n, v + n)#} else {#})"
    using lb(1) by (cases "n = 0") auto
  with carve_partition [OF inv(1) lb(1)] lb(2)
  show "pool_partition (((n, nat off) # L) @ available_regions a') ?N"
    by (simp add: a' off)
qed

text \<open>
  The contract of \<open>Memalign\<close>. On failure the allocator is unchanged; on success the block at
  the returned offset joins the live blocks.
\<close>

lemma FindRegion_fail:
  assumes "pool_inv a L" and "FindRegion n a = (-1, a')"
  shows "a' = a"
proof (cases "mm_lower_bound n (available_regions a)")
  case (Some r)
  obtain k v where r: "r = (k, v)" by fastforce
  have "(k, v) \<in> set (available_regions a)"
    using mm_lower_bound_SomeD(1) [OF _ Some] assms(1) by (simp add: pool_inv_def r)
  then have "int64_of (int v) = int v"
    using pool_region_bound(3) [OF assms(1), of k v] by simp
  with assms(2) Some show ?thesis by (simp add: FindRegion_def r Let_def)
qed (use assms(2) in \<open>simp add: FindRegion_def\<close>)

lemma Memalign_None:
  assumes "pool_inv a L" and "Memalign al n out a = (p, out', a')" and "p = 0"
  shows "a' = a"
proof -
  obtain off b where fr: "FindRegion n a = (off, b)" by fastforce
  have "base_pointer b = base_pointer a"
    using fr by (auto simp: FindRegion_def Let_def split: option.splits)
  then have "a' = a \<or> off = -1 \<and> a' = b"
    using assms by (auto simp: Memalign_def fr pool_inv_def split: if_splits)
  then show ?thesis using FindRegion_fail [OF assms(1)] fr by auto
qed

lemma pool_allocated_le: "pool_inv a L \<Longrightarrow> 0 \<le> allocated a \<and> allocated a \<le> footprint_limit a"
  by (auto simp: pool_inv_def pool_partition_def)

lemma Memalign_Some:
  assumes inv: "pool_inv a L" and n: "n < 2 ^ 63"
    and ret: "Memalign al n out a = (p, out', a')" and p: "p \<noteq> 0"
  shows "p = base_pointer a" and "0 \<le> out_offset out'" and "out_fd out' = pa_fd a"
    and "out_map_size out' = int n"
    and "pool_inv a' ((n, nat (out_offset out')) # L)"
    and "a' = a\<lparr>available_regions := available_regions a', allocated := allocated a + int n\<rparr>"
    and "\<exists>k. (k, nat (out_offset out')) \<in> set (available_regions a) \<and> n \<le> k \<and>
             (\<forall>r \<in> set (available_regions a). n \<le> fst r \<longrightarrow> k \<le> fst r)"
proof -
  obtain off b where fr: "FindRegion n a = (off, b)" by fastforce
  have lim: "footprint_limit a < 2 ^ 31" using inv by (simp add: pool_inv_def)
  have off: "off \<noteq> -1" and p': "p = base_pointer b"
    and out': "out' = \<lparr>out_fd = pa_fd b, out_map_size = int64_of (int n), out_offset = off\<rparr>"
    and a': "a' = b\<lparr>allocated := int64_of (allocated b + int n)\<rparr>"
    using ret p by (auto simp: Memalign_def fr split: if_splits)
  note F = FindRegion_pool [OF inv fr off]
  have nN: "n \<le> nat (footprint_limit a)"
    using F(2) by (simp add: pool_partition_def)
  have c1: "int64_of (int n) = int n" using n by (simp add: int64_of_def)
  have "0 \<le> allocated a" "allocated a \<le> footprint_limit a" "int n \<le> footprint_limit a"
    using nN pool_allocated_le [OF inv] by linarith+
  then have c2: "int64_of (allocated a + int n) = allocated a + int n"
    using lim by (simp add: int64_of_def)
  have alloc: "allocated b = allocated a" "pa_fd b = pa_fd a" "base_pointer b = base_pointer a"
      "footprint_limit b = footprint_limit a"
    by (subst F(4); simp)+
  show "p = base_pointer a" "0 \<le> out_offset out'" "out_fd out' = pa_fd a"
      "out_map_size out' = int n"
    using p' out' F(1) alloc c1 by simp_all
  show "a' = a\<lparr>available_regions := available_regions a', allocated := allocated a + int n\<rparr>"
    unfolding a' alloc c2 by (subst F(4)) simp
  show "pool_inv a' ((n, nat (out_offset out')) # L)"
    using inv F(2,3) unfolding pool_inv_def a' out' alloc c2 by (simp add: alloc)
  show "\<exists>k. (k, nat (out_offset out')) \<in> set (available_regions a) \<and> n \<le> k \<and>
             (\<forall>r \<in> set (available_regions a). n \<le> fst r \<longrightarrow> k \<le> fst r)"
    using F(5) by (simp add: out')
qed

section \<open>Deallocation\<close>

text \<open>
  What the loop of \<open>Free\<close> keeps: the merged region \<open>[off, off + sz)\<close> contains the freed block
  \<open>[b, e)\<close>, it does not overlap the other regions, and once a non-empty left neighbour is
  merged no empty region follows (the multimap is ordered by size).
\<close>

definition loop_inv :: "nat \<Rightarrow> int \<Rightarrow> int \<Rightarrow> regions \<Rightarrow> regions \<Rightarrow> regions \<Rightarrow> int \<Rightarrow> nat \<Rightarrow> bool" where
  "loop_inv N b e rest kept L off sz \<longleftrightarrow>
     N < 2 ^ 31 \<and> 0 \<le> off \<and> off \<le> b \<and> b \<le> e \<and> e \<le> off + int sz \<and>
     pool_partition ((sz, nat off) # L @ kept @ rest) N \<and>
     sorted (map fst (kept @ rest)) \<and>
     (off < b \<longrightarrow> (\<forall>r \<in> set rest. 0 < fst r))"

lemma merge_partition:
  assumes "pool_partition (r1 # r2 # R) N" and "span r1 \<union> span r2 = span r"
    and "fst r = fst r1 + fst r2" and "snd r + fst r \<le> N"
  shows "pool_partition (r # R) N"
  using assms unfolding pool_partition_def by (simp add: Un_assoc [symmetric])

lemma merge_right_partition:
  assumes p: "pool_partition ((sz, o1) # (k, e1) # R) N" and le: "e1 \<le> o1 + sz" "o1 \<le> e1"
  shows "pool_partition ((sz + k, o1) # R) N"
proof -
  have "span (sz, o1) \<inter> span (k, e1) = {}"
    using tight_Cons pool_partition_tight [OF p] by fastforce
  then have k: "k = 0 \<or> e1 = o1 + sz"
    using le by (cases "k = 0"; cases "e1 = o1 + sz") (auto simp: disjoint_iff)
  show ?thesis
    by (rule merge_partition [OF p]) (use k le p in \<open>auto simp: pool_partition_def\<close>)
qed

lemma merge_left_partition:
  assumes p: "pool_partition ((sz, o1) # (k, v) # R) N" and b: "v + k = b"
    and le: "o1 \<le> b" "b \<le> o1 + sz" and pos: "o1 < b \<longrightarrow> 0 < k"
  shows "pool_partition ((sz + k, v) # R) N"
proof -
  have "span (sz, o1) \<inter> span (k, v) = {}"
    using tight_Cons pool_partition_tight [OF p] by fastforce
  moreover have "b - 1 \<in> span (sz, o1) \<and> b - 1 \<in> span (k, v)" if "o1 < b"
    using that b le pos by auto
  ultimately have o1: "o1 = b" using le by fastforce
  show ?thesis
    by (rule merge_partition [OF p]) (use o1 b p in \<open>auto simp: pool_partition_def\<close>)
qed

lemma loop_inv_sizes:
  assumes "loop_inv N b e ((k, v) # rest) kept L off sz"
  shows "int64_of (int v) = int v" "int32_of (int k) = int k" "sadd64 (int v) (int k) = int v + int k"
    and "uint64_of (int sz + int k) = sz + k"
proof -
  have N: "N < 2 ^ 31" and "v + k \<le> N" and "sz + k \<le> N"
    using assms by (auto simp: loop_inv_def pool_partition_def)
  then have "v < 2 ^ 31" "k < 2 ^ 31" "v + k < 2 ^ 31" "sz + k < 2 ^ 31" by linarith+
  then show "int64_of (int v) = int v" "int32_of (int k) = int k"
      "sadd64 (int v) (int k) = int v + int k" "uint64_of (int sz + int k) = sz + k"
    by (simp_all add: int64_of_def int32_of_def sadd64_def uint64_of_def nat_mod_distrib nat_add_distrib)
qed

text \<open>One iteration: pass, merge on the right, merge on the left.\<close>

lemma loop_inv_keep:
  "loop_inv N b e (r # rest) kept L off sz \<Longrightarrow> loop_inv N b e rest (kept @ [r]) L off sz"
  by (simp add: loop_inv_def)

lemma loop_inv_right:
  assumes "loop_inv N b e ((k, v) # rest) kept L off sz" and "int v = e"
  shows "loop_inv N b e rest kept L off (sz + k)"
proof -
  have "mset ((sz, nat off) # L @ kept @ (k, v) # rest) =
        mset ((sz, nat off) # (k, v) # L @ kept @ rest)" by simp
  note mp = pool_partition_mset [OF this]
  have "pool_partition ((sz + k, nat off) # L @ kept @ rest) N"
    by (rule merge_right_partition [of _ _ _ v]) (use assms mp in \<open>auto simp: loop_inv_def\<close>)
  then show ?thesis using assms by (auto simp: loop_inv_def sorted_append)
qed

lemma loop_inv_left:
  assumes "loop_inv N b e ((k, v) # rest) kept L off sz" and "int v + int k = b"
  shows "loop_inv N b e rest kept L (int v) (sz + k)"
proof -
  have "mset ((sz, nat off) # L @ kept @ (k, v) # rest) =
        mset ((sz, nat off) # (k, v) # L @ kept @ rest)" by simp
  note mp = pool_partition_mset [OF this]
  have p: "pool_partition ((sz, nat off) # (k, v) # L @ kept @ rest) N"
    using assms mp by (simp add: loop_inv_def)
  have pos: "off < b \<longrightarrow> 0 < k" using assms(1) by (simp add: loop_inv_def)
  have m: "pool_partition ((sz + k, v) # L @ kept @ rest) N"
    by (rule merge_left_partition [OF p, of "nat b"])
       (use assms pos in \<open>auto simp: loop_inv_def nat_less_iff\<close>)
  have "int v < b \<longrightarrow> (\<forall>r \<in> set rest. 0 < fst r)"
    using assms by (fastforce simp: loop_inv_def sorted_append)
  then show ?thesis using m assms by (auto simp: loop_inv_def sorted_append)
qed

lemma Free_loop_inv:
  assumes "Free_loop sem b e rest kept off sz = Inr (m, off', sz')"
    and "loop_inv N b e rest kept L off sz"
  shows "loop_inv N b e [] m L off' sz'"
  using assms
proof (induction sem b e rest kept off sz rule: Free_loop.induct)
  case (2 sem b e k v rest kept off sz)
  note ar = loop_inv_sizes [OF "2.prems"(2)]
  consider "int v = e" | "int v \<noteq> e" "int v + int k = b" | "int v \<noteq> e" "int v + int k \<noteq> b"
    by blast
  then show ?case
  proof cases
    case 1
    with "2.prems"(1) ar have "sem = Node_Survives" by (cases sem) simp_all
    with 1 "2.prems" ar "2.IH"(1) loop_inv_right [OF "2.prems"(2) 1] show ?thesis by simp
  next
    case c: 2
    with "2.prems"(1) ar have "sem = Node_Survives" by (cases sem) simp_all
    with c "2.prems" ar "2.IH"(2) loop_inv_left [OF "2.prems"(2) c(2)] show ?thesis by simp
  next
    case 3
    with "2.prems" ar "2.IH"(3) loop_inv_keep [OF "2.prems"(2)] show ?thesis by simp
  qed
qed simp

text \<open>\<open>Free\<close> gives a live block back: whenever it returns, the block joins the free bytes.\<close>

lemma Free_pool:
  assumes inv: "pool_inv a ((n, v) # L)"
    and ret: "Free sem (base_pointer a + v) n a = Inr a'"
  shows "pool_inv a' L" and "a' = a\<lparr>available_regions := available_regions a', allocated := allocated a - int n\<rparr>"
proof -
  let ?N = "nat (footprint_limit a)" and ?m = "available_regions a"
  have N: "?N < 2 ^ 31" using inv by (simp add: pool_inv_def nat_less_iff)
  have vn: "v + n \<le> ?N" using inv by (simp add: pool_inv_def pool_partition_def)
  then have e: "int64_of (int v + int n) = int v + int n"
    using N by (simp add: int64_of_def)
  obtain m off sz where
    l: "Free_loop sem (int v) (int v + int n) ?m [] (int v) n = Inr (m, off, sz)"
    and a': "a' = a\<lparr>available_regions := mm_emplace sz (uint64_of off) m,
                    allocated := int64_of (allocated a - int n)\<rparr>"
    using ret e by (auto simp: Free_def Let_def elim!: rbind_InrE)
  have "loop_inv ?N (int v) (int v + int n) ?m [] L (int v) n"
    using inv N by (simp add: loop_inv_def pool_inv_def)
  from Free_loop_inv [OF l this] have li: "loop_inv ?N (int v) (int v + int n) [] m L off sz" .
  then have off: "uint64_of off = nat off"
    using vn N by (auto simp: loop_inv_def uint64_of_def)
  have "0 \<le> allocated a - int n" "allocated a - int n < 2 ^ 31"
    using inv pool_allocated_le [OF inv] by (auto simp: pool_inv_def)
  then have al: "int64_of (allocated a - int n) = allocated a - int n"
    by (simp add: int64_of_def)
  show "a' = a\<lparr>available_regions := available_regions a', allocated := allocated a - int n\<rparr>"
    by (simp add: a' al)
  have "mset (L @ mm_emplace sz (nat off) m) = mset ((sz, nat off) # L @ m)" by simp
  from pool_partition_mset [OF this] show "pool_inv a' L"
    using inv li off al by (simp add: pool_inv_def a' loop_inv_def sorted_mm_emplace)
qed

section \<open>The interface of a block allocator\<close>

text \<open>
  What the store relies on: \<open>inv a L\<close> says that \<open>L\<close> are the live blocks of \<open>a\<close>; an
  allocation adds a block, a deallocation removes one, and live blocks never overlap.
\<close>

locale block_pool =
  fixes inv :: "'a \<Rightarrow> regions \<Rightarrow> bool"
    and alloc :: "nat \<Rightarrow> 'a \<Rightarrow> (nat \<times> 'a) option"
    and release :: "nat \<times> nat \<Rightarrow> 'a \<Rightarrow> 'a option"
    and valid :: "nat \<Rightarrow> bool"
  assumes alloc_inv: "inv a L \<Longrightarrow> valid n \<Longrightarrow> alloc n a = Some (v, a') \<Longrightarrow> inv a' ((n, v) # L)"
    and release_inv: "inv a (r # L) \<Longrightarrow> release r a = Some a' \<Longrightarrow> inv a' L"
    and inv_perm: "mset L = mset L' \<Longrightarrow> inv a L = inv a L'"
    and inv_tight: "inv a L \<Longrightarrow> tight L"
begin

lemma alloc_fresh:
  assumes "inv a L" and "valid n" and "alloc n a = Some (v, a')" and "r \<in> set L"
  shows "span (n, v) \<inter> span r = {}"
proof -
  have "tight ((n, v) # L)" using assms(1-3) by (blast intro: inv_tight alloc_inv)
  then show ?thesis using assms(4) unfolding tight_Cons by (auto simp: spans_def)
qed

lemma release_any:
  assumes "inv a L" and "r \<in> set L" and "release r a = Some a'"
  shows "inv a' (remove1 r L)"
proof (rule release_inv [OF _ assms(3)])
  have "mset L = mset (r # remove1 r L)" using assms(2) by simp
  from inv_perm [OF this] assms(1) show "inv a (r # remove1 r L)" by blast
qed

end

definition pool_alloc :: "nat \<Rightarrow> PlasmaAllocator \<Rightarrow> (nat \<times> PlasmaAllocator) option" where
  "pool_alloc n a =
     (case Memalign kBlockSize n \<lparr>out_fd = -1, out_map_size = 0, out_offset = 0\<rparr> a of
        (p, out, a') \<Rightarrow> if p = 0 then None else Some (nat (out_offset out), a'))"

definition pool_free :: "erase_sem \<Rightarrow> nat \<times> nat \<Rightarrow> PlasmaAllocator \<Rightarrow> PlasmaAllocator option" where
  "pool_free sem r a =
     (case Free sem (base_pointer a + snd r) (fst r) a of Inl _ \<Rightarrow> None | Inr a' \<Rightarrow> Some a')"

lemma pool_inv_perm: "mset L = mset L' \<Longrightarrow> pool_inv a L = pool_inv a L'"
proof -
  assume m: "mset L = mset L'"
  then have "mset (L @ available_regions a) = mset (L' @ available_regions a)" by simp
  from pool_partition_mset [OF this] tsize_mset [OF m] show ?thesis
    by (simp add: pool_inv_def)
qed

lemma pool_inv_tight: "pool_inv a L \<Longrightarrow> tight (L @ available_regions a)"
  by (auto simp: pool_inv_def intro: pool_partition_tight)

lemma tight_append: "tight (xs @ ys) \<Longrightarrow> tight xs"
  by (induction xs) (auto simp: tight_Cons, simp add: tight_def)

interpretation pool: block_pool pool_inv pool_alloc "pool_free sem" "\<lambda>n. n < 2 ^ 63" for sem
proof unfold_locales
  fix a L n v a'
  assume "pool_inv a L" "n < 2 ^ 63" "pool_alloc n a = Some (v, a')"
  then show "pool_inv a' ((n, v) # L)"
    using Memalign_Some(5) by (auto simp: pool_alloc_def split: prod.splits if_splits)
next
  fix a r L a'
  assume "pool_inv a (r # L)" "pool_free sem r a = Some a'"
  then show "pool_inv a' L"
    using Free_pool(1) [of a "fst r" "snd r" L] by (auto simp: pool_free_def split: sum.splits)
next
  fix L L' :: regions and a
  assume "mset L = mset L'"
  then show "pool_inv a L = pool_inv a L'" by (rule pool_inv_perm)
next
  fix a L
  assume "pool_inv a L"
  then show "tight L" by (blast intro: tight_append pool_inv_tight)
qed

section \<open>Histories of the allocator\<close>

text \<open>
  A history is a sequence of allocations and of deallocations of live blocks (the \<open>i\<close>-th of
  the list of live blocks); the state is the allocator and the live blocks.
\<close>

datatype pool_op = PoolAlloc nat | PoolFree nat

fun pool_step :: "erase_sem \<Rightarrow> pool_op \<Rightarrow> PlasmaAllocator \<times> regions \<Rightarrow> (PlasmaAllocator \<times> regions) res" where
  "pool_step sem (PoolAlloc n) (a, L) =
     (case pool_alloc n a of None \<Rightarrow> Inr (a, L) | Some (v, a') \<Rightarrow> Inr (a', (n, v) # L))"
| "pool_step sem (PoolFree i) (a, L) =
     (if i < length L
      then rbind (Free sem (base_pointer a + snd (L ! i)) (fst (L ! i)) a)
             (\<lambda>a'. Inr (a', remove1 (L ! i) L))
      else Inr (a, L))"

definition pool_run :: "erase_sem \<Rightarrow> pool_op list \<Rightarrow> PlasmaAllocator \<times> regions \<Rightarrow> (PlasmaAllocator \<times> regions) res" where
  "pool_run sem ops = rfold (pool_step sem) ops"

definition pool_start :: "nat \<Rightarrow> int \<Rightarrow> nat \<Rightarrow> PlasmaAllocator res" where
  "pool_start limit fd base = Init fd base (SetFootprintLimit limit initial_PlasmaAllocator)"

fun pool_op_ok :: "pool_op \<Rightarrow> bool" where
  "pool_op_ok (PoolAlloc n) = (n < 2 ^ 63)"
| "pool_op_ok (PoolFree i) = True"

lemma pool_start_inv:
  assumes "pool_start limit fd base = Inr a" and "limit < 2 ^ 31"
  shows "pool_inv a []"
  using assms
  by (auto simp: pool_start_def Init_def SetFootprintLimit_def initial_PlasmaAllocator_def
        rbind_check_eq_Inr pool_inv_def pool_partition_def mm_emplace_def int64_of_def uint64_of_def
        nat_mod_distrib)

lemma pool_step_inv:
  assumes "pool_step sem op (a, L) = Inr (a', L')" and "pool_op_ok op" and "pool_inv a L"
  shows "pool_inv a' L'"
proof (cases op)
  case (PoolAlloc n)
  with assms show ?thesis
    using pool.alloc_inv by (auto split: option.splits)
next
  case (PoolFree i)
  show ?thesis
  proof (cases "i < length L")
    case True
    with assms PoolFree have "pool_free sem (L ! i) a = Some a'" and "L' = remove1 (L ! i) L"
      by (auto simp: pool_free_def elim!: rbind_InrE)
    with True assms(3) pool.release_any show ?thesis by simp
  qed (use assms PoolFree in simp)
qed

lemma pool_run_inv:
  assumes "pool_run sem ops (a, L) = Inr (a', L')" and "list_all pool_op_ok ops" and "pool_inv a L"
  shows "pool_inv a' L'"
proof -
  have "(\<lambda>(a, L). pool_inv a L) (a', L')"
  proof (rule rfold_invariant [OF assms(1) [unfolded pool_run_def]])
    show "(\<lambda>(a, L). pool_inv a L) (a, L)" using assms(3) by simp
    fix op t t' assume "op \<in> set ops" "case t of (a, L) \<Rightarrow> pool_inv a L" "pool_step sem op t = Inr t'"
    then show "case t' of (a, L) \<Rightarrow> pool_inv a L"
      using assms(2) by (auto simp: list_all_iff intro: pool_step_inv)
  qed
  then show ?thesis by simp
qed

section \<open>Theorems\<close>

lemma pool_free_spans:
  "pool_inv a L \<Longrightarrow> spans (available_regions a) = {0 ..< nat (footprint_limit a)} - spans L"
proof -
  assume inv: "pool_inv a L"
  have "spans L \<inter> spans (available_regions a) = {}"
    using pool_inv_tight [OF inv] by (induction L) (auto simp: tight_Cons)
  with inv show ?thesis by (auto simp: pool_inv_def pool_partition_def)
qed



text \<open>
  C19. \<open>Memalign\<close> is a best fit and complete: it fails exactly when no free region has room for
  the request, and then changes nothing; otherwise it takes the start of a smallest free
  region that is large enough.
\<close>
theorem memalign_best_fit:
  assumes "pool_inv a L" and "n < 2 ^ 63" and "Memalign al n out a = (p, out', a')"
  shows "if \<forall>r \<in> set (available_regions a). fst r < n then p = 0 \<and> a' = a
         else p = base_pointer a \<and>
              (\<exists>k. (k, nat (out_offset out')) \<in> set (available_regions a) \<and> n \<le> k \<and>
                   (\<forall>r \<in> set (available_regions a). n \<le> fst r \<longrightarrow> k \<le> fst r))"
proof (cases "\<forall>r \<in> set (available_regions a). fst r < n")
  case True
  then have "FindRegion n a = (-1, a)"
    by (simp add: FindRegion_def mm_lower_bound_None [THEN iffD2])
  with assms(3) have "p = 0" by (auto simp: Memalign_def split: if_splits)
  with True Memalign_None [OF assms(1,3)] show ?thesis by simp
next
  case False
  let ?N = "nat (footprint_limit a)"
  obtain k v where kv: "(k, v) \<in> set (available_regions a)" "n \<le> k" using False by force
  have "k \<le> tsize (available_regions a)"
    unfolding tsize_def using kv(1) by (intro member_le_sum_list) (force, simp)
  then have le: "allocated a + int n \<le> footprint_limit a"
    using assms(1) kv(2) by (auto simp: pool_inv_def pool_partition_def)
  have "footprint_limit a < 2 ^ 31" "0 \<le> allocated a"
    using assms(1) by (simp_all add: pool_inv_def)
  with le have fits: "\<not> footprint_limit a < sadd64 (allocated a) (int64_of (int n))"
    using assms(2) by (simp add: sadd64_def int64_of_def)
  obtain r where r: "mm_lower_bound n (available_regions a) = Some r"
    using False mm_lower_bound_None by fastforce
  have "r \<in> set (available_regions a)"
    using mm_lower_bound_SomeD(1) [OF _ r] assms(1) by (simp add: pool_inv_def)
  then have "int64_of (int (snd r)) = int (snd r)"
    using pool_region_bound(3) [OF assms(1), of "fst r" "snd r"] by simp
  then obtain b where fr: "FindRegion n a = (int (snd r), b)" and "base_pointer b = base_pointer a"
    using r by (cases r) (auto simp: FindRegion_def Let_def)
  with assms fits have "p \<noteq> 0" by (auto simp: Memalign_def pool_inv_def)
  with Memalign_Some(1,7) [OF assms] False show ?thesis by simp
qed

theorem memalign_best_fit_witness:
  "\<exists>a p out' a'. available_regions a = [(20, 0), (30, 50)] \<and> pool_inv a [(30, 20)] \<and>
     Memalign 64 25 \<lparr>out_fd = -1, out_map_size = 0, out_offset = 0\<rparr> a = (p, out', a') \<and>
     p = base_pointer a \<and> (30, nat (out_offset out')) \<in> set (available_regions a)"
proof -
  let ?a = "\<lparr>footprint_limit = 80, allocated = 30, base_pointer = 4096,
             available_regions = [(20, 0), (30, 50)], pa_fd = 3, mmap_records = []\<rparr>"
  have inv: "pool_inv ?a [(30, 20)]"
    by (auto simp: pool_inv_def pool_partition_def)
  obtain p out' a' where m: "Memalign 64 25 \<lparr>out_fd = -1, out_map_size = 0, out_offset = 0\<rparr> ?a = (p, out', a')"
    by (rule prod_cases3)
  from memalign_best_fit [OF inv _ m] have "p = base_pointer ?a"
    and "(30, nat (out_offset out')) \<in> set (available_regions ?a)"
    by auto
  with inv m \<open>p = base_pointer ?a\<close> show ?thesis by (intro exI [of _ ?a] exI conjI) auto
qed

text \<open>
  \<open>Free\<close> undoes \<open>Memalign\<close>: freeing the block just allocated brings back the same free
  bytes and the same \<open>allocated_\<close>, with every other live block untouched.
\<close>
theorem memalign_free_roundtrip:
  assumes "pool_inv a L" and "n < 2 ^ 63" and "Memalign al n out a = (p, out', a')" and "p \<noteq> 0"
    and "Free sem (p + nat (out_offset out')) n a' = Inr a''"
  shows "pool_inv a'' L \<and> spans (available_regions a'') = spans (available_regions a)
       \<and> allocated a'' = allocated a"
proof -
  note M = Memalign_Some [OF assms(1-4)]
  have base: "base_pointer a' = p" by (subst M(6)) (simp add: M(1))
  note F = Free_pool [OF M(5) assms(5) [folded base]]
  have "footprint_limit a'' = footprint_limit a"
    by (subst F(2)) (simp, subst M(6), simp)
  moreover have "allocated a'' = allocated a"
    using F(1) assms(1) by (simp add: pool_inv_def)
  ultimately show ?thesis
    using F(1) pool_free_spans [OF F(1)] pool_free_spans [OF assms(1)] by simp
qed

theorem memalign_free_roundtrip_witness:
  "\<exists>a a' a'' p out'. pool_inv a [(30, 20)] \<and>
     Memalign 64 30 \<lparr>out_fd = -1, out_map_size = 0, out_offset = 0\<rparr> a = (p, out', a') \<and> p \<noteq> 0 \<and>
     Free Std_Erase (p + nat (out_offset out')) 30 a' = Inr a'' \<and>
     spans (available_regions a'') = spans (available_regions a)"
proof -
  let ?a = "\<lparr>footprint_limit = 80, allocated = 30, base_pointer = 4096,
             available_regions = [(20, 0), (30, 50)], pa_fd = 3, mmap_records = []\<rparr>"
  have inv: "pool_inv ?a [(30, 20)]"
    by (auto simp: pool_inv_def pool_partition_def)
  obtain p out' a' where m: "Memalign 64 30 \<lparr>out_fd = -1, out_map_size = 0, out_offset = 0\<rparr> ?a = (p, out', a')"
    by (rule prod_cases3)
  then have p: "p \<noteq> 0" and "p + nat (out_offset out') = 4146" and "\<exists>a''. Free Std_Erase 4146 30 a' = Inr a''"
    by (auto simp: Memalign_def FindRegion_def mm_lower_bound_def mm_emplace_def Free_def Let_def
        int64_of_def uint64_of_def int32_of_def sadd64_def)
  then obtain a'' where f: "Free Std_Erase (p + nat (out_offset out')) 30 a' = Inr a''" by auto
  from memalign_free_roundtrip [OF inv _ m p f] inv m p f show ?thesis by auto
qed



text \<open>
  C40. The cast of the region size to a 32-bit \<open>int\<close> breaks pools of two gigabytes and more:
  with the block \<open>[5, 10)\<close> live and \<open>[2^31, 2^32 + 5)\<close> free, \<open>Free\<close> takes the free region for
  the left neighbour of the block, so the new free region reaches five bytes past the end of
  the old one, into a live block, and the freed bytes are lost.
\<close>
theorem free_large_region_corrupts:
  "\<exists>a a'. pool_partition ([(5, 5), (5, 0), (2147483638, 10), (5, 4294967301)] @ available_regions a)
            (nat (footprint_limit a)) \<and>
     available_regions a = [(2147483653, 2147483648)] \<and>
     Free Node_Survives (base_pointer a + 5) 5 a = Inr a' \<and>
     span (5, 4294967301) \<subseteq> spans (available_regions a') \<and>
     5 \<notin> spans (available_regions a')"
proof -
  let ?a = "\<lparr>footprint_limit = 4294967306, allocated = 2147483653, base_pointer = 4096,
             available_regions = [(2147483653, 2147483648)], pa_fd = 3, mmap_records = []\<rparr>"
  let ?a' = "?a\<lparr>available_regions := [(2147483658, 2147483648)], allocated := 2147483648\<rparr>"
  have "pool_partition ([(5, 5), (5, 0), (2147483638, 10), (5, 4294967301)] @ available_regions ?a)
            (nat (footprint_limit ?a))"
    by (auto simp: pool_partition_def)
  moreover have "Free Node_Survives (base_pointer ?a + 5) 5 ?a = Inr ?a'"
    by (simp add: Free_def Let_def mm_emplace_def int64_of_def uint64_of_def int32_of_def sadd64_def)
  ultimately show ?thesis by (intro exI [of _ ?a] exI [of _ ?a']) auto
qed

text \<open>
  \<open>Memalign\<close> ignores its alignment: after a first allocation of one byte the next block
  starts at offset 1, although the header promises a multiple of the alignment (64).
\<close>
theorem memalign_ignores_alignment:
  "\<exists>a0 p1 out1 a1 p2 out2 a2. pool_start 1000 3 4096 = Inr a0 \<and>
     Memalign kBlockSize 1 \<lparr>out_fd = -1, out_map_size = 0, out_offset = 0\<rparr> a0 = (p1, out1, a1) \<and>
     Memalign kBlockSize 64 \<lparr>out_fd = -1, out_map_size = 0, out_offset = 0\<rparr> a1 = (p2, out2, a2) \<and>
     p2 \<noteq> 0 \<and> out_offset out2 = 1 \<and> \<not> kBlockSize dvd (p2 + nat (out_offset out2))"
  by (simp add: pool_start_def Init_def SetFootprintLimit_def initial_PlasmaAllocator_def
      Memalign_def FindRegion_def mm_lower_bound_def mm_emplace_def Let_def int64_of_def
      uint64_of_def sadd64_def kBlockSize_def)

end
