(* ===== verification/Io.thy ===== *)
theory Io
  imports Common
begin

text \<open>
  Framing over sockets (src/arrow/cpp/src/plasma/io.cc) and descriptor passing (fling.cc).

  A system call consumes one outcome from a list that the environment supplies: a byte count
  the kernel is willing to move, or an error. \<open>None\<close> means that the list ran out, that is, the
  call still blocks. The bytes on the wire are an explicit list.

  The lemmas show that a message written under any fragmentation and any number of retries is
  read back unchanged under any other, with the rest of the stream untouched, and that a
  received message never leaks a descriptor.
\<close>

section \<open>Reading and writing bytes\<close>

datatype io_out = IO_n nat | IO_err errno

fun strerror :: "errno \<Rightarrow> string" where
  "strerror EAGAIN = ''Resource temporarily unavailable''"
| "strerror EWOULDBLOCK = ''Resource temporarily unavailable''"
| "strerror EINTR = ''Interrupted system call''"
| "strerror EPIPE = ''Broken pipe''"
| "strerror EBADF = ''Bad file descriptor''"
| "strerror ECONNRESET = ''Connection reset by peer''"
| "strerror EMSGSIZE = ''Message too long''"
| "strerror (EOTHER n) = ''Unknown error '' @ int_string n"

definition IOError :: "string \<Rightarrow> Status" where
  "IOError m = mk_status SC_IOError m"

text \<open>\<open>chan\<close> is what has been put on the wire, \<open>outs\<close> the outcomes of the coming calls.\<close>

fun WriteBytes :: "byte list \<Rightarrow> io_out list \<Rightarrow> byte list \<Rightarrow> (Status \<times> io_out list \<times> byte list) option" where
  "WriteBytes [] outs chan = Some (Status_OK, outs, chan)"
| "WriteBytes (b # bs) [] chan = None"
| "WriteBytes (b # bs) (IO_err e # outs) chan =
     (if errno_retry e then WriteBytes (b # bs) outs chan
      else Some (IOError (strerror e), outs, chan))"
| "WriteBytes (b # bs) (IO_n k # outs) chan =
     (let nbytes = min k (length (b # bs)) in
      if nbytes = 0 then Some (IOError ''Encountered unexpected EOF'', outs, chan)
      else WriteBytes (drop nbytes (b # bs)) outs (chan @ take nbytes (b # bs)))"

text \<open>\<open>got\<close> is what has been read into the buffer; \<open>chan\<close> is what is still on the wire.\<close>

fun ReadBytes ::
    "nat \<Rightarrow> byte list \<Rightarrow> io_out list \<Rightarrow> byte list \<Rightarrow> (Status \<times> byte list \<times> io_out list \<times> byte list) option" where
  "ReadBytes 0 got outs chan = Some (Status_OK, got, outs, chan)"
| "ReadBytes (Suc n) got [] chan = None"
| "ReadBytes (Suc n) got (IO_err e # outs) chan =
     (if errno_retry e then ReadBytes (Suc n) got outs chan
      else Some (IOError (strerror e), got, outs, chan))"
| "ReadBytes (Suc n) got (IO_n k # outs) chan =
     (let nbytes = min k (min (Suc n) (length chan)) in
      if nbytes = 0 then Some (IOError ''Encountered unexpected EOF'', got, outs, chan)
      else ReadBytes (Suc n - nbytes) (got @ take nbytes chan) outs (drop nbytes chan))"

section \<open>Messages\<close>

definition kPlasmaProtocolVersion :: int where
  "kPlasmaProtocolVersion = 0"

text \<open>The code of \<open>MessageType::PlasmaDisconnectClient\<close>.\<close>

definition disconnect_code :: int where
  "disconnect_code = 0"

text \<open>\<open>RETURN_NOT_OK\<close> over the writer's state.\<close>

definition then_write ::
    "(Status \<times> io_out list \<times> byte list) option \<Rightarrow> byte list \<Rightarrow> (Status \<times> io_out list \<times> byte list) option" where
  "then_write r bs =
     (case r of
        None \<Rightarrow> None
      | Some (s, outs, chan) \<Rightarrow> if st_ok s then WriteBytes bs outs chan else Some (s, outs, chan))"

text \<open>\<open>length\<close> is a signed argument that the last write takes as a \<open>size_t\<close>.\<close>

definition WriteMessage ::
    "int \<Rightarrow> int \<Rightarrow> byte list \<Rightarrow> io_out list \<Rightarrow> byte list \<Rightarrow> (Status \<times> io_out list \<times> byte list) option res" where
  "WriteMessage type len bytes outs chan =
     (let r = WriteBytes (int64_bytes kPlasmaProtocolVersion) outs chan;
          r = then_write r (int64_bytes type);
          r = then_write r (int64_bytes len)
      in if uint64_of len \<le> length bytes then Inr (then_write r (take (uint64_of len) bytes))
         else Inl OutOfBounds)"

text \<open>
  The out parameters of \<open>ReadMessage\<close>: the type (set to \<open>PlasmaDisconnectClient\<close> when a read
  fails) and the buffer, which only ever grows.
\<close>

record read_out =
  ro_status :: Status
  ro_type :: int
  ro_buffer :: "byte list"
  ro_outs :: "io_out list"
  ro_chan :: "byte list"

definition max_vector_size :: nat where
  "max_vector_size = 2 ^ 63 - 1"

definition ReadMessage :: "byte list \<Rightarrow> io_out list \<Rightarrow> byte list \<Rightarrow> read_out option res" where
  "ReadMessage buffer outs chan =
     (let fail = (\<lambda>s outs chan. Inr (Some \<lparr>ro_status = s, ro_type = disconnect_code, ro_buffer = buffer,
                                     ro_outs = outs, ro_chan = chan\<rparr>)) in
      case ReadBytes 8 [] outs chan of
        None \<Rightarrow> Inr None
      | Some (s, version, outs, chan) \<Rightarrow>
      if \<not> st_ok s then fail s outs chan
      else rbind (check (bytes_int64 version = kPlasmaProtocolVersion) ''version == kPlasmaProtocolVersion'') (\<lambda>_.
      case ReadBytes 8 [] outs chan of
        None \<Rightarrow> Inr None
      | Some (s, type, outs, chan) \<Rightarrow>
      if \<not> st_ok s then fail s outs chan
      else case ReadBytes 8 [] outs chan of
        None \<Rightarrow> Inr None
      | Some (s, length_temp, outs, chan) \<Rightarrow>
      if \<not> st_ok s then fail s outs chan
      else
        let len = uint64_of (bytes_int64 length_temp) in
        if max_vector_size < len then Inl LengthError
        else
          let buffer = (if length buffer < len then buffer @ replicate (len - length buffer) 0 else buffer) in
          (case ReadBytes len [] outs chan of
             None \<Rightarrow> Inr None
           | Some (s, got, outs, chan) \<Rightarrow>
               Inr (Some \<lparr>ro_status = s,
                          ro_type = (if st_ok s then bytes_int64 type else disconnect_code),
                          ro_buffer = got @ drop (length got) buffer,
                          ro_outs = outs, ro_chan = chan\<rparr>))))"

text \<open>
  \<open>ReadMessageAsync\<close>: \<open>None\<close> stands for the null pointer, after the socket was closed. An
  array of negative or excessive size raises \<open>std::bad_array_new_length\<close>.
\<close>

definition ReadMessageAsync ::
    "io_out list \<Rightarrow> byte list \<Rightarrow> (byte list option \<times> bool \<times> io_out list \<times> byte list) option res" where
  "ReadMessageAsync outs chan =
     (case ReadBytes 8 [] outs chan of
        None \<Rightarrow> Inr None
      | Some (s, sz, outs, chan) \<Rightarrow>
      if \<not> st_ok s then Inr (Some (None, True, outs, chan))
      else if max_vector_size < uint64_of (bytes_int64 sz) then Inl LengthError
      else case ReadBytes (uint64_of (bytes_int64 sz)) [] outs chan of
        None \<Rightarrow> Inr None
      | Some (s, message, outs, chan) \<Rightarrow>
      if \<not> st_ok s then Inr (Some (None, True, outs, chan))
      else Inr (Some (Some message, False, outs, chan)))"

section \<open>Sockets\<close>

text \<open>The return values of the system calls of one connection attempt, and what is done.\<close>

record sock_env =
  sys_socket :: int
  sys_setsockopt :: int
  sys_bind :: int
  sys_listen :: int
  sys_connect :: int
  sys_accept :: int

datatype sys_action = SysClose int | SysUnlink string | SysSleep int

definition sun_path_size :: nat where
  "sun_path_size = 108"

definition BindIpcSock :: "sock_env \<Rightarrow> string \<Rightarrow> bool \<Rightarrow> int \<times> sys_action list" where
  "BindIpcSock env pathname shall_listen =
     (let socket_fd = sys_socket env in
      if socket_fd < 0 then (-1, [])
      else if sys_setsockopt env < 0 then (-1, [SysClose socket_fd])
      else if sun_path_size < length pathname + 1 then (-1, [SysUnlink pathname, SysClose socket_fd])
      else if sys_bind env \<noteq> 0 then (-1, [SysUnlink pathname, SysClose socket_fd])
      else if shall_listen \<and> sys_listen env = -1 then (-1, [SysUnlink pathname, SysClose socket_fd])
      else (socket_fd, [SysUnlink pathname]))"

definition ConnectIpcSock :: "sock_env \<Rightarrow> string \<Rightarrow> int \<times> sys_action list" where
  "ConnectIpcSock env pathname =
     (let socket_fd = sys_socket env in
      if socket_fd < 0 then (-1, [])
      else if sun_path_size < length pathname + 1 then (-1, [SysClose socket_fd])
      else if sys_connect env \<noteq> 0 then (-1, [SysClose socket_fd])
      else (socket_fd, []))"

definition kNumConnectAttempts :: int where
  "kNumConnectAttempts = 80"

definition kConnectTimeoutMs :: int where
  "kConnectTimeoutMs = 100"

text \<open>The retry loop; \<open>env i\<close> is the environment of the \<open>i\<close>-th attempt.\<close>

fun connect_loop ::
    "(nat \<Rightarrow> sock_env) \<Rightarrow> string \<Rightarrow> int \<Rightarrow> nat \<Rightarrow> nat \<Rightarrow> int \<times> sys_action list \<Rightarrow> int \<times> sys_action list" where
  "connect_loop env pathname timeout 0 i (fd, acts) = (fd, acts)"
| "connect_loop env pathname timeout (Suc n) i (fd, acts) =
     (if fd < 0
      then let (fd', acts') = ConnectIpcSock (env i) pathname
           in connect_loop env pathname timeout n (Suc i)
                (fd', acts @ [SysSleep (int32_of (timeout * 1000))] @ acts')
      else (fd, acts))"

definition ConnectIpcSocketRetry ::
    "(nat \<Rightarrow> sock_env) \<Rightarrow> string \<Rightarrow> int \<Rightarrow> int \<Rightarrow> Status \<times> int \<times> sys_action list" where
  "ConnectIpcSocketRetry env pathname num_retries timeout =
     (let num_retries = (if num_retries < 0 then kNumConnectAttempts else num_retries);
          timeout = (if timeout < 0 then kConnectTimeoutMs else timeout);
          (fd, acts) = connect_loop env pathname timeout (nat num_retries) 1 (ConnectIpcSock (env 0) pathname)
      in if fd = -1 then (IOError (''Could not connect to socket '' @ pathname), fd, acts)
         else (Status_OK, fd, acts))"

definition AcceptClient :: "sock_env \<Rightarrow> int" where
  "AcceptClient env = (if sys_accept env < 0 then -1 else sys_accept env)"

section \<open>Passing descriptors\<close>

text \<open>\<open>send_fd\<close> retries until \<open>sendmsg\<close> returns; the result is its return value and the error.\<close>

fun send_fd :: "io_out list \<Rightarrow> (int \<times> errno option \<times> io_out list) option" where
  "send_fd [] = None"
| "send_fd (IO_err e # outs) =
     (if errno_retry e then send_fd outs
      else if e = EMSGSIZE then send_fd outs
      else Some (-1, Some e, outs))"
| "send_fd (IO_n r # outs) = (if r = 0 then Some (0, None, outs) else Some (int r, None, outs))"

text \<open>A received message: its control headers, each with the descriptors it carries.\<close>

datatype recv_out = RecvErr errno | RecvMsg "(bool \<times> int list) list"

text \<open>
  The nested loops over headers and descriptors: the first descriptor is kept, the others are
  closed. The state is \<open>(found_fd, oh_noes, closed)\<close>.
\<close>

fun recv_take :: "int list \<Rightarrow> int \<times> bool \<times> int list \<Rightarrow> int \<times> bool \<times> int list" where
  "recv_take [] st = st"
| "recv_take (fd # fds) (found, bad, closed) =
     (if found = -1 then recv_take fds (fd, bad, closed)
      else recv_take fds (found, True, closed @ [fd]))"

fun recv_headers :: "(bool \<times> int list) list \<Rightarrow> int \<times> bool \<times> int list \<Rightarrow> int \<times> bool \<times> int list" where
  "recv_headers [] st = st"
| "recv_headers ((rights, fds) # hs) st = recv_headers hs (if rights then recv_take fds st else st)"

fun recv_fd :: "recv_out list \<Rightarrow> (int \<times> int list \<times> recv_out list) option" where
  "recv_fd [] = None"
| "recv_fd (RecvErr e # outs) = (if errno_retry e then recv_fd outs else Some (-1, [], outs))"
| "recv_fd (RecvMsg hs # outs) =
     (case recv_headers hs (-1, False, []) of
        (found, oh_noes, closed) \<Rightarrow>
          if oh_noes then Some (-1, closed @ [found], outs) else Some (found, closed, outs))"


section \<open>Progress\<close>

text \<open>
  \<open>fair outs n\<close>: every call either asks for a retry or moves at least a byte, and at least \<open>n\<close>
  of them move bytes.
\<close>

fun moves :: "io_out \<Rightarrow> bool" where
  "moves (IO_n k) = True"
| "moves (IO_err e) = False"

fun no_failure :: "io_out \<Rightarrow> bool" where
  "no_failure (IO_n k) \<longleftrightarrow> 0 < k"
| "no_failure (IO_err e) \<longleftrightarrow> errno_retry e"

definition fair :: "io_out list \<Rightarrow> nat \<Rightarrow> bool" where
  "fair outs n \<longleftrightarrow> list_all no_failure outs \<and> n \<le> length (filter moves outs)"

lemma fair_simps [simp]:
  "fair [] n \<longleftrightarrow> n = 0"
  "fair (IO_err e # outs) n \<longleftrightarrow> errno_retry e \<and> fair outs n"
  "fair (IO_n k # outs) n \<longleftrightarrow> 0 < k \<and> fair outs (n - 1)"
  by (auto simp: fair_def)

lemma fair_mono: "fair outs n \<Longrightarrow> m \<le> n \<Longrightarrow> fair outs m"
  by (simp add: fair_def)

lemma WriteBytes_fair:
  "fair outs (length bs + m) \<Longrightarrow>
     \<exists>outs'. WriteBytes bs outs chan = Some (Status_OK, outs', chan @ bs) \<and> fair outs' m"
proof (induction bs outs chan rule: WriteBytes.induct)
  case (4 b bs k outs chan)
  let ?n = "min k (length (b # bs))"
  have "fair outs (length (drop ?n (b # bs)) + m)"
    using 4(2) by (auto intro: fair_mono)
  with 4 show ?case by (simp add: Let_def del: length_drop drop_Cons' take_Cons')
qed auto

lemma ReadBytes_fair:
  "fair outs (n + m) \<Longrightarrow> n \<le> length chan \<Longrightarrow>
     \<exists>outs'. ReadBytes n got outs chan = Some (Status_OK, got @ take n chan, outs', drop n chan) \<and> fair outs' m"
proof (induction n got outs chan rule: ReadBytes.induct)
  case (4 n got k outs chan)
  let ?n = "min k (min (Suc n) (length chan))"
  have n: "0 < ?n" "?n \<le> Suc n" using 4(2,3) by auto
  have f: "fair outs (n + m)" using 4(2) by simp
  have "fair outs (Suc n - ?n + m)" by (rule fair_mono [OF f]) (use n in linarith)
  moreover have "Suc n - ?n \<le> length (drop ?n chan)" using 4(3) by simp
  ultimately obtain outs' where
    "ReadBytes (Suc n - ?n) (got @ take ?n chan) outs (drop ?n chan) =
       Some (Status_OK, (got @ take ?n chan) @ take (Suc n - ?n) (drop ?n chan), outs',
             drop (Suc n - ?n) (drop ?n chan))" "fair outs' m"
    using 4(1) [OF refl] n by fastforce
  moreover have "take ?n chan @ take (Suc n - ?n) (drop ?n chan) = take (Suc n) chan"
    using n(2) by (metis le_add_diff_inverse take_add)
  moreover have "drop (Suc n - ?n) (drop ?n chan) = drop (Suc n) chan" using n(2) by simp
  ultimately show ?case using n by (simp add: Let_def)
qed auto

text \<open>A stream that ends too early makes the read fail.\<close>

lemma ReadBytes_short:
  "fair outs (Suc (length chan)) \<Longrightarrow> length chan < n \<Longrightarrow>
     \<exists>s got' outs' chan'. ReadBytes n got outs chan = Some (s, got', outs', chan') \<and> \<not> st_ok s"
proof (induction n got outs chan rule: ReadBytes.induct)
  case (4 n got k outs chan)
  let ?n = "min k (min (Suc n) (length chan))"
  show ?case
  proof (cases "chan = []")
    case True
    then show ?thesis by (simp add: Let_def IOError_def mk_status_def st_ok_def)
  next
    case False
    then have n: "0 < ?n" using 4(2) by auto
    have f: "fair outs (length chan)" using 4(2) by simp
    have "Suc (length (drop ?n chan)) \<le> length chan" using n False by (simp add: Suc_le_eq)
    from fair_mono [OF f this] have "fair outs (Suc (length (drop ?n chan)))" .
    moreover have "length (drop ?n chan) < Suc n - ?n"
      using 4(3) n by auto
    ultimately obtain s g o' c' where "\<not> st_ok s"
      "ReadBytes (Suc n - ?n) (got @ take ?n chan) outs (drop ?n chan) = Some (s, g, o', c')"
      using 4(1) [OF refl] n by fastforce
    with n show ?thesis by (auto simp: Let_def IOError_def mk_status_def st_ok_def)
  qed
qed (auto simp: IOError_def mk_status_def st_ok_def)

section \<open>Round trips\<close>

definition wire :: "int \<Rightarrow> byte list \<Rightarrow> byte list" where
  "wire type bytes = int64_bytes kPlasmaProtocolVersion @ int64_bytes type @
     int64_bytes (int (length bytes)) @ bytes"

lemma length_wire [simp]: "length (wire type bytes) = 24 + length bytes"
  by (simp add: wire_def)

lemma then_write_OK [simp]: "then_write (Some (Status_OK, outs, chan)) bs = WriteBytes bs outs chan"
  by (simp add: then_write_def)

lemma WriteMessage_fair:
  assumes "fair outs (24 + length bytes + m)" and "length bytes < 2 ^ 63"
  shows "\<exists>outs'. WriteMessage type (int (length bytes)) bytes outs chan =
           Inr (Some (Status_OK, outs', chan @ wire type bytes)) \<and> fair outs' m"
proof -
  let ?v = "int64_bytes kPlasmaProtocolVersion" and ?t = "int64_bytes type"
    and ?l = "int64_bytes (int (length bytes))"
  obtain o1 where 1: "WriteBytes ?v outs chan = Some (Status_OK, o1, chan @ ?v)" "fair o1 (16 + length bytes + m)"
    using WriteBytes_fair [of outs ?v "16 + length bytes + m" chan] assms(1) by (auto simp: add.assoc)
  obtain o2 where 2: "WriteBytes ?t o1 (chan @ ?v) = Some (Status_OK, o2, (chan @ ?v) @ ?t)" "fair o2 (8 + length bytes + m)"
    using WriteBytes_fair [of o1 ?t "8 + length bytes + m" "chan @ ?v"] 1(2) by (auto simp: add.assoc)
  obtain o3 where 3: "WriteBytes ?l o2 ((chan @ ?v) @ ?t) = Some (Status_OK, o3, ((chan @ ?v) @ ?t) @ ?l)" "fair o3 (length bytes + m)"
    using WriteBytes_fair [of o2 ?l "length bytes + m" "(chan @ ?v) @ ?t"] 2(2) by (auto simp: add.assoc)
  obtain o4 where 4: "WriteBytes bytes o3 (((chan @ ?v) @ ?t) @ ?l) = Some (Status_OK, o4, (((chan @ ?v) @ ?t) @ ?l) @ bytes)" "fair o4 m"
    using WriteBytes_fair [OF 3(2)] by blast
  have "uint64_of (int (length bytes)) = length bytes" using assms(2) by (simp add: uint64_of_int)
  with 1 2 3 4 show ?thesis by (simp add: WriteMessage_def Let_def wire_def)
qed

lemma ReadMessage_fair:
  assumes "fair outs (24 + length bytes + m)" and "in_int64 type" and "length bytes < 2 ^ 63"
  shows "\<exists>outs'. ReadMessage buffer outs (wire type bytes @ rest) =
     Inr (Some \<lparr>ro_status = Status_OK, ro_type = type,
                ro_buffer = bytes @ drop (length bytes) buffer, ro_outs = outs', ro_chan = rest\<rparr>) \<and> fair outs' m"
proof -
  let ?v = "int64_bytes kPlasmaProtocolVersion" and ?t = "int64_bytes type"
    and ?l = "int64_bytes (int (length bytes))"
  obtain o1 where 1: "ReadBytes 8 [] outs (wire type bytes @ rest) = Some (Status_OK, ?v, o1, ?t @ ?l @ bytes @ rest)"
      "fair o1 (16 + length bytes + m)"
    using ReadBytes_fair [of outs 8 "16 + length bytes + m" "wire type bytes @ rest" "[]"] assms(1)
    by (auto simp: wire_def add.assoc)
  obtain o2 where 2: "ReadBytes 8 [] o1 (?t @ ?l @ bytes @ rest) = Some (Status_OK, ?t, o2, ?l @ bytes @ rest)"
      "fair o2 (8 + length bytes + m)"
    using ReadBytes_fair [of o1 8 "8 + length bytes + m" "?t @ ?l @ bytes @ rest" "[]"] 1(2)
    by (auto simp: add.assoc)
  obtain o3 where 3: "ReadBytes 8 [] o2 (?l @ bytes @ rest) = Some (Status_OK, ?l, o3, bytes @ rest)"
      "fair o3 (length bytes + m)"
    using ReadBytes_fair [of o2 8 "length bytes + m" "?l @ bytes @ rest" "[]"] 2(2) by (auto simp: add.assoc)
  obtain o4 where 4: "ReadBytes (length bytes) [] o3 (bytes @ rest) = Some (Status_OK, bytes, o4, rest)" "fair o4 m"
    using ReadBytes_fair [OF 3(2), of "bytes @ rest" "[]"] by auto
  have v: "bytes_int64 ?v = kPlasmaProtocolVersion"
    by (rule bytes_int64_bytes) (simp add: in_int64_def kPlasmaProtocolVersion_def)
  have l: "bytes_int64 ?l = int (length bytes)" "uint64_of (int (length bytes)) = length bytes"
    "\<not> max_vector_size < length bytes"
    using assms(3) by (auto simp: bytes_int64_bytes in_int64_def uint64_of_int max_vector_size_def)
  have "bytes @ drop (length bytes) (if length buffer < length bytes
      then buffer @ replicate (length bytes - length buffer) 0 else buffer) = bytes @ drop (length bytes) buffer"
    by simp
  with 1 2 3 4 v l bytes_int64_bytes [OF assms(2)] show ?thesis
    by (simp add: ReadMessage_def Let_def)
qed

text \<open>
  C16. A message written to a socket under any fragmentation and any retries, and read back
  under any other, arrives with its type and its bytes; both sides return, and what follows on
  the stream is left for the next message.
\<close>
theorem message_roundtrip:
  assumes "in_int64 type" and "length bytes < 2 ^ 63"
    and "fair wouts (24 + length bytes)" and "fair routs (24 + length bytes)"
  shows "\<exists>wouts' w r. WriteMessage type (int (length bytes)) bytes wouts chan =
             Inr (Some (Status_OK, wouts', chan @ w)) \<and>
           ReadMessage buffer routs (w @ rest) = Inr (Some r) \<and> ro_status r = Status_OK \<and>
           ro_type r = type \<and> take (length bytes) (ro_buffer r) = bytes \<and> ro_chan r = rest"
proof -
  obtain wouts' where w: "WriteMessage type (int (length bytes)) bytes wouts chan =
      Inr (Some (Status_OK, wouts', chan @ wire type bytes))"
    using WriteMessage_fair [of wouts bytes 0 type chan] assms(2,3) by auto
  obtain outs' where r: "ReadMessage buffer routs (wire type bytes @ rest) =
     Inr (Some \<lparr>ro_status = Status_OK, ro_type = type,
                ro_buffer = bytes @ drop (length bytes) buffer, ro_outs = outs', ro_chan = rest\<rparr>)"
    using ReadMessage_fair [of routs bytes 0 type buffer rest] assms by auto
  show ?thesis
    by (rule exI [of _ wouts'], rule exI [of _ "wire type bytes"]) (use w r in simp)
qed

theorem message_roundtrip_witness:
  "\<exists>wouts' w r. WriteMessage 9 2 [65, 66] (IO_err EINTR # replicate 30 (IO_n 3)) [] =
       Inr (Some (Status_OK, wouts', [] @ w)) \<and>
     ReadMessage [] (replicate 30 (IO_n 1)) (w @ [7]) = Inr (Some r) \<and> ro_type r = 9 \<and>
     take (length [65 :: byte, 66]) (ro_buffer r) = [65, 66] \<and> ro_chan r = [7]"
proof -
  have "fair (IO_err EINTR # replicate 30 (IO_n 3)) 26" "fair (replicate 30 (IO_n 1)) 26"
    by (simp_all add: fair_def errno_retry_def list_all_iff)
  with message_roundtrip [of 9 "[65, 66]" "IO_err EINTR # replicate 30 (IO_n 3)" "replicate 30 (IO_n 1)" "[]" "[]" "[7]"]
  show ?thesis by (auto simp: in_int64_def)
qed

text \<open>Reading from a socket whose peer hangs up after \<open>c\<close>: the bytes are there, or an error is returned.\<close>

lemma ReadBytes_cut:
  assumes "fair outs (Suc (n + m))" and "length c \<le> n + m"
  obtains (short) s g outs' c' where "length c < n" and "ReadBytes n [] outs c = Some (s, g, outs', c')" and "\<not> st_ok s"
  | (full) outs' where "n \<le> length c" and "ReadBytes n [] outs c = Some (Status_OK, take n c, outs', drop n c)" and "fair outs' (Suc m)"
proof (cases "length c < n")
  case True
  then have "fair outs (Suc (length c))" by (intro fair_mono [OF assms(1)]) simp
  from ReadBytes_short [OF this True] show thesis using short True by blast
next
  case False
  with ReadBytes_fair [of outs n "Suc m" c "[]"] assms(1) show thesis using full by auto
qed

text \<open>
  C29. If the peer hangs up in the middle of a message, wherever that is, \<open>ReadMessage\<close> returns
  an error and reports the type \<open>PlasmaDisconnectClient\<close>; it never delivers part of a message.
\<close>
theorem truncated_message_disconnects:
  assumes "in_int64 type" and "length bytes < 2 ^ 63" and "k < 24 + length bytes"
    and "fair routs (25 + length bytes)"
  shows "\<exists>r. ReadMessage buffer routs (take k (wire type bytes)) = Inr (Some r) \<and>
             \<not> st_ok (ro_status r) \<and> ro_type r = disconnect_code"
proof -
  let ?v = "int64_bytes kPlasmaProtocolVersion" and ?l = "int64_bytes (int (length bytes))" and ?n = "length bytes"
  define c where "c = take k (wire type bytes)"
  have len: "length c < 24 + ?n" using assms(3) by (simp add: c_def)
  have v: "bytes_int64 ?v = kPlasmaProtocolVersion" and l: "bytes_int64 ?l = int ?n" "uint64_of (int ?n) = ?n" "\<not> max_vector_size < ?n"
    using assms(2) by (auto simp: bytes_int64_bytes in_int64_def kPlasmaProtocolVersion_def uint64_of_int max_vector_size_def)
  note defs = ReadMessage_def c_def [symmetric] Let_def
  have "fair routs (Suc (8 + (16 + ?n)))" and "length c \<le> 8 + (16 + ?n)" using assms(4) len by simp_all
  then show ?thesis
  proof (cases rule: ReadBytes_cut)
    case (full o1)
    then have "take 8 c = ?v" by (auto simp: c_def wire_def take_append)
    note 1 = full(2) [unfolded this]
    have "fair o1 (Suc (8 + (8 + ?n)))" and "length (drop 8 c) \<le> 8 + (8 + ?n)" using full(3) len by simp_all
    then show ?thesis
    proof (cases rule: ReadBytes_cut)
      case (full o2)
      note 2 = full(2)
      have "fair o2 (Suc (8 + ?n))" and "length (drop 8 (drop 8 c)) \<le> 8 + ?n" using full(3) len by simp_all
      then show ?thesis
      proof (cases rule: ReadBytes_cut)
        case (full o3)
        have k: "length c = k" using assms(3) by (simp add: c_def)
        then have "24 \<le> k" using full(1) by simp
        then have lo: "24 \<le> length c" and "take 8 (drop 8 (drop 8 c)) = ?l" by (simp_all add: k) (simp add: c_def wire_def take_append drop_take)
        note 3 = full(2) [unfolded this(2)]
        have "fair o3 (Suc (?n + 0))" and "length (drop 8 (drop 8 (drop 8 c))) \<le> ?n + 0" using full(3) len by simp_all
        then show ?thesis
          by (cases rule: ReadBytes_cut) (use 1 2 3 v l len lo in \<open>auto simp: defs\<close>)
      qed (use 1 2 v len in \<open>auto simp: defs\<close>)
    qed (use 1 v len in \<open>auto simp: defs\<close>)
  qed (use len in \<open>auto simp: defs\<close>)
qed

theorem truncated_message_disconnects_witness:
  "\<exists>r. ReadMessage [] (replicate 30 (IO_n 4)) (take 25 (wire 9 [65, 66])) = Inr (Some r) \<and>
       \<not> st_ok (ro_status r) \<and> ro_type r = disconnect_code"
proof -
  have "fair (replicate 30 (IO_n 4)) 27" by (simp add: fair_def list_all_iff)
  with truncated_message_disconnects [of 9 "[65, 66]" 25 "replicate 30 (IO_n 4)" "[]"]
  show ?thesis by (simp add: in_int64_def)
qed

text \<open>The descriptors a message carries, in the order of its rights headers.\<close>

definition carried :: "(bool \<times> int list) list \<Rightarrow> int list" where
  "carried hs = concat (map snd (filter fst hs))"

lemma recv_take_found:
  "fd \<noteq> -1 \<Longrightarrow> recv_take fds (fd, bad, closed) = (fd, bad \<or> fds \<noteq> [], closed @ fds)"
  by (induction fds arbitrary: bad closed) auto

lemma recv_take_append: "recv_take (xs @ ys) st = recv_take ys (recv_take xs st)"
  by (induction xs st rule: recv_take.induct) auto

lemma recv_headers_carried: "recv_headers hs st = recv_take (carried hs) st"
proof (induction hs arbitrary: st)
  case (Cons h hs)
  then show ?case by (cases h) (simp add: carried_def recv_take_append)
qed (simp add: carried_def)

text \<open>
  \<open>recv_fd\<close> returns a descriptor exactly when the message carries one; when it carries
  several, all of them are closed. No received descriptor is ever both kept and closed, and
  none is forgotten.
\<close>
theorem recv_fd_no_leak:
  assumes "-1 \<notin> set (carried hs)" and "\<forall>e \<in> set es. errno_retry e"
  shows "recv_fd (map RecvErr es @ RecvMsg hs # outs) = Some (
    case carried hs of
      [] \<Rightarrow> (-1, [], outs)
    | [fd] \<Rightarrow> (fd, [], outs)
    | fd # fds \<Rightarrow> (-1, fds @ [fd], outs))"
  using assms(2)
proof (induction es)
  case Nil
  show ?case
  proof (cases "carried hs")
    case (Cons fd fds)
    with assms(1) show ?thesis
      by (auto simp: recv_headers_carried recv_take_found split: list.splits)
  qed (simp add: recv_headers_carried)
qed simp

theorem recv_fd_no_leak_witness:
  "recv_fd (map RecvErr [EINTR] @ RecvMsg [(True, [5]), (False, [9]), (True, [6])] # []) = Some (-1, [6, 5], [])"
  by (subst recv_fd_no_leak) (simp_all add: carried_def errno_retry_def)

end
