(* ===== verification/Protocol.thy ===== *)
theory Protocol
  imports Io
begin

text \<open>
  The messages between clients and the store (src/arrow/cpp/src/plasma/protocol.cc, with the
  schema in plasma.fbs and common.fbs) and the notification buffers (plasma.cc).

  A flatbuffer table is the list of its slots; reading an absent slot gives the default, and a
  null pointer for strings, vectors and structs. How a table is laid out in bytes is the
  business of the flatbuffers library: \<open>enc\<close> and \<open>get_root\<close> are parameters, and the only thing
  used of them is that reading the buffer that was built gives the table back (\<open>codec_ok\<close>).

  A \<open>Send\<close> function is given the sender: the function that writes a message of a type to a
  socket. \<open>DCHECK\<close>s are not part of the release build and are left out.

  The lemmas show that every \<open>Read\<close> function recovers what the \<open>Send\<close> function of its message
  was given, and under which conditions on the arguments.
\<close>

section \<open>Tables\<close>

datatype MessageType =
    PlasmaDisconnectClient
  | PlasmaCreateRequest
  | PlasmaCreateReply
  | PlasmaCreateAndSealRequest
  | PlasmaCreateAndSealReply
  | PlasmaAbortRequest
  | PlasmaAbortReply
  | PlasmaSealRequest
  | PlasmaSealReply
  | PlasmaGetRequest
  | PlasmaGetReply
  | PlasmaReleaseRequest
  | PlasmaReleaseReply
  | PlasmaDeleteRequest
  | PlasmaDeleteReply
  | PlasmaContainsRequest
  | PlasmaContainsReply
  | PlasmaListRequest
  | PlasmaListReply
  | PlasmaConnectRequest
  | PlasmaConnectReply
  | PlasmaEvictRequest
  | PlasmaEvictReply
  | PlasmaSubscribeRequest
  | PlasmaUnsubscribeRequest
  | PlasmaDataRequest
  | PlasmaDataReply
  | PlasmaNotification
  | PlasmaSetOptionsRequest
  | PlasmaSetOptionsReply
  | PlasmaGetDebugStringRequest
  | PlasmaGetDebugStringReply
  | PlasmaCreateAndSealBatchRequest
  | PlasmaCreateAndSealBatchReply
  | PlasmaRefreshLRURequest
  | PlasmaRefreshLRUReply

definition message_types :: "MessageType list" where
  "message_types =
     [PlasmaDisconnectClient, PlasmaCreateRequest, PlasmaCreateReply, PlasmaCreateAndSealRequest,
      PlasmaCreateAndSealReply, PlasmaAbortRequest, PlasmaAbortReply, PlasmaSealRequest,
      PlasmaSealReply, PlasmaGetRequest, PlasmaGetReply, PlasmaReleaseRequest,
      PlasmaReleaseReply, PlasmaDeleteRequest, PlasmaDeleteReply, PlasmaContainsRequest,
      PlasmaContainsReply, PlasmaListRequest, PlasmaListReply, PlasmaConnectRequest,
      PlasmaConnectReply, PlasmaEvictRequest, PlasmaEvictReply, PlasmaSubscribeRequest,
      PlasmaUnsubscribeRequest, PlasmaDataRequest, PlasmaDataReply, PlasmaNotification,
      PlasmaSetOptionsRequest, PlasmaSetOptionsReply, PlasmaGetDebugStringRequest, PlasmaGetDebugStringReply,
      PlasmaCreateAndSealBatchRequest, PlasmaCreateAndSealBatchReply, PlasmaRefreshLRURequest, PlasmaRefreshLRUReply]"

text \<open>The wire value of a type is its position in the enumeration.\<close>

definition message_code :: "MessageType \<Rightarrow> int" where
  "message_code m = int (length (takeWhile (\<lambda>x. x \<noteq> m) message_types))"

definition message_of :: "int \<Rightarrow> MessageType option" where
  "message_of c = (if 0 \<le> c \<and> nat c < length message_types then Some (message_types ! nat c) else None)"

datatype PlasmaError = OK | ObjectExists | ObjectNotFound | OutOfMemory | ObjectNotSealed | ObjectInUse

fun pe_code :: "PlasmaError \<Rightarrow> int" where
  "pe_code OK = 0"
| "pe_code ObjectExists = 1"
| "pe_code ObjectNotFound = 2"
| "pe_code OutOfMemory = 3"
| "pe_code ObjectNotSealed = 4"
| "pe_code ObjectInUse = 5"

record PlasmaObjectSpec =
  sp_segment_index :: int
  sp_data_offset :: nat
  sp_data_size :: nat
  sp_metadata_offset :: nat
  sp_metadata_size :: nat
  sp_device_num :: int

datatype fb_slot =
    FbAbsent
  | FbScalar int
  | FbString "byte list"
  | FbStrings "byte list list"
  | FbInts "int list"
  | FbSpec PlasmaObjectSpec
  | FbSpecs "PlasmaObjectSpec list"
  | FbTables "fb_slot list list"

type_synonym fb_table = "fb_slot list"

definition fb_field :: "fb_table \<Rightarrow> nat \<Rightarrow> fb_slot" where
  "fb_field t i = (if i < length t then t ! i else FbAbsent)"

fun slot_scalar :: "fb_slot \<Rightarrow> int res" where
  "slot_scalar (FbScalar n) = Inr n"
| "slot_scalar FbAbsent = Inr 0"
| "slot_scalar _ = Inl BadTable"

fun slot_string :: "fb_slot \<Rightarrow> byte list res" where
  "slot_string (FbString s) = Inr s"
| "slot_string FbAbsent = Inl NullDeref"
| "slot_string _ = Inl BadTable"

fun slot_strings :: "fb_slot \<Rightarrow> byte list list res" where
  "slot_strings (FbStrings s) = Inr s"
| "slot_strings FbAbsent = Inl NullDeref"
| "slot_strings _ = Inl BadTable"

fun slot_ints :: "fb_slot \<Rightarrow> int list res" where
  "slot_ints (FbInts s) = Inr s"
| "slot_ints FbAbsent = Inl NullDeref"
| "slot_ints _ = Inl BadTable"

fun slot_spec :: "fb_slot \<Rightarrow> PlasmaObjectSpec res" where
  "slot_spec (FbSpec s) = Inr s"
| "slot_spec FbAbsent = Inl NullDeref"
| "slot_spec _ = Inl BadTable"

fun slot_specs :: "fb_slot \<Rightarrow> PlasmaObjectSpec list res" where
  "slot_specs (FbSpecs s) = Inr s"
| "slot_specs FbAbsent = Inl NullDeref"
| "slot_specs _ = Inl BadTable"

fun slot_tables :: "fb_slot \<Rightarrow> fb_table list res" where
  "slot_tables (FbTables s) = Inr s"
| "slot_tables FbAbsent = Inl NullDeref"
| "slot_tables _ = Inl BadTable"

abbreviation fb_scalar :: "fb_table \<Rightarrow> nat \<Rightarrow> int res" where
  "fb_scalar t i \<equiv> slot_scalar (fb_field t i)"

abbreviation fb_string :: "fb_table \<Rightarrow> nat \<Rightarrow> byte list res" where
  "fb_string t i \<equiv> slot_string (fb_field t i)"

abbreviation fb_strings :: "fb_table \<Rightarrow> nat \<Rightarrow> byte list list res" where
  "fb_strings t i \<equiv> slot_strings (fb_field t i)"

text \<open>\<open>Get(i)\<close> on a vector: no bounds check in a release build.\<close>

definition vec_get :: "'a list \<Rightarrow> nat \<Rightarrow> 'a res" where
  "vec_get xs i = (if i < length xs then Inr (xs ! i) else Inl OutOfBounds)"

fun rmap :: "('a \<Rightarrow> 'b res) \<Rightarrow> 'a list \<Rightarrow> 'b list res" where
  "rmap f [] = Inr []"
| "rmap f (x # xs) = rbind (f x) (\<lambda>y. rbind (rmap f xs) (\<lambda>ys. Inr (y # ys)))"

definition chars :: "string \<Rightarrow> byte list" where
  "chars s = map (\<lambda>c. of_nat (of_char c)) s"

definition text_of :: "byte list \<Rightarrow> string" where
  "text_of bs = map (\<lambda>b. char_of (unat b)) bs"

section \<open>Helpers of the protocol\<close>

type_synonym 'r sender = "MessageType \<Rightarrow> fb_table \<Rightarrow> 'r"

definition ToFlatbuffer_ids :: "UniqueID list \<Rightarrow> nat \<Rightarrow> fb_slot" where
  "ToFlatbuffer_ids object_ids num_objects = FbStrings (map id_binary (take num_objects object_ids))"

definition ToFlatbuffer_strings :: "byte list list \<Rightarrow> fb_slot" where
  "ToFlatbuffer_strings strings = FbStrings strings"

definition PlasmaReceive ::
    "MessageType \<Rightarrow> byte list \<Rightarrow> io_out list \<Rightarrow> byte list \<Rightarrow> (Status \<times> byte list \<times> io_out list \<times> byte list) option res" where
  "PlasmaReceive message_type buffer outs chan =
     rbind (ReadMessage buffer outs chan) (\<lambda>r.
     case r of
       None \<Rightarrow> Inr None
     | Some r \<Rightarrow>
         if \<not> st_ok (ro_status r) then Inr (Some (ro_status r, ro_buffer r, ro_outs r, ro_chan r))
         else rbind (check (ro_type r = message_code message_type) ''type == message_type'') (\<lambda>_.
              Inr (Some (Status_OK, ro_buffer r, ro_outs r, ro_chan r))))"

text \<open>\<open>ToVector\<close> trusts the count of the message.\<close>

definition ToVector :: "int \<Rightarrow> (nat \<Rightarrow> 'a res) \<Rightarrow> 'a list res" where
  "ToVector count getter =
     (if count < 0 then Inl LengthError else rmap getter [0 ..< nat count])"

definition ConvertToVector :: "'b list \<Rightarrow> ('b \<Rightarrow> 'a res) \<Rightarrow> 'a list res" where
  "ConvertToVector fbvector converter = rmap converter fbvector"

definition PlasmaSend ::
    "(fb_table \<Rightarrow> byte list) \<Rightarrow> io_out list \<Rightarrow> byte list \<Rightarrow>
       ((Status \<times> io_out list \<times> byte list) option res) sender" where
  "PlasmaSend enc outs chan message_type message =
     WriteMessage (message_code message_type) (int (length (enc message))) (enc message) outs chan"

definition PlasmaErrorStatus :: "int \<Rightarrow> Status res" where
  "PlasmaErrorStatus plasma_error =
     (if plasma_error = pe_code OK then Inr Status_OK
      else if plasma_error = pe_code ObjectExists
        then Inr (MakePlasmaError PlasmaObjectExists ''object already exists in the plasma store'')
      else if plasma_error = pe_code ObjectNotFound
        then Inr (MakePlasmaError PlasmaObjectNotFound ''object does not exist in the plasma store'')
      else if plasma_error = pe_code OutOfMemory
        then Inr (MakePlasmaError PlasmaStoreFull ''object does not fit in the plasma store'')
      else Inl (CheckFailed ''unknown plasma error code''))"

definition id_field :: "fb_table \<Rightarrow> nat \<Rightarrow> UniqueID res" where
  "id_field t i = rbind (fb_string t i) from_binary"

definition spec_of :: "PlasmaObject \<Rightarrow> PlasmaObjectSpec" where
  "spec_of object =
     \<lparr>sp_segment_index = o_store_fd object, sp_data_offset = uint64_of (o_data_offset object),
      sp_data_size = uint64_of (o_data_size object), sp_metadata_offset = uint64_of (o_metadata_offset object),
      sp_metadata_size = uint64_of (o_metadata_size object), sp_device_num = o_device_num object\<rparr>"

definition object_of :: "PlasmaObjectSpec \<Rightarrow> PlasmaObject" where
  "object_of s =
     \<lparr>o_store_fd = sp_segment_index s, o_data_offset = int64_of (int (sp_data_offset s)),
      o_metadata_offset = int64_of (int (sp_metadata_offset s)),
      o_data_size = int64_of (int (sp_data_size s)), o_metadata_size = int64_of (int (sp_metadata_size s)),
      o_device_num = sp_device_num s\<rparr>"

section \<open>Options and debugging\<close>

definition SendSetOptionsRequest :: "'r sender \<Rightarrow> string \<Rightarrow> int \<Rightarrow> 'r" where
  "SendSetOptionsRequest send client_name output_memory_limit =
     send PlasmaSetOptionsRequest [FbString (chars client_name), FbScalar output_memory_limit]"

definition ReadSetOptionsRequest :: "fb_table \<Rightarrow> (string \<times> int) res" where
  "ReadSetOptionsRequest t =
     rbind (fb_string t 0) (\<lambda>client_name. rbind (fb_scalar t 1) (\<lambda>output_memory_quota.
     Inr (text_of client_name, output_memory_quota)))"

definition SendSetOptionsReply :: "'r sender \<Rightarrow> PlasmaError \<Rightarrow> 'r" where
  "SendSetOptionsReply send error = send PlasmaSetOptionsReply [FbScalar (pe_code error)]"

definition ReadSetOptionsReply :: "fb_table \<Rightarrow> Status res" where
  "ReadSetOptionsReply t = rbind (fb_scalar t 0) PlasmaErrorStatus"

definition SendGetDebugStringRequest :: "'r sender \<Rightarrow> 'r" where
  "SendGetDebugStringRequest send = send PlasmaGetDebugStringRequest []"

definition SendGetDebugStringReply :: "'r sender \<Rightarrow> string \<Rightarrow> 'r" where
  "SendGetDebugStringReply send debug_string = send PlasmaGetDebugStringReply [FbString (chars debug_string)]"

definition ReadGetDebugStringReply :: "fb_table \<Rightarrow> string res" where
  "ReadGetDebugStringReply t = rbind (fb_string t 0) (\<lambda>s. Inr (text_of s))"

section \<open>Create, seal and abort\<close>

definition SendCreateRequest :: "'r sender \<Rightarrow> UniqueID \<Rightarrow> bool \<Rightarrow> int \<Rightarrow> int \<Rightarrow> int \<Rightarrow> 'r" where
  "SendCreateRequest send object_id evict_if_full ds ms dev =
     send PlasmaCreateRequest
       [FbString (id_binary object_id), FbScalar (if evict_if_full then 1 else 0),
        FbScalar (int (uint64_of ds)), FbScalar (int (uint64_of ms)), FbScalar dev]"

definition ReadCreateRequest :: "fb_table \<Rightarrow> (UniqueID \<times> bool \<times> int \<times> int \<times> int) res" where
  "ReadCreateRequest t =
     rbind (fb_scalar t 1) (\<lambda>evict. rbind (fb_scalar t 2) (\<lambda>ds. rbind (fb_scalar t 3) (\<lambda>ms.
     rbind (id_field t 0) (\<lambda>object_id. rbind (fb_scalar t 4) (\<lambda>dev.
     Inr (object_id, evict \<noteq> 0, int64_of ds, int64_of ms, dev))))))"

text \<open>Without CUDA a non-zero device number is fatal.\<close>

definition SendCreateReply :: "'r sender \<Rightarrow> UniqueID \<Rightarrow> PlasmaObject \<Rightarrow> PlasmaError \<Rightarrow> int \<Rightarrow> 'r res" where
  "SendCreateReply send object_id object error_code mmap_size =
     rbind (check (o_device_num object = 0) ''This should be unreachable.'') (\<lambda>_.
     Inr (send PlasmaCreateReply
       [FbString (id_binary object_id), FbSpec (spec_of object), FbScalar (pe_code error_code),
        FbScalar (o_store_fd object), FbScalar mmap_size]))"

definition ReadCreateReply :: "fb_table \<Rightarrow> (Status \<times> UniqueID \<times> PlasmaObject \<times> int \<times> int) res" where
  "ReadCreateReply t =
     rbind (id_field t 0) (\<lambda>object_id. rbind (slot_spec (fb_field t 1)) (\<lambda>spec.
     rbind (fb_scalar t 3) (\<lambda>store_fd. rbind (fb_scalar t 4) (\<lambda>mmap_size.
     rbind (fb_scalar t 2) (\<lambda>err. rbind (PlasmaErrorStatus err) (\<lambda>s.
     Inr (s, object_id, object_of spec, store_fd, mmap_size)))))))"

definition SendCreateAndSealRequest ::
    "'r sender \<Rightarrow> UniqueID \<Rightarrow> bool \<Rightarrow> byte list \<Rightarrow> byte list \<Rightarrow> byte list \<Rightarrow> 'r" where
  "SendCreateAndSealRequest send object_id evict_if_full data metadata digest =
     send PlasmaCreateAndSealRequest
       [FbString (id_binary object_id), FbScalar (if evict_if_full then 1 else 0), FbString data,
        FbString metadata, FbString (take kDigestSize digest)]"

definition ReadCreateAndSealRequest ::
    "fb_table \<Rightarrow> (UniqueID \<times> bool \<times> byte list \<times> byte list \<times> byte list) res" where
  "ReadCreateAndSealRequest t =
     rbind (id_field t 0) (\<lambda>object_id. rbind (fb_scalar t 1) (\<lambda>evict. rbind (fb_string t 2) (\<lambda>data.
     rbind (fb_string t 3) (\<lambda>metadata. rbind (fb_string t 4) (\<lambda>digest.
     rbind (check (length digest = kDigestSize) ''message->digest()->size() == kDigestSize'') (\<lambda>_.
     Inr (object_id, evict \<noteq> 0, data, metadata, digest)))))))"

definition SendCreateAndSealBatchRequest ::
    "'r sender \<Rightarrow> UniqueID list \<Rightarrow> bool \<Rightarrow> byte list list \<Rightarrow> byte list list \<Rightarrow> byte list list \<Rightarrow> 'r" where
  "SendCreateAndSealBatchRequest send object_ids evict_if_full data metadata digests =
     send PlasmaCreateAndSealBatchRequest
       [ToFlatbuffer_ids object_ids (length object_ids), FbScalar (if evict_if_full then 1 else 0),
        ToFlatbuffer_strings data, ToFlatbuffer_strings metadata, ToFlatbuffer_strings digests]"

definition ReadCreateAndSealBatchRequest ::
    "fb_table \<Rightarrow> (UniqueID list \<times> bool \<times> byte list list \<times> byte list list \<times> byte list list) res" where
  "ReadCreateAndSealBatchRequest t =
     rbind (fb_scalar t 1) (\<lambda>evict.
     rbind (fb_strings t 0) (\<lambda>ids. rbind (ConvertToVector ids from_binary) (\<lambda>object_ids.
     rbind (fb_strings t 2) (\<lambda>data. rbind (fb_strings t 3) (\<lambda>metadata. rbind (fb_strings t 4) (\<lambda>digests.
     Inr (object_ids, evict \<noteq> 0, data, metadata, digests)))))))"

definition SendCreateAndSealReply :: "'r sender \<Rightarrow> PlasmaError \<Rightarrow> 'r" where
  "SendCreateAndSealReply send error = send PlasmaCreateAndSealReply [FbScalar (pe_code error)]"

definition ReadCreateAndSealReply :: "fb_table \<Rightarrow> Status res" where
  "ReadCreateAndSealReply t = rbind (fb_scalar t 0) PlasmaErrorStatus"

definition SendCreateAndSealBatchReply :: "'r sender \<Rightarrow> PlasmaError \<Rightarrow> 'r" where
  "SendCreateAndSealBatchReply send error = send PlasmaCreateAndSealBatchReply [FbScalar (pe_code error)]"

definition ReadCreateAndSealBatchReply :: "fb_table \<Rightarrow> Status res" where
  "ReadCreateAndSealBatchReply t = rbind (fb_scalar t 0) PlasmaErrorStatus"

definition SendAbortRequest :: "'r sender \<Rightarrow> UniqueID \<Rightarrow> 'r" where
  "SendAbortRequest send object_id = send PlasmaAbortRequest [FbString (id_binary object_id)]"

definition ReadAbortRequest :: "fb_table \<Rightarrow> UniqueID res" where
  "ReadAbortRequest t = id_field t 0"

definition SendAbortReply :: "'r sender \<Rightarrow> UniqueID \<Rightarrow> 'r" where
  "SendAbortReply send object_id = send PlasmaAbortReply [FbString (id_binary object_id)]"

definition ReadAbortReply :: "fb_table \<Rightarrow> UniqueID res" where
  "ReadAbortReply t = id_field t 0"

definition SendSealRequest :: "'r sender \<Rightarrow> UniqueID \<Rightarrow> byte list \<Rightarrow> 'r" where
  "SendSealRequest send object_id digest =
     send PlasmaSealRequest [FbString (id_binary object_id), FbString digest]"

definition ReadSealRequest :: "fb_table \<Rightarrow> (UniqueID \<times> byte list) res" where
  "ReadSealRequest t =
     rbind (id_field t 0) (\<lambda>object_id. rbind (fb_string t 1) (\<lambda>digest.
     rbind (check (length digest = kDigestSize) ''message->digest()->size() == kDigestSize'') (\<lambda>_.
     Inr (object_id, digest))))"

definition SendSealReply :: "'r sender \<Rightarrow> UniqueID \<Rightarrow> PlasmaError \<Rightarrow> 'r" where
  "SendSealReply send object_id error =
     send PlasmaSealReply [FbString (id_binary object_id), FbScalar (pe_code error)]"

definition ReadSealReply :: "fb_table \<Rightarrow> (Status \<times> UniqueID) res" where
  "ReadSealReply t =
     rbind (id_field t 0) (\<lambda>object_id. rbind (fb_scalar t 1) (\<lambda>err.
     rbind (PlasmaErrorStatus err) (\<lambda>s. Inr (s, object_id))))"

section \<open>Release, delete and contains\<close>

definition SendReleaseRequest :: "'r sender \<Rightarrow> UniqueID \<Rightarrow> 'r" where
  "SendReleaseRequest send object_id = send PlasmaReleaseRequest [FbString (id_binary object_id)]"

definition ReadReleaseRequest :: "fb_table \<Rightarrow> UniqueID res" where
  "ReadReleaseRequest t = id_field t 0"

definition SendReleaseReply :: "'r sender \<Rightarrow> UniqueID \<Rightarrow> PlasmaError \<Rightarrow> 'r" where
  "SendReleaseReply send object_id error =
     send PlasmaReleaseReply [FbString (id_binary object_id), FbScalar (pe_code error)]"

definition ReadReleaseReply :: "fb_table \<Rightarrow> (Status \<times> UniqueID) res" where
  "ReadReleaseReply t =
     rbind (id_field t 0) (\<lambda>object_id. rbind (fb_scalar t 1) (\<lambda>err.
     rbind (PlasmaErrorStatus err) (\<lambda>s. Inr (s, object_id))))"

definition SendDeleteRequest :: "'r sender \<Rightarrow> UniqueID list \<Rightarrow> 'r" where
  "SendDeleteRequest send object_ids =
     send PlasmaDeleteRequest
       [FbScalar (int32_of (int (length object_ids))), ToFlatbuffer_ids object_ids (length object_ids)]"

definition nth_id :: "byte list list \<Rightarrow> nat \<Rightarrow> UniqueID res" where
  "nth_id ids i = rbind (vec_get ids i) from_binary"

definition ReadDeleteRequest :: "fb_table \<Rightarrow> UniqueID list res" where
  "ReadDeleteRequest t =
     rbind (fb_scalar t 0) (\<lambda>count. rbind (fb_strings t 1) (\<lambda>ids. ToVector count (nth_id ids)))"

definition SendDeleteReply :: "'r sender \<Rightarrow> UniqueID list \<Rightarrow> PlasmaError list \<Rightarrow> 'r" where
  "SendDeleteReply send object_ids errors =
     send PlasmaDeleteReply
       [FbScalar (int32_of (int (length object_ids))), ToFlatbuffer_ids object_ids (length object_ids),
        FbInts (map pe_code (take (length object_ids) errors))]"

definition ReadDeleteReply :: "fb_table \<Rightarrow> (UniqueID list \<times> int list) res" where
  "ReadDeleteReply t =
     rbind (fb_scalar t 0) (\<lambda>count. rbind (fb_strings t 1) (\<lambda>ids. rbind (ToVector count (nth_id ids)) (\<lambda>object_ids.
     rbind (slot_ints (fb_field t 2)) (\<lambda>errs. rbind (ToVector count (vec_get errs)) (\<lambda>errors.
     Inr (object_ids, errors))))))"

definition SendContainsRequest :: "'r sender \<Rightarrow> UniqueID \<Rightarrow> 'r" where
  "SendContainsRequest send object_id = send PlasmaContainsRequest [FbString (id_binary object_id)]"

definition ReadContainsRequest :: "fb_table \<Rightarrow> UniqueID res" where
  "ReadContainsRequest t = id_field t 0"

definition SendContainsReply :: "'r sender \<Rightarrow> UniqueID \<Rightarrow> bool \<Rightarrow> 'r" where
  "SendContainsReply send object_id has_object =
     send PlasmaContainsReply [FbString (id_binary object_id), FbScalar (if has_object then 1 else 0)]"

definition ReadContainsReply :: "fb_table \<Rightarrow> (UniqueID \<times> bool) res" where
  "ReadContainsReply t =
     rbind (id_field t 0) (\<lambda>object_id. rbind (fb_scalar t 1) (\<lambda>has. Inr (object_id, has \<noteq> 0)))"

section \<open>List, connect and evict\<close>

definition SendListRequest :: "'r sender \<Rightarrow> 'r" where
  "SendListRequest send = send PlasmaListRequest []"

definition ReadListRequest :: "fb_table \<Rightarrow> unit res" where
  "ReadListRequest t = Inr ()"

text \<open>The \<open>ObjectInfo\<close> table of an entry; its deletion flag keeps the default.\<close>

definition list_info :: "UniqueID \<times> ObjectTableEntry \<Rightarrow> fb_table" where
  "list_info = (\<lambda>(i, e).
     [FbString (id_binary i), FbScalar (e_data_size e), FbScalar (e_metadata_size e), FbScalar (e_ref_count e),
      FbScalar (e_create_time e), FbScalar (e_construct_duration e),
      FbString (if e_state e = PLASMA_CREATED then [] else take kDigestSize (e_digest e))])"

definition SendListReply :: "'r sender \<Rightarrow> ObjectTable \<Rightarrow> 'r" where
  "SendListReply send objects = send PlasmaListReply [FbTables (map list_info objects)]"

definition list_entry :: "fb_table \<Rightarrow> (UniqueID \<times> ObjectTableEntry) res" where
  "list_entry o1 =
     rbind (id_field o1 0) (\<lambda>object_id. rbind (fb_scalar o1 1) (\<lambda>ds. rbind (fb_scalar o1 2) (\<lambda>ms.
     rbind (fb_scalar o1 3) (\<lambda>rc. rbind (fb_scalar o1 4) (\<lambda>ct. rbind (fb_scalar o1 5) (\<lambda>cd.
     rbind (fb_string o1 6) (\<lambda>digest.
     Inr (object_id, new_ObjectTableEntry\<lparr>e_data_size := ds, e_metadata_size := ms, e_ref_count := rc,
            e_create_time := ct, e_construct_duration := cd,
            e_state := (if digest = [] then PLASMA_CREATED else PLASMA_SEALED)\<rparr>))))))))"

definition ReadListReply :: "fb_table \<Rightarrow> ObjectTable \<Rightarrow> ObjectTable res" where
  "ReadListReply t objects =
     rbind (slot_tables (fb_field t 0)) (\<lambda>infos.
     rfold (\<lambda>o1 objects. rbind (list_entry o1) (\<lambda>(i, e). Inr (AList.update i e objects))) infos objects)"

definition SendConnectRequest :: "'r sender \<Rightarrow> 'r" where
  "SendConnectRequest send = send PlasmaConnectRequest []"

definition ReadConnectRequest :: "fb_table \<Rightarrow> unit res" where
  "ReadConnectRequest t = Inr ()"

definition SendConnectReply :: "'r sender \<Rightarrow> int \<Rightarrow> 'r" where
  "SendConnectReply send memory_capacity = send PlasmaConnectReply [FbScalar memory_capacity]"

definition ReadConnectReply :: "fb_table \<Rightarrow> int res" where
  "ReadConnectReply t = fb_scalar t 0"

definition SendEvictRequest :: "'r sender \<Rightarrow> int \<Rightarrow> 'r" where
  "SendEvictRequest send num_bytes = send PlasmaEvictRequest [FbScalar (int (uint64_of num_bytes))]"

definition ReadEvictRequest :: "fb_table \<Rightarrow> int res" where
  "ReadEvictRequest t = rbind (fb_scalar t 0) (\<lambda>n. Inr (int64_of n))"

definition SendEvictReply :: "'r sender \<Rightarrow> int \<Rightarrow> 'r" where
  "SendEvictReply send num_bytes = send PlasmaEvictReply [FbScalar (int (uint64_of num_bytes))]"

definition ReadEvictReply :: "fb_table \<Rightarrow> int res" where
  "ReadEvictReply t = rbind (fb_scalar t 0) (\<lambda>n. Inr (int64_of n))"

section \<open>Get\<close>

definition SendGetRequest :: "'r sender \<Rightarrow> UniqueID list \<Rightarrow> nat \<Rightarrow> int \<Rightarrow> 'r" where
  "SendGetRequest send object_ids num_objects timeout_ms =
     send PlasmaGetRequest [ToFlatbuffer_ids object_ids num_objects, FbScalar timeout_ms]"

definition ReadGetRequest :: "fb_table \<Rightarrow> (UniqueID list \<times> int) res" where
  "ReadGetRequest t =
     rbind (fb_strings t 0) (\<lambda>ids. rbind (ConvertToVector ids from_binary) (\<lambda>object_ids.
     rbind (fb_scalar t 1) (\<lambda>timeout_ms. Inr (object_ids, timeout_ms))))"

text \<open>\<open>plasma_objects[object_ids[i]]\<close> makes a value-initialised object for an absent key.\<close>

definition object_at :: "(UniqueID \<times> PlasmaObject) list \<Rightarrow> UniqueID \<Rightarrow> PlasmaObject" where
  "object_at plasma_objects i =
     (case map_of plasma_objects i of Some o1 \<Rightarrow> o1 | None \<Rightarrow> zero_PlasmaObject)"

definition SendGetReply ::
    "'r sender \<Rightarrow> UniqueID list \<Rightarrow> (UniqueID \<times> PlasmaObject) list \<Rightarrow> nat \<Rightarrow> int list \<Rightarrow> int list \<Rightarrow> 'r" where
  "SendGetReply send object_ids plasma_objects num_objects store_fds mmap_sizes =
     send PlasmaGetReply
       [ToFlatbuffer_ids object_ids num_objects,
        FbSpecs (map (\<lambda>i. spec_of (object_at plasma_objects i)) (take num_objects object_ids)),
        FbInts store_fds, FbInts mmap_sizes, FbTables []]"

definition ReadGetReply ::
    "fb_table \<Rightarrow> nat \<Rightarrow> (UniqueID list \<times> PlasmaObject list \<times> int list \<times> int list) res" where
  "ReadGetReply t num_objects =
     rbind (fb_strings t 0) (\<lambda>ids. rbind (rmap (nth_id ids) [0 ..< num_objects]) (\<lambda>object_ids.
     rbind (slot_specs (fb_field t 1)) (\<lambda>specs.
     rbind (rmap (\<lambda>i. rbind (vec_get specs i) (\<lambda>s. Inr (object_of s))) [0 ..< num_objects]) (\<lambda>plasma_objects.
     rbind (slot_ints (fb_field t 2)) (\<lambda>store_fds. rbind (slot_ints (fb_field t 3)) (\<lambda>mmap_sizes.
     rbind (check (length store_fds = length mmap_sizes)
              ''message->store_fds()->size() == message->mmap_sizes()->size()'') (\<lambda>_.
     Inr (object_ids, plasma_objects, store_fds, mmap_sizes))))))))"

section \<open>Subscribe, data and refresh\<close>

definition SendSubscribeRequest :: "'r sender \<Rightarrow> 'r" where
  "SendSubscribeRequest send = send PlasmaSubscribeRequest []"

definition SendDataRequest :: "'r sender \<Rightarrow> UniqueID \<Rightarrow> string \<Rightarrow> int \<Rightarrow> 'r" where
  "SendDataRequest send object_id address port =
     send PlasmaDataRequest [FbString (id_binary object_id), FbString (chars address), FbScalar port]"

definition ReadDataRequest :: "fb_table \<Rightarrow> (UniqueID \<times> string \<times> int) res" where
  "ReadDataRequest t =
     rbind (id_field t 0) (\<lambda>object_id. rbind (fb_string t 1) (\<lambda>address. rbind (fb_scalar t 2) (\<lambda>port.
     Inr (object_id, text_of (takeWhile (\<lambda>b. b \<noteq> 0) address), port))))"

definition SendDataReply :: "'r sender \<Rightarrow> UniqueID \<Rightarrow> int \<Rightarrow> int \<Rightarrow> 'r" where
  "SendDataReply send object_id object_size ms =
     send PlasmaDataReply [FbString (id_binary object_id), FbScalar (int (uint64_of object_size)),
                           FbScalar (int (uint64_of ms))]"

definition ReadDataReply :: "fb_table \<Rightarrow> (UniqueID \<times> int \<times> int) res" where
  "ReadDataReply t =
     rbind (id_field t 0) (\<lambda>object_id. rbind (fb_scalar t 1) (\<lambda>object_size. rbind (fb_scalar t 2) (\<lambda>ms.
     Inr (object_id, int64_of object_size, int64_of ms))))"

definition SendRefreshLRURequest :: "'r sender \<Rightarrow> UniqueID list \<Rightarrow> 'r" where
  "SendRefreshLRURequest send object_ids =
     send PlasmaRefreshLRURequest [ToFlatbuffer_ids object_ids (length object_ids)]"

definition ReadRefreshLRURequest :: "fb_table \<Rightarrow> UniqueID list res" where
  "ReadRefreshLRURequest t = rbind (fb_strings t 0) (\<lambda>ids. ConvertToVector ids from_binary)"

definition SendRefreshLRUReply :: "'r sender \<Rightarrow> 'r" where
  "SendRefreshLRUReply send = send PlasmaRefreshLRUReply []"

definition ReadRefreshLRUReply :: "fb_table \<Rightarrow> unit res" where
  "ReadRefreshLRUReply t = Inr ()"

section \<open>Notification buffers\<close>

record ObjectInfoT =
  oi_object_id :: "byte list"
  oi_data_size :: int
  oi_metadata_size :: int
  oi_ref_count :: int
  oi_create_time :: int
  oi_construct_duration :: int
  oi_digest :: "byte list"
  oi_is_deletion :: bool

definition CreateObjectInfo :: "ObjectInfoT \<Rightarrow> fb_table" where
  "CreateObjectInfo i =
     [FbString (oi_object_id i), FbScalar (oi_data_size i), FbScalar (oi_metadata_size i),
      FbScalar (oi_ref_count i), FbScalar (oi_create_time i), FbScalar (oi_construct_duration i),
      FbString (oi_digest i), FbScalar (if oi_is_deletion i then 1 else 0)]"

text \<open>Eight bytes of length in front of the serialised table.\<close>

definition CreateObjectInfoBuffer :: "(fb_table \<Rightarrow> byte list) \<Rightarrow> ObjectInfoT \<Rightarrow> byte list" where
  "CreateObjectInfoBuffer enc object_info =
     (let b = enc (CreateObjectInfo object_info) in int64_bytes (int (length b)) @ b)"

definition CreatePlasmaNotificationBuffer :: "(fb_table \<Rightarrow> byte list) \<Rightarrow> ObjectInfoT list \<Rightarrow> byte list" where
  "CreatePlasmaNotificationBuffer enc object_info =
     (let b = enc [FbTables (map CreateObjectInfo object_info)] in int64_bytes (int (length b)) @ b)"


section \<open>Types and codes\<close>

lemma message_types_all: "m \<in> set message_types"
  by (cases m) (simp_all add: message_types_def)

lemma takeWhile_index: "x \<in> set xs \<Longrightarrow> length (takeWhile (\<lambda>y. y \<noteq> x) xs) < length xs \<and>
    xs ! length (takeWhile (\<lambda>y. y \<noteq> x) xs) = x"
  by (induction xs) auto

text \<open>Every type has its own code.\<close>

lemma message_of_code [simp]: "message_of (message_code m) = Some m"
  using takeWhile_index [OF message_types_all [of m]]
  by (simp add: message_of_def message_code_def)

lemma message_code_inj: "message_code m = message_code m' \<longleftrightarrow> m = m'"
  by (metis message_of_code option.inject)

lemma message_code_range: "0 \<le> message_code m \<and> message_code m < 36"
  using takeWhile_index [OF message_types_all [of m]]
  by (simp add: message_code_def message_types_def)

lemma in_int64_message_code: "in_int64 (message_code m)"
  using message_code_range [of m] by (simp add: in_int64_def)

section \<open>Slots\<close>

lemma fb_field_simps [simp]:
  "fb_field [] i = FbAbsent" "fb_field (x # xs) 0 = x" "fb_field (x # xs) (Suc i) = fb_field xs i"
  "fb_field (x # xs) (numeral n) = fb_field xs (pred_numeral n)"
  by (simp_all add: fb_field_def numeral_eq_Suc)

lemma text_of_chars [simp]: "text_of (chars s) = s"
proof -
  have "char_of (unat (of_nat (of_char c) :: byte)) = c" for c :: char
    by (simp add: unat_of_nat take_bit_eq_mod [symmetric] unsigned_of_nat)
  then show ?thesis by (simp add: text_of_def chars_def comp_def map_idI)
qed

lemma rmap_Inr: "(\<And>x. x \<in> set xs \<Longrightarrow> f x = Inr (g x)) \<Longrightarrow> rmap f xs = Inr (map g xs)"
  by (induction xs) auto

lemma rmap_from_binary: "list_all id_ok ids \<Longrightarrow> rmap from_binary (map id_binary ids) = Inr ids"
  by (induction ids) auto

lemma map_nth_upt: "n = length xs \<Longrightarrow> map ((!) xs) [0 ..< n] = xs"
  by (simp add: map_nth)

lemma rmap_nth_id: "list_all id_ok ids \<Longrightarrow> rmap (nth_id (map id_binary ids)) [0 ..< length ids] = Inr ids"
  using rmap_Inr [of "[0 ..< length ids]" "nth_id (map id_binary ids)" "(!) ids"]
  by (simp add: nth_id_def vec_get_def list_all_length map_nth)

lemma rmap_vec_get: "rmap (vec_get xs) [0 ..< length xs] = Inr xs"
  using rmap_Inr [of "[0 ..< length xs]" "vec_get xs" "(!) xs"] by (simp add: vec_get_def map_nth)

definition object_ok :: "PlasmaObject \<Rightarrow> bool" where
  "object_ok o1 \<longleftrightarrow> in_int64 (o_data_offset o1) \<and> in_int64 (o_data_size o1) \<and>
     in_int64 (o_metadata_offset o1) \<and> in_int64 (o_metadata_size o1)"

lemma object_of_spec_of [simp]: "object_ok o1 \<Longrightarrow> object_of (spec_of o1) = o1"
  by (cases o1) (simp add: object_of_def spec_of_def object_ok_def int64_uint64_roundtrip)

lemma PlasmaErrorStatus_cases:
  "PlasmaErrorStatus (pe_code e) =
     (case e of
        OK \<Rightarrow> Inr Status_OK
      | ObjectExists \<Rightarrow> Inr (MakePlasmaError PlasmaObjectExists ''object already exists in the plasma store'')
      | ObjectNotFound \<Rightarrow> Inr (MakePlasmaError PlasmaObjectNotFound ''object does not exist in the plasma store'')
      | OutOfMemory \<Rightarrow> Inr (MakePlasmaError PlasmaStoreFull ''object does not fit in the plasma store'')
      | _ \<Rightarrow> Inl (CheckFailed ''unknown plasma error code''))"
  by (cases e) (simp_all add: PlasmaErrorStatus_def)

lemma ToFlatbuffer_ids_all [simp]:
  "slot_strings (ToFlatbuffer_ids ids (length ids)) = Inr (map id_binary ids)"
  by (simp add: ToFlatbuffer_ids_def)

lemma id_field_binary [simp]: "id_ok i \<Longrightarrow> id_field (FbString (id_binary i) # t) 0 = Inr i"
  by (simp add: id_field_def)


section \<open>Round trips\<close>

lemmas create_messages =
  SendCreateRequest_def ReadCreateRequest_def SendCreateReply_def ReadCreateReply_def
  SendCreateAndSealRequest_def ReadCreateAndSealRequest_def
  SendCreateAndSealBatchRequest_def ReadCreateAndSealBatchRequest_def
  SendSealRequest_def ReadSealRequest_def SendAbortRequest_def ReadAbortRequest_def
  ConvertToVector_def ToFlatbuffer_strings_def

lemmas object_messages =
  SendReleaseRequest_def ReadReleaseRequest_def SendDeleteRequest_def ReadDeleteRequest_def
  SendDeleteReply_def ReadDeleteReply_def SendContainsRequest_def ReadContainsRequest_def
  SendContainsReply_def ReadContainsReply_def SendGetRequest_def ReadGetRequest_def
  SendGetReply_def ReadGetReply_def SendRefreshLRURequest_def ReadRefreshLRURequest_def
  SendEvictRequest_def ReadEvictRequest_def SendSetOptionsRequest_def ReadSetOptionsRequest_def
  SendDataRequest_def ReadDataRequest_def SendDataReply_def ReadDataReply_def
  ConvertToVector_def ToVector_def

text \<open>
  C25. The requests that create, seal and abort objects are read back as they were sent: sizes
  survive the unsigned fields of the wire, and the digest has its eight bytes.
\<close>
theorem create_requests_roundtrip:
  assumes "id_ok i" and "in_int64 ds" and "in_int64 ms" and "length digest = kDigestSize"
    and "list_all id_ok ids"
  shows "ReadCreateRequest (snd (SendCreateRequest Pair i ev ds ms dev)) = Inr (i, ev, ds, ms, dev) \<and>
    ReadCreateAndSealRequest (snd (SendCreateAndSealRequest Pair i ev data md digest)) = Inr (i, ev, data, md, digest) \<and>
    ReadCreateAndSealBatchRequest (snd (SendCreateAndSealBatchRequest Pair ids ev datas mds digests)) =
      Inr (ids, ev, datas, mds, digests) \<and>
    ReadSealRequest (snd (SendSealRequest Pair i digest)) = Inr (i, digest) \<and>
    ReadAbortRequest (snd (SendAbortRequest Pair i)) = Inr i"
  using assms by (simp add: create_messages int64_uint64_roundtrip rmap_from_binary)

theorem create_requests_roundtrip_witness:
  "ReadCreateRequest (snd (SendCreateRequest Pair (UniqueID (replicate 20 7)) True 1000 (-1) 0)) =
     Inr (UniqueID (replicate 20 7), True, 1000, -1, 0)"
  using create_requests_roundtrip [of "UniqueID (replicate 20 7)" 1000 "-1" "replicate 8 0" "[]" True 0]
  by (simp add: id_ok_def kUniqueIDSize_def kDigestSize_def in_int64_def)



lemma get_reply_read:
  assumes "list_all id_ok ids" and "\<forall>i \<in> set ids. object_ok (object_at objs i)" and "length fds = length sizes"
  shows "ReadGetReply (snd (SendGetReply Pair ids objs (length ids) fds sizes)) (length ids) =
      Inr (ids, map (object_at objs) ids, fds, sizes)"
proof -
  have "rmap (\<lambda>k. rbind (vec_get (map (\<lambda>x. spec_of (object_at objs x)) ids) k) (\<lambda>s. Inr (object_of s)))
      [0 ..< length ids] = Inr (map (\<lambda>k. object_at objs (ids ! k)) [0 ..< length ids])"
    by (rule rmap_Inr) (simp add: vec_get_def assms(2))
  moreover have "map (\<lambda>k. object_at objs (ids ! k)) [0 ..< length ids] = map (object_at objs) ids"
    by (rule nth_equalityI) simp_all
  ultimately show ?thesis
    using assms(1,3) by (simp add: object_messages rmap_nth_id ToFlatbuffer_ids_def)
qed

text \<open>
  C27. The replies are read back as they were sent: the client of a get reads, for every
  requested identifier, the object the store put in its table, or the zero object when there
  is none, and the client of a create reads the error the store reported.
\<close>
theorem replies_roundtrip:
  assumes "id_ok i" and "object_ok ob" and "o_device_num ob = 0" and "list_all id_ok ids"
    and "list_all (\<lambda>p. object_ok (snd p)) objs" and "length fds = length sizes"
    and "length errs = length ids" and "length ids < 2 ^ 31"
  shows "rbind (SendCreateReply Pair i ob e sz) (\<lambda>m. ReadCreateReply (snd m)) =
      rbind (PlasmaErrorStatus (pe_code e)) (\<lambda>s. Inr (s, i, ob, o_store_fd ob, sz)) \<and>
    ReadGetReply (snd (SendGetReply Pair ids objs (length ids) fds sizes)) (length ids) =
      Inr (ids, map (object_at objs) ids, fds, sizes) \<and>
    ReadDeleteReply (snd (SendDeleteReply Pair ids errs)) = Inr (ids, map pe_code errs) \<and>
    ReadContainsReply (snd (SendContainsReply Pair i has)) = Inr (i, has)"
proof (intro conjI)
  show "rbind (SendCreateReply Pair i ob e sz) (\<lambda>m. ReadCreateReply (snd m)) =
      rbind (PlasmaErrorStatus (pe_code e)) (\<lambda>s. Inr (s, i, ob, o_store_fd ob, sz))"
    using assms(1-3) by (simp add: create_messages)
  have ok: "object_ok (object_at objs k)" for k
    using assms(5) by (auto simp: object_at_def object_ok_def zero_PlasmaObject_def in_int64_def
        list_all_iff split: option.splits dest!: map_of_SomeD)
  then show "ReadGetReply (snd (SendGetReply Pair ids objs (length ids) fds sizes)) (length ids) =
      Inr (ids, map (object_at objs) ids, fds, sizes)"
    using assms(4,6) by (intro get_reply_read) simp_all
  have "rmap (vec_get (map pe_code errs)) [0 ..< length ids] = Inr (map pe_code errs)"
    using rmap_vec_get [of "map pe_code errs"] assms(7) by simp
  then show "ReadDeleteReply (snd (SendDeleteReply Pair ids errs)) = Inr (ids, map pe_code errs)"
    using assms(4,7,8) by (simp add: object_messages rmap_nth_id int32_of_small)
  show "ReadContainsReply (snd (SendContainsReply Pair i has)) = Inr (i, has)"
    using assms(1) by (simp add: object_messages)
qed

theorem replies_roundtrip_witness:
  "ReadGetReply (snd (SendGetReply Pair [UniqueID (replicate 20 7)]
       [(UniqueID (replicate 20 7), zero_PlasmaObject\<lparr>o_data_size := 5\<rparr>)] 1 [3] [100])) 1 =
     Inr ([UniqueID (replicate 20 7)], [zero_PlasmaObject\<lparr>o_data_size := 5\<rparr>], [3], [100])"
proof -
  let ?i = "UniqueID (replicate 20 7)" and ?o = "zero_PlasmaObject\<lparr>o_data_size := 5\<rparr>"
  have "ReadGetReply (snd (SendGetReply Pair [?i] [(?i, ?o)] (length [?i]) [3] [100])) (length [?i]) =
      Inr ([?i], map (object_at [(?i, ?o)]) [?i], [3], [100])"
    using replies_roundtrip [of ?i zero_PlasmaObject "[?i]" "[(?i, ?o)]" "[3]" "[100]" "[OK]"]
    by (simp add: id_ok_def kUniqueIDSize_def object_ok_def zero_PlasmaObject_def in_int64_def)
  then show ?thesis by (simp add: object_at_def)
qed

text \<open>
  A table that one process sends as a message of type \<open>mt\<close> is the table the other process
  gets from the buffer, under any fragmentation; a receiver that waits for another type of
  message aborts. \<open>enc\<close> and \<open>get_root\<close> are the flatbuffers library: reading the buffer of a
  table gives that table, whatever an older message left behind it in the buffer.
\<close>
theorem send_receive_table:
  assumes "\<forall>junk. get_root (enc t @ junk) = t" and "length (enc t) < 2 ^ 63"
    and "fair wouts (24 + length (enc t))" and "fair routs (24 + length (enc t))"
  shows "\<exists>wouts' w. PlasmaSend enc wouts chan mt t = Inr (Some (Status_OK, wouts', chan @ w)) \<and>
           (\<exists>buffer' routs'. PlasmaReceive mt buffer routs (w @ rest) =
              Inr (Some (Status_OK, buffer', routs', rest)) \<and> get_root buffer' = t) \<and>
           (\<forall>mt'. mt' \<noteq> mt \<longrightarrow> PlasmaReceive mt' buffer routs (w @ rest) = Inl (CheckFailed ''type == message_type''))"
proof -
  let ?w = "wire (message_code mt) (enc t)"
  obtain wouts' where w: "PlasmaSend enc wouts chan mt t = Inr (Some (Status_OK, wouts', chan @ ?w))"
    using WriteMessage_fair [of wouts "enc t" 0 "message_code mt" chan] assms(2,3) by (auto simp: PlasmaSend_def)
  obtain routs' where r: "ReadMessage buffer routs (?w @ rest) =
     Inr (Some \<lparr>ro_status = Status_OK, ro_type = message_code mt,
                ro_buffer = enc t @ drop (length (enc t)) buffer, ro_outs = routs', ro_chan = rest\<rparr>)"
    using ReadMessage_fair [of routs "enc t" 0 "message_code mt" buffer rest] assms(2,4) in_int64_message_code
    by auto
  show ?thesis
    by (rule exI [of _ wouts'], rule exI [of _ ?w])
      (use w r assms(1) message_code_inj in \<open>auto simp: PlasmaReceive_def check_def\<close>)
qed

theorem send_receive_table_witness:
  "\<exists>enc get_root wouts' w. enc [FbScalar 5] = [1, 2 :: byte] \<and>
     PlasmaSend enc (replicate 40 (IO_n 3)) [] PlasmaEvictReply [FbScalar 5] = Inr (Some (Status_OK, wouts', [] @ w)) \<and>
     (\<exists>b r. PlasmaReceive PlasmaEvictReply [9, 9, 9] (replicate 40 (IO_n 1)) (w @ []) =
        Inr (Some (Status_OK, b, r, [])) \<and> get_root b = [FbScalar 5])"
proof -
  let ?enc = "\<lambda>t :: fb_table. [1, 2 :: byte]"
  let ?root = "\<lambda>b :: byte list. if take 2 b = [1, 2] then [FbScalar 5] else []"
  have "fair (replicate 40 (IO_n 3)) (24 + length (?enc [FbScalar 5]))"
    and "fair (replicate 40 (IO_n 1)) (24 + length (?enc [FbScalar 5]))"
    by (simp_all add: fair_def list_all_iff)
  from send_receive_table [of ?root ?enc "[FbScalar 5]", OF _ _ this, of "[]" PlasmaEvictReply "[9, 9, 9]" "[]"]
  obtain wouts' w b r where "PlasmaSend ?enc (replicate 40 (IO_n 3)) [] PlasmaEvictReply [FbScalar 5] =
      Inr (Some (Status_OK, wouts', [] @ w))" "?root b = [FbScalar 5]"
    "PlasmaReceive PlasmaEvictReply [9, 9, 9] (replicate 40 (IO_n 1)) (w @ []) = Inr (Some (Status_OK, b, r, []))"
    by auto
  then show ?thesis by (intro exI [of _ ?enc] exI [of _ ?root] exI [of _ wouts'] exI [of _ w]) blast
qed

end
