(* ===== verification/Xxhash.thy ===== *)
theory Xxhash
  imports Common
begin

unbundle bit_operations_syntax

text \<open>
  The 64-bit hash that clients put into the digest of an object
  (src/arrow/cpp/src/arrow/vendored/xxhash/xxhash.h, used by client.cc): the one-shot function
  \<open>XXH64\<close> and the streaming interface \<open>XXH64_reset\<close>, \<open>XXH64_update\<close>, \<open>XXH64_digest\<close>.

  \<open>mem64\<close> is its 32 bytes; sizes are natural numbers and \<open>total_len\<close> is the 64-bit counter it is
  in the code. \<open>XXH64_finalize\<close> has two bodies, chosen at compile time: the switch on \<open>len & 31\<close>
  with its fall-through, and the rerolled loops of 32-bit targets; both are here.

  The lemmas show that the two bodies compute the same, and that feeding a message piece by
  piece gives the hash of the whole message.
\<close>

section \<open>Words\<close>

definition XXH_PRIME64_1 :: "64 word" where
  "XXH_PRIME64_1 = 0x9E3779B185EBCA87"

definition XXH_PRIME64_2 :: "64 word" where
  "XXH_PRIME64_2 = 0xC2B2AE3D27D4EB4F"

definition XXH_PRIME64_3 :: "64 word" where
  "XXH_PRIME64_3 = 0x165667B19E3779F9"

definition XXH_PRIME64_4 :: "64 word" where
  "XXH_PRIME64_4 = 0x85EBCA77C2B2AE63"

definition XXH_PRIME64_5 :: "64 word" where
  "XXH_PRIME64_5 = 0x27D4EB2F165667C5"

definition XXH_rotl64 :: "64 word \<Rightarrow> nat \<Rightarrow> 64 word" where
  "XXH_rotl64 x r = push_bit r x OR drop_bit (64 - r) x"

definition XXH_readLE64 :: "byte list \<Rightarrow> 64 word" where
  "XXH_readLE64 p = word_of_int (le_value (take 8 p))"

definition XXH_readLE32 :: "byte list \<Rightarrow> 32 word" where
  "XXH_readLE32 p = word_of_int (le_value (take 4 p))"

definition XXH64_round :: "64 word \<Rightarrow> 64 word \<Rightarrow> 64 word" where
  "XXH64_round acc input = XXH_rotl64 (acc + input * XXH_PRIME64_2) 31 * XXH_PRIME64_1"

definition XXH64_mergeRound :: "64 word \<Rightarrow> 64 word \<Rightarrow> 64 word" where
  "XXH64_mergeRound acc val = (acc XOR XXH64_round 0 val) * XXH_PRIME64_1 + XXH_PRIME64_4"

definition XXH64_avalanche :: "64 word \<Rightarrow> 64 word" where
  "XXH64_avalanche h64 =
     (let h64 = h64 XOR drop_bit 33 h64;
          h64 = h64 * XXH_PRIME64_2;
          h64 = h64 XOR drop_bit 29 h64;
          h64 = h64 * XXH_PRIME64_3
      in h64 XOR drop_bit 32 h64)"

section \<open>The tail of a message\<close>

text \<open>The three macros of \<open>XXH64_finalize\<close>: they change \<open>h64\<close> and advance \<open>ptr\<close>.\<close>

datatype xxh_step = XXH_PROCESS1_64 | XXH_PROCESS4_64 | XXH_PROCESS8_64

fun xxh_process :: "xxh_step \<Rightarrow> 64 word \<times> byte list \<Rightarrow> 64 word \<times> byte list" where
  "xxh_process XXH_PROCESS1_64 (h64, ptr) =
     (XXH_rotl64 (h64 XOR ucast (hd ptr) * XXH_PRIME64_5) 11 * XXH_PRIME64_1, drop 1 ptr)"
| "xxh_process XXH_PROCESS4_64 (h64, ptr) =
     (XXH_rotl64 (h64 XOR ucast (XXH_readLE32 ptr) * XXH_PRIME64_1) 23 * XXH_PRIME64_2 + XXH_PRIME64_3, drop 4 ptr)"
| "xxh_process XXH_PROCESS8_64 (h64, ptr) =
     (XXH_rotl64 (h64 XOR XXH64_round 0 (XXH_readLE64 ptr)) 27 * XXH_PRIME64_1 + XXH_PRIME64_4, drop 8 ptr)"

text \<open>
  The switch: what is run from the label \<open>len & 31\<close> to the next \<open>return\<close>. The labels of a group
  fall through to the ones below, so a group is one list and a label drops what stands above it.
\<close>

definition xxh_switch :: "nat \<Rightarrow> xxh_step list" where
  "xxh_switch n =
     (let p1 = XXH_PROCESS1_64; p4 = XXH_PROCESS4_64; p8 = XXH_PROCESS8_64 in
      case map_of
        [(24, [p8, p8, p8]), (16, [p8, p8]), (8, [p8]),
         (28, [p8, p8, p8, p4]), (20, [p8, p8, p4]), (12, [p8, p4]), (4, [p4]),
         (25, [p8, p8, p8, p1]), (17, [p8, p8, p1]), (9, [p8, p1]),
         (29, [p8, p8, p8, p4, p1]), (21, [p8, p8, p4, p1]), (13, [p8, p4, p1]), (5, [p4, p1]),
         (26, [p8, p8, p8, p1, p1]), (18, [p8, p8, p1, p1]), (10, [p8, p1, p1]),
         (30, [p8, p8, p8, p4, p1, p1]), (22, [p8, p8, p4, p1, p1]), (14, [p8, p4, p1, p1]), (6, [p4, p1, p1]),
         (27, [p8, p8, p8, p1, p1, p1]), (19, [p8, p8, p1, p1, p1]), (11, [p8, p1, p1, p1]),
         (31, [p8, p8, p8, p4, p1, p1, p1]), (23, [p8, p8, p4, p1, p1, p1]), (15, [p8, p4, p1, p1, p1]),
         (7, [p4, p1, p1, p1]), (3, [p1, p1, p1]), (2, [p1, p1]), (1, [p1]), (0, [])] n of
        Some steps \<Rightarrow> steps | None \<Rightarrow> [])"

definition XXH64_finalize :: "64 word \<Rightarrow> byte list \<Rightarrow> nat \<Rightarrow> 64 word" where
  "XXH64_finalize h64 ptr len = XXH64_avalanche (fst (fold xxh_process (xxh_switch (len mod 32)) (h64, ptr)))"

text \<open>The rerolled loops.\<close>

fun xxh_loop8 :: "nat \<Rightarrow> 64 word \<times> byte list \<Rightarrow> nat \<times> 64 word \<times> byte list" where
  "xxh_loop8 len s = (if 8 \<le> len then xxh_loop8 (len - 8) (xxh_process XXH_PROCESS8_64 s) else (len, s))"

fun xxh_loop1 :: "nat \<Rightarrow> 64 word \<times> byte list \<Rightarrow> 64 word \<times> byte list" where
  "xxh_loop1 0 s = s"
| "xxh_loop1 (Suc len) s = xxh_loop1 len (xxh_process XXH_PROCESS1_64 s)"

definition XXH64_finalize_rerolled :: "64 word \<Rightarrow> byte list \<Rightarrow> nat \<Rightarrow> 64 word" where
  "XXH64_finalize_rerolled h64 ptr len =
     (case xxh_loop8 (len mod 32) (h64, ptr) of
        (len, s) \<Rightarrow>
          (case (if 4 \<le> len then (len - 4, xxh_process XXH_PROCESS4_64 s) else (len, s)) of
             (len, s) \<Rightarrow> XXH64_avalanche (fst (xxh_loop1 len s))))"

section \<open>The hash of a message\<close>

type_synonym xxh_lanes = "64 word \<times> 64 word \<times> 64 word \<times> 64 word"

text \<open>One pass of the main loop: 32 bytes, eight for each of the four accumulators.\<close>

definition xxh_stripe :: "xxh_lanes \<Rightarrow> byte list \<Rightarrow> xxh_lanes" where
  "xxh_stripe = (\<lambda>(v1, v2, v3, v4) p.
     (XXH64_round v1 (XXH_readLE64 p), XXH64_round v2 (XXH_readLE64 (drop 8 p)),
      XXH64_round v3 (XXH_readLE64 (drop 16 p)), XXH64_round v4 (XXH_readLE64 (drop 24 p))))"

fun xxh_stripes :: "xxh_lanes \<Rightarrow> byte list \<Rightarrow> xxh_lanes \<times> byte list" where
  "xxh_stripes v p = (if 32 \<le> length p then xxh_stripes (xxh_stripe v p) (drop 32 p) else (v, p))"

definition xxh_lanes0 :: "64 word \<Rightarrow> xxh_lanes" where
  "xxh_lanes0 seed = (seed + XXH_PRIME64_1 + XXH_PRIME64_2, seed + XXH_PRIME64_2, seed + 0, seed - XXH_PRIME64_1)"

definition xxh_merge :: "xxh_lanes \<Rightarrow> 64 word" where
  "xxh_merge = (\<lambda>(v1, v2, v3, v4).
     let h64 = XXH_rotl64 v1 1 + XXH_rotl64 v2 7 + XXH_rotl64 v3 12 + XXH_rotl64 v4 18;
         h64 = XXH64_mergeRound h64 v1;
         h64 = XXH64_mergeRound h64 v2;
         h64 = XXH64_mergeRound h64 v3
     in XXH64_mergeRound h64 v4)"

definition XXH64_endian_align :: "byte list \<Rightarrow> 64 word \<Rightarrow> 64 word" where
  "XXH64_endian_align input seed =
     (let len = length input;
          (h64, rest) = (if 32 \<le> len
                         then case xxh_stripes (xxh_lanes0 seed) input of (v, rest) \<Rightarrow> (xxh_merge v, rest)
                         else (seed + XXH_PRIME64_5, input))
      in XXH64_finalize (h64 + of_nat len) rest len)"

definition XXH64 :: "byte list \<Rightarrow> 64 word \<Rightarrow> 64 word" where
  "XXH64 input seed = XXH64_endian_align input seed"

section \<open>Streaming\<close>

datatype XXH_errorcode = XXH_OK | XXH_ERROR

record XXH64_state =
  total_len :: "64 word"
  lanes :: xxh_lanes
  mem64 :: "byte list"
  memsize :: nat

definition XXH64_reset :: "64 word \<Rightarrow> XXH64_state" where
  "XXH64_reset seed = \<lparr>total_len = 0, lanes = xxh_lanes0 seed, mem64 = replicate 32 0, memsize = 0\<rparr>"

text \<open>\<open>memcpy\<close> into a buffer at a position.\<close>

definition put_at :: "nat \<Rightarrow> byte list \<Rightarrow> byte list \<Rightarrow> byte list" where
  "put_at k src buf = take k buf @ src @ drop (k + length src) buf"

definition xxh_fill :: "byte list \<Rightarrow> XXH64_state \<Rightarrow> XXH64_state \<times> byte list" where
  "xxh_fill p state =
     (if memsize state \<noteq> 0
      then let n = 32 - memsize state;
               buf = put_at (memsize state) (take n p) (mem64 state)
           in (state\<lparr>mem64 := buf, lanes := xxh_stripe (lanes state) buf, memsize := 0\<rparr>, drop n p)
      else (state, p))"

definition XXH64_update :: "XXH64_state \<Rightarrow> byte list option \<Rightarrow> XXH_errorcode \<times> XXH64_state" where
  "XXH64_update state input =
     (case input of
        None \<Rightarrow> (XXH_ERROR, state)
      | Some p \<Rightarrow>
          let state = state\<lparr>total_len := total_len state + of_nat (length p)\<rparr> in
          if memsize state + length p < 32
          then (XXH_OK, state\<lparr>mem64 := put_at (memsize state) p (mem64 state), memsize := memsize state + length p\<rparr>)
          else let (state, p) = xxh_fill p state;
                   (v, p) = xxh_stripes (lanes state) p;
                   state = state\<lparr>lanes := v\<rparr>
               in (XXH_OK, if p \<noteq> [] then state\<lparr>mem64 := put_at 0 p (mem64 state), memsize := length p\<rparr> else state))"

definition XXH64_digest :: "XXH64_state \<Rightarrow> 64 word" where
  "XXH64_digest state =
     (let h64 = (if 32 \<le> total_len state then xxh_merge (lanes state)
                 else fst (snd (snd (lanes state))) + XXH_PRIME64_5)
      in XXH64_finalize (h64 + total_len state) (mem64 state) (unat (total_len state)))"

section \<open>Stripes\<close>

declare xxh_stripes.simps [simp del] xxh_loop8.simps [simp del]

lemma xxh_stripe_append: "32 \<le> length p \<Longrightarrow> xxh_stripe v (p @ q) = xxh_stripe v p"
  by (cases v) (simp add: xxh_stripe_def XXH_readLE64_def)

lemma xxh_stripes_short: "length p < 32 \<Longrightarrow> xxh_stripes v p = (v, p)"
  by (subst xxh_stripes.simps) simp

lemma xxh_stripes_long: "32 \<le> length p \<Longrightarrow> xxh_stripes v p = xxh_stripes (xxh_stripe v p) (drop 32 p)"
  by (subst xxh_stripes.simps) simp

text \<open>What was hashed before is an accumulator and fewer than 32 bytes.\<close>

lemma xxh_stripes_append: "xxh_stripes v p = (w, r) \<Longrightarrow> xxh_stripes v (p @ q) = xxh_stripes w (r @ q)"
proof (induction v p rule: xxh_stripes.induct)
  case (1 v p)
  show ?case
  proof (cases "32 \<le> length p")
    case True
    with "1.IH" "1.prems" show ?thesis by (simp add: xxh_stripes_long xxh_stripe_append)
  next
    case False
    with "1.prems" show ?thesis by (simp add: xxh_stripes_short)
  qed
qed

lemma xxh_stripes_rest: "xxh_stripes v p = (w, r) \<Longrightarrow> length r = length p mod 32"
proof (induction v p rule: xxh_stripes.induct)
  case (1 v p)
  show ?case
  proof (cases "32 \<le> length p")
    case True
    with "1.IH" "1.prems" show ?thesis by (simp add: xxh_stripes_long mod_if [of "length p"])
  next
    case False
    with "1.prems" show ?thesis by (auto simp: xxh_stripes_short)
  qed
qed

section \<open>The tail\<close>

fun xxh_width :: "xxh_step \<Rightarrow> nat" where
  "xxh_width XXH_PROCESS1_64 = 1"
| "xxh_width XXH_PROCESS4_64 = 4"
| "xxh_width XXH_PROCESS8_64 = 8"

text \<open>Both bodies run eight bytes at a time, then four, then single bytes.\<close>

definition xxh_plan :: "nat \<Rightarrow> xxh_step list" where
  "xxh_plan n = replicate (n div 8) XXH_PROCESS8_64 @ (if 4 \<le> n mod 8 then [XXH_PROCESS4_64] else []) @
     replicate (n mod 4) XXH_PROCESS1_64"

lemma xxh_switch_table: "list_all (\<lambda>n. xxh_switch n = xxh_plan n) [0 ..< 32]"
  by code_simp

lemma xxh_switch_plan: "n < 32 \<Longrightarrow> xxh_switch n = xxh_plan n"
  using xxh_switch_table by (simp add: list_all_iff)

text \<open>The switch reads exactly \<open>len & 31\<close> bytes, so what follows them does not matter.\<close>

lemma mod8_mod4: "n mod 8 = (if 4 \<le> n mod 8 then 4 else 0) + n mod (4 :: nat)"
  using mod_mod_cancel [of 4 8 n] by (simp add: mod_if [of "n mod 8"] split: if_splits)

lemma xxh_switch_width: "n < 32 \<Longrightarrow> sum_list (map xxh_width (xxh_switch n)) = n"
proof -
  assume "n < 32"
  then have "sum_list (map xxh_width (xxh_switch n)) = n div 8 * 8 + ((if 4 \<le> n mod 8 then 4 else 0) + n mod 4)"
    by (simp add: xxh_switch_plan xxh_plan_def sum_list_replicate)
  then show ?thesis by (simp flip: mod8_mod4)
qed

lemma xxh_process_append:
  "xxh_width k \<le> length p \<Longrightarrow> xxh_process k (h, p @ q) = (fst (xxh_process k (h, p)), snd (xxh_process k (h, p)) @ q)"
  by (cases k; cases p) (simp_all add: XXH_readLE64_def XXH_readLE32_def)

lemma xxh_process_length: "length (snd (xxh_process k (h, p))) = length p - xxh_width k"
  by (cases k) simp_all

lemma xxh_fold_append:
  "sum_list (map xxh_width ks) \<le> length p \<Longrightarrow> fst (fold xxh_process ks (h, p @ q)) = fst (fold xxh_process ks (h, p))"
proof (induction ks arbitrary: h p)
  case (Cons k ks)
  obtain h' p' where k: "xxh_process k (h, p) = (h', p')" by fastforce
  with xxh_process_length [of k h p] Cons.prems have "sum_list (map xxh_width ks) \<le> length p'" by simp
  with Cons.IH [of p' h'] xxh_process_append [of k p h q] Cons.prems k show ?case by simp
qed simp

lemma XXH64_finalize_append: "len mod 32 \<le> length p \<Longrightarrow> XXH64_finalize h (p @ q) len = XXH64_finalize h p len"
  by (simp add: XXH64_finalize_def xxh_fold_append xxh_switch_width)

lemma xxh_loop8_plan: "xxh_loop8 n s = (n mod 8, fold xxh_process (replicate (n div 8) XXH_PROCESS8_64) s)"
proof (induction n s rule: xxh_loop8.induct)
  case (1 n s)
  show ?case
  proof (cases "8 \<le> n")
    case True
    then have "n div 8 = Suc ((n - 8) div 8)" and "n mod 8 = (n - 8) mod 8" by (auto simp: div_if mod_if)
    with 1 True show ?thesis by (subst xxh_loop8.simps) simp
  next
    case False
    then show ?thesis by (subst xxh_loop8.simps) simp
  qed
qed

lemma xxh_loop1_plan: "xxh_loop1 n s = fold xxh_process (replicate n XXH_PROCESS1_64) s"
  by (induction n arbitrary: s) simp_all

lemma rerolled_plan: "XXH64_finalize_rerolled h p len = XXH64_avalanche (fst (fold xxh_process (xxh_plan (len mod 32)) (h, p)))"
proof -
  define n where "n = len mod 32"
  have "n mod 8 - 4 = n mod 4" if "4 \<le> n mod 8" using that mod8_mod4 [of n] by simp
  moreover have "n mod 8 = n mod 4" if "\<not> 4 \<le> n mod 8" using that mod8_mod4 [of n] by simp
  ultimately show ?thesis
    by (simp add: XXH64_finalize_rerolled_def xxh_plan_def xxh_loop8_plan xxh_loop1_plan
        del: xxh_process.simps flip: n_def)
qed

section \<open>Streaming\<close>

text \<open>The state after the bytes \<open>d\<close>.\<close>

definition xxh_fed :: "64 word \<Rightarrow> byte list \<Rightarrow> XXH64_state \<Rightarrow> bool" where
  "xxh_fed seed d st \<longleftrightarrow> total_len st = of_nat (length d) \<and> length (mem64 st) = 32 \<and>
     xxh_stripes (xxh_lanes0 seed) d = (lanes st, take (memsize st) (mem64 st)) \<and> memsize st < 32"

lemma xxh_fed_reset: "xxh_fed seed [] (XXH64_reset seed)"
  by (simp add: xxh_fed_def XXH64_reset_def xxh_stripes_short)

lemma length_put_at: "k + length src \<le> length buf \<Longrightarrow> length (put_at k src buf) = length buf"
  by (simp add: put_at_def)

lemma take_put_at: "k + length src \<le> length buf \<Longrightarrow> take (k + length src) (put_at k src buf) = take k buf @ src"
  by (simp add: put_at_def)

text \<open>The full buffer, and the rest of the input.\<close>

lemma xxh_fill_fed:
  assumes "memsize st < 32" and "length (mem64 st) = 32" and "32 \<le> memsize st + length p"
    and "xxh_fill p st = (st', p')"
  shows "xxh_stripes (lanes st') p' = xxh_stripes (lanes st) (take (memsize st) (mem64 st) @ p)"
    and "memsize st' = 0" and "length (mem64 st') = 32" and "total_len st' = total_len st"
proof -
  let ?n = "32 - memsize st" and ?r = "take (memsize st) (mem64 st)"
  have p: "p = take ?n p @ drop ?n p" by simp
  have buf: "put_at (memsize st) (take ?n p) (mem64 st) = ?r @ take ?n p" if "memsize st \<noteq> 0"
    using assms(1-3) by (simp add: put_at_def min_def)
  have len: "length (?r @ take ?n p) = 32" using assms(1-3) by simp
  have "xxh_stripes (lanes st) ((?r @ take ?n p) @ drop ?n p) = xxh_stripes (xxh_stripe (lanes st) (?r @ take ?n p)) (drop ?n p)"
    using len assms(1,2) by (simp only: xxh_stripes_long [of "(?r @ take ?n p) @ drop ?n p"] xxh_stripe_append length_append) simp
  then show "xxh_stripes (lanes st') p' = xxh_stripes (lanes st) (?r @ p)"
    using assms(4) buf by (auto simp: xxh_fill_def Let_def split: if_splits)
  show "memsize st' = 0" and "length (mem64 st') = 32" and "total_len st' = total_len st"
    using assms len buf by (auto simp: xxh_fill_def Let_def split: if_splits)
qed

lemma xxh_fed_update:
  assumes "xxh_fed seed d st"
  shows "fst (XXH64_update st (Some p)) = XXH_OK \<and> xxh_fed seed (d @ p) (snd (XXH64_update st (Some p)))"
proof -
  from assms have st: "total_len st = of_nat (length d)" "length (mem64 st) = 32" "memsize st < 32"
    and d: "xxh_stripes (xxh_lanes0 seed) d = (lanes st, take (memsize st) (mem64 st))"
    by (simp_all add: xxh_fed_def)
  note dp = xxh_stripes_append [OF d, of p]
  let ?st = "st\<lparr>total_len := total_len st + of_nat (length p)\<rparr>"
  show ?thesis
  proof (cases "memsize st + length p < 32")
    case True
    then show ?thesis
      using st dp by (simp add: XXH64_update_def Let_def xxh_fed_def xxh_stripes_short length_put_at take_put_at)
  next
    case False
    obtain st' p' where f: "xxh_fill p ?st = (st', p')" by fastforce
    obtain v q where s: "xxh_stripes (lanes st') p' = (v, q)" by fastforce
    note fill = xxh_fill_fed [OF _ _ _ f]
    have "xxh_stripes (xxh_lanes0 seed) (d @ p) = (v, q)" using fill(1) st False s dp by simp
    moreover from xxh_stripes_rest [OF this] have "length q < 32" by simp
    ultimately show ?thesis
      using fill(2-4) st False f s
      by (simp add: XXH64_update_def Let_def xxh_fed_def length_put_at) (simp add: put_at_def)
  qed
qed

lemma xxh_fed_digest:
  assumes "xxh_fed seed d st" and "length d < 2 ^ 64"
  shows "XXH64_digest st = XXH64 d seed"
proof -
  from assms have st: "total_len st = of_nat (length d)" "length (mem64 st) = 32" "memsize st < 32"
    and d: "xxh_stripes (xxh_lanes0 seed) d = (lanes st, take (memsize st) (mem64 st))"
    by (simp_all add: xxh_fed_def)
  have u: "unat (of_nat (length d) :: 64 word) = length d" using assms(2) by (simp add: unat_of_nat)
  then have big: "32 \<le> total_len st \<longleftrightarrow> 32 \<le> length d" by (simp add: st word_le_nat_alt)
  have m: "memsize st = length d mod 32" using xxh_stripes_rest [OF d] st by simp
  have "mem64 st = take (memsize st) (mem64 st) @ drop (memsize st) (mem64 st)" by simp
  then have "XXH64_finalize h (mem64 st) (length d) = XXH64_finalize h (take (memsize st) (mem64 st)) (length d)" for h
    using XXH64_finalize_append [of "length d" "take (memsize st) (mem64 st)" h "drop (memsize st) (mem64 st)"] m st by simp
  moreover have "fst (snd (snd (lanes st))) = seed" and "take (memsize st) (mem64 st) = d" if "\<not> 32 \<le> length d"
    using that d by (simp_all add: xxh_stripes_short xxh_lanes0_def) (metis fst_conv snd_conv)
  ultimately show ?thesis
    using d u by (simp add: XXH64_digest_def XXH64_def XXH64_endian_align_def Let_def big) (simp add: st)
qed

lemma xxh_fed_updates:
  "xxh_fed seed d st \<Longrightarrow>
     xxh_fed seed (d @ concat chunks) (fold (\<lambda>p st. snd (XXH64_update st (Some p))) chunks st)"
proof (induction chunks arbitrary: d st)
  case (Cons p chunks)
  from Cons.IH [OF conjunct2 [OF xxh_fed_update [OF Cons.prems]]] show ?case by simp
qed simp

text \<open>
  C17. The streaming hash is the one-shot hash: however a message of less than \<open>2 ^ 64\<close> bytes is cut
  into pieces, empty ones included, \<open>XXH64_digest\<close> after \<open>XXH64_update\<close> on each piece is \<open>XXH64\<close> of the
  whole message, and the switch of \<open>XXH64_finalize\<close> computes what the rerolled loops compute.
\<close>
theorem xxh64_streaming:
  assumes "length (concat chunks) < 2 ^ 64"
  shows "XXH64_digest (fold (\<lambda>p st. snd (XXH64_update st (Some p))) chunks (XXH64_reset seed)) = XXH64 (concat chunks) seed \<and>
    (\<forall>h ptr len. XXH64_finalize h ptr len = XXH64_finalize_rerolled h ptr len)"
  using xxh_fed_digest [OF xxh_fed_updates [OF xxh_fed_reset] ] assms
  by (simp add: XXH64_finalize_def rerolled_plan xxh_switch_plan)

theorem xxh64_streaming_witness:
  "XXH64_digest (fold (\<lambda>p st. snd (XXH64_update st (Some p))) [replicate 20 1, [], replicate 50 2] (XXH64_reset 0)) =
     XXH64 (replicate 20 1 @ replicate 50 2) 0"
  using xxh64_streaming [of "[replicate 20 1, [], replicate 50 2]" 0] by simp

end
