(* ===== verification/Client.thy ===== *)
theory Client
  imports Protocol Xxhash
begin

text \<open>
  The client library (src/arrow/cpp/src/plasma/client.cc): the objects a client uses and how
  often, the mapped files, the requests it sends, and the digest of an object.

  \<open>'w\<close> is the world outside the library: the kernel and the store at the other end of the
  socket. A \<open>peer\<close> gives what the library calls of it: sending and reading messages (on the level
  of tables), passing descriptors, mapping files, reading and writing mapped memory. An
  operation maps a client to a result or a fault; a result is a status that was not OK and
  returned early (\<open>RETURN_NOT_OK\<close>), or the value of the output parameters.

  \<open>client_mutex_\<close> is recursive and every operation holds it from start to end, so the operations
  of a client are atomic with respect to each other and the lock itself has no effect here.
  The CUDA branches are not compiled; a device other than 0 is the fatal error of that build.
\<close>

section \<open>State\<close>

record ObjectInUseEntry =
  u_count :: int
  u_object :: PlasmaObject
  u_is_sealed :: bool

record ClientMmapTableEntry =
  mm_fd :: int
  mm_pointer :: nat
  mm_length :: nat

record 'w peer =
  p_send :: "int \<Rightarrow> MessageType \<Rightarrow> fb_table \<Rightarrow> 'w \<Rightarrow> Status \<times> 'w"
  p_read :: "int \<Rightarrow> 'w \<Rightarrow> (Status \<times> int \<times> fb_table) \<times> 'w"
  p_recv_fd :: "int \<Rightarrow> 'w \<Rightarrow> int \<times> 'w"
  p_send_fd :: "int \<Rightarrow> int \<Rightarrow> 'w \<Rightarrow> int \<times> 'w"
  p_close :: "int \<Rightarrow> 'w \<Rightarrow> 'w"
  p_mmap :: "int \<Rightarrow> nat \<Rightarrow> 'w \<Rightarrow> nat option \<times> 'w"
  p_munmap :: "nat \<Rightarrow> nat \<Rightarrow> 'w \<Rightarrow> 'w"
  p_load :: "nat \<Rightarrow> nat \<Rightarrow> 'w \<Rightarrow> byte list"
  p_store :: "nat \<Rightarrow> byte list \<Rightarrow> 'w \<Rightarrow> 'w"
  p_open :: "string \<Rightarrow> 'w \<Rightarrow> (int \<times> int) \<times> 'w"
  p_socketpair :: "'w \<Rightarrow> (int \<times> int) \<times> 'w"
  p_nonblock :: "int \<Rightarrow> 'w \<Rightarrow> int \<times> 'w"
  p_read_async :: "int \<Rightarrow> 'w \<Rightarrow> fb_table option \<times> 'w"
  p_connect :: "string \<Rightarrow> int \<Rightarrow> int \<Rightarrow> 'w \<Rightarrow> (Status \<times> int) \<times> 'w"
  p_strings :: "byte list list \<Rightarrow> 'w \<Rightarrow> byte list"

record 'w client =
  store_conn :: int
  mmap_table :: "(int \<times> ClientMmapTableEntry) list"
  objects_in_use :: "(UniqueID \<times> ObjectInUseEntry) list"
  store_capacity :: int
  cl_deletion_cache :: "UniqueID list"
  pending_notification :: "(UniqueID \<times> int \<times> int) list"
  world :: 'w

definition new_client :: "'w \<Rightarrow> 'w client" where
  "new_client w = \<lparr>store_conn = 0, mmap_table = [], objects_in_use = [], store_capacity = 0,
     cl_deletion_cache = [], pending_notification = [], world = w\<rparr>"

type_synonym ('a, 'w) call = "'w client \<Rightarrow> ((Status + 'a) \<times> 'w client) res"

definition cbind :: "('a, 'w) call \<Rightarrow> ('a \<Rightarrow> ('b, 'w) call) \<Rightarrow> ('b, 'w) call" where
  "cbind m f s = rbind (m s) (\<lambda>(r, s). case r of Inl st \<Rightarrow> Inr (Inl st, s) | Inr x \<Rightarrow> f x s)"

definition cret :: "'a \<Rightarrow> ('a, 'w) call" where
  "cret x s = Inr (Inr x, s)"

definition ccheck :: "bool \<Rightarrow> string \<Rightarrow> (unit, 'w) call" where
  "ccheck b msg s = rbind (check b msg) (\<lambda>_. Inr (Inr (), s))"

definition clift :: "'a res \<Rightarrow> ('a, 'w) call" where
  "clift m s = rbind m (\<lambda>x. Inr (Inr x, s))"

text \<open>\<open>RETURN_NOT_OK(st)\<close>.\<close>

definition return_not_ok :: "Status \<Rightarrow> (unit, 'w) call" where
  "return_not_ok st s = Inr (if st_ok st then Inr () else Inl st, s)"

fun cmap :: "('a \<Rightarrow> ('b, 'w) call) \<Rightarrow> 'a list \<Rightarrow> ('b list, 'w) call" where
  "cmap f [] = cret []"
| "cmap f (x # xs) = cbind (f x) (\<lambda>y. cbind (cmap f xs) (\<lambda>ys. cret (y # ys)))"

definition with_world :: "('w \<Rightarrow> 'a \<times> 'w) \<Rightarrow> ('a, 'w) call" where
  "with_world f s = (case f (world s) of (x, w) \<Rightarrow> Inr (Inr x, s\<lparr>world := w\<rparr>))"

definition request :: "'w peer \<Rightarrow> ((unit, 'w) call) sender" where
  "request P mt t = cbind (\<lambda>s. with_world (p_send P (store_conn s) mt t) s) return_not_ok"

text \<open>\<open>ReadMessage\<close>, and \<open>PlasmaReceive\<close> on top of it.\<close>

definition read_reply :: "'w peer \<Rightarrow> (int \<times> fb_table, 'w) call" where
  "read_reply P = cbind (\<lambda>s. with_world (p_read P (store_conn s)) s) (\<lambda>(st, ty, t).
     cbind (return_not_ok st) (\<lambda>_. cret (ty, t)))"

definition receive :: "'w peer \<Rightarrow> MessageType \<Rightarrow> (fb_table, 'w) call" where
  "receive P mt = cbind (read_reply P) (\<lambda>(ty, t).
     cbind (ccheck (ty = message_code mt) ''type == message_type'') (\<lambda>_. cret t))"

section \<open>Mapped files\<close>

definition kMmapRegionsGap :: int where
  "kMmapRegionsGap = 8"

definition new_ClientMmapTableEntry :: "'w peer \<Rightarrow> int \<Rightarrow> int \<Rightarrow> (ClientMmapTableEntry, 'w) call" where
  "new_ClientMmapTableEntry P fd map_size =
     (let len = uint64_of (map_size - kMmapRegionsGap) in
      cbind (with_world (p_mmap P fd len)) (\<lambda>r.
      case r of
        None \<Rightarrow> clift (Inl (CheckFailed ''mmap failed''))
      | Some p \<Rightarrow> cbind (with_world (\<lambda>w. ((), p_close P fd w))) (\<lambda>_.
          cret \<lparr>mm_fd = fd, mm_pointer = p, mm_length = len\<rparr>)))"

definition destroy_client :: "'w peer \<Rightarrow> 'w client \<Rightarrow> 'w" where
  "destroy_client P s = fold (\<lambda>(_, e). p_munmap P (mm_pointer e) (mm_length e)) (mmap_table s) (world s)"

definition LookupOrMmap :: "'w peer \<Rightarrow> int \<Rightarrow> int \<Rightarrow> int \<Rightarrow> (nat, 'w) call" where
  "LookupOrMmap P fd store_fd_val map_size s =
     (case map_of (mmap_table s) store_fd_val of
        Some e \<Rightarrow> Inr (Inr (mm_pointer e), s)
      | None \<Rightarrow> cbind (new_ClientMmapTableEntry P fd map_size) (\<lambda>e s.
          Inr (Inr (mm_pointer e), s\<lparr>mmap_table := AList.update store_fd_val e (mmap_table s)\<rparr>)) s)"

definition LookupMmappedFile :: "int \<Rightarrow> (nat, 'w) call" where
  "LookupMmappedFile store_fd_val s =
     (case map_of (mmap_table s) store_fd_val of
        None \<Rightarrow> Inl (CheckFailed ''entry != mmap_table_.end()'')
      | Some e \<Rightarrow> Inr (Inr (mm_pointer e), s))"

text \<open>The file of the other store is mapped under the descriptor \<open>-1\<close>; \<open>open\<close> is not checked.\<close>

definition MmapRemoteMemory :: "'w peer \<Rightarrow> string \<Rightarrow> (unit, 'w) call" where
  "MmapRemoteMemory P file =
     cbind (with_world (p_open P file)) (\<lambda>(fd, st_size).
     cbind (LookupOrMmap P fd (-1) st_size) (\<lambda>_. cret ()))"

definition IsInUse :: "'w client \<Rightarrow> UniqueID \<Rightarrow> bool" where
  "IsInUse s object_id \<longleftrightarrow> map_of (objects_in_use s) object_id \<noteq> None"

definition GetStoreFd :: "'w peer \<Rightarrow> int \<Rightarrow> (int, 'w) call" where
  "GetStoreFd P store_fd s =
     (case map_of (mmap_table s) store_fd of
        None \<Rightarrow> cbind (with_world (p_recv_fd P (store_conn s))) (\<lambda>fd.
                cbind (ccheck (0 \<le> fd) ''recv not successful'') (\<lambda>_. cret fd)) s
      | Some e \<Rightarrow> Inr (Inr (mm_fd e), s))"

section \<open>Counting the uses of an object\<close>

definition IncrementObjectCount :: "UniqueID \<Rightarrow> PlasmaObject \<Rightarrow> bool \<Rightarrow> (unit, 'w) call" where
  "IncrementObjectCount object_id object is_sealed s =
     (case map_of (objects_in_use s) object_id of
        None \<Rightarrow> Inr (Inr (), s\<lparr>objects_in_use :=
                  AList.update object_id \<lparr>u_count = 1, u_object = object, u_is_sealed = is_sealed\<rparr> (objects_in_use s)\<rparr>)
      | Some e \<Rightarrow> cbind (ccheck (0 < u_count e) ''object_entry->count > 0'') (\<lambda>_ s.
                  Inr (Inr (), s\<lparr>objects_in_use :=
                    AList.update object_id (e\<lparr>u_count := u_count e + 1\<rparr>) (objects_in_use s)\<rparr>)) s)"

definition MarkObjectUnused :: "UniqueID \<Rightarrow> (unit, 'w) call" where
  "MarkObjectUnused object_id s =
     (case map_of (objects_in_use s) object_id of
        None \<Rightarrow> Inl (CheckFailed ''object_entry != objects_in_use_.end()'')
      | Some e \<Rightarrow> cbind (ccheck (u_count e = 0) ''object_entry->second->count == 0'') (\<lambda>_ s.
                  Inr (Inr (), s\<lparr>objects_in_use := AList.delete object_id (objects_in_use s)\<rparr>)) s)"

definition set_use :: "UniqueID \<Rightarrow> ObjectInUseEntry \<Rightarrow> (unit, 'w) call" where
  "set_use object_id e s = Inr (Inr (), s\<lparr>objects_in_use := AList.update object_id e (objects_in_use s)\<rparr>)"

section \<open>Delete and release\<close>

text \<open>Objects this client uses are deleted later, when they are released.\<close>

definition Client_Delete :: "'w peer \<Rightarrow> UniqueID list \<Rightarrow> (unit, 'w) call" where
  "Client_Delete P object_ids s =
     (let not_in_use_ids = filter (\<lambda>i. map_of (objects_in_use s) i = None) object_ids;
          in_use_ids = filter (\<lambda>i. map_of (objects_in_use s) i \<noteq> None) object_ids;
          s = s\<lparr>cl_deletion_cache := fold List.insert in_use_ids (cl_deletion_cache s)\<rparr>
      in (if not_in_use_ids \<noteq> []
          then cbind (SendDeleteRequest (request P) not_in_use_ids) (\<lambda>_.
               cbind (receive P PlasmaDeleteReply) (\<lambda>t.
               cbind (clift (ReadDeleteReply t)) (\<lambda>_. cret ())))
          else cret ()) s)"

definition Client_Release :: "'w peer \<Rightarrow> UniqueID \<Rightarrow> (unit, 'w) call" where
  "Client_Release P object_id s =
     (if store_conn s < 0 then Inr (Inr (), s)
      else case map_of (objects_in_use s) object_id of
        None \<Rightarrow> Inl (CheckFailed ''object_entry != objects_in_use_.end()'')
      | Some e \<Rightarrow>
          cbind (set_use object_id (e\<lparr>u_count := u_count e - 1\<rparr>)) (\<lambda>_.
          cbind (ccheck (0 \<le> u_count e - 1) ''object_entry->second->count >= 0'') (\<lambda>_.
          if u_count e - 1 = 0
          then cbind (MarkObjectUnused object_id) (\<lambda>_.
               cbind (SendReleaseRequest (request P) object_id) (\<lambda>_ s.
               if object_id \<in> set (cl_deletion_cache s)
               then Client_Delete P [object_id] (s\<lparr>cl_deletion_cache := removeAll object_id (cl_deletion_cache s)\<rparr>)
               else Inr (Inr (), s)))
          else cret ())) s)"

section \<open>The digest of an object\<close>

definition kHashingConcurrency :: nat where
  "kHashingConcurrency = 8"

definition kBytesInMB :: int where
  "kBytesInMB = 2 ^ 20"

definition ComputeBlockHash :: "byte list \<Rightarrow> 64 word" where
  "ComputeBlockHash data = XXH64_digest (snd (XXH64_update (XXH64_reset 0) (Some data)))"

text \<open>
  \<open>ComputeObjectHashParallel\<close>: eight chunks of whole blocks and a suffix. A task of the thread
  pool hashes one chunk into its element of \<open>threadhash\<close>, the calling thread hashes the suffix;
  they run in any order (\<open>schedule\<close>), and \<open>threadhash\<close> starts as whatever the stack holds.
\<close>

definition hash_chunk_size :: "byte list \<Rightarrow> nat" where
  "hash_chunk_size data = length data div kBlockSize div kHashingConcurrency * kBlockSize"

definition hash_chunk :: "byte list \<Rightarrow> nat \<Rightarrow> byte list" where
  "hash_chunk data i =
     (let chunk_size = hash_chunk_size data in
      if i < kHashingConcurrency then take chunk_size (drop (i * chunk_size) data)
      else drop (chunk_size * kHashingConcurrency) data)"

definition hash_task :: "byte list \<Rightarrow> nat \<Rightarrow> 64 word list \<Rightarrow> 64 word list" where
  "hash_task data i threadhash = threadhash[i := ComputeBlockHash (hash_chunk data i)]"

definition ComputeObjectHashParallel ::
    "nat list \<Rightarrow> 64 word list \<Rightarrow> XXH64_state \<Rightarrow> byte list \<Rightarrow> XXH64_state" where
  "ComputeObjectHashParallel schedule stack hash_state data =
     (let threadhash = fold (hash_task data) schedule stack
      in snd (XXH64_update hash_state (Some (concat (map (\<lambda>h. le_bytes 8 (uint h)) threadhash)))))"

definition ComputeObjectHashCPU :: "nat list \<Rightarrow> 64 word list \<Rightarrow> byte list \<Rightarrow> byte list \<Rightarrow> 64 word" where
  "ComputeObjectHashCPU schedule stack data metadata =
     (let st = XXH64_reset 0;
          st = (if kBytesInMB \<le> int (length data) then ComputeObjectHashParallel schedule stack st data
                else snd (XXH64_update st (Some data)))
      in XXH64_digest (snd (XXH64_update st (Some metadata))))"

text \<open>The digest of a run in which the tasks happen to run in order.\<close>

definition object_digest :: "byte list \<Rightarrow> byte list \<Rightarrow> byte list" where
  "object_digest data metadata =
     le_bytes 8 (uint (ComputeObjectHashCPU [0 ..< Suc kHashingConcurrency] (replicate (Suc kHashingConcurrency) 0)
       data metadata))"

section \<open>Create\<close>

definition Client_Create ::
    "'w peer \<Rightarrow> UniqueID \<Rightarrow> int \<Rightarrow> byte list option \<Rightarrow> int \<Rightarrow> int \<Rightarrow> bool \<Rightarrow> (nat \<times> int, 'w) call" where
  "Client_Create P object_id ds metadata ms dev evict_if_full =
     cbind (SendCreateRequest (request P) object_id evict_if_full ds ms dev) (\<lambda>_.
     cbind (receive P PlasmaCreateReply) (\<lambda>t.
     cbind (clift (ReadCreateReply t)) (\<lambda>(st, _, object, store_fd, mmap_size).
     cbind (return_not_ok st) (\<lambda>_.
     cbind (ccheck (dev = 0) ''Arrow GPU library is not enabled.'') (\<lambda>_.
     cbind (GetStoreFd P store_fd) (\<lambda>fd.
     cbind (ccheck (o_data_size object = ds) ''object.data_size == data_size'') (\<lambda>_.
     cbind (ccheck (o_metadata_size object = ms) ''object.metadata_size == metadata_size'') (\<lambda>_.
     cbind (ccheck (o_metadata_offset object = o_data_offset object + ds)
              ''object.metadata_offset == object.data_offset + data_size'') (\<lambda>_.
     cbind (LookupOrMmap P fd store_fd mmap_size) (\<lambda>base.
     let data = nat (int base + o_data_offset object) in
     cbind (case metadata of
              None \<Rightarrow> cret ()
            | Some m \<Rightarrow> cbind (clift (if nat ms \<le> length m then Inr () else Inl OutOfBounds)) (\<lambda>_.
                with_world (\<lambda>w. ((), p_store P (nat (int data + o_data_size object)) (take (nat ms) m) w)))) (\<lambda>_.
     cbind (IncrementObjectCount object_id object False) (\<lambda>_.
     cbind (IncrementObjectCount object_id object False) (\<lambda>_.
     cret (data, ds))))))))))))))"

definition Client_CreateAndSeal :: "'w peer \<Rightarrow> UniqueID \<Rightarrow> byte list \<Rightarrow> byte list \<Rightarrow> bool \<Rightarrow> (unit, 'w) call" where
  "Client_CreateAndSeal P object_id data metadata evict_if_full =
     cbind (SendCreateAndSealRequest (request P) object_id evict_if_full data metadata (object_digest data metadata)) (\<lambda>_.
     cbind (receive P PlasmaCreateAndSealReply) (\<lambda>t.
     cbind (clift (ReadCreateAndSealReply t)) return_not_ok))"

text \<open>
  \<open>data.data()\<close> of a vector of strings is the array of string objects, and \<open>data.size()\<close> the number
  of strings: what is hashed is the start of that array (\<open>p_strings\<close>), for every object the same.
\<close>

definition batch_digests :: "'w peer \<Rightarrow> UniqueID list \<Rightarrow> byte list list \<Rightarrow> byte list list \<Rightarrow> 'w \<Rightarrow> byte list list" where
  "batch_digests P object_ids data metadata w =
     map (\<lambda>_. object_digest (take (length data) (p_strings P data w))
                 (take (length metadata) (p_strings P metadata w))) object_ids"

definition Client_CreateAndSealBatch ::
    "'w peer \<Rightarrow> UniqueID list \<Rightarrow> byte list list \<Rightarrow> byte list list \<Rightarrow> bool \<Rightarrow> (unit, 'w) call" where
  "Client_CreateAndSealBatch P object_ids data metadata evict_if_full s =
     cbind (SendCreateAndSealBatchRequest (request P) object_ids evict_if_full data metadata
              (batch_digests P object_ids data metadata (world s))) (\<lambda>_.
     cbind (receive P PlasmaCreateAndSealBatchReply) (\<lambda>t.
     cbind (clift (ReadCreateAndSealBatchReply t)) return_not_ok)) s"

section \<open>Get\<close>

record ObjectBuffer =
  b_data :: "nat \<times> int"
  b_metadata :: "nat \<times> int"
  b_device_num :: int
  b_wrapped :: bool

text \<open>
  The buffer over a mapped object, sliced into data and metadata. \<open>wrap\<close> says whether it is a
  \<open>PlasmaBuffer\<close>, whose destruction releases the object.
\<close>

definition make_buffer :: "bool \<Rightarrow> PlasmaObject \<Rightarrow> (ObjectBuffer, 'w) call" where
  "make_buffer wrap object =
     cbind (ccheck (o_device_num object = 0) ''Arrow GPU library is not enabled.'') (\<lambda>_.
     cbind (LookupMmappedFile (o_store_fd object)) (\<lambda>data.
     let physical_buf = int data + o_data_offset object in
     cret \<lparr>b_data = (nat physical_buf, o_data_size object),
           b_metadata = (nat (physical_buf + o_data_size object), o_metadata_size object),
           b_device_num = o_device_num object, b_wrapped = wrap\<rparr>))"

definition local_buffer :: "bool \<Rightarrow> int \<Rightarrow> UniqueID \<Rightarrow> (ObjectBuffer option, 'w) call" where
  "local_buffer wrap timeout_ms object_id s =
     (case map_of (objects_in_use s) object_id of
        None \<Rightarrow> Inr (Inr None, s)
      | Some e \<Rightarrow>
          (if \<not> u_is_sealed e
           then cbind (ccheck (timeout_ms \<noteq> -1) ''Plasma client called get on an unsealed object that it created'')
                  (\<lambda>_. cret None)
           else cbind (make_buffer wrap (u_object e)) (\<lambda>b.
                cbind (IncrementObjectCount object_id (u_object e) True) (\<lambda>_. cret (Some b)))) s)"

definition map_store_fd :: "'w peer \<Rightarrow> int \<times> int \<Rightarrow> (unit, 'w) call" where
  "map_store_fd P = (\<lambda>(store_fd, mmap_size).
     cbind (GetStoreFd P store_fd) (\<lambda>fd. cbind (LookupOrMmap P fd store_fd mmap_size) (\<lambda>_. cret ())))"

definition received_buffer ::
    "bool \<Rightarrow> (UniqueID \<times> PlasmaObject) \<times> ObjectBuffer option \<Rightarrow> (ObjectBuffer option, 'w) call" where
  "received_buffer wrap = (\<lambda>((received_id, object), present).
     if present \<noteq> None then cret present
     else if o_data_size object \<noteq> -1
     then cbind (make_buffer wrap object) (\<lambda>b.
          cbind (IncrementObjectCount received_id object True) (\<lambda>_. cret (Some b)))
     else cret None)"

definition fetch_buffers ::
    "'w peer \<Rightarrow> bool \<Rightarrow> UniqueID list \<Rightarrow> int \<Rightarrow> ObjectBuffer option list \<Rightarrow> (ObjectBuffer option list, 'w) call" where
  "fetch_buffers P wrap object_ids timeout_ms present =
     cbind (SendGetRequest (request P) object_ids (length object_ids) timeout_ms) (\<lambda>_.
     cbind (receive P PlasmaGetReply) (\<lambda>t.
     cbind (clift (ReadGetReply t (length object_ids))) (\<lambda>(received_object_ids, object_data, store_fds, mmap_sizes).
     cbind (cmap (map_store_fd P) (zip store_fds mmap_sizes)) (\<lambda>_.
     cmap (received_buffer wrap) (zip (zip received_object_ids object_data) present)))))"

text \<open>The buffers that were filled before an error stay with the caller.\<close>

definition keep_output :: "'a \<Rightarrow> ('a, 'w) call \<Rightarrow> (Status \<times> 'a, 'w) call" where
  "keep_output out m s = rbind (m s) (\<lambda>(r, s). Inr (Inr (case r of Inl st \<Rightarrow> (st, out) | Inr x \<Rightarrow> (Status_OK, x)), s))"

definition GetBuffers ::
    "'w peer \<Rightarrow> bool \<Rightarrow> UniqueID list \<Rightarrow> int \<Rightarrow> (Status \<times> ObjectBuffer option list, 'w) call" where
  "GetBuffers P wrap object_ids timeout_ms =
     cbind (cmap (local_buffer wrap timeout_ms) object_ids) (\<lambda>present.
     if list_all (\<lambda>b. b \<noteq> None) present then cret (Status_OK, present)
     else keep_output present (fetch_buffers P wrap object_ids timeout_ms present))"

definition Client_Get :: "'w peer \<Rightarrow> UniqueID list \<Rightarrow> int \<Rightarrow> (Status \<times> ObjectBuffer option list, 'w) call" where
  "Client_Get P object_ids timeout_ms = GetBuffers P True object_ids timeout_ms"

definition Client_Get_raw :: "'w peer \<Rightarrow> UniqueID list \<Rightarrow> int \<Rightarrow> (Status \<times> ObjectBuffer option list, 'w) call" where
  "Client_Get_raw P object_ids timeout_ms = GetBuffers P False object_ids timeout_ms"

text \<open>The destructor of a \<open>PlasmaBuffer\<close> ignores the status.\<close>

definition destroy_PlasmaBuffer :: "'w peer \<Rightarrow> UniqueID \<Rightarrow> (unit, 'w) call" where
  "destroy_PlasmaBuffer P object_id s =
     rbind (Client_Release P object_id s) (\<lambda>(_, s). Inr (Inr (), s))"

section \<open>Seal and abort\<close>

definition ComputeObjectHash :: "'w peer \<Rightarrow> ObjectBuffer \<Rightarrow> 'w \<Rightarrow> byte list" where
  "ComputeObjectHash P b w =
     (if b_device_num b \<noteq> 0 then le_bytes 8 0
      else object_digest (p_load P (fst (b_data b)) (nat (snd (b_data b))) w)
             (p_load P (fst (b_metadata b)) (nat (snd (b_metadata b))) w))"

text \<open>The buffer goes out of scope at the end of \<open>Hash\<close> and releases the object.\<close>

definition Client_Hash :: "'w peer \<Rightarrow> UniqueID \<Rightarrow> (byte list, 'w) call" where
  "Client_Hash P object_id =
     cbind (Client_Get P [object_id] 0) (\<lambda>(st, object_buffers).
     cbind (return_not_ok st) (\<lambda>_.
     case hd object_buffers of
       None \<Rightarrow> cbind (return_not_ok (MakePlasmaError PlasmaObjectNotFound ''Object not found'')) (\<lambda>_. cret [])
     | Some b \<Rightarrow> cbind (\<lambda>s. cret (ComputeObjectHash P b (world s)) s) (\<lambda>digest.
                 cbind (destroy_PlasmaBuffer P object_id) (\<lambda>_. cret digest))))"

definition Client_Seal :: "'w peer \<Rightarrow> UniqueID \<Rightarrow> (unit, 'w) call" where
  "Client_Seal P object_id s =
     (case map_of (objects_in_use s) object_id of
        None \<Rightarrow> return_not_ok (MakePlasmaError PlasmaObjectNotFound ''Seal() called on an object without a reference to it'') s
      | Some e \<Rightarrow>
          if u_is_sealed e
          then return_not_ok (MakePlasmaError PlasmaObjectAlreadySealed ''Seal() called on an already sealed object'') s
          else cbind (set_use object_id (e\<lparr>u_is_sealed := True\<rparr>)) (\<lambda>_.
               cbind (Client_Hash P object_id) (\<lambda>digest.
               cbind (SendSealRequest (request P) object_id digest) (\<lambda>_.
               cbind (receive P PlasmaSealReply) (\<lambda>t.
               cbind (clift (ReadSealReply t)) (\<lambda>(st, sealed_id).
               cbind (return_not_ok st) (\<lambda>_.
               cbind (ccheck (id_eq sealed_id object_id) ''sealed_id == object_id'') (\<lambda>_.
               Client_Release P object_id))))))) s)"

definition Client_Abort :: "'w peer \<Rightarrow> UniqueID \<Rightarrow> (unit, 'w) call" where
  "Client_Abort P object_id s =
     (case map_of (objects_in_use s) object_id of
        None \<Rightarrow> Inl (CheckFailed ''Plasma client called abort on an object without a reference to it'')
      | Some e \<Rightarrow>
          cbind (ccheck (\<not> u_is_sealed e) ''Plasma client called abort on a sealed object'') (\<lambda>_.
          if 1 < u_count e
          then return_not_ok (mk_status SC_Invalid ''Plasma client cannot have a reference to the buffer.'')
          else cbind (SendAbortRequest (request P) object_id) (\<lambda>_.
               cbind (set_use object_id (e\<lparr>u_count := u_count e - 1\<rparr>)) (\<lambda>_.
               cbind (MarkObjectUnused object_id) (\<lambda>_.
               cbind (read_reply P) (\<lambda>(_, t).
               cbind (clift (ReadAbortReply t)) (\<lambda>_. cret ())))))) s)"

section \<open>Other requests\<close>

definition Client_Contains :: "'w peer \<Rightarrow> UniqueID \<Rightarrow> (bool, 'w) call" where
  "Client_Contains P object_id s =
     (if map_of (objects_in_use s) object_id \<noteq> None then Inr (Inr True, s)
      else cbind (SendContainsRequest (request P) object_id) (\<lambda>_.
           cbind (receive P PlasmaContainsReply) (\<lambda>t.
           cbind (clift (ReadContainsReply t)) (\<lambda>(_, has_object). cret has_object))) s)"

definition Client_List :: "'w peer \<Rightarrow> (ObjectTable, 'w) call" where
  "Client_List P =
     cbind (SendListRequest (request P)) (\<lambda>_.
     cbind (receive P PlasmaListReply) (\<lambda>t. clift (ReadListReply t [])))"

definition Client_Evict :: "'w peer \<Rightarrow> int \<Rightarrow> (int, 'w) call" where
  "Client_Evict P num_bytes =
     cbind (SendEvictRequest (request P) num_bytes) (\<lambda>_.
     cbind (read_reply P) (\<lambda>(_, t). clift (ReadEvictReply t)))"

definition Client_Refresh :: "'w peer \<Rightarrow> UniqueID list \<Rightarrow> (unit, 'w) call" where
  "Client_Refresh P object_ids =
     cbind (SendRefreshLRURequest (request P) object_ids) (\<lambda>_.
     cbind (read_reply P) (\<lambda>(_, t). clift (ReadRefreshLRUReply t)))"

definition Client_Subscribe :: "'w peer \<Rightarrow> (int, 'w) call" where
  "Client_Subscribe P =
     cbind (with_world (p_socketpair P)) (\<lambda>(sock0, sock1).
     cbind (with_world (p_nonblock P sock1)) (\<lambda>r.
     cbind (ccheck (r = 0) ''fcntl(sock[1], F_SETFL, flags | O_NONBLOCK) == 0'') (\<lambda>_.
     cbind (SendSubscribeRequest (request P)) (\<lambda>_.
     cbind (\<lambda>s. with_world (p_send_fd P (store_conn s) sock1) s) (\<lambda>r.
     cbind (ccheck (0 \<le> r) ''send_fd(store_conn_, sock[1]) >= 0'') (\<lambda>_.
     cbind (with_world (\<lambda>w. ((), p_close P sock1 w))) (\<lambda>_.
     cret sock0)))))))"

definition decode_info :: "fb_table \<Rightarrow> (UniqueID \<times> int \<times> int) res" where
  "decode_info info =
     rbind (id_field info 0) (\<lambda>object_id. rbind (fb_scalar info 7) (\<lambda>is_deletion.
     if is_deletion \<noteq> 0 then Inr (object_id, -1, -1)
     else rbind (fb_scalar info 1) (\<lambda>ds. rbind (fb_scalar info 2) (\<lambda>ms. Inr (object_id, ds, ms)))))"

definition DecodeNotifications :: "fb_table \<Rightarrow> (UniqueID \<times> int \<times> int) list res" where
  "DecodeNotifications t = rbind (slot_tables (fb_field t 0)) (rmap decode_info)"

text \<open>A message with no notification in it makes \<open>front()\<close> read from an empty queue.\<close>

definition next_notification :: "(UniqueID \<times> int \<times> int, 'w) call" where
  "next_notification s =
     (case pending_notification s of
        [] \<Rightarrow> Inl OutOfBounds
      | n # rest \<Rightarrow> Inr (Inr n, s\<lparr>pending_notification := rest\<rparr>))"

definition Client_GetNotification :: "'w peer \<Rightarrow> int \<Rightarrow> (UniqueID \<times> int \<times> int, 'w) call" where
  "Client_GetNotification P fd s =
     (if pending_notification s = []
      then cbind (with_world (p_read_async P fd)) (\<lambda>message.
           case message of
             None \<Rightarrow> cbind (return_not_ok (IOError ''Failed to read object notification from Plasma socket''))
                      (\<lambda>_. next_notification)
           | Some t \<Rightarrow> cbind (clift (DecodeNotifications t)) (\<lambda>ns s.
                next_notification (s\<lparr>pending_notification := ns\<rparr>))) s
      else next_notification s)"

definition Client_Connect :: "'w peer \<Rightarrow> string \<Rightarrow> string \<Rightarrow> int \<Rightarrow> (unit, 'w) call" where
  "Client_Connect P store_socket_name manager_socket_name num_retries =
     cbind (with_world (p_connect P store_socket_name num_retries (-1))) (\<lambda>(st, fd).
     cbind (\<lambda>s. return_not_ok st (s\<lparr>store_conn := fd\<rparr>)) (\<lambda>_.
     if manager_socket_name \<noteq> ''''
     then return_not_ok (mk_status SC_NotImplemented ''plasma manager is no longer supported'')
     else cbind (SendConnectRequest (request P)) (\<lambda>_.
          cbind (receive P PlasmaConnectReply) (\<lambda>t.
          cbind (clift (ReadConnectReply t)) (\<lambda>n s. Inr (Inr (), s\<lparr>store_capacity := n\<rparr>))))))"

definition Client_SetClientOptions :: "'w peer \<Rightarrow> string \<Rightarrow> int \<Rightarrow> (unit, 'w) call" where
  "Client_SetClientOptions P client_name output_memory_quota =
     cbind (SendSetOptionsRequest (request P) client_name output_memory_quota) (\<lambda>_.
     cbind (receive P PlasmaSetOptionsReply) (\<lambda>t.
     cbind (clift (ReadSetOptionsReply t)) return_not_ok))"

definition Client_Disconnect :: "'w peer \<Rightarrow> (unit, 'w) call" where
  "Client_Disconnect P s =
     Inr (Inr (), s\<lparr>world := p_close P (store_conn s) (world s), store_conn := -1\<rparr>)"

definition Client_DebugString :: "'w peer \<Rightarrow> (string, 'w) call" where
  "Client_DebugString P s =
     rbind (SendGetDebugStringRequest (request P) s) (\<lambda>(r, s).
     case r of
       Inl _ \<Rightarrow> Inr (Inr ''error sending request'', s)
     | Inr _ \<Rightarrow> rbind (receive P PlasmaGetDebugStringReply s) (\<lambda>(r, s).
         case r of
           Inl _ \<Rightarrow> Inr (Inr ''error receiving reply'', s)
         | Inr t \<Rightarrow> rbind (ReadGetDebugStringReply t) (\<lambda>d. Inr (Inr d, s))))"

end
