(* ===== verification/Malloc_Hook.thy ===== *)
theory Malloc_Hook
  imports Allocator Client
begin

text \<open>
  The functions dlmalloc is compiled with in place of \<open>mmap\<close> and \<open>munmap\<close>
  (src/arrow/cpp/src/plasma/dlmalloc.cc). The allocator of this version does not call dlmalloc, but
  the file is part of the library, and \<open>main\<close> sets its granularity. dlmalloc itself is not
  modelled, only the parameter it keeps for the granularity.

  The lemmas show that what is mapped can be unmapped, that a part of it cannot, and that dlmalloc
  never sees two regions that touch.
\<close>

section \<open>State and system calls\<close>

record hook =
  hk_page_size :: nat
  hk_granularity :: nat
  hk_records :: "(nat \<times> MmapRecord) list"
  hk_open :: "int list"

record hook_sys =
  sys_mkstemp :: int
  sys_unlink :: int
  sys_ftruncate :: int
  sys_mmap :: "nat option"
  sys_munmap :: int

definition MAP_FAILED :: nat where
  "MAP_FAILED = 2 ^ 64 - 1"

definition size_t :: "int \<Rightarrow> nat" where
  "size_t x = nat (x mod 2 ^ 64)"

definition GRANULARITY_MULTIPLIER :: nat where
  "GRANULARITY_MULTIPLIER = 2"

definition pointer_advance :: "nat \<Rightarrow> int \<Rightarrow> nat" where
  "pointer_advance p n = size_t (int p + n)"

definition pointer_retreat :: "nat \<Rightarrow> int \<Rightarrow> nat" where
  "pointer_retreat p n = size_t (int p - n)"

section \<open>The functions\<close>

definition create_buffer :: "hook_sys \<Rightarrow> bool \<Rightarrow> int \<Rightarrow> hook \<Rightarrow> (int \<times> hook) res" where
  "create_buffer sys hugepages sz h =
     rbind (check (0 \<le> sys_mkstemp sys) ''create_buffer failed to open file'') (\<lambda>_.
     rbind (check (sys_unlink sys = 0) ''failed to unlink file'') (\<lambda>_.
     rbind (check (hugepages \<or> sys_ftruncate sys = 0) ''failed to ftruncate file'') (\<lambda>_.
     Inr (sys_mkstemp sys, h\<lparr>hk_open := sys_mkstemp sys # hk_open h\<rparr>))))"

definition fake_mmap :: "hook_sys \<Rightarrow> bool \<Rightarrow> nat \<Rightarrow> hook \<Rightarrow> (nat \<times> hook) res" where
  "fake_mmap sys hugepages sz h =
     (let sz = size_t (int sz + kMmapRegionsGap) in
      rbind (create_buffer sys hugepages (int64_of (int sz)) h) (\<lambda>(fd, h).
      rbind (check (0 \<le> fd) ''Failed to create buffer during mmap'') (\<lambda>_.
      case sys_mmap sys of
        None \<Rightarrow> Inr (MAP_FAILED, h)
      | Some pointer \<Rightarrow>
          Inr (pointer_advance pointer kMmapRegionsGap,
               h\<lparr>hk_granularity := size_t (int (hk_granularity h * GRANULARITY_MULTIPLIER)),
                 hk_records := AList.update pointer \<lparr>mr_fd = fd, mr_size = int64_of (int sz)\<rparr> (hk_records h)\<rparr>))))"

definition fake_munmap :: "hook_sys \<Rightarrow> nat \<Rightarrow> int \<Rightarrow> hook \<Rightarrow> int \<times> hook" where
  "fake_munmap sys addr sz h =
     (let addr = pointer_retreat addr kMmapRegionsGap; sz = sadd64 sz kMmapRegionsGap in
      case map_of (hk_records h) addr of
        None \<Rightarrow> (-1, h)
      | Some entry \<Rightarrow>
          if mr_size entry \<noteq> sz then (-1, h)
          else (sys_munmap sys,
                h\<lparr>hk_records := AList.delete addr (hk_records h),
                  hk_open := (if sys_munmap sys = 0 then removeAll (mr_fd entry) (hk_open h) else hk_open h)\<rparr>))"

text \<open>\<open>change_mparam(M_GRANULARITY, value)\<close> of dlmalloc.c: a power of two, at least a page.\<close>

definition SetMallocGranularity :: "int \<Rightarrow> hook \<Rightarrow> hook" where
  "SetMallocGranularity value h =
     (let val = size_t value in
      if hk_page_size h \<le> val \<and> (of_nat val :: 64 word) AND (of_nat val - 1) = 0 then h\<lparr>hk_granularity := val\<rparr> else h)"

section \<open>What the functions do\<close>

lemma gap_roundtrip: "p < 2 ^ 64 \<Longrightarrow> pointer_retreat (pointer_advance p kMmapRegionsGap) kMmapRegionsGap = p"
  by (simp add: pointer_retreat_def pointer_advance_def size_t_def mod_simps)

lemma create_buffer_Inr:
  "create_buffer sys hp n h = Inr x \<longleftrightarrow> 0 \<le> sys_mkstemp sys \<and> sys_unlink sys = 0 \<and> (hp \<or> sys_ftruncate sys = 0) \<and>
     x = (sys_mkstemp sys, h\<lparr>hk_open := sys_mkstemp sys # hk_open h\<rparr>)"
  by (auto simp: create_buffer_def rbind_check_eq_Inr)

lemma fake_mmap_Inr:
  assumes "fake_mmap sys hp n h = Inr (addr, h')" and "sys_mmap sys = Some p"
  shows "addr = pointer_advance p kMmapRegionsGap" and "h' = h\<lparr>hk_open := sys_mkstemp sys # hk_open h,
      hk_granularity := size_t (int (hk_granularity h * GRANULARITY_MULTIPLIER)), hk_records := AList.update p
        \<lparr>mr_fd = sys_mkstemp sys, mr_size = int64_of (int (size_t (int n + kMmapRegionsGap)))\<rparr> (hk_records h)\<rparr>"
proof -
  obtain x where x: "create_buffer sys hp (int64_of (int (size_t (int n + kMmapRegionsGap)))) h = Inr x"
    using assms by (cases "create_buffer sys hp (int64_of (int (size_t (int n + kMmapRegionsGap)))) h")
      (simp_all add: fake_mmap_def Let_def)
  note parts = x [unfolded create_buffer_Inr]
  show "addr = pointer_advance p kMmapRegionsGap" and "h' = h\<lparr>hk_open := sys_mkstemp sys # hk_open h,
      hk_granularity := size_t (int (hk_granularity h * GRANULARITY_MULTIPLIER)), hk_records := AList.update p
        \<lparr>mr_fd = sys_mkstemp sys, mr_size = int64_of (int (size_t (int n + kMmapRegionsGap)))\<rparr> (hk_records h)\<rparr>"
    using assms parts by (auto simp: fake_mmap_def Let_def x rbind_check_eq_Inr)
qed

text \<open>
  What \<open>fake_mmap\<close> returned can be unmapped with the size that was asked for: the record goes away and
  the file is closed, so the tables are as before; only the granularity has doubled.
\<close>
theorem fake_munmap_undoes_mmap:
  assumes "fake_mmap sys hugepages sz h = Inr (addr, h')" and "sys_mmap sys = Some p" and "p < 2 ^ 64"
    and "sz < 2 ^ 63 - 8" and "map_of (hk_records h) p = None" and "sys_mkstemp sys \<notin> set (hk_open h)" and "sys_munmap sys' = 0"
  shows "\<exists>h''. fake_munmap sys' addr (int sz) h' = (0, h'') \<and> map_of (hk_records h'') = map_of (hk_records h) \<and>
     hk_open h'' = hk_open h \<and> hk_granularity h'' = hk_granularity h * 2 mod 2 ^ 64"
proof -
  have s: "size_t (int sz + kMmapRegionsGap) = sz + 8" "int64_of (int (sz + 8)) = int sz + 8"
    "sadd64 (int sz) kMmapRegionsGap = int sz + 8"
    using assms(4) by (simp_all add: size_t_def kMmapRegionsGap_def int64_of_def sadd64_def nat_add_distrib)
  from fake_mmap_Inr [OF assms(1,2)] s(1,2) have addr: "addr = pointer_advance p kMmapRegionsGap"
    and h': "h' = h\<lparr>hk_open := sys_mkstemp sys # hk_open h, hk_granularity := size_t (int (hk_granularity h * 2)),
      hk_records := AList.update p \<lparr>mr_fd = sys_mkstemp sys, mr_size = int sz + 8\<rparr> (hk_records h)\<rparr>"
    by (simp_all add: GRANULARITY_MULTIPLIER_def)
  have "removeAll (sys_mkstemp sys) (hk_open h) = hk_open h" using assms(6) by (rule removeAll_id)
  then have "fake_munmap sys' addr (int sz) h' = (0, h'\<lparr>hk_records := AList.delete p (hk_records h'), hk_open := hk_open h\<rparr>)"
    using assms(7) s(3) gap_roundtrip [OF assms(3)] by (simp add: fake_munmap_def addr h' update_conv')
  moreover have "size_t (int (hk_granularity h * 2)) = hk_granularity h * 2 mod 2 ^ 64"
    by (simp add: size_t_def nat_mod_distrib nat_mult_distrib)
  ultimately show ?thesis
    using assms(5) by (auto simp: h' delete_conv' update_conv' fun_eq_iff)
qed

text \<open>A request that does not match a whole mapping is refused, so dlmalloc cannot trim.\<close>
theorem fake_munmap_refuses_part:
  assumes "\<And>entry. map_of (hk_records h) (pointer_retreat addr kMmapRegionsGap) = Some entry \<Longrightarrow>
     mr_size entry \<noteq> sadd64 sz kMmapRegionsGap"
  shows "fake_munmap sys addr sz h = (-1, h)"
  using assms by (auto simp: fake_munmap_def Let_def split: option.splits)

text \<open>
  The kernel gives disjoint mappings; the regions dlmalloc sees are then at least eight bytes apart,
  so it never merges two of them.
\<close>
theorem regions_never_touch:
  assumes "fake_mmap s1 hp n1 h1 = Inr (a1, k1)" and "sys_mmap s1 = Some p1" and "p1 + n1 + 8 < 2 ^ 64"
    and "fake_mmap s2 hp n2 h2 = Inr (a2, k2)" and "sys_mmap s2 = Some p2" and "p2 + n2 + 8 < 2 ^ 64"
    and "p1 + (n1 + 8) \<le> p2"
  shows "a1 + n1 + 8 \<le> a2"
proof -
  have "pointer_advance p kMmapRegionsGap = p + 8" if "p + n + 8 < 2 ^ 64" for p n
    using that by (simp add: pointer_advance_def size_t_def kMmapRegionsGap_def nat_add_distrib)
  from this [OF assms(3)] this [OF assms(6)] show ?thesis
    using assms(7) fake_mmap_Inr(1) [OF assms(1,2)] fake_mmap_Inr(1) [OF assms(4,5)] by simp
qed

text \<open>When \<open>munmap\<close> fails the record is dropped all the same: the region stays mapped, its file open and unknown.\<close>
theorem fake_munmap_failure_forgets:
  assumes "map_of (hk_records h) (pointer_retreat addr kMmapRegionsGap) = Some entry"
    and "mr_size entry = sadd64 sz kMmapRegionsGap" and "sys_munmap sys \<noteq> 0"
  shows "\<exists>h'. fake_munmap sys addr sz h = (sys_munmap sys, h') \<and> hk_open h' = hk_open h \<and>
     map_of (hk_records h') (pointer_retreat addr kMmapRegionsGap) = None"
  using assms by (simp add: fake_munmap_def Let_def delete_conv')

end
