(* ===== verification/Ae.thy ===== *)
theory Ae
  imports Common
begin

text \<open>
  The event library (src/arrow/cpp/src/plasma/thirdparty/ae/ae.c over ae_epoll.c).

  \<^item> The array \<open>events\<close> is a function on descriptors, read and written only between 0 and
    \<open>setsize\<close>. \<open>zrealloc\<close> may move it, so it has an address that changes with every resize.
  \<^item> The list of timers is a list of nodes. Nodes have addresses, since \<open>processTimeEvents\<close> keeps
    pointers to nodes while the callbacks of timers change the list.
  \<^item> The interest list of the kernel is \<open>ep_interest\<close>. Reasons for which \<open>epoll_ctl\<close> can fail that
    are not visible there (memory, limits, the kind of the file) are an argument of the call.
  \<^item> \<open>zmalloc\<close> and \<open>epoll_create\<close> are taken to succeed.
  \<^item> Function pointers are numbers. A \<open>host\<close> interprets them: it is the program around the
    library, with its clock, \<open>epoll_wait\<close>, and a place for the state of the library in its own
    state, which the callbacks change.
\<close>

unbundle bit_operations_syntax

section \<open>State\<close>

definition AE_OK :: int where
  "AE_OK = 0"

definition AE_ERR :: int where
  "AE_ERR = -1"

definition AE_NONE :: int where
  "AE_NONE = 0"

definition AE_READABLE :: int where
  "AE_READABLE = 1"

definition AE_WRITABLE :: int where
  "AE_WRITABLE = 2"

definition AE_FILE_EVENTS :: int where
  "AE_FILE_EVENTS = 1"

definition AE_TIME_EVENTS :: int where
  "AE_TIME_EVENTS = 2"

definition AE_ALL_EVENTS :: int where
  "AE_ALL_EVENTS = AE_FILE_EVENTS OR AE_TIME_EVENTS"

definition AE_DONT_WAIT :: int where
  "AE_DONT_WAIT = 4"

definition AE_NOMORE :: int where
  "AE_NOMORE = -1"

definition AE_DELETED_EVENT_ID :: int where
  "AE_DELETED_EVENT_ID = -1"

lemmas ae_consts = AE_OK_def AE_ERR_def AE_NONE_def AE_READABLE_def AE_WRITABLE_def AE_FILE_EVENTS_def
  AE_TIME_EVENTS_def AE_ALL_EVENTS_def AE_DONT_WAIT_def AE_NOMORE_def AE_DELETED_EVENT_ID_def

record aeFileEvent =
  fe_mask :: int
  fe_rfileProc :: nat
  fe_wfileProc :: nat
  fe_clientData :: nat

record aeTimeEvent =
  te_node :: nat
  te_id :: int
  te_when_sec :: int
  te_when_ms :: int
  te_timeProc :: nat
  te_finalizerProc :: nat
  te_clientData :: nat

record aeEventLoop =
  ae_maxfd :: int
  ae_setsize :: int
  ae_timeEventNextId :: int
  ae_lastTime :: int
  ae_events :: "int \<Rightarrow> aeFileEvent"
  ae_events_addr :: nat
  ae_timeEventHead :: "aeTimeEvent list"
  ae_next_node :: nat
  ae_stop :: bool
  ae_beforesleep :: nat
  ep_interest :: "(int \<times> int) list"

definition no_file_event :: aeFileEvent where
  "no_file_event = \<lparr>fe_mask = AE_NONE, fe_rfileProc = 0, fe_wfileProc = 0, fe_clientData = 0\<rparr>"

definition aeCreateEventLoop :: "int \<Rightarrow> int \<Rightarrow> aeEventLoop" where
  "aeCreateEventLoop now setsize =
     \<lparr>ae_maxfd = -1, ae_setsize = setsize, ae_timeEventNextId = 0, ae_lastTime = now,
      ae_events = (\<lambda>_. no_file_event), ae_events_addr = 0, ae_timeEventHead = [], ae_next_node = 0,
      ae_stop = False, ae_beforesleep = 0, ep_interest = []\<rparr>"

definition aeGetSetSize :: "aeEventLoop \<Rightarrow> int" where
  "aeGetSetSize l = ae_setsize l"

text \<open>\<open>&events[fd]\<close>: an address outside of the array is undefined behaviour.\<close>

definition event_at :: "int \<Rightarrow> aeEventLoop \<Rightarrow> aeFileEvent res" where
  "event_at fd l = (if 0 \<le> fd \<and> fd < ae_setsize l then Inr (ae_events l fd) else Inl OutOfBounds)"

definition set_event :: "int \<Rightarrow> aeFileEvent \<Rightarrow> aeEventLoop \<Rightarrow> aeEventLoop" where
  "set_event fd fe l = l\<lparr>ae_events := (ae_events l)(fd := fe)\<rparr>"

section \<open>The polling interface\<close>

definition EPOLLIN :: int where
  "EPOLLIN = 1"

definition EPOLLOUT :: int where
  "EPOLLOUT = 4"

definition EPOLLERR :: int where
  "EPOLLERR = 8"

definition EPOLLHUP :: int where
  "EPOLLHUP = 16"

datatype epoll_op = EPOLL_CTL_ADD | EPOLL_CTL_MOD | EPOLL_CTL_DEL

text \<open>
  The kernel: adding a descriptor that is in the list fails (\<open>EEXIST\<close>), changing or removing one
  that is not there fails (\<open>ENOENT\<close>). \<open>ok\<close> is false if the call fails for another reason.
\<close>

definition epoll_ctl :: "bool \<Rightarrow> epoll_op \<Rightarrow> int \<Rightarrow> int \<Rightarrow> aeEventLoop \<Rightarrow> bool \<times> aeEventLoop" where
  "epoll_ctl ok op fd ev l =
     (if \<not> ok \<or> (op = EPOLL_CTL_ADD) = (map_of (ep_interest l) fd \<noteq> None) then (False, l)
      else (True, l\<lparr>ep_interest := (if op = EPOLL_CTL_DEL then AList.delete fd (ep_interest l)
                                   else AList.update fd ev (ep_interest l))\<rparr>))"

text \<open>
  \<open>epoll_wait\<close> reports descriptors of the interest list, each with the events that were asked for
  and are \<open>ready\<close>, or an error or a hang-up, and not more than the array holds.
\<close>

definition epoll_wait :: "(int \<times> int) list \<Rightarrow> aeEventLoop \<Rightarrow> (int \<times> int) list" where
  "epoll_wait ready l =
     take (nat (ae_setsize l)) (List.map_filter (\<lambda>(fd, ev).
       case map_of (ep_interest l) fd of
         None \<Rightarrow> None
       | Some ask \<Rightarrow> let ev = ev AND (ask OR EPOLLERR OR EPOLLHUP) in if ev = 0 then None else Some (fd, ev)) ready)"

text \<open>A descriptor that is closed leaves the list.\<close>

definition epoll_close :: "int \<Rightarrow> aeEventLoop \<Rightarrow> aeEventLoop" where
  "epoll_close fd l = l\<lparr>ep_interest := AList.delete fd (ep_interest l)\<rparr>"

definition epoll_mask :: "int \<Rightarrow> int" where
  "epoll_mask bits =
     (if bits AND AE_READABLE \<noteq> 0 then EPOLLIN else 0) OR (if bits AND AE_WRITABLE \<noteq> 0 then EPOLLOUT else 0)"

definition aeApiAddEvent :: "bool \<Rightarrow> int \<Rightarrow> int \<Rightarrow> aeEventLoop \<Rightarrow> (bool \<times> aeEventLoop) res" where
  "aeApiAddEvent ok fd bits l =
     rbind (event_at fd l) (\<lambda>fe.
     let op = (if fe_mask fe = AE_NONE then EPOLL_CTL_ADD else EPOLL_CTL_MOD) in
     Inr (epoll_ctl ok op fd (epoll_mask (bits OR fe_mask fe)) l))"

text \<open>The results of \<open>epoll_ctl\<close> are not looked at.\<close>

definition aeApiDelEvent :: "int \<Rightarrow> int \<Rightarrow> aeEventLoop \<Rightarrow> aeEventLoop res" where
  "aeApiDelEvent fd delmask l =
     rbind (event_at fd l) (\<lambda>fe.
     let bits = fe_mask fe AND NOT delmask in
     Inr (snd (epoll_ctl True (if bits \<noteq> AE_NONE then EPOLL_CTL_MOD else EPOLL_CTL_DEL) fd (epoll_mask bits) l)))"

definition fired_mask :: "int \<Rightarrow> int" where
  "fired_mask ev =
     (if ev AND EPOLLIN \<noteq> 0 then AE_READABLE else 0) OR (if ev AND EPOLLOUT \<noteq> 0 then AE_WRITABLE else 0) OR
     (if ev AND EPOLLERR \<noteq> 0 then AE_WRITABLE else 0) OR (if ev AND EPOLLHUP \<noteq> 0 then AE_WRITABLE else 0)"

section \<open>File events\<close>

definition aeResizeSetSize :: "int \<Rightarrow> aeEventLoop \<Rightarrow> int \<times> aeEventLoop" where
  "aeResizeSetSize setsize l =
     (if setsize = ae_setsize l then (AE_OK, l)
      else if setsize \<le> ae_maxfd l then (AE_ERR, l)
      else (AE_OK, l\<lparr>ae_events_addr := Suc (ae_events_addr l), ae_setsize := setsize,
              ae_events := (\<lambda>i. if ae_maxfd l < i then (ae_events l i)\<lparr>fe_mask := AE_NONE\<rparr> else ae_events l i)\<rparr>))"

text \<open>The result: \<open>AE_OK\<close> or \<open>AE_ERR\<close>, and whether \<open>errno\<close> is \<open>ERANGE\<close>, which \<open>epoll_ctl\<close> never sets.\<close>

definition aeCreateFileEvent ::
    "bool \<Rightarrow> int \<Rightarrow> int \<Rightarrow> nat \<Rightarrow> nat \<Rightarrow> aeEventLoop \<Rightarrow> (int \<times> bool \<times> aeEventLoop) res" where
  "aeCreateFileEvent ok fd bits fproc clientData l =
     (if ae_setsize l \<le> fd then Inr (AE_ERR, True, l)
      else rbind (event_at fd l) (\<lambda>fe.
           rbind (aeApiAddEvent ok fd bits l) (\<lambda>(added, l).
           if \<not> added then Inr (AE_ERR, False, l)
           else let fe = fe\<lparr>fe_mask := fe_mask fe OR bits,
                            fe_rfileProc := (if bits AND AE_READABLE \<noteq> 0 then fproc else fe_rfileProc fe),
                            fe_wfileProc := (if bits AND AE_WRITABLE \<noteq> 0 then fproc else fe_wfileProc fe),
                            fe_clientData := clientData\<rparr>
                in Inr (AE_OK, False, (set_event fd fe l)\<lparr>ae_maxfd := max fd (ae_maxfd l)\<rparr>))))"

text \<open>The largest descriptor below \<open>n\<close> that is registered, or -1.\<close>

fun last_registered :: "(int \<Rightarrow> aeFileEvent) \<Rightarrow> nat \<Rightarrow> int" where
  "last_registered es 0 = -1"
| "last_registered es (Suc j) = (if fe_mask (es (int j)) \<noteq> AE_NONE then int j else last_registered es j)"

definition aeDeleteFileEvent :: "int \<Rightarrow> int \<Rightarrow> aeEventLoop \<Rightarrow> aeEventLoop res" where
  "aeDeleteFileEvent fd bits l =
     (if ae_setsize l \<le> fd then Inr l
      else rbind (event_at fd l) (\<lambda>fe.
           if fe_mask fe = AE_NONE then Inr l
           else rbind (aeApiDelEvent fd bits l) (\<lambda>l.
                let fe = fe\<lparr>fe_mask := fe_mask fe AND NOT bits\<rparr>;
                    l = set_event fd fe l
                in Inr (if fd = ae_maxfd l \<and> fe_mask fe = AE_NONE
                        then l\<lparr>ae_maxfd := last_registered (ae_events l) (nat (ae_maxfd l))\<rparr> else l))))"

definition aeGetFileEvents :: "int \<Rightarrow> aeEventLoop \<Rightarrow> int res" where
  "aeGetFileEvents fd l = (if ae_setsize l \<le> fd then Inr 0 else rbind (event_at fd l) (\<lambda>fe. Inr (fe_mask fe)))"

definition aeStop :: "aeEventLoop \<Rightarrow> aeEventLoop" where
  "aeStop l = l\<lparr>ae_stop := True\<rparr>"

section \<open>Timers\<close>

text \<open>A reading of the clock is in seconds and microseconds.\<close>

definition aeGetTime :: "int \<times> int \<Rightarrow> int \<times> int" where
  "aeGetTime tv = (fst tv, cdiv (snd tv) 1000)"

definition crem :: "int \<Rightarrow> int \<Rightarrow> int" where
  "crem a b = a - cdiv a b * b"

definition aeAddMillisecondsToNow :: "int \<times> int \<Rightarrow> int \<Rightarrow> int \<times> int" where
  "aeAddMillisecondsToNow tv milliseconds =
     (case aeGetTime tv of (cur_sec, cur_ms) \<Rightarrow>
        let when_sec = cur_sec + cdiv milliseconds 1000;
            when_ms = cur_ms + crem milliseconds 1000
        in if 1000 \<le> when_ms then (when_sec + 1, when_ms - 1000) else (when_sec, when_ms))"

definition aeCreateTimeEvent ::
    "int \<times> int \<Rightarrow> int \<Rightarrow> nat \<Rightarrow> nat \<Rightarrow> nat \<Rightarrow> aeEventLoop \<Rightarrow> int \<times> aeEventLoop" where
  "aeCreateTimeEvent tv milliseconds tproc clientData finalizerProc l =
     (case aeAddMillisecondsToNow tv milliseconds of (sec, ms) \<Rightarrow>
        let te = \<lparr>te_node = ae_next_node l, te_id = ae_timeEventNextId l, te_when_sec = sec, te_when_ms = ms,
                  te_timeProc = tproc, te_finalizerProc = finalizerProc, te_clientData = clientData\<rparr>
        in (ae_timeEventNextId l,
            l\<lparr>ae_timeEventNextId := ae_timeEventNextId l + 1, ae_next_node := Suc (ae_next_node l),
              ae_timeEventHead := te # ae_timeEventHead l\<rparr>))"

fun mark_deleted :: "int \<Rightarrow> aeTimeEvent list \<Rightarrow> aeTimeEvent list option" where
  "mark_deleted i [] = None"
| "mark_deleted i (te # ts) =
     (if te_id te = i then Some (te\<lparr>te_id := AE_DELETED_EVENT_ID\<rparr> # ts)
      else map_option ((#) te) (mark_deleted i ts))"

definition aeDeleteTimeEvent :: "int \<Rightarrow> aeEventLoop \<Rightarrow> int \<times> aeEventLoop" where
  "aeDeleteTimeEvent i l =
     (case mark_deleted i (ae_timeEventHead l) of
        Some ts \<Rightarrow> (AE_OK, l\<lparr>ae_timeEventHead := ts\<rparr>)
      | None \<Rightarrow> (AE_ERR, l))"

definition sooner :: "aeTimeEvent \<Rightarrow> aeTimeEvent \<Rightarrow> bool" where
  "sooner te t \<longleftrightarrow> te_when_sec te < te_when_sec t \<or> te_when_sec te = te_when_sec t \<and> te_when_ms te < te_when_ms t"

definition aeSearchNearestTimer :: "aeEventLoop \<Rightarrow> aeTimeEvent option" where
  "aeSearchNearestTimer l =
     fold (\<lambda>te nearest. case nearest of None \<Rightarrow> Some te | Some t \<Rightarrow> if sooner te t then Some te else nearest)
       (ae_timeEventHead l) None"

section \<open>The host\<close>

text \<open>
  \<open>h_file\<close>, \<open>h_time\<close>, \<open>h_final\<close> and \<open>h_sleep\<close> call the function a pointer stands for, \<open>h_clock\<close> is
  \<open>gettimeofday\<close>, \<open>h_wait\<close> is \<open>epoll_wait\<close>: descriptors with their events, or \<open>None\<close> for an error.
\<close>

record 's host =
  h_loop :: "'s \<Rightarrow> aeEventLoop"
  h_set :: "aeEventLoop \<Rightarrow> 's \<Rightarrow> 's"
  h_clock :: "'s \<Rightarrow> (int \<times> int) \<times> 's"
  h_wait :: "int \<Rightarrow> 's \<Rightarrow> (int \<times> int) list option \<times> 's"
  h_file :: "nat \<Rightarrow> int \<Rightarrow> nat \<Rightarrow> int \<Rightarrow> 's \<Rightarrow> 's res"
  h_time :: "nat \<Rightarrow> int \<Rightarrow> nat \<Rightarrow> 's \<Rightarrow> (int \<times> 's) res"
  h_final :: "nat \<Rightarrow> nat \<Rightarrow> 's \<Rightarrow> 's res"
  h_sleep :: "nat \<Rightarrow> 's \<Rightarrow> 's res"

definition h_upd :: "'s host \<Rightarrow> (aeEventLoop \<Rightarrow> aeEventLoop) \<Rightarrow> 's \<Rightarrow> 's" where
  "h_upd h f s = h_set h (f (h_loop h s)) s"

section \<open>Processing timers\<close>

definition node_at :: "nat \<Rightarrow> aeTimeEvent list \<Rightarrow> aeTimeEvent option" where
  "node_at a ts = find (\<lambda>te. te_node te = a) ts"

text \<open>The nodes behind the node \<open>a\<close>, and the address of the first of them: \<open>te->next\<close>.\<close>

definition behind :: "nat \<Rightarrow> aeTimeEvent list \<Rightarrow> aeTimeEvent list" where
  "behind a ts = tl (dropWhile (\<lambda>te. te_node te \<noteq> a) ts)"

definition head_node :: "aeTimeEvent list \<Rightarrow> nat option" where
  "head_node ts = (case ts of [] \<Rightarrow> None | te # _ \<Rightarrow> Some (te_node te))"

text \<open>
  Unlinking \<open>te\<close>: without a predecessor the head becomes \<open>te->next\<close>, otherwise \<open>prev->next\<close> does,
  whatever lies between \<open>prev\<close> and \<open>te\<close>.
\<close>

definition unlink :: "nat option \<Rightarrow> nat \<Rightarrow> aeTimeEvent list \<Rightarrow> aeTimeEvent list" where
  "unlink prev a ts =
     (case prev of
        None \<Rightarrow> behind a ts
      | Some p \<Rightarrow> takeWhile (\<lambda>te. te_node te \<noteq> p) ts @ take 1 (dropWhile (\<lambda>te. te_node te \<noteq> p) ts) @ behind a ts)"

definition set_node :: "nat \<Rightarrow> (aeTimeEvent \<Rightarrow> aeTimeEvent) \<Rightarrow> aeTimeEvent list \<Rightarrow> aeTimeEvent list" where
  "set_node a f ts = map (\<lambda>te. if te_node te = a then f te else te) ts"

definition due :: "int \<times> int \<Rightarrow> aeTimeEvent \<Rightarrow> bool" where
  "due tv te \<longleftrightarrow>
     (case aeGetTime tv of (now_sec, now_ms) \<Rightarrow>
        te_when_sec te < now_sec \<or> now_sec = te_when_sec te \<and> te_when_ms te \<le> now_ms)"

text \<open>A timer that is due runs; its callback says when it wants to run again.\<close>

definition fire_timer :: "'s host \<Rightarrow> nat \<Rightarrow> aeTimeEvent \<Rightarrow> 's \<Rightarrow> 's res" where
  "fire_timer h a te s =
     rbind (h_time h (te_timeProc te) (te_id te) (te_clientData te) s) (\<lambda>(retval, s).
     if retval \<noteq> AE_NOMORE
     then case h_clock h s of (tv, s) \<Rightarrow>
            case aeAddMillisecondsToNow tv retval of (sec, ms) \<Rightarrow>
              Inr (h_upd h (\<lambda>l. l\<lparr>ae_timeEventHead :=
                 set_node a (\<lambda>te. te\<lparr>te_when_sec := sec, te_when_ms := ms\<rparr>) (ae_timeEventHead l)\<rparr>) s)
     else Inr (h_upd h (\<lambda>l. l\<lparr>ae_timeEventHead :=
                 set_node a (\<lambda>te. te\<lparr>te_id := AE_DELETED_EVENT_ID\<rparr>) (ae_timeEventHead l)\<rparr>) s))"

text \<open>The loop over the nodes, with fuel: callbacks could grow the list behind the current node.\<close>

fun timer_loop :: "'s host \<Rightarrow> int \<Rightarrow> nat \<Rightarrow> nat option \<Rightarrow> nat option \<Rightarrow> int \<Rightarrow> 's \<Rightarrow> (int \<times> 's) res" where
  "timer_loop h maxId n prev None processed s = Inr (processed, s)"
| "timer_loop h maxId 0 prev (Some a) processed s = Inl OutOfFuel"
| "timer_loop h maxId (Suc n) prev (Some a) processed s =
     (case node_at a (ae_timeEventHead (h_loop h s)) of
        None \<Rightarrow> Inl DanglingRef
      | Some te \<Rightarrow>
          if te_id te = AE_DELETED_EVENT_ID
          then let next = head_node (behind a (ae_timeEventHead (h_loop h s)));
                   s = h_upd h (\<lambda>l. l\<lparr>ae_timeEventHead := unlink prev a (ae_timeEventHead l)\<rparr>) s
               in rbind (if te_finalizerProc te \<noteq> 0 then h_final h (te_finalizerProc te) (te_clientData te) s else Inr s)
                    (\<lambda>s. timer_loop h maxId n prev next processed s)
          else if maxId < te_id te
          then timer_loop h maxId n prev (head_node (behind a (ae_timeEventHead (h_loop h s)))) processed s
          else case h_clock h s of (tv, s) \<Rightarrow>
            rbind (if due tv te then rbind (fire_timer h a te s) (\<lambda>s. Inr (processed + 1, s)) else Inr (processed, s))
              (\<lambda>(processed, s).
                 timer_loop h maxId n (Some a) (head_node (behind a (ae_timeEventHead (h_loop h s)))) processed s))"

definition processTimeEvents :: "'s host \<Rightarrow> 's \<Rightarrow> (int \<times> 's) res" where
  "processTimeEvents h s =
     (case h_clock h s of (tv, s) \<Rightarrow>
        let now = fst tv;
            s = h_upd h (\<lambda>l. l\<lparr>ae_lastTime := now,
                  ae_timeEventHead := (if now < ae_lastTime l then map (\<lambda>te. te\<lparr>te_when_sec := 0\<rparr>) (ae_timeEventHead l)
                                       else ae_timeEventHead l)\<rparr>) s;
            l = h_loop h s
        in timer_loop h (ae_timeEventNextId l - 1) (length (ae_timeEventHead l)) None (head_node (ae_timeEventHead l)) 0 s)"

section \<open>Processing events\<close>

text \<open>
  A pointer into the array of events: the address of the array and the index. After the array has
  moved, reading through it is a use after free.
\<close>

definition deref_event :: "nat \<times> int \<Rightarrow> aeEventLoop \<Rightarrow> aeFileEvent res" where
  "deref_event fe l = (if fst fe = ae_events_addr l then event_at (snd fe) l else Inl DanglingRef)"

definition process_fired :: "'s host \<Rightarrow> int \<times> int \<Rightarrow> 's \<Rightarrow> 's res" where
  "process_fired h fired s =
     (let fd = fst fired; bits = snd fired; fe = (ae_events_addr (h_loop h s), fd) in
      rbind (deref_event fe (h_loop h s)) (\<lambda>e.
      let rfired = fe_mask e AND bits AND AE_READABLE \<noteq> 0 in
      rbind (if rfired then h_file h (fe_rfileProc e) fd (fe_clientData e) bits s else Inr s) (\<lambda>s.
      rbind (deref_event fe (h_loop h s)) (\<lambda>e.
      if fe_mask e AND bits AND AE_WRITABLE \<noteq> 0 \<and> (\<not> rfired \<or> fe_wfileProc e \<noteq> fe_rfileProc e)
      then h_file h (fe_wfileProc e) fd (fe_clientData e) bits s else Inr s))))"

text \<open>How long \<open>epoll_wait\<close> may sleep, in milliseconds; -1 is for ever.\<close>

definition poll_timeout :: "'s host \<Rightarrow> int \<Rightarrow> 's \<Rightarrow> int \<times> 's" where
  "poll_timeout h flags s =
     (let waits = flags AND AE_TIME_EVENTS \<noteq> 0 \<and> flags AND AE_DONT_WAIT = 0 in
      case (if waits then aeSearchNearestTimer (h_loop h s) else None) of
        Some shortest \<Rightarrow>
          (case h_clock h s of (tv, s) \<Rightarrow>
             case aeGetTime tv of (now_sec, now_ms) \<Rightarrow>
               let ms = (te_when_sec shortest - now_sec) * 1000 + te_when_ms shortest - now_ms
               in if 0 < ms then (cdiv ms 1000 * 1000 + cdiv (crem ms 1000 * 1000) 1000, s) else (0, s))
      | None \<Rightarrow> (if flags AND AE_DONT_WAIT \<noteq> 0 then 0 else -1, s))"

text \<open>The parameter of \<open>epoll_wait\<close> is an \<open>int\<close>.\<close>

definition aeApiPoll :: "'s host \<Rightarrow> int \<Rightarrow> 's \<Rightarrow> (int \<times> int) list \<times> 's" where
  "aeApiPoll h timeout s =
     (case h_wait h (int32_of timeout) s of
        (None, s) \<Rightarrow> ([], s)
      | (Some evs, s) \<Rightarrow> (map (\<lambda>(fd, ev). (fd, fired_mask ev)) evs, s))"

definition aeProcessEvents :: "'s host \<Rightarrow> int \<Rightarrow> 's \<Rightarrow> (int \<times> 's) res" where
  "aeProcessEvents h flags s =
     (if flags AND AE_TIME_EVENTS = 0 \<and> flags AND AE_FILE_EVENTS = 0 then Inr (0, s)
      else rbind
        (if ae_maxfd (h_loop h s) \<noteq> -1 \<or> flags AND AE_TIME_EVENTS \<noteq> 0 \<and> flags AND AE_DONT_WAIT = 0
         then case poll_timeout h flags s of (timeout, s) \<Rightarrow>
                case aeApiPoll h timeout s of (fired, s) \<Rightarrow>
                  rbind (rfold (process_fired h) fired s) (\<lambda>s. Inr (int (length fired), s))
         else Inr (0, s)) (\<lambda>(processed, s).
      if flags AND AE_TIME_EVENTS \<noteq> 0
      then rbind (processTimeEvents h s) (\<lambda>(k, s). Inr (processed + k, s))
      else Inr (processed, s)))"

text \<open>
  The loop of \<open>aeMain\<close> runs until it is stopped, which may be never: \<open>n\<close> passes of it, and whether
  it has stopped.
\<close>

fun main_loop :: "'s host \<Rightarrow> nat \<Rightarrow> 's \<Rightarrow> (bool \<times> 's) res" where
  "main_loop h 0 s = Inr (ae_stop (h_loop h s), s)"
| "main_loop h (Suc n) s =
     (if ae_stop (h_loop h s) then Inr (True, s)
      else rbind (if ae_beforesleep (h_loop h s) \<noteq> 0 then h_sleep h (ae_beforesleep (h_loop h s)) s else Inr s) (\<lambda>s.
           rbind (aeProcessEvents h AE_ALL_EVENTS s) (\<lambda>(_, s). main_loop h n s)))"

definition aeMain :: "'s host \<Rightarrow> nat \<Rightarrow> 's \<Rightarrow> (bool \<times> 's) res" where
  "aeMain h n s = main_loop h n (h_upd h (\<lambda>l. l\<lparr>ae_stop := False\<rparr>) s)"

end
