(* ===== verification/Events.thy ===== *)
theory Events
  imports Ae
begin

text \<open>
  The event loop (src/arrow/cpp/src/plasma/events.cc) over the \<open>ae\<close> library. A callback is a value
  that names the handler and what it captured; the store interprets it. The class owns its
  callbacks: it hands their addresses to the library as \<open>clientData\<close> and keeps the objects in
  \<open>file_callbacks_\<close> and \<open>timer_callbacks_\<close>; an object that was erased there is gone.

  \<open>wired\<close> is the invariant that ties the tables to the arrays and lists of the library: every
  registration the library can run points to a live callback of the right descriptor or timer.
  \<open>loop_uses\<close> is any sequence of calls of the methods; it keeps \<open>wired\<close> and only lets the library
  grow (\<open>grows\<close>).
\<close>

section \<open>State\<close>

datatype callback =
    CbProcessMessage int
  | CbConnectClient int
  | CbSendNotifications int
  | CbReturnFromGet nat

definition kEventLoopOk :: int where
  "kEventLoopOk = 0"

definition kEventLoopRead :: int where
  "kEventLoopRead = 1"

definition kEventLoopWrite :: int where
  "kEventLoopWrite = 2"

definition kEventLoopTimerDone :: int where
  "kEventLoopTimerDone = -1"

definition kInitialEventLoopSize :: int where
  "kInitialEventLoopSize = 1024"

text \<open>The two functions the class registers with the library.\<close>

definition FileEventCallback :: nat where
  "FileEventCallback = 1"

definition TimerEventCallback :: nat where
  "TimerEventCallback = 2"

record EventLoop =
  el_loop :: aeEventLoop
  file_callbacks :: "(int \<times> nat \<times> callback) list"
  timer_callbacks :: "(int \<times> nat \<times> callback) list"
  el_next :: nat

definition new_EventLoop :: "int \<Rightarrow> EventLoop" where
  "new_EventLoop now = \<lparr>el_loop = aeCreateEventLoop now kInitialEventLoopSize, file_callbacks = [],
     timer_callbacks = [], el_next = 0\<rparr>"

section \<open>Operations\<close>

definition emplace_file :: "int \<Rightarrow> int \<Rightarrow> nat \<Rightarrow> callback \<Rightarrow> EventLoop \<Rightarrow> bool \<times> EventLoop" where
  "emplace_file err fd p cb l =
     (if err = AE_OK then (True, l\<lparr>file_callbacks := AList.update fd (p, cb) (file_callbacks l)\<rparr>) else (False, l))"

text \<open>\<open>ok\<close> is the outcome of the one call of \<open>epoll_ctl\<close> an addition makes.\<close>

definition AddFileEvent :: "bool \<Rightarrow> int \<Rightarrow> int \<Rightarrow> callback \<Rightarrow> EventLoop \<Rightarrow> (bool \<times> EventLoop) res" where
  "AddFileEvent ok fd events cb l =
     (if map_of (file_callbacks l) fd \<noteq> None then Inr (False, l)
      else let p = el_next l; l = l\<lparr>el_next := Suc p\<rparr> in
        rbind (aeCreateFileEvent ok fd events FileEventCallback p (el_loop l)) (\<lambda>(err, erange, a).
        if err = AE_ERR \<and> erange
        then case aeResizeSetSize (cdiv (3 * aeGetSetSize a) 2) a of
               (err, a) \<Rightarrow>
                 if err \<noteq> AE_OK then Inr (False, l\<lparr>el_loop := a\<rparr>)
                 else rbind (aeCreateFileEvent ok fd events FileEventCallback p a) (\<lambda>(err, _, a).
                      Inr (emplace_file err fd p cb (l\<lparr>el_loop := a\<rparr>)))
        else Inr (emplace_file err fd p cb (l\<lparr>el_loop := a\<rparr>))))"

definition RemoveFileEvent :: "int \<Rightarrow> EventLoop \<Rightarrow> (unit \<times> EventLoop) res" where
  "RemoveFileEvent fd l =
     rbind (aeDeleteFileEvent fd (AE_READABLE OR AE_WRITABLE) (el_loop l)) (\<lambda>a.
     Inr ((), l\<lparr>el_loop := a, file_callbacks := AList.delete fd (file_callbacks l)\<rparr>))"

text \<open>\<open>emplace\<close> keeps an entry that is there. \<open>tv\<close> is the reading of the clock.\<close>

definition AddTimer :: "int \<times> int \<Rightarrow> int \<Rightarrow> callback \<Rightarrow> EventLoop \<Rightarrow> int \<times> EventLoop" where
  "AddTimer tv timeout cb l =
     (let p = el_next l in
      case aeCreateTimeEvent tv timeout TimerEventCallback p 0 (el_loop l) of
        (timer_id, a) \<Rightarrow>
          (timer_id, l\<lparr>el_loop := a, el_next := Suc p,
             timer_callbacks := (if map_of (timer_callbacks l) timer_id = None
                                 then AList.update timer_id (p, cb) (timer_callbacks l) else timer_callbacks l)\<rparr>))"

definition RemoveTimer :: "int \<Rightarrow> EventLoop \<Rightarrow> int \<times> EventLoop" where
  "RemoveTimer timer_id l =
     (case aeDeleteTimeEvent timer_id (el_loop l) of
        (err, a) \<Rightarrow> (err, l\<lparr>el_loop := a, timer_callbacks := AList.delete timer_id (timer_callbacks l)\<rparr>))"

definition Stop :: "EventLoop \<Rightarrow> EventLoop" where
  "Stop l = l\<lparr>el_loop := aeStop (el_loop l)\<rparr>"

text \<open>The kernel's part of \<open>close\<close>.\<close>

definition closed_fd :: "int \<Rightarrow> EventLoop \<Rightarrow> EventLoop" where
  "closed_fd fd l = l\<lparr>el_loop := epoll_close fd (el_loop l)\<rparr>"

text \<open>The callback at an address: one that was erased is gone.\<close>

definition callback_at :: "nat \<Rightarrow> (int \<times> nat \<times> callback) list \<Rightarrow> callback res" where
  "callback_at p cbs = (case find (\<lambda>(_, q, _). q = p) cbs of Some (_, _, cb) \<Rightarrow> Inr cb | None \<Rightarrow> Inl DanglingRef)"

section \<open>The invariant\<close>

text \<open>The array of file events and the interest list against \<open>file_callbacks_\<close>.\<close>

definition file_entry :: "aeFileEvent \<Rightarrow> nat \<times> callback \<Rightarrow> bool" where
  "file_entry fe pc \<longleftrightarrow> fe_mask fe \<in> {AE_READABLE, AE_WRITABLE} \<and> fe_clientData fe = fst pc \<and>
     (fe_mask fe = AE_READABLE \<longrightarrow> fe_rfileProc fe = FileEventCallback) \<and>
     (fe_mask fe = AE_WRITABLE \<longrightarrow> fe_wfileProc fe = FileEventCallback)"

definition file_wired :: "EventLoop \<Rightarrow> int \<Rightarrow> bool" where
  "file_wired l fd \<longleftrightarrow>
     (case map_of (file_callbacks l) fd of
        None \<Rightarrow> fe_mask (ae_events (el_loop l) fd) = AE_NONE \<and> map_of (ep_interest (el_loop l)) fd = None
      | Some pc \<Rightarrow> 0 \<le> fd \<and> fd \<le> ae_maxfd (el_loop l) \<and> file_entry (ae_events (el_loop l) fd) pc \<and> fst pc < el_next l)"

definition files_wired :: "EventLoop \<Rightarrow> bool" where
  "files_wired l \<longleftrightarrow> 0 < ae_setsize (el_loop l) \<and> ae_maxfd (el_loop l) < ae_setsize (el_loop l) \<and> (\<forall>fd. file_wired l fd)"

text \<open>The list of timers against \<open>timer_callbacks_\<close>.\<close>

definition timer_entry :: "EventLoop \<Rightarrow> aeTimeEvent \<Rightarrow> bool" where
  "timer_entry l te \<longleftrightarrow> te_node te < ae_next_node (el_loop l) \<and> te_finalizerProc te = 0 \<and>
     te_timeProc te = TimerEventCallback \<and>
     (te_id te \<noteq> AE_DELETED_EVENT_ID \<longrightarrow> 0 \<le> te_id te \<and> te_id te < ae_timeEventNextId (el_loop l) \<and>
        (\<exists>cb. map_of (timer_callbacks l) (te_id te) = Some (te_clientData te, cb)))"

definition timers_wired :: "EventLoop \<Rightarrow> bool" where
  "timers_wired l \<longleftrightarrow> 0 \<le> ae_timeEventNextId (el_loop l) \<and>
     distinct (map te_node (ae_timeEventHead (el_loop l))) \<and>
     distinct (filter (\<lambda>i. i \<noteq> AE_DELETED_EVENT_ID) (map te_id (ae_timeEventHead (el_loop l)))) \<and>
     (\<forall>te \<in> set (ae_timeEventHead (el_loop l)). timer_entry l te) \<and>
     (\<forall>i pc. map_of (timer_callbacks l) i = Some pc \<longrightarrow> i < ae_timeEventNextId (el_loop l) \<and> fst pc < el_next l)"

text \<open>No two live callbacks have the same address.\<close>

definition own_addresses :: "(int \<times> nat \<times> callback) list \<Rightarrow> bool" where
  "own_addresses cbs \<longleftrightarrow> (\<forall>i j pc pd. map_of cbs i = Some pc \<longrightarrow> map_of cbs j = Some pd \<longrightarrow> fst pc = fst pd \<longrightarrow> i = j)"

definition wired :: "EventLoop \<Rightarrow> bool" where
  "wired l \<longleftrightarrow> files_wired l \<and> timers_wired l \<and> alist_ok (file_callbacks l) \<and> alist_ok (timer_callbacks l) \<and>
     own_addresses (file_callbacks l) \<and> own_addresses (timer_callbacks l)"

lemma wired_new: "wired (new_EventLoop now)"
  by (simp add: wired_def files_wired_def file_wired_def timers_wired_def own_addresses_def new_EventLoop_def aeCreateEventLoop_def
      kInitialEventLoopSize_def no_file_event_def)

lemma own_addresses_update:
  assumes "own_addresses cbs" and "\<And>i pc. map_of cbs i = Some pc \<Longrightarrow> fst pc < p"
  shows "own_addresses (AList.update k (p, cb) cbs)"
  using assms by (fastforce simp: own_addresses_def update_conv' split: if_splits)

lemma own_addresses_delete: "own_addresses cbs \<Longrightarrow> own_addresses (AList.delete k cbs)"
  by (simp add: own_addresses_def delete_conv')

text \<open>The callback of a live registration is the one that was registered.\<close>

lemma callback_at_live:
  assumes "alist_ok cbs" and "own_addresses cbs" and "map_of cbs i = Some (p, cb)"
  shows "callback_at p cbs = Inr cb"
proof (cases "find (\<lambda>(_, q, _). q = p) cbs")
  case None
  with assms show ?thesis by (auto simp: find_None_iff dest: map_of_SomeD)
next
  case (Some x)
  then obtain k cb' where x: "x = (k, p, cb')" and "x \<in> set cbs"
    by (auto simp: find_Some_iff) (metis nth_mem)
  then have k: "map_of cbs k = Some (p, cb')" using assms(1) by (simp add: alist_mem_iff)
  with assms(2,3) have "k = i" unfolding own_addresses_def by (metis fst_conv)
  with k assms(3) Some x show ?thesis by (simp add: callback_at_def)
qed

section \<open>The library under the methods\<close>

text \<open>What the methods do to the library: arrays and lists only grow, timers are only marked.\<close>

definition timer_kept :: "aeTimeEvent \<Rightarrow> aeTimeEvent \<Rightarrow> bool" where
  "timer_kept te te' \<longleftrightarrow> te' = te \<or> te' = te\<lparr>te_id := AE_DELETED_EVENT_ID\<rparr>"

definition timers_grow :: "nat \<Rightarrow> aeTimeEvent list \<Rightarrow> aeTimeEvent list \<Rightarrow> bool" where
  "timers_grow n ts ts' \<longleftrightarrow>
     (\<exists>new xs. ts' = new @ xs \<and> list_all2 timer_kept ts xs \<and> (\<forall>te \<in> set new. n \<le> te_node te))"

definition grows :: "aeEventLoop \<Rightarrow> aeEventLoop \<Rightarrow> bool" where
  "grows a a' \<longleftrightarrow> ae_setsize a \<le> ae_setsize a' \<and>
     (ae_setsize a' = ae_setsize a \<longrightarrow> ae_events_addr a' = ae_events_addr a) \<and>
     ae_next_node a \<le> ae_next_node a' \<and> ae_timeEventNextId a \<le> ae_timeEventNextId a' \<and>
     ae_beforesleep a' = ae_beforesleep a \<and> ae_lastTime a' = ae_lastTime a \<and>
     timers_grow (ae_next_node a) (ae_timeEventHead a) (ae_timeEventHead a')"

lemma kept_refl [simp]: "timer_kept te te"
  by (simp add: timer_kept_def)

lemma kept_trans: "timer_kept t u \<Longrightarrow> timer_kept u v \<Longrightarrow> timer_kept t v"
  by (auto simp: timer_kept_def)

lemma kept_node: "timer_kept t u \<Longrightarrow> te_node u = te_node t"
  by (auto simp: timer_kept_def)

lemma kept_nodes: "list_all2 timer_kept ts us \<Longrightarrow> map te_node us = map te_node ts"
  by (induction rule: list_all2_induct) (auto dest: kept_node)

lemma timers_grow_refl [simp]: "timers_grow n ts ts"
  unfolding timers_grow_def by (rule exI [of _ "[]"]) (simp add: list.rel_refl)

lemma timers_grow_trans:
  assumes "timers_grow m ts us" and "timers_grow n us vs" and "m \<le> n"
  shows "timers_grow m ts vs"
proof -
  from assms(1) obtain new xs where 1: "us = new @ xs" "list_all2 timer_kept ts xs" "\<forall>te \<in> set new. m \<le> te_node te"
    by (auto simp: timers_grow_def)
  from assms(2) [unfolded 1(1)] obtain new' ys zs where
    2: "vs = new' @ ys @ zs" "list_all2 timer_kept new ys" "list_all2 timer_kept xs zs" "\<forall>te \<in> set new'. n \<le> te_node te"
    by (auto simp: timers_grow_def list_all2_append1)
  have "list_all2 timer_kept ts zs" by (rule list_all2_trans [OF kept_trans 1(2) 2(3)])
  moreover have "\<forall>n \<in> set (map te_node ys). m \<le> n"
    unfolding kept_nodes [OF 2(2)] using 1(3) by simp
  ultimately show ?thesis
    unfolding timers_grow_def using 2(1,4) assms(3) by (intro exI [of _ "new' @ ys"] exI [of _ zs]) auto
qed

lemma grows_refl [simp]: "grows a a"
  by (simp add: grows_def)

lemma grows_trans: "grows a b \<Longrightarrow> grows b c \<Longrightarrow> grows a c"
  by (auto simp: grows_def intro: timers_grow_trans)

section \<open>File events\<close>

text \<open>A registration either fails and changes nothing or sets the entry of the descriptor.\<close>

lemma aeCreateFileEvent_Inr:
  assumes "aeCreateFileEvent ok fd ev pr p a = Inr (err, er, a')"
  obtains "err = AE_ERR" and "a' = a"
  | "err = AE_OK" and "0 \<le> fd" and "fd < ae_setsize a"
    and "a' = a\<lparr>ae_maxfd := max fd (ae_maxfd a),
       ep_interest := AList.update fd (epoll_mask (ev OR fe_mask (ae_events a fd))) (ep_interest a),
       ae_events := (ae_events a)(fd := (ae_events a fd)\<lparr>fe_mask := fe_mask (ae_events a fd) OR ev,
          fe_rfileProc := (if ev AND AE_READABLE \<noteq> 0 then pr else fe_rfileProc (ae_events a fd)),
          fe_wfileProc := (if ev AND AE_WRITABLE \<noteq> 0 then pr else fe_wfileProc (ae_events a fd)),
          fe_clientData := p\<rparr>)\<rparr>"
  using assms
  by (auto simp: aeCreateFileEvent_def event_at_def aeApiAddEvent_def epoll_ctl_def set_event_def Let_def
      split: if_splits)

lemma aeCreateFileEvent_ERANGE:
  "aeCreateFileEvent ok fd ev pr p a = Inr (AE_ERR, True, a') \<Longrightarrow> a' = a"
  by (auto elim!: aeCreateFileEvent_Inr simp: ae_consts)

lemma files_wiredD: "files_wired l \<Longrightarrow> file_wired l fd"
  by (simp add: files_wired_def)

lemma files_wired_resize:
  assumes "files_wired l" and "aeResizeSetSize n (el_loop l) = (err, a)" and "0 < n"
  shows "files_wired (l\<lparr>el_loop := a\<rparr>)"
proof (cases "a = el_loop l")
  case False
  with assms(2) have a: "ae_maxfd (el_loop l) < n" "a = (el_loop l)\<lparr>ae_events_addr := Suc (ae_events_addr (el_loop l)), ae_setsize := n,
      ae_events := (\<lambda>i. if ae_maxfd (el_loop l) < i then (ae_events (el_loop l) i)\<lparr>fe_mask := AE_NONE\<rparr> else ae_events (el_loop l) i)\<rparr>"
    by (auto simp: aeResizeSetSize_def split: if_splits)
  have "file_wired (l\<lparr>el_loop := a\<rparr>) fd" if "file_wired l fd" for fd
    using that unfolding a(2) by (auto simp: file_wired_def split: option.splits)
  with assms(1,3) a show ?thesis by (simp add: files_wired_def)
qed (use assms in simp)

lemma files_wired_mono:
  assumes "files_wired l" and "\<And>fd. file_wired l fd \<Longrightarrow> file_wired l' fd"
    and "ae_setsize (el_loop l') = ae_setsize (el_loop l)" and "ae_maxfd (el_loop l') = ae_maxfd (el_loop l)"
  shows "files_wired l'"
  using assms by (simp add: files_wired_def)

lemma files_wired_next: "files_wired l \<Longrightarrow> files_wired (l\<lparr>el_next := Suc (el_next l)\<rparr>)"
  by (erule files_wired_mono) (auto simp: file_wired_def split: option.splits)

lemma files_wired_create:
  assumes "files_wired l" and "aeCreateFileEvent ok fd ev FileEventCallback (el_next l) (el_loop l) = Inr (err, er, a)"
    and "map_of (file_callbacks l) fd = None" and "ev \<in> {AE_READABLE, AE_WRITABLE}"
  shows "files_wired (snd (emplace_file err fd (el_next l) cb (l\<lparr>el_next := Suc (el_next l), el_loop := a\<rparr>)))"
  using assms(2)
proof (cases rule: aeCreateFileEvent_Inr)
  case 1
  with files_wired_next [OF assms(1)] show ?thesis by (simp add: emplace_file_def ae_consts)
next
  case 2
  let ?l = "snd (emplace_file err fd (el_next l) cb (l\<lparr>el_next := Suc (el_next l), el_loop := a\<rparr>))"
  have no: "fe_mask (ae_events (el_loop l) fd) = 0"
    using files_wiredD [OF assms(1), of fd] assms(3) by (simp add: file_wired_def ae_consts)
  have "file_wired ?l i" if "file_wired l i" for i
    using that assms(4) 2 no
    by (cases "i = fd") (auto simp: file_wired_def emplace_file_def update_conv' file_entry_def ae_consts split: option.splits)
  with assms(1) 2 show ?thesis by (simp add: emplace_file_def files_wired_def)
qed

lemma last_registered_bounds: "-1 \<le> last_registered es n" "last_registered es n < int n \<or> n = 0"
  by (induction n) auto

lemma last_registered_max: "fe_mask (es fd) \<noteq> AE_NONE \<Longrightarrow> 0 \<le> fd \<Longrightarrow> fd < int n \<Longrightarrow> fd \<le> last_registered es n"
proof (induction n)
  case (Suc n)
  then show ?case by (cases "fd = int n") auto
qed simp

lemma both_masks: "fe_mask fe \<in> {AE_READABLE, AE_WRITABLE} \<Longrightarrow> fe_mask fe AND NOT (AE_READABLE OR AE_WRITABLE) = AE_NONE"
  by (auto simp: ae_consts)

text \<open>Removing a registration clears its entry.\<close>

lemma epoll_del: "snd (epoll_ctl True EPOLL_CTL_DEL fd ev a) = a\<lparr>ep_interest := AList.delete fd (ep_interest a)\<rparr>"
  by (auto simp: epoll_ctl_def map_of_eq_None_iff delete_id)

definition unregistered :: "int \<Rightarrow> aeEventLoop \<Rightarrow> aeEventLoop" where
  "unregistered fd a =
     (let es = (ae_events a)(fd := (ae_events a fd)\<lparr>fe_mask := AE_NONE\<rparr>)
      in a\<lparr>ep_interest := AList.delete fd (ep_interest a), ae_events := es,
           ae_maxfd := (if fd = ae_maxfd a then last_registered es (nat (ae_maxfd a)) else ae_maxfd a)\<rparr>)"

lemma aeDeleteFileEvent_Inr:
  assumes "aeDeleteFileEvent fd bits a = Inr a'" and "fe_mask (ae_events a fd) AND NOT bits = AE_NONE"
  obtains "a' = a" and "fd < ae_setsize a \<Longrightarrow> 0 \<le> fd \<and> fe_mask (ae_events a fd) = AE_NONE"
  | "0 \<le> fd" and "fd < ae_setsize a" and "a' = unregistered fd a"
  using assms
  by (auto simp: aeDeleteFileEvent_def event_at_def aeApiDelEvent_def unregistered_def set_event_def Let_def epoll_del
      split: if_splits)

lemma unregistered_sel:
  "ae_events (unregistered fd a) = (ae_events a)(fd := (ae_events a fd)\<lparr>fe_mask := AE_NONE\<rparr>)"
  "ep_interest (unregistered fd a) = AList.delete fd (ep_interest a)" "ae_setsize (unregistered fd a) = ae_setsize a"
  by (simp_all add: unregistered_def Let_def)

lemma unregistered_maxfd:
  assumes "ae_maxfd a < ae_setsize a" and "0 \<le> fd" and "fd < ae_setsize a"
  shows "ae_maxfd (unregistered fd a) < ae_setsize a"
    and "i \<noteq> fd \<Longrightarrow> 0 \<le> i \<Longrightarrow> i \<le> ae_maxfd a \<Longrightarrow> fe_mask (ae_events a i) \<noteq> AE_NONE \<Longrightarrow> i \<le> ae_maxfd (unregistered fd a)"
proof -
  let ?es = "(ae_events a)(fd := (ae_events a fd)\<lparr>fe_mask := AE_NONE\<rparr>)"
  show "ae_maxfd (unregistered fd a) < ae_setsize a"
    using assms last_registered_bounds(2) [of ?es "nat fd"] by (auto simp: unregistered_def Let_def)
  show "i \<le> ae_maxfd (unregistered fd a)" if "i \<noteq> fd" "0 \<le> i" "i \<le> ae_maxfd a" "fe_mask (ae_events a i) \<noteq> AE_NONE"
    using that last_registered_max [of ?es i "nat fd"] by (auto simp: unregistered_def Let_def)
qed

lemma files_wired_remove:
  assumes "files_wired l" and "RemoveFileEvent fd l = Inr (u, l')"
  shows "files_wired l'"
proof -
  let ?a = "el_loop l"
  note w = files_wiredD [OF assms(1)]
  from w [of fd] have "fe_mask (ae_events ?a fd) AND NOT (AE_READABLE OR AE_WRITABLE) = AE_NONE"
    by (auto simp: file_wired_def file_entry_def ae_consts split: option.splits)
  moreover from assms(2) obtain a' where a': "aeDeleteFileEvent fd (AE_READABLE OR AE_WRITABLE) ?a = Inr a'"
    and l': "l' = l\<lparr>el_loop := a', file_callbacks := AList.delete fd (file_callbacks l)\<rparr>"
    by (auto simp: RemoveFileEvent_def rbind_eq_Inr)
  ultimately show ?thesis
  proof (cases rule: aeDeleteFileEvent_Inr [OF a', consumes 1, case_names same cut])
    case same
    have "ae_maxfd ?a < ae_setsize ?a" using assms(1) by (simp add: files_wired_def)
    then have no: "map_of (file_callbacks l) fd = None"
      using w [of fd] same by (auto simp: file_wired_def file_entry_def ae_consts split: option.splits)
    have "file_wired l' i" for i
      using w [of i] no same(1) by (cases "i = fd") (auto simp: file_wired_def l' delete_conv' split: option.splits)
    with assms(1) same(1) show ?thesis by (simp add: files_wired_def l')
  next
    case cut
    have m: "ae_maxfd ?a < ae_setsize ?a" using assms(1) by (simp add: files_wired_def)
    have "file_wired l' i" for i
    proof (cases "map_of (file_callbacks l') i")
      case None
      with w [of i] show ?thesis
        by (cases "i = fd") (auto simp: file_wired_def l' cut(3) unregistered_sel delete_conv' split: option.splits)
    next
      case (Some pc)
      then have i: "i \<noteq> fd" "map_of (file_callbacks l) i = Some pc" by (auto simp: l' delete_conv' split: if_splits)
      with w [of i] unregistered_maxfd(2) [OF m cut(1,2) i(1)] show ?thesis
        by (auto simp: file_wired_def l' cut(3) unregistered_sel delete_conv' file_entry_def ae_consts)
    qed
    with unregistered_maxfd(1) [OF m cut(1,2)] assms(1) show ?thesis
      by (simp add: files_wired_def l' cut(3) unregistered_sel)
  qed
qed

lemma grows_remove:
  assumes "RemoveFileEvent fd l = Inr (u, l')"
  shows "grows (el_loop l) (el_loop l')" and "timer_callbacks l' = timer_callbacks l" and "el_next l' = el_next l"
    and "ae_timeEventHead (el_loop l') = ae_timeEventHead (el_loop l)"
    and "ae_timeEventNextId (el_loop l') = ae_timeEventNextId (el_loop l)" and "ae_next_node (el_loop l') = ae_next_node (el_loop l)"
  using assms
  by (auto simp: RemoveFileEvent_def aeDeleteFileEvent_def event_at_def aeApiDelEvent_def epoll_ctl_def set_event_def Let_def
      rbind_eq_Inr grows_def split: if_splits)

lemma grows_create:
  assumes "aeCreateFileEvent ok fd ev pr p a = Inr (err, er, a')"
  shows "grows a a'" and "ae_timeEventHead a' = ae_timeEventHead a" and "ae_timeEventNextId a' = ae_timeEventNextId a"
    and "ae_next_node a' = ae_next_node a"
  using assms by (rule aeCreateFileEvent_Inr; simp add: grows_def)+

lemma grows_resize:
  assumes "aeResizeSetSize n a = (err, a')" and "ae_setsize a \<le> n"
  shows "grows a a'" and "ae_timeEventHead a' = ae_timeEventHead a" and "ae_timeEventNextId a' = ae_timeEventNextId a"
    and "ae_next_node a' = ae_next_node a"
  using assms by (auto simp: aeResizeSetSize_def grows_def split: if_splits)

text \<open>The ways an addition can go.\<close>

lemma AddFileEvent_Inr:
  assumes "AddFileEvent ok fd ev cb l = Inr (b, l')"
  obtains "l' = l" and "\<not> b"
  | err er a where "map_of (file_callbacks l) fd = None"
    and "aeCreateFileEvent ok fd ev FileEventCallback (el_next l) (el_loop l) = Inr (err, er, a)"
    and "(b, l') = emplace_file err fd (el_next l) cb (l\<lparr>el_next := Suc (el_next l), el_loop := a\<rparr>)"
  | e where "\<not> b" and "aeResizeSetSize (cdiv (3 * ae_setsize (el_loop l)) 2) (el_loop l) = (e, el_loop l')"
    and "l' = l\<lparr>el_next := Suc (el_next l), el_loop := el_loop l'\<rparr>"
  | e a0 err er a where "map_of (file_callbacks l) fd = None"
    and "aeResizeSetSize (cdiv (3 * ae_setsize (el_loop l)) 2) (el_loop l) = (e, a0)"
    and "aeCreateFileEvent ok fd ev FileEventCallback (el_next l) a0 = Inr (err, er, a)"
    and "(b, l') = emplace_file err fd (el_next l) cb (l\<lparr>el_next := Suc (el_next l), el_loop := a\<rparr>)"
proof (cases "map_of (file_callbacks l) fd = None")
  case False
  with assms that(1) show thesis by (auto simp: AddFileEvent_def)
next
  case new: True
  let ?l = "l\<lparr>el_next := Suc (el_next l)\<rparr>"
  from assms new obtain err er a where
    1: "aeCreateFileEvent ok fd ev FileEventCallback (el_next l) (el_loop l) = Inr (err, er, a)"
    by (auto simp: AddFileEvent_def Let_def rbind_eq_Inr)
  show thesis
  proof (cases "err = AE_ERR \<and> er")
    case False
    with assms new 1 that(2) [OF new 1] show thesis by (simp add: AddFileEvent_def Let_def)
  next
    case True
    with 1 have a: "a = el_loop l" by (simp add: aeCreateFileEvent_ERANGE)
    obtain e a0 where r: "aeResizeSetSize (cdiv (3 * ae_setsize (el_loop l)) 2) (el_loop l) = (e, a0)" by fastforce
    have run: "(if e \<noteq> AE_OK then Inr (False, ?l\<lparr>el_loop := a0\<rparr>)
       else rbind (aeCreateFileEvent ok fd ev FileEventCallback (el_next l) a0) (\<lambda>(err, _, a).
          Inr (emplace_file err fd (el_next l) cb (?l\<lparr>el_loop := a\<rparr>)))) = Inr (b, l')"
      using assms new 1 True a r by (simp add: AddFileEvent_def Let_def aeGetSetSize_def)
    show thesis
    proof (cases "e = AE_OK")
      case True
      with run that(4) [OF new r] show thesis by (auto simp: rbind_eq_Inr)
    next
      case False
      with run that(3) [of e] r show thesis by auto
    qed
  qed
qed

lemma timers_wired_cong:
  assumes "timers_wired l" and "ae_timeEventHead (el_loop l') = ae_timeEventHead (el_loop l)"
    and "ae_timeEventNextId (el_loop l') = ae_timeEventNextId (el_loop l)" and "ae_next_node (el_loop l') = ae_next_node (el_loop l)"
    and "timer_callbacks l' = timer_callbacks l" and "el_next l \<le> el_next l'"
  shows "timers_wired l'"
  using assms by (fastforce simp: timers_wired_def timer_entry_def)

lemma wired_create:
  assumes "wired l" and "aeCreateFileEvent ok fd ev FileEventCallback (el_next l) (el_loop l) = Inr (err, er, a)"
    and "map_of (file_callbacks l) fd = None" and "ev \<in> {AE_READABLE, AE_WRITABLE}"
    and "(b, l') = emplace_file err fd (el_next l) cb (l\<lparr>el_next := Suc (el_next l), el_loop := a\<rparr>)"
  shows "wired l' \<and> grows (el_loop l) (el_loop l')"
proof -
  have l': "l' = snd (emplace_file err fd (el_next l) cb (l\<lparr>el_next := Suc (el_next l), el_loop := a\<rparr>))"
    using assms(5) by (metis snd_conv)
  note g = grows_create [OF assms(2)]
  have "fst pc < el_next l" if "map_of (file_callbacks l) i = Some pc" for i pc
    using files_wiredD [of l i] assms(1) that by (simp add: wired_def file_wired_def)
  then have "own_addresses (AList.update fd (el_next l, cb) (file_callbacks l))"
    using assms(1) by (intro own_addresses_update) (auto simp: wired_def)
  moreover have "timers_wired l'"
    by (rule timers_wired_cong [of l]) (use assms(1) g in \<open>simp_all add: wired_def l' emplace_file_def\<close>)
  ultimately show ?thesis
    using assms(1) g(1) files_wired_create [OF _ assms(2,3,4), of cb] by (auto simp: wired_def l' emplace_file_def split: if_splits)
qed

lemma wired_resize:
  assumes "wired l" and "aeResizeSetSize (cdiv (3 * ae_setsize (el_loop l)) 2) (el_loop l) = (e, a)"
  shows "wired (l\<lparr>el_loop := a\<rparr>)" and "grows (el_loop l) a"
proof -
  have "0 < ae_setsize (el_loop l)" using assms(1) by (simp add: wired_def files_wired_def)
  then have n: "0 < cdiv (3 * ae_setsize (el_loop l)) 2" "ae_setsize (el_loop l) \<le> cdiv (3 * ae_setsize (el_loop l)) 2"
    by (simp_all add: cdiv_nonneg)
  note g = grows_resize [OF assms(2) n(2)]
  show "grows (el_loop l) a" by (rule g(1))
  have "timers_wired (l\<lparr>el_loop := a\<rparr>)"
    by (rule timers_wired_cong [of l]) (use assms(1) g in \<open>simp_all add: wired_def\<close>)
  with assms(1) files_wired_resize [OF _ assms(2) n(1)] show "wired (l\<lparr>el_loop := a\<rparr>)" by (simp add: wired_def)
qed

lemma wired_next: "wired l \<Longrightarrow> wired (l\<lparr>el_next := Suc (el_next l)\<rparr>)"
  by (auto simp: wired_def intro: files_wired_next timers_wired_cong [of l])

lemma wired_AddFileEvent:
  assumes "AddFileEvent ok fd ev cb l = Inr (b, l')" and "wired l" and "ev \<in> {AE_READABLE, AE_WRITABLE}"
  shows "wired l' \<and> grows (el_loop l) (el_loop l')"
  using assms(1)
proof (cases rule: AddFileEvent_Inr)
  case (2 err er a)
  show ?thesis by (rule wired_create [OF assms(2) 2(2,1) assms(3) 2(3)])
next
  case (3 e)
  have "wired (l\<lparr>el_loop := el_loop l'\<rparr>)" by (rule wired_resize(1) [OF assms(2) 3(2)])
  from wired_next [OF this] have "wired l'" by (subst 3(3)) (cases l, simp)
  with wired_resize(2) [OF assms(2) 3(2)] show ?thesis by simp
next
  case (4 e a0 err er a)
  note r = wired_resize [OF assms(2) 4(2)]
  from wired_create [OF r(1), of ok fd ev err er a b l' cb] 4 assms(3) have "wired l'" "grows a0 (el_loop l')" by simp_all
  with r(2) show ?thesis by (blast intro: grows_trans)
qed (use assms in simp)

lemma wired_RemoveFileEvent:
  assumes "RemoveFileEvent fd l = Inr (u, l')" and "wired l"
  shows "wired l' \<and> grows (el_loop l) (el_loop l')"
proof -
  note g = grows_remove [OF assms(1)]
  have "timers_wired l'" by (rule timers_wired_cong [of l]) (use assms(2) g in \<open>simp_all add: wired_def\<close>)
  moreover have "file_callbacks l' = AList.delete fd (file_callbacks l)"
    using assms(1) by (auto simp: RemoveFileEvent_def rbind_eq_Inr)
  ultimately show ?thesis
    using assms(2) g files_wired_remove [OF _ assms(1)] by (simp add: wired_def own_addresses_delete)
qed

lemma wired_closed:
  assumes "wired l"
  shows "wired (closed_fd fd l) \<and> grows (el_loop l) (el_loop (closed_fd fd l))"
proof -
  have "files_wired (closed_fd fd l)"
    by (rule files_wired_mono [of l])
       (use assms in \<open>auto simp: wired_def closed_fd_def epoll_close_def file_wired_def delete_conv' split: option.splits\<close>)
  moreover have "timers_wired (closed_fd fd l)"
    by (rule timers_wired_cong [of l]) (use assms in \<open>simp_all add: wired_def closed_fd_def epoll_close_def\<close>)
  ultimately show ?thesis using assms by (simp add: wired_def closed_fd_def epoll_close_def grows_def)
qed

section \<open>Timers\<close>

lemma timers_wiredD:
  assumes "timers_wired l" and "map_of (timer_callbacks l) i = Some pc"
  shows "i < ae_timeEventNextId (el_loop l)" and "fst pc < el_next l"
  using assms unfolding timers_wired_def by blast+

lemma wired_AddTimer:
  assumes "AddTimer tv ms cb l = (t, l')" and "wired l"
  shows "wired l' \<and> grows (el_loop l) (el_loop l')"
proof -
  let ?a = "el_loop l"
  obtain sec m where m: "aeAddMillisecondsToNow tv ms = (sec, m)" by fastforce
  define te where "te = \<lparr>te_node = ae_next_node ?a, te_id = ae_timeEventNextId ?a, te_when_sec = sec, te_when_ms = m,
     te_timeProc = TimerEventCallback, te_finalizerProc = 0, te_clientData = el_next l\<rparr>"
  then have te: "te_node te = ae_next_node ?a" "te_id te = ae_timeEventNextId ?a"
      "te_timeProc te = TimerEventCallback" "te_finalizerProc te = 0" "te_clientData te = el_next l"
    by simp_all
  have a: "el_loop l' = ?a\<lparr>ae_timeEventNextId := ae_timeEventNextId ?a + 1, ae_next_node := Suc (ae_next_node ?a),
       ae_timeEventHead := te # ae_timeEventHead ?a\<rparr>"
    and cb: "timer_callbacks l' = (if map_of (timer_callbacks l) (ae_timeEventNextId ?a) = None
       then AList.update (ae_timeEventNextId ?a) (el_next l, cb) (timer_callbacks l) else timer_callbacks l)"
    and rest: "file_callbacks l' = file_callbacks l" "el_next l' = Suc (el_next l)"
    using assms(1) m by (auto simp: AddTimer_def aeCreateTimeEvent_def Let_def te_def)
  have tw: "timers_wired l" using assms(2) by (simp add: wired_def)
  have "map_of (timer_callbacks l) (ae_timeEventNextId ?a) = None"
    using timers_wiredD(1) [OF tw] by (cases "map_of (timer_callbacks l) (ae_timeEventNextId ?a)") auto
  with cb have cb: "timer_callbacks l' = AList.update (ae_timeEventNextId ?a) (el_next l, cb) (timer_callbacks l)" by simp
  have "timer_entry l' x" if "x \<in> set (ae_timeEventHead ?a)" for x
  proof -
    have "timer_entry l x" using tw that by (simp add: timers_wired_def)
    then show ?thesis by (auto simp: timer_entry_def a cb update_conv')
  qed
  moreover have "timer_entry l' te"
    using tw by (simp add: timers_wired_def timer_entry_def a te cb update_conv')
  moreover have "te_node te \<notin> te_node ` set (ae_timeEventHead ?a)" "te_id te \<notin> te_id ` set (ae_timeEventHead ?a)"
    using tw by (auto simp: timers_wired_def timer_entry_def te ae_consts)
  moreover have "i < ae_timeEventNextId ?a + 1 \<and> fst pc < Suc (el_next l)" if "map_of (timer_callbacks l') i = Some pc" for i pc
  proof (cases "i = ae_timeEventNextId ?a")
    case False
    with that have "map_of (timer_callbacks l) i = Some pc" by (simp add: cb update_conv')
    from timers_wiredD [OF tw this] show ?thesis by simp
  qed (use that in \<open>auto simp: cb update_conv'\<close>)
  ultimately have "timers_wired l'"
    using tw by (auto simp: timers_wired_def a rest)
  moreover have "own_addresses (timer_callbacks l')"
    unfolding cb by (rule own_addresses_update) (use assms(2) timers_wiredD(2) [OF tw] in \<open>auto simp: wired_def\<close>)
  moreover have "files_wired l'"
    by (rule files_wired_mono [of l]) (use assms(2) in \<open>auto simp: wired_def file_wired_def a rest split: option.splits\<close>)
  moreover have "timers_grow (ae_next_node ?a) (ae_timeEventHead ?a) (te # ae_timeEventHead ?a)"
    unfolding timers_grow_def by (rule exI [of _ "[te]"]) (simp add: te list.rel_refl)
  ultimately show ?thesis using assms(2) by (simp add: wired_def grows_def cb rest) (simp add: a)
qed

lemma mark_deleted_None: "mark_deleted i ts = None \<longleftrightarrow> i \<notin> te_id ` set ts"
  by (induction ts) auto

lemma mark_deleted_kept: "mark_deleted i ts = Some us \<Longrightarrow> list_all2 timer_kept ts us"
  by (induction ts arbitrary: us) (auto simp: timer_kept_def list.rel_refl split: if_splits)

lemma kept_mem: "list_all2 timer_kept ts us \<Longrightarrow> u \<in> set us \<Longrightarrow> \<exists>t \<in> set ts. timer_kept t u"
  by (metis in_set_conv_nth list_all2_conv_all_nth)

lemma mark_deleted_ids:
  assumes "mark_deleted i ts = Some us"
  shows "filter (\<lambda>i. i \<noteq> AE_DELETED_EVENT_ID) (map te_id us) = remove1 i (filter (\<lambda>i. i \<noteq> AE_DELETED_EVENT_ID) (map te_id ts))"
  using assms
proof (induction ts arbitrary: us)
  case (Cons te ts)
  then show ?case by (auto simp: remove1_idem split: if_splits)
qed simp

lemma wired_RemoveTimer:
  assumes "RemoveTimer i l = (err, l')" and "wired l"
  shows "wired l' \<and> grows (el_loop l) (el_loop l')"
proof -
  let ?a = "el_loop l" and ?live = "filter (\<lambda>i. i \<noteq> AE_DELETED_EVENT_ID)"
  have tw: "timers_wired l" using assms(2) by (simp add: wired_def)
  obtain us where us: "el_loop l' = ?a\<lparr>ae_timeEventHead := us\<rparr>" "list_all2 timer_kept (ae_timeEventHead ?a) us"
      "?live (map te_id us) = remove1 i (?live (map te_id (ae_timeEventHead ?a)))"
  proof (cases "mark_deleted i (ae_timeEventHead ?a)")
    case None
    show thesis
      by (rule that [of "ae_timeEventHead ?a"])
         (use assms(1) None in \<open>auto simp: RemoveTimer_def aeDeleteTimeEvent_def mark_deleted_None list.rel_refl remove1_idem\<close>)
  next
    case (Some us)
    show thesis
      by (rule that [of us]) (use assms(1) Some in \<open>auto simp: RemoveTimer_def aeDeleteTimeEvent_def mark_deleted_kept mark_deleted_ids\<close>)
  qed
  have rest: "file_callbacks l' = file_callbacks l" "el_next l' = el_next l"
      "timer_callbacks l' = AList.delete i (timer_callbacks l)"
    using assms(1) by (auto simp: RemoveTimer_def split: prod.splits)
  have gone: "te_id te \<noteq> i" if "te \<in> set us" "te_id te \<noteq> AE_DELETED_EVENT_ID" for te
  proof -
    have "te_id te \<in> set (?live (map te_id us))" using that by simp
    moreover have "distinct (?live (map te_id (ae_timeEventHead ?a)))" using tw by (simp add: timers_wired_def)
    ultimately show ?thesis unfolding us(3) by auto
  qed
  have "timer_entry l' te" if te: "te \<in> set us" for te
  proof -
    from kept_mem [OF us(2) te] obtain t where t: "t \<in> set (ae_timeEventHead ?a)" "timer_kept t te" by blast
    with tw have "timer_entry l t" by (simp add: timers_wired_def)
    with t(2) gone [OF te] show ?thesis by (auto simp: timer_entry_def timer_kept_def us(1) rest delete_conv')
  qed
  then have "timers_wired l'"
    using tw kept_nodes [OF us(2)] by (auto simp: timers_wired_def us(1,3) rest delete_conv' split: if_splits)
  moreover have "files_wired l'"
    by (rule files_wired_mono [of l]) (use assms(2) in \<open>auto simp: wired_def file_wired_def us(1) rest split: option.splits\<close>)
  moreover have "timers_grow (ae_next_node ?a) (ae_timeEventHead ?a) us"
    unfolding timers_grow_def by (rule exI [of _ "[]"]) (simp add: us(2))
  ultimately show ?thesis using assms(2) by (simp add: wired_def grows_def us(1) rest own_addresses_delete)
qed

section \<open>What the library does on its own\<close>

text \<open>
  Between and after callbacks the library moves the times of timers, marks them, takes nodes out of
  its list, and sets \<open>stop\<close> and \<open>lastTime\<close>.
\<close>

definition retimed :: "aeTimeEvent \<Rightarrow> aeTimeEvent \<Rightarrow> bool" where
  "retimed te te' \<longleftrightarrow> te_node te' = te_node te \<and> te_timeProc te' = te_timeProc te \<and> te_finalizerProc te' = te_finalizerProc te \<and>
     te_clientData te' = te_clientData te \<and> te_id te' \<in> {te_id te, AE_DELETED_EVENT_ID}"

definition loop_edit :: "aeEventLoop \<Rightarrow> aeEventLoop \<Rightarrow> bool" where
  "loop_edit a a' \<longleftrightarrow> (\<exists>us P st lt. list_all2 retimed (ae_timeEventHead a) us \<and>
     a' = a\<lparr>ae_timeEventHead := filter P us, ae_stop := st, ae_lastTime := lt\<rparr>)"

lemma retimed_refl [simp]: "retimed te te"
  by (simp add: retimed_def)

lemma retimed_nodes: "list_all2 retimed ts us \<Longrightarrow> map te_node us = map te_node ts"
  by (induction rule: list_all2_induct) (auto simp: retimed_def)

lemma retimed_live:
  assumes "list_all2 retimed ts us" and "distinct (filter (\<lambda>i. i \<noteq> AE_DELETED_EVENT_ID) (map te_id ts))"
  shows "distinct (filter (\<lambda>i. i \<noteq> AE_DELETED_EVENT_ID) (map te_id us))"
proof -
  have "distinct (filter (\<lambda>i. i \<noteq> AE_DELETED_EVENT_ID) (map te_id us)) \<and>
      (\<forall>u \<in> set us. te_id u \<noteq> AE_DELETED_EVENT_ID \<longrightarrow> te_id u \<in> te_id ` set ts)"
    using assms
  proof (induction rule: list_all2_induct)
    case (Cons x xs y ys)
    then show ?case by (cases "te_id y = te_id x") (fastforce simp: retimed_def split: if_splits)+
  qed simp
  then show ?thesis ..
qed

lemma wired_edit:
  assumes "wired l" and "loop_edit (el_loop l) a"
  shows "wired (l\<lparr>el_loop := a\<rparr>)"
proof -
  from assms(2) obtain us P st lt where us: "list_all2 retimed (ae_timeEventHead (el_loop l)) us"
    and a: "a = (el_loop l)\<lparr>ae_timeEventHead := filter P us, ae_stop := st, ae_lastTime := lt\<rparr>"
    by (auto simp: loop_edit_def)
  have tw: "timers_wired l" using assms(1) by (simp add: wired_def)
  have "timer_entry (l\<lparr>el_loop := a\<rparr>) u" if "u \<in> set us" for u
  proof -
    from that us obtain te where "te \<in> set (ae_timeEventHead (el_loop l))" "retimed te u"
      by (metis in_set_conv_nth list_all2_conv_all_nth)
    with tw show ?thesis by (auto simp: timers_wired_def timer_entry_def retimed_def a)
  qed
  moreover have "distinct (map te_node us)" using tw retimed_nodes [OF us] by (simp add: timers_wired_def)
  moreover have "distinct (filter (\<lambda>i. i \<noteq> AE_DELETED_EVENT_ID) (map te_id us))"
    by (rule retimed_live [OF us]) (use tw in \<open>simp add: timers_wired_def\<close>)
  then have "distinct (filter (\<lambda>i. i \<noteq> AE_DELETED_EVENT_ID) (map te_id (filter P us)))"
    unfolding filter_map by (auto simp: o_def conj_commute dest: distinct_map_filter [where P = P])
  ultimately have "timers_wired (l\<lparr>el_loop := a\<rparr>)"
    using tw timers_wiredD [OF tw] by (auto simp: timers_wired_def a distinct_map_filter)
  moreover have "files_wired (l\<lparr>el_loop := a\<rparr>)"
    by (rule files_wired_mono [of l]) (use assms(1) in \<open>auto simp: wired_def file_wired_def a split: option.splits\<close>)
  ultimately show ?thesis using assms(1) by (simp add: wired_def)
qed

section \<open>Any sequence of calls\<close>

inductive loop_uses :: "EventLoop \<Rightarrow> EventLoop \<Rightarrow> bool" for l where
  none: "loop_uses l l"
| add: "loop_uses l m \<Longrightarrow> AddFileEvent ok fd ev cb m = Inr (b, m') \<Longrightarrow> ev \<in> {kEventLoopRead, kEventLoopWrite} \<Longrightarrow> loop_uses l m'"
| remove: "loop_uses l m \<Longrightarrow> RemoveFileEvent fd m = Inr (u, m') \<Longrightarrow> loop_uses l m'"
| timer: "loop_uses l m \<Longrightarrow> AddTimer tv ms cb m = (t, m') \<Longrightarrow> loop_uses l m'"
| untimer: "loop_uses l m \<Longrightarrow> RemoveTimer i m = (e, m') \<Longrightarrow> loop_uses l m'"
| close: "loop_uses l m \<Longrightarrow> loop_uses l (closed_fd fd m)"

lemma loop_uses_refl [simp]: "loop_uses l l"
  by (rule loop_uses.none)

lemma loop_uses_trans: "loop_uses m n \<Longrightarrow> loop_uses l m \<Longrightarrow> loop_uses l n"
  by (induction rule: loop_uses.induct) (auto intro: loop_uses.intros)

lemmas loop_use = loop_uses.intros(2-) [OF loop_uses.none]

lemma loop_uses_wired: "loop_uses l m \<Longrightarrow> wired l \<Longrightarrow> wired m \<and> grows (el_loop l) (el_loop m)"
proof (induction rule: loop_uses.induct)
  case (add m ok fd ev cb b m')
  then show ?case using wired_AddFileEvent [of ok fd ev cb m b m'] by (auto simp: kEventLoopRead_def kEventLoopWrite_def ae_consts intro: grows_trans)
qed (auto intro: grows_trans dest: wired_RemoveFileEvent wired_AddTimer wired_RemoveTimer wired_closed)

end
