(* ===== verification/Ae_Host.thy ===== *)
theory Ae_Host
  imports Events
begin

text \<open>
  The loop of the library around a program. \<open>loop_host\<close> is the contract of the program: its
  callbacks keep an invariant and change the library only by \<open>grows\<close>, its clock and \<open>epoll_wait\<close> do
  not touch it. Then the pointers \<open>processTimeEvents\<close> and \<open>aeProcessEvents\<close> hold across callbacks
  stay valid unless a callback moves the array of events, the loop over the timers ends, and it
  equals a traversal that visits the timers there were at the start.
\<close>

section \<open>Lists of timers\<close>

lemma node_at_split:
  assumes "distinct (map te_node (pre @ te # cur))"
  shows "node_at (te_node te) (pre @ te # cur) = Some te" and "behind (te_node te) (pre @ te # cur) = cur"
    and "unlink None (te_node te) (te # cur) = cur"
    and "pre = pre' @ [x] \<Longrightarrow> unlink (Some (te_node x)) (te_node te) (pre @ te # cur) = pre @ cur"
proof -
  have d: "dropWhile (\<lambda>t. te_node t \<noteq> te_node te) (pre @ te # cur) = te # cur"
    using assms by (induction pre) auto
  then show b: "behind (te_node te) (pre @ te # cur) = cur" by (simp add: behind_def)
  show "node_at (te_node te) (pre @ te # cur) = Some te" using assms by (induction pre) (auto simp: node_at_def)
  show "unlink None (te_node te) (te # cur) = cur" by (simp add: unlink_def behind_def)
  assume pre: "pre = pre' @ [x]"
  have "dropWhile (\<lambda>t. te_node t \<noteq> te_node x) (pre' @ x # te # cur) = x # te # cur"
    "takeWhile (\<lambda>t. te_node t \<noteq> te_node x) (pre' @ x # te # cur) = pre'"
    using assms unfolding pre by (induction pre') auto
  with b show "unlink (Some (te_node x)) (te_node te) (pre @ te # cur) = pre @ cur" by (simp add: unlink_def pre)
qed

lemma remove_node:
  "distinct (map te_node (pre @ te # cur)) \<Longrightarrow> filter (\<lambda>t. te_node t \<noteq> te_node te) (pre @ te # cur) = pre @ cur"
  by (auto simp: image_iff intro!: arg_cong2 [where f = "(@)"] filter_True)

lemma set_node_split:
  assumes "distinct (map te_node (pre @ te # cur))"
  shows "set_node (te_node te) f (pre @ te # cur) = pre @ f te # cur"
  using assms by (auto simp: set_node_def image_iff intro!: map_idI)

lemma timers_grow_split:
  assumes "timers_grow n (pre @ te # cur) ts'"
  obtains pre' te' cur' where "ts' = pre' @ te' # cur'" and "timer_kept te te'" and "list_all2 timer_kept cur cur'"
  using assms by (auto simp: timers_grow_def list_all2_append1 list_all2_Cons1) (metis append.assoc)

lemma grows_split:
  assumes "grows a a'" and "ae_timeEventHead a = pre @ te # cur"
  shows "\<exists>pre' te' cur'. ae_timeEventHead a' = pre' @ te' # cur' \<and> te_node te' = te_node te \<and> list_all2 timer_kept cur cur'"
proof -
  have "timers_grow (ae_next_node a) (pre @ te # cur) (ae_timeEventHead a')" using assms by (simp add: grows_def)
  then show ?thesis by (rule timers_grow_split) (auto dest: kept_node)
qed

section \<open>The reference\<close>

text \<open>
  One timer, by its address: a deleted one is taken out of the list, a live one runs if it is due.
  \<open>visit_timers\<close> does so for every timer there is at the start, in the order of the list.
\<close>

definition visit_timer :: "'s host \<Rightarrow> nat \<Rightarrow> int \<times> 's \<Rightarrow> (int \<times> 's) res" where
  "visit_timer h a = (\<lambda>(k, s).
     case node_at a (ae_timeEventHead (h_loop h s)) of
       None \<Rightarrow> Inl DanglingRef
     | Some te \<Rightarrow>
         if te_id te = AE_DELETED_EVENT_ID
         then Inr (k, h_upd h (\<lambda>l. l\<lparr>ae_timeEventHead := filter (\<lambda>t. te_node t \<noteq> a) (ae_timeEventHead l)\<rparr>) s)
         else case h_clock h s of (tv, s) \<Rightarrow>
                if due tv te then rbind (fire_timer h a te s) (\<lambda>s. Inr (k + 1, s)) else Inr (k, s))"

lemma visit_deleted:
  "node_at a (ae_timeEventHead (h_loop h s)) = Some te \<Longrightarrow> te_id te = AE_DELETED_EVENT_ID \<Longrightarrow>
     visit_timer h a (k, s) = Inr (k, h_upd h (\<lambda>l. l\<lparr>ae_timeEventHead := filter (\<lambda>t. te_node t \<noteq> a) (ae_timeEventHead l)\<rparr>) s)"
  by (simp add: visit_timer_def)

lemma visit_live:
  "node_at a (ae_timeEventHead (h_loop h s)) = Some te \<Longrightarrow> te_id te \<noteq> AE_DELETED_EVENT_ID \<Longrightarrow> h_clock h s = (tv, u) \<Longrightarrow>
     visit_timer h a (k, s) = (if due tv te then rbind (fire_timer h a te u) (\<lambda>s. Inr (k + 1, s)) else Inr (k, u))"
  by (simp add: visit_timer_def)

definition visit_timers :: "'s host \<Rightarrow> 's \<Rightarrow> (int \<times> 's) res" where
  "visit_timers h s = rfold (visit_timer h) (map te_node (ae_timeEventHead (h_loop h s))) (0, s)"

text \<open>The state in which the timers are processed: the time is taken and compared with the last one.\<close>

definition timed :: "'s host \<Rightarrow> 's \<Rightarrow> 's" where
  "timed h s = (case h_clock h s of (tv, s) \<Rightarrow>
     h_upd h (\<lambda>l. l\<lparr>ae_lastTime := fst tv,
       ae_timeEventHead := (if fst tv < ae_lastTime l then map (\<lambda>te. te\<lparr>te_when_sec := 0\<rparr>) (ae_timeEventHead l)
                            else ae_timeEventHead l)\<rparr>) s)"

section \<open>The contract\<close>

lemma loop_edit_stop: "loop_edit a (a\<lparr>ae_stop := b\<rparr>)"
  unfolding loop_edit_def
  by (intro exI [of _ "ae_timeEventHead a"] exI [of _ "\<lambda>_. True"] exI [of _ b] exI [of _ "ae_lastTime a"])
     (simp add: list.rel_refl)

text \<open>What the invariant says of the list of timers.\<close>

definition timers_sound :: "aeEventLoop \<Rightarrow> bool" where
  "timers_sound a \<longleftrightarrow> -1 < ae_timeEventNextId a \<and> distinct (map te_node (ae_timeEventHead a)) \<and>
     (\<forall>te \<in> set (ae_timeEventHead a). te_finalizerProc te = 0 \<and> te_id te < ae_timeEventNextId a)"

text \<open>The outcome of a callback: it faults in a way that is allowed, or keeps the invariant.\<close>

definition outcome :: "('s \<Rightarrow> bool) \<Rightarrow> (fault \<Rightarrow> bool) \<Rightarrow> 's res \<Rightarrow> bool" where
  "outcome Q Bad m = (case m of Inl f \<Rightarrow> Bad f | Inr s \<Rightarrow> Q s)"

lemma outcome_simps [simp]: "outcome Q Bad (Inl f) = Bad f" "outcome Q Bad (Inr s) = Q s"
  by (simp_all add: outcome_def)

lemma outcome_mono: "outcome P Bad m \<Longrightarrow> (\<And>x. P x \<Longrightarrow> Q x) \<Longrightarrow> outcome Q Bad m"
  by (cases m) auto

lemma outcome_bind: "outcome Q Bad m \<Longrightarrow> (\<And>s. Q s \<Longrightarrow> outcome P Bad (f s)) \<Longrightarrow> outcome P Bad (rbind m f)"
  by (cases m) auto

locale loop_host =
  fixes h :: "'s host" and I :: "'s \<Rightarrow> bool" and Bad :: "fault \<Rightarrow> bool"
  assumes loop_set: "h_loop h (h_set h a s) = a"
    and clock: "I s \<Longrightarrow> h_clock h s = (tv, s') \<Longrightarrow> I s' \<and> h_loop h s' = h_loop h s"
    and wait: "I s \<Longrightarrow> h_wait h n s = (evs, s') \<Longrightarrow> I s' \<and>
       (\<forall>es. evs = Some es \<longrightarrow> (\<forall>x \<in> set es. 0 \<le> fst x \<and> fst x < ae_setsize (h_loop h s')))"
    and edit: "I s \<Longrightarrow> loop_edit (h_loop h s) a \<Longrightarrow> I (h_set h a s)"
    and timers: "I s \<Longrightarrow> timers_sound (h_loop h s)"
    and sleep: "I s \<Longrightarrow> ae_beforesleep (h_loop h s) = 0"
    and file_call: "I s \<Longrightarrow> fe = ae_events (h_loop h s) fd \<Longrightarrow>
       (pr = fe_rfileProc fe \<and> fe_mask fe AND bits AND AE_READABLE \<noteq> 0) \<or>
       (pr = fe_wfileProc fe \<and> fe_mask fe AND bits AND AE_WRITABLE \<noteq> 0) \<Longrightarrow>
       outcome (\<lambda>s'. I s' \<and> grows (h_loop h s) (h_loop h s')) Bad (h_file h pr fd (fe_clientData fe) bits s)"
    and time_call: "I s \<Longrightarrow> te \<in> set (ae_timeEventHead (h_loop h s)) \<Longrightarrow> te_id te \<noteq> AE_DELETED_EVENT_ID \<Longrightarrow>
       outcome (\<lambda>x. I (snd x) \<and> grows (h_loop h s) (h_loop h (snd x))) Bad (h_time h (te_timeProc te) (te_id te) (te_clientData te) s)"
    and moved: "I s \<Longrightarrow> I s' \<Longrightarrow> grows (h_loop h s) (h_loop h s') \<Longrightarrow>
       ae_events_addr (h_loop h s') \<noteq> ae_events_addr (h_loop h s) \<Longrightarrow> Bad f"
begin

lemma edit_timers:
  assumes "I s" and "list_all2 retimed (ae_timeEventHead (h_loop h s)) us"
  shows "I (h_upd h (\<lambda>l. l\<lparr>ae_timeEventHead := filter P us\<rparr>) s)"
  unfolding h_upd_def
proof (rule edit [OF assms(1)])
  show "loop_edit (h_loop h s) (h_loop h s\<lparr>ae_timeEventHead := filter P us\<rparr>)"
    unfolding loop_edit_def using assms(2)
    by (intro exI [of _ us] exI [of _ P] exI [of _ "ae_stop (h_loop h s)"] exI [of _ "ae_lastTime (h_loop h s)"]) simp
qed

lemma edit_node:
  assumes "I s" and "\<And>te. retimed te (f te)"
  shows "I (h_upd h (\<lambda>l. l\<lparr>ae_timeEventHead := set_node a f (ae_timeEventHead l)\<rparr>) s)"
proof -
  have "list_all2 retimed ts (set_node a f ts)" for ts
    using assms(2) by (induction ts) (auto simp: set_node_def)
  from edit_timers [OF assms(1) this, of "\<lambda>_. True"] show ?thesis by (simp add: h_upd_def)
qed

text \<open>Firing a timer: its node stays in the list, and so do the nodes behind it.\<close>

lemma fire_outcome:
  assumes "I s" and "ae_timeEventHead (h_loop h s) = pre @ te # cur" and "te_id te \<noteq> AE_DELETED_EVENT_ID"
  shows "outcome (\<lambda>s'. I s' \<and> (\<exists>pre' te' cur'. ae_timeEventHead (h_loop h s') = pre' @ te' # cur' \<and>
      te_node te' = te_node te \<and> list_all2 timer_kept cur cur')) Bad (fire_timer h (te_node te) te s)"
proof -
  let ?Q = "\<lambda>s'. I s' \<and> (\<exists>pre' te' cur'. ae_timeEventHead (h_loop h s') = pre' @ te' # cur' \<and>
      te_node te' = te_node te \<and> list_all2 timer_kept cur cur')"
  have edited: "?Q (h_upd h (\<lambda>l. l\<lparr>ae_timeEventHead := set_node (te_node te) f (ae_timeEventHead l)\<rparr>) t)"
    if t: "?Q t" and f: "\<And>te. retimed te (f te)" for f t
  proof -
    from t obtain pre' te' cur' where t': "ae_timeEventHead (h_loop h t) = pre' @ te' # cur'" "te_node te' = te_node te"
      "list_all2 timer_kept cur cur'" by blast
    have "distinct (map te_node (pre' @ te' # cur'))" using timers [of t] t by (simp add: timers_sound_def t'(1))
    from set_node_split [OF this, of f] have "set_node (te_node te) f (pre' @ te' # cur') = pre' @ f te' # cur'"
      by (simp add: t'(2))
    moreover have "te_node (f te') = te_node te" using f [of te'] t'(2) by (simp add: retimed_def)
    moreover have "I (h_upd h (\<lambda>l. l\<lparr>ae_timeEventHead := set_node (te_node te) f (ae_timeEventHead l)\<rparr>) t)"
      using t by (intro edit_node f) simp
    ultimately show ?thesis using t'(1,3) by (auto simp: h_upd_def loop_set)
  qed
  have m: "outcome (\<lambda>x. ?Q (snd x)) Bad (h_time h (te_timeProc te) (te_id te) (te_clientData te) s)"
    by (rule outcome_mono [OF time_call [OF assms(1) _ assms(3)]]) (use assms(2) grows_split [OF _ assms(2)] in auto)
  show ?thesis
    unfolding fire_timer_def
  proof (rule outcome_bind [OF m])
    fix x :: "int \<times> 's" assume q: "?Q (snd x)"
    obtain r t where x: "x = (r, t)" by fastforce
    obtain tv u where c: "h_clock h t = (tv, u)" by fastforce
    obtain sec ms where w: "aeAddMillisecondsToNow tv r = (sec, ms)" by fastforce
    have "?Q u" using clock [OF _ c] q x by simp
    from edited [OF this, of "\<lambda>te. te\<lparr>te_when_sec := sec, te_when_ms := ms\<rparr>"]
      edited [OF q, of "\<lambda>te. te\<lparr>te_id := AE_DELETED_EVENT_ID\<rparr>"]
    show "outcome ?Q Bad (case x of (retval, s) \<Rightarrow> if retval \<noteq> AE_NOMORE
       then case h_clock h s of (tv, s) \<Rightarrow>
              case aeAddMillisecondsToNow tv retval of (sec, ms) \<Rightarrow>
                Inr (h_upd h (\<lambda>l. l\<lparr>ae_timeEventHead :=
                   set_node (te_node te) (\<lambda>te. te\<lparr>te_when_sec := sec, te_when_ms := ms\<rparr>) (ae_timeEventHead l)\<rparr>) s)
       else Inr (h_upd h (\<lambda>l. l\<lparr>ae_timeEventHead :=
                   set_node (te_node te) (\<lambda>te. te\<lparr>te_id := AE_DELETED_EVENT_ID\<rparr>) (ae_timeEventHead l)\<rparr>) s))"
      by (simp add: x c w retimed_def)
  qed
qed

text \<open>The loop equals the visit of the timers that are left, and ends within the fuel.\<close>

lemma timer_loop_visits:
  assumes "I s" and "ae_timeEventHead (h_loop h s) = pre @ cur" and "length cur \<le> n"
    and "prev = None \<and> pre = [] \<or> (\<exists>pre' x. pre = pre' @ [x] \<and> prev = Some (te_node x))"
    and "\<forall>te \<in> set cur. te_id te \<le> maxId" and "-1 \<le> maxId"
  shows "timer_loop h maxId n prev (head_node cur) k s = rfold (visit_timer h) (map te_node cur) (k, s) \<and>
     outcome (\<lambda>x. I (snd x)) Bad (timer_loop h maxId n prev (head_node cur) k s)"
  using assms
proof (induction n arbitrary: pre cur prev k s)
  case 0
  then show ?case by (simp add: head_node_def)
next
  case (Suc n)
  show ?case
  proof (cases cur)
    case Nil
    with Suc.prems show ?thesis by (simp add: head_node_def)
  next
    case (Cons te rest)
    let ?a = "te_node te"
    from Suc.prems(2) have ts: "ae_timeEventHead (h_loop h s) = pre @ te # rest" by (simp add: Cons)
    have d: "distinct (map te_node (pre @ te # rest))" using timers [OF Suc.prems(1)] by (simp add: timers_sound_def ts)
    note at = node_at_split [OF d] set_node_split [OF d]
    have fin: "te_finalizerProc te = 0" using timers [OF Suc.prems(1)] by (simp add: timers_sound_def ts)
    have le: "te_id te \<le> maxId" "\<forall>te \<in> set rest. te_id te \<le> maxId" "length rest \<le> n"
      using Suc.prems(3,5) by (simp_all add: Cons)
    show ?thesis
    proof (cases "te_id te = AE_DELETED_EVENT_ID")
      case True
      have "unlink prev ?a (pre @ te # rest) = pre @ rest"
        using Suc.prems(4) at(3,4) by auto
      with remove_node [OF d] have u: "h_upd h (\<lambda>l. l\<lparr>ae_timeEventHead := unlink prev ?a (ae_timeEventHead l)\<rparr>) s =
          h_upd h (\<lambda>l. l\<lparr>ae_timeEventHead := filter (\<lambda>t. te_node t \<noteq> ?a) (ae_timeEventHead l)\<rparr>) s" (is "_ = ?s")
        by (simp add: h_upd_def ts)
      have "I ?s" using edit_timers [OF Suc.prems(1), of "ae_timeEventHead (h_loop h s)"]
        by (simp add: h_upd_def list.rel_refl)
      moreover have "ae_timeEventHead (h_loop h ?s) = pre @ rest" using remove_node [OF d] by (simp add: h_upd_def loop_set ts)
      ultimately have "timer_loop h maxId n prev (head_node rest) k ?s = rfold (visit_timer h) (map te_node rest) (k, ?s) \<and>
          outcome (\<lambda>x. I (snd x)) Bad (timer_loop h maxId n prev (head_node rest) k ?s)"
        using Suc.IH [of ?s pre rest prev k] Suc.prems(4,6) le by blast
      then show ?thesis
        using True at(1,2) fin by (auto simp: Cons head_node_def ts visit_deleted u Let_def)
    next
      case live: False
      obtain tv u where c: "h_clock h s = (tv, u)" by fastforce
      with clock [OF Suc.prems(1)] have u: "I u" "ae_timeEventHead (h_loop h u) = pre @ te # rest" by (auto simp: ts)
      have step: "timer_loop h maxId n (Some ?a) (head_node (behind ?a (ae_timeEventHead (h_loop h v)))) j v =
            rfold (visit_timer h) (map te_node rest) (j, v) \<and>
          outcome (\<lambda>x. I (snd x)) Bad
            (timer_loop h maxId n (Some ?a) (head_node (behind ?a (ae_timeEventHead (h_loop h v)))) j v)"
        if v: "I v" "ae_timeEventHead (h_loop h v) = pre' @ te' # cur'" "te_node te' = ?a" "list_all2 timer_kept rest cur'"
        for v pre' te' cur' j
      proof -
        have "distinct (map te_node (pre' @ te' # cur'))" using timers [OF v(1)] by (simp add: timers_sound_def v(2))
        then have "behind ?a (pre' @ te' # cur') = cur'" using node_at_split(2) v(3) by metis
        moreover have "\<forall>te \<in> set cur'. te_id te \<le> maxId"
          using le(2) Suc.prems(6) kept_mem [OF v(4)] by (fastforce simp: timer_kept_def ae_consts)
        moreover have "length cur' \<le> n" using le(3) list_all2_lengthD [OF v(4)] by simp
        ultimately show ?thesis
          using Suc.IH [of v "pre' @ [te']" cur' "Some ?a" j] v(1-3) kept_nodes [OF v(4)] Suc.prems(6) by auto
      qed
      show ?thesis
      proof (cases "due tv te")
        case False
        with step [of u pre te rest k] u c live at(1) le(1) show ?thesis
          by (auto simp: Cons head_node_def ts visit_live [OF _ _ c] list.rel_refl)
      next
        case True
        note now = True c live at(1) le(1)
        show ?thesis
        proof (cases "fire_timer h ?a te u")
          case (Inl f)
          with fire_outcome [OF u live] now show ?thesis
            by (auto simp: Cons head_node_def ts visit_live [OF _ _ c])
        next
          case (Inr v)
          with fire_outcome [OF u live] obtain pre' te' cur' where v: "I v"
            "ae_timeEventHead (h_loop h v) = pre' @ te' # cur'" "te_node te' = ?a" "list_all2 timer_kept rest cur'"
            by auto
          from step [OF v, of "k + 1"] Inr now show ?thesis
            by (auto simp: Cons head_node_def ts visit_live [OF _ _ c])
        qed
      qed
    qed
  qed
qed

lemma timed_ok:
  assumes "I s"
  shows "I (timed h s)"
proof -
  obtain tv u where c: "h_clock h s = (tv, u)" by fastforce
  with clock [OF assms] have u: "I u" by blast
  let ?us = "if fst tv < ae_lastTime (h_loop h u) then map (\<lambda>te. te\<lparr>te_when_sec := 0\<rparr>) (ae_timeEventHead (h_loop h u))
    else ae_timeEventHead (h_loop h u)"
  have "list_all2 retimed ts (map (\<lambda>te. te\<lparr>te_when_sec := 0\<rparr>) ts)" for ts
    by (induction ts) (auto simp: retimed_def)
  then have "list_all2 retimed (ae_timeEventHead (h_loop h u)) ?us" by (simp add: list.rel_refl)
  then have "loop_edit (h_loop h u) (h_loop h u\<lparr>ae_lastTime := fst tv, ae_timeEventHead := ?us\<rparr>)"
    unfolding loop_edit_def
    by (intro exI [of _ ?us] exI [of _ "\<lambda>_. True"] exI [of _ "ae_stop (h_loop h u)"] exI [of _ "fst tv"]) simp
  from edit [OF u this] show ?thesis by (simp add: timed_def c h_upd_def)
qed

theorem timers_visited:
  assumes "I s"
  shows "processTimeEvents h s = visit_timers h (timed h s)"
    and "outcome (\<lambda>x. I (snd x)) Bad (processTimeEvents h s)"
proof -
  have i: "I (timed h s)" by (rule timed_ok [OF assms])
  have p: "processTimeEvents h s = timer_loop h (ae_timeEventNextId (h_loop h (timed h s)) - 1)
     (length (ae_timeEventHead (h_loop h (timed h s)))) None (head_node (ae_timeEventHead (h_loop h (timed h s)))) 0 (timed h s)"
    by (simp add: processTimeEvents_def timed_def Let_def split: prod.splits)
  have "\<forall>te \<in> set (ae_timeEventHead (h_loop h (timed h s))). te_id te \<le> ae_timeEventNextId (h_loop h (timed h s)) - 1"
    "-1 \<le> ae_timeEventNextId (h_loop h (timed h s)) - 1"
    using timers [OF i] by (auto simp: timers_sound_def)
  from timer_loop_visits [OF i, of "[]" _ _ None, simplified, OF refl le_refl this, of 0]
  show "processTimeEvents h s = visit_timers h (timed h s)" and "outcome (\<lambda>x. I (snd x)) Bad (processTimeEvents h s)"
    unfolding p visit_timers_def by auto
qed

text \<open>One descriptor that was reported: only a callback that moves the array makes the pointer invalid.\<close>

lemma fired_outcome:
  assumes "I s" and "0 \<le> fst x" and "fst x < ae_setsize (h_loop h s)"
  shows "outcome (\<lambda>s'. I s' \<and> ae_setsize (h_loop h s) \<le> ae_setsize (h_loop h s')) Bad (process_fired h x s)"
proof -
  let ?a = "h_loop h s" and ?fd = "fst x"
  let ?e = "ae_events ?a ?fd"
  let ?rfired = "fe_mask ?e AND snd x AND AE_READABLE \<noteq> 0"
  let ?Q = "\<lambda>s'. I s' \<and> grows ?a (h_loop h s')"
  have e: "deref_event (ae_events_addr ?a, ?fd) ?a = Inr ?e"
    using assms by (simp add: deref_event_def event_at_def)
  have r: "outcome ?Q Bad (if ?rfired then h_file h (fe_rfileProc ?e) ?fd (fe_clientData ?e) (snd x) s else Inr s)"
    using file_call [OF assms(1) refl, of "fe_rfileProc ?e" ?fd "snd x"] assms(1) by simp
  show ?thesis
    unfolding process_fired_def Let_def e rbind_Inr
  proof (rule outcome_bind [OF r])
    fix t assume t: "?Q t"
    then have g: "ae_setsize ?a \<le> ae_setsize (h_loop h t)" by (simp add: grows_def)
    let ?f = "ae_events (h_loop h t) ?fd"
    show "outcome (\<lambda>s'. I s' \<and> ae_setsize ?a \<le> ae_setsize (h_loop h s')) Bad
      (rbind (deref_event (ae_events_addr ?a, ?fd) (h_loop h t)) (\<lambda>e.
       if fe_mask e AND snd x AND AE_WRITABLE \<noteq> 0 \<and> (\<not> ?rfired \<or> fe_wfileProc e \<noteq> fe_rfileProc e)
       then h_file h (fe_wfileProc e) ?fd (fe_clientData e) (snd x) t else Inr t))"
    proof (cases "ae_events_addr (h_loop h t) = ae_events_addr ?a")
      case False
      with moved [OF assms(1), of t] t have "Bad DanglingRef" by blast
      with False show ?thesis by (simp add: deref_event_def)
    next
      case True
      with assms(2,3) g have d: "deref_event (ae_events_addr ?a, ?fd) (h_loop h t) = Inr ?f"
        by (simp add: deref_event_def event_at_def)
      show ?thesis
      proof (cases "fe_mask ?f AND snd x AND AE_WRITABLE \<noteq> 0 \<and> (\<not> ?rfired \<or> fe_wfileProc ?f \<noteq> fe_rfileProc ?f)")
        case w: True
        with t have "outcome (\<lambda>s'. I s' \<and> grows (h_loop h t) (h_loop h s')) Bad
            (h_file h (fe_wfileProc ?f) ?fd (fe_clientData ?f) (snd x) t)"
          by (intro file_call [OF _ refl]) auto
        then have "outcome (\<lambda>s'. I s' \<and> ae_setsize ?a \<le> ae_setsize (h_loop h s')) Bad
            (h_file h (fe_wfileProc ?f) ?fd (fe_clientData ?f) (snd x) t)"
          by (rule outcome_mono) (use g in \<open>auto simp: grows_def\<close>)
        with w show ?thesis by (simp add: d)
      next
        case False
        with t g show ?thesis unfolding d rbind_Inr by auto
      qed
    qed
  qed
qed

lemma fired_list_outcome:
  assumes "I s" and "\<forall>x \<in> set fired. 0 \<le> fst x \<and> fst x < ae_setsize (h_loop h s)"
  shows "outcome I Bad (rfold (process_fired h) fired s)"
  using assms
proof (induction fired arbitrary: s)
  case (Cons x fired)
  have o: "outcome (\<lambda>s'. I s' \<and> ae_setsize (h_loop h s) \<le> ae_setsize (h_loop h s')) Bad (process_fired h x s)"
    by (rule fired_outcome) (use Cons.prems in auto)
  have "outcome I Bad (rfold (process_fired h) fired t)" if "I t \<and> ae_setsize (h_loop h s) \<le> ae_setsize (h_loop h t)" for t
    using that Cons.prems(2) by (intro Cons.IH) auto
  with o show ?case by (auto intro: outcome_bind)
qed simp

lemma poll_outcome:
  assumes "I s" and "poll_timeout h flags s = (n, t)" and "aeApiPoll h n t = (fired, u)"
  shows "I u \<and> (\<forall>x \<in> set fired. 0 \<le> fst x \<and> fst x < ae_setsize (h_loop h u))"
proof -
  have "I t"
    using assms(1,2) clock [OF assms(1)] by (auto simp: poll_timeout_def Let_def split: option.splits prod.splits if_splits)
  obtain evs v where w: "h_wait h (int32_of n) t = (evs, v)" by fastforce
  from wait [OF \<open>I t\<close> this] show ?thesis
    using assms(3) w by (cases evs) (fastforce simp: aeApiPoll_def split: prod.splits)+
qed

text \<open>One pass of the loop, and any number of them.\<close>

theorem pass_outcome:
  assumes "I s"
  shows "outcome (\<lambda>x. I (snd x)) Bad (aeProcessEvents h AE_ALL_EVENTS s)"
proof -
  obtain n t fired u where p: "poll_timeout h AE_ALL_EVENTS s = (n, t)" "aeApiPoll h n t = (fired, u)"
    by (metis surj_pair)
  from poll_outcome [OF assms p] have u: "outcome I Bad (rfold (process_fired h) fired u)"
    by (intro fired_list_outcome) auto
  have flags: "AE_ALL_EVENTS AND AE_TIME_EVENTS \<noteq> 0" "AE_ALL_EVENTS AND AE_DONT_WAIT = 0"
    by (simp_all add: ae_consts)
  have "outcome (\<lambda>x. I (snd x)) Bad (rbind (processTimeEvents h v) (\<lambda>(k, s). Inr (n + k, s)))" if "I v" for v n
    by (rule outcome_bind [OF timers_visited(2) [OF that]]) auto
  then show ?thesis
    unfolding aeProcessEvents_def using flags
    by (auto simp: p rbind_assoc intro!: outcome_bind [OF u])
qed

lemma passes_outcome: "I s \<Longrightarrow> outcome (\<lambda>x. I (snd x)) Bad (main_loop h n s)"
proof (induction n arbitrary: s)
  case (Suc n)
  then show ?case
    by (auto simp: sleep intro!: outcome_bind [OF pass_outcome])
qed simp

theorem main_outcome:
  assumes "I s"
  shows "outcome (\<lambda>x. I (snd x)) Bad (aeMain h n s)"
  using edit [OF assms loop_edit_stop] unfolding aeMain_def by (intro passes_outcome) (simp add: h_upd_def)

end

end
