(* ===== verification/Ae_Timing.thy ===== *)
theory Ae_Timing
  imports Ae_Host
begin

text \<open>
  The arithmetic of time: when a timer is due, and how long the loop sleeps. Times are compared as
  seconds and milliseconds; \<open>millis\<close> is their value on one scale.
\<close>

section \<open>One scale\<close>

definition millis :: "int \<times> int \<Rightarrow> int" where
  "millis tv = fst tv * 1000 + snd tv div 1000"

definition clock_ok :: "int \<times> int \<Rightarrow> bool" where
  "clock_ok tv \<longleftrightarrow> 0 \<le> snd tv \<and> snd tv < 1000000"

definition when_millis :: "aeTimeEvent \<Rightarrow> int" where
  "when_millis te = te_when_sec te * 1000 + te_when_ms te"

text \<open>The milliseconds of a timer that was set with a time-out that is not negative.\<close>

definition timer_ok :: "aeTimeEvent \<Rightarrow> bool" where
  "timer_ok te \<longleftrightarrow> 0 \<le> te_when_ms te \<and> te_when_ms te < 1000"

lemma aeGetTime_split: "clock_ok tv \<Longrightarrow> aeGetTime tv = (fst tv, snd tv div 1000)" "clock_ok tv \<Longrightarrow> 0 \<le> snd tv div 1000"
  "clock_ok tv \<Longrightarrow> snd tv div 1000 < 1000"
  by (auto simp: aeGetTime_def clock_ok_def cdiv_nonneg)

lemma due_millis: "clock_ok tv \<Longrightarrow> timer_ok te \<Longrightarrow> due tv te \<longleftrightarrow> when_millis te \<le> millis tv"
  using aeGetTime_split [of tv] by (auto simp: due_def timer_ok_def when_millis_def millis_def)

lemma sooner_millis: "timer_ok te \<Longrightarrow> timer_ok t \<Longrightarrow> sooner te t \<longleftrightarrow> when_millis te < when_millis t"
  by (auto simp: sooner_def timer_ok_def when_millis_def)

lemma crem_nonneg: "0 \<le> a \<Longrightarrow> 0 < b \<Longrightarrow> crem a b = a mod b"
  by (simp add: crem_def cdiv_nonneg minus_div_mult_eq_mod)

lemma AddMilliseconds_millis:
  assumes "clock_ok tv" and "0 \<le> ms" and "aeAddMillisecondsToNow tv ms = (sec, m)"
  shows "sec * 1000 + m = millis tv + ms" and "0 \<le> m" and "m < 1000"
proof -
  have q: "ms = ms div 1000 * 1000 + ms mod 1000" "0 \<le> ms mod 1000" "ms mod 1000 < 1000" by simp_all
  show "sec * 1000 + m = millis tv + ms" and "0 \<le> m" and "m < 1000"
    using assms aeGetTime_split [OF assms(1)] q
    by (auto simp: aeAddMillisecondsToNow_def cdiv_nonneg crem_nonneg millis_def Let_def split: if_splits)
qed

section \<open>Timers\<close>

text \<open>
  C35. A timer that is set to \<open>ms\<close> milliseconds at one reading of the clock is due at exactly the
  readings at least \<open>ms\<close> milliseconds later, over the second boundary too.
\<close>
theorem timer_due_after_timeout:
  assumes "clock_ok tv" and "clock_ok tv'" and "0 \<le> ms" and "AddTimer tv ms cb l = (t, l')"
  shows "\<exists>te. ae_timeEventHead (el_loop l') = te # ae_timeEventHead (el_loop l) \<and> te_id te = t \<and>
     (due tv' te \<longleftrightarrow> millis tv + ms \<le> millis tv')"
proof -
  obtain sec m where s: "aeAddMillisecondsToNow tv ms = (sec, m)" by fastforce
  note a = AddMilliseconds_millis [OF assms(1,3) s]
  from assms(4) s obtain te where te: "ae_timeEventHead (el_loop l') = te # ae_timeEventHead (el_loop l)" "te_id te = t"
      "te_when_sec te = sec" "te_when_ms te = m"
    by (auto simp: AddTimer_def aeCreateTimeEvent_def Let_def)
  with a due_millis [OF assms(2), of te] show ?thesis by (auto simp: timer_ok_def when_millis_def)
qed

lemma nearest_fold:
  assumes "\<forall>te \<in> set ts. timer_ok te" and "\<And>n. near = Some n \<Longrightarrow> timer_ok n"
  shows "case fold (\<lambda>te nearest. case nearest of None \<Rightarrow> Some te | Some t \<Rightarrow> if sooner te t then Some te else nearest) ts near of
      None \<Rightarrow> ts = [] \<and> near = None
    | Some n \<Rightarrow> (n \<in> set ts \<or> near = Some n) \<and> (\<forall>te \<in> set ts. when_millis n \<le> when_millis te) \<and>
        (\<forall>k. near = Some k \<longrightarrow> when_millis n \<le> when_millis k)"
  using assms
proof (induction ts arbitrary: near)
  case Nil
  then show ?case by (simp split: option.splits)
next
  case (Cons te ts)
  define next' where "next' = (case near of None \<Rightarrow> Some te | Some t \<Rightarrow> if sooner te t then Some te else near)"
  then have ok: "\<And>n. next' = Some n \<Longrightarrow> timer_ok n" using Cons.prems by (auto split: option.splits if_splits)
  have n: "next' \<noteq> None" "\<And>n. next' = Some n \<Longrightarrow> (n = te \<or> near = Some n) \<and> when_millis n \<le> when_millis te \<and>
      (\<forall>k. near = Some k \<longrightarrow> when_millis n \<le> when_millis k)"
    using Cons.prems sooner_millis [of te] by (auto simp: next'_def not_less split: option.splits if_splits)
  from Cons.IH [of next'] Cons.prems(1) ok n show ?case
    unfolding fold_Cons comp_apply next'_def [symmetric] by (fastforce split: option.splits)
qed

lemma nearest_timer:
  assumes "\<forall>te \<in> set (ae_timeEventHead l). timer_ok te"
  shows "case aeSearchNearestTimer l of
      None \<Rightarrow> ae_timeEventHead l = []
    | Some n \<Rightarrow> n \<in> set (ae_timeEventHead l) \<and> (\<forall>te \<in> set (ae_timeEventHead l). when_millis n \<le> when_millis te)"
  using nearest_fold [OF assms, of None] by (auto simp: aeSearchNearestTimer_def split: option.splits)

text \<open>
  C36. The loop sleeps until the first timer is due and not longer: with timers in the list, the
  time-out is the number of milliseconds from the reading of the clock to the earliest timer, or 0
  if one is due; without timers it is -1, for ever. \<open>epoll_wait\<close> gets it as an \<open>int\<close>: from 2^31
  milliseconds on, which is less than 25 days, it can be negative and the loop sleeps for ever.
\<close>
theorem poll_sleeps_until_first_timer:
  assumes "\<forall>te \<in> set (ae_timeEventHead (h_loop h s)). timer_ok te" and "h_clock h s = (tv, s')" and "clock_ok tv"
    and "poll_timeout h AE_ALL_EVENTS s = (n, u)"
  shows "(if ae_timeEventHead (h_loop h s) = [] then n = -1
      else n = max 0 (Min (when_millis ` set (ae_timeEventHead (h_loop h s))) - millis tv)) \<and>
     (n < 2 ^ 31 \<longrightarrow> int32_of n = n) \<and> (2 ^ 31 \<le> n \<and> n < 2 ^ 32 \<longrightarrow> int32_of n < 0)"
proof -
  have narrow: "int32_of n < 0" if "2 ^ 31 \<le> n" "n < 2 ^ 32"
  proof -
    have "(n + 2 ^ 31) mod 2 ^ 32 = (n - 2 ^ 31 + 2 ^ 32) mod 2 ^ 32" by (simp add: add.commute)
    also have "\<dots> = n - 2 ^ 31" unfolding mod_add_self2 using that by simp
    finally show ?thesis using that by (simp add: int32_of_def)
  qed
  have flags: "AE_ALL_EVENTS AND AE_TIME_EVENTS \<noteq> 0" "AE_ALL_EVENTS AND AE_DONT_WAIT = 0"
    by (simp_all add: ae_consts)
  have round: "cdiv ms 1000 * 1000 + cdiv (crem ms 1000 * 1000) 1000 = ms" if "0 < ms" for ms
    using that by (simp add: cdiv_nonneg crem_nonneg)
  have "if ae_timeEventHead (h_loop h s) = [] then n = -1
     else n = max 0 (Min (when_millis ` set (ae_timeEventHead (h_loop h s))) - millis tv)"
  proof (cases "aeSearchNearestTimer (h_loop h s)")
    case None
    with nearest_timer [OF assms(1)] assms(4) flags show ?thesis by (simp add: poll_timeout_def)
  next
    case (Some te)
    with nearest_timer [OF assms(1)] have te: "te \<in> set (ae_timeEventHead (h_loop h s))"
      "\<forall>t \<in> set (ae_timeEventHead (h_loop h s)). when_millis te \<le> when_millis t" by simp_all
    then have "Min (when_millis ` set (ae_timeEventHead (h_loop h s))) = when_millis te"
      by (intro Min_eqI) auto
    moreover have "(te_when_sec te - fst tv) * 1000 + te_when_ms te - snd tv div 1000 = when_millis te - millis tv"
      by (simp add: when_millis_def millis_def algebra_simps)
    moreover have "ae_timeEventHead (h_loop h s) \<noteq> []" using te(1) by auto
    ultimately show ?thesis
      using assms(4) Some flags round [of "when_millis te - millis tv"]
      by (auto simp: poll_timeout_def assms(2) aeGetTime_split [OF assms(3)] Let_def split: if_splits)
  qed
  moreover from this have "-1 \<le> n" by (simp split: if_splits)
  ultimately show ?thesis using narrow by (auto simp: int32_of_small)
qed

section \<open>Examples\<close>

theorem timer_due_after_timeout_witness:
  "\<exists>te. ae_timeEventHead (el_loop (snd (AddTimer (0, 999000) 5 (CbReturnFromGet 0) (new_EventLoop 0)))) = [te] \<and>
     due (1, 4000) te \<and> \<not> due (1, 3999) te"
proof -
  obtain t l where a: "AddTimer (0, 999000) 5 (CbReturnFromGet 0) (new_EventLoop 0) = (t, l)" by fastforce
  note due = timer_due_after_timeout [of "(0, 999000)" _ 5, OF _ _ _ a]
  show ?thesis
    using due [of "(1, 4000)"] due [of "(1, 3999)"] a
    by (auto simp: clock_ok_def millis_def new_EventLoop_def aeCreateEventLoop_def)
qed

text \<open>A host that is only a loop and a clock, with one timer that is due in 250 milliseconds.\<close>

definition demo_clock :: "aeEventLoop host" where
  "demo_clock = \<lparr>h_loop = id, h_set = (\<lambda>a _. a), h_clock = (\<lambda>l. ((7, 900000), l)), h_wait = (\<lambda>_ l. (None, l)),
     h_file = (\<lambda>_ _ _ _. Inr), h_time = (\<lambda>_ _ _ l. Inr (AE_NOMORE, l)), h_final = (\<lambda>_ _ l. Inr l), h_sleep = (\<lambda>_. Inr)\<rparr>"

theorem poll_sleeps_until_first_timer_witness:
  "fst (poll_timeout demo_clock AE_ALL_EVENTS (el_loop (snd (AddTimer (7, 900000) 250 (CbReturnFromGet 0) (new_EventLoop 0))))) = 250"
proof -
  let ?l = "el_loop (snd (AddTimer (7, 900000) 250 (CbReturnFromGet 0) (new_EventLoop 0)))"
  obtain n u where p: "poll_timeout demo_clock AE_ALL_EVENTS ?l = (n, u)" by fastforce
  have "\<exists>te. ae_timeEventHead ?l = [te] \<and> te_when_sec te = 8 \<and> te_when_ms te = 150"
    by (simp add: AddTimer_def aeCreateTimeEvent_def aeAddMillisecondsToNow_def aeGetTime_def crem_def cdiv_def
        new_EventLoop_def aeCreateEventLoop_def)
  with poll_sleeps_until_first_timer [where h = demo_clock and s = ?l, OF _ _ _ p, of "(7, 900000)" ?l] p
  show ?thesis by (auto simp: demo_clock_def timer_ok_def clock_ok_def when_millis_def millis_def)
qed

end
