(* ===== verification/Lru_Cache.thy ===== *)
theory Lru_Cache
  imports Common
begin

text \<open>
  \<open>LRUCache\<close> (src/arrow/cpp/src/plasma/eviction_policy.h and eviction_policy.cc): a
  doubly-linked list of (object, size) pairs in order of use and a hash table from the object
  to its list iterator. A list node has an identity (a number): the hash table maps a key to a
  node, so that a stale iterator would show up as \<open>DanglingRef\<close>.

  The lemmas show that list and table stay consistent, that \<open>used_capacity_\<close> is the sum of the
  sizes, that every operation refines its counterpart on plain lists, and that
  \<open>ChooseObjectsToEvict\<close> takes the least recently used objects and no more than needed.
\<close>

section \<open>Data and operations\<close>

type_synonym lru_node = "nat \<times> UniqueID \<times> int"

record LRUCache =
  item_list :: "lru_node list"
  item_map :: "(UniqueID \<times> nat) list"
  next_node :: nat
  lru_name :: string
  original_capacity :: int
  capacity :: int
  used_capacity :: int
  num_evictions_total :: int
  bytes_evicted_total :: int

definition new_LRUCache :: "string \<Rightarrow> int \<Rightarrow> LRUCache" where
  "new_LRUCache name sz =
     \<lparr>item_list = [], item_map = [], next_node = 0, lru_name = name, original_capacity = sz,
      capacity = sz, used_capacity = 0, num_evictions_total = 0, bytes_evicted_total = 0\<rparr>"

definition lru_Add :: "UniqueID \<Rightarrow> int \<Rightarrow> LRUCache \<Rightarrow> LRUCache res" where
  "lru_Add key sz c =
     rbind (check (map_of (item_map c) key = None) ''it == item_map_.end()'') (\<lambda>_.
     Inr (c\<lparr>item_list := (next_node c, key, sz) # item_list c,
            item_map := AList.update key (next_node c) (item_map c),
            next_node := Suc (next_node c),
            used_capacity := used_capacity c + sz\<rparr>))"

definition lru_Remove :: "UniqueID \<Rightarrow> LRUCache \<Rightarrow> (int \<times> LRUCache) res" where
  "lru_Remove key c =
     (case map_of (item_map c) key of
        None \<Rightarrow> Inr (-1, c)
      | Some n \<Rightarrow>
          (case map_of (item_list c) n of
             None \<Rightarrow> Inl DanglingRef
           | Some (_, sz) \<Rightarrow>
               let c = c\<lparr>used_capacity := used_capacity c - sz,
                         item_list := AList.delete n (item_list c),
                         item_map := AList.delete key (item_map c)\<rparr>
               in rbind (check (0 \<le> used_capacity c) ''used_capacity_ >= 0'') (\<lambda>_. Inr (sz, c))))"

definition lru_AdjustCapacity :: "int \<Rightarrow> LRUCache \<Rightarrow> LRUCache res" where
  "lru_AdjustCapacity delta c =
     rbind (check (0 \<le> used_capacity c) ''used_capacity_ >= 0'') (\<lambda>_.
     Inr (c\<lparr>capacity := capacity c + delta\<rparr>))"

definition lru_Capacity :: "LRUCache \<Rightarrow> int" where
  "lru_Capacity c = capacity c"

definition lru_OriginalCapacity :: "LRUCache \<Rightarrow> int" where
  "lru_OriginalCapacity c = original_capacity c"

definition lru_RemainingCapacity :: "LRUCache \<Rightarrow> int" where
  "lru_RemainingCapacity c = capacity c - used_capacity c"

definition lru_Foreach :: "(UniqueID \<Rightarrow> 's \<Rightarrow> 's res) \<Rightarrow> LRUCache \<Rightarrow> 's \<Rightarrow> 's res" where
  "lru_Foreach f c s = rfold (\<lambda>(n, key, sz). f key) (item_list c) s"

text \<open>
  The loop of \<open>ChooseObjectsToEvict\<close> walks the list from its end: \<open>rest\<close> is what lies before
  the iterator, last element first.
\<close>

fun lru_choose_loop ::
    "int \<Rightarrow> lru_node list \<Rightarrow> int \<Rightarrow> UniqueID list \<Rightarrow> LRUCache \<Rightarrow> int \<times> UniqueID list \<times> LRUCache" where
  "lru_choose_loop required [] bytes out c = (bytes, out, c)"
| "lru_choose_loop required ((n, key, sz) # rest) bytes out c =
     (if bytes < required
      then lru_choose_loop required rest (bytes + sz) (out @ [key])
             (c\<lparr>bytes_evicted_total := bytes_evicted_total c + sz,
                num_evictions_total := num_evictions_total c + 1\<rparr>)
      else (bytes, out, c))"

definition lru_ChooseObjectsToEvict ::
    "int \<Rightarrow> UniqueID list \<Rightarrow> LRUCache \<Rightarrow> int \<times> UniqueID list \<times> LRUCache" where
  "lru_ChooseObjectsToEvict num_bytes_required objects_to_evict c =
     lru_choose_loop num_bytes_required (rev (item_list c)) 0 objects_to_evict c"

text \<open>
  \<open>fmt remaining original\<close> stands for the floating-point percentage that the stream prints.
\<close>

definition lru_DebugString :: "(int \<Rightarrow> int \<Rightarrow> string) \<Rightarrow> LRUCache \<Rightarrow> string" where
  "lru_DebugString fmt c =
     (let pre = [CHR 0x0A] @ ''('' @ lru_name c @ '') ''
      in pre @ ''capacity: '' @ int_string (lru_Capacity c) @
         pre @ ''used: '' @ fmt (lru_RemainingCapacity c) (lru_OriginalCapacity c) @ ''%'' @
         pre @ ''num objects: '' @ nat_string (length (item_map c)) @
         pre @ ''num evictions: '' @ int_string (num_evictions_total c) @
         pre @ ''bytes evicted: '' @ int_string (bytes_evicted_total c))"

section \<open>Abstraction and invariant\<close>

text \<open>The cache as the list of its (object, size) pairs, most recently used first.\<close>

definition lru_items :: "LRUCache \<Rightarrow> (UniqueID \<times> int) list" where
  "lru_items c = map snd (item_list c)"

definition lru_keys :: "LRUCache \<Rightarrow> UniqueID list" where
  "lru_keys c = map fst (lru_items c)"

definition lru_inv :: "LRUCache \<Rightarrow> bool" where
  "lru_inv c \<longleftrightarrow>
     distinct (map fst (item_list c)) \<and> (\<forall>n \<in> fst ` set (item_list c). n < next_node c) \<and>
     distinct (lru_keys c) \<and> alist_ok (item_map c) \<and>
     (\<forall>key n. map_of (item_map c) key = Some n \<longleftrightarrow> (\<exists>sz. (n, key, sz) \<in> set (item_list c))) \<and>
     used_capacity c = sum_list (map snd (lru_items c)) \<and>
     (\<forall>sz \<in> snd ` set (lru_items c). 0 \<le> sz)"

lemma lru_inv_new: "lru_inv (new_LRUCache name sz)"
  by (simp add: lru_inv_def new_LRUCache_def lru_keys_def lru_items_def)

lemma lru_items_new [simp]: "lru_items (new_LRUCache name sz) = []"
  by (simp add: lru_items_def new_LRUCache_def)

lemma lru_keys_iff: "key \<in> set (lru_keys c) \<longleftrightarrow> (\<exists>n sz. (n, key, sz) \<in> set (item_list c))"
  by (force simp: lru_keys_def lru_items_def)

lemma lru_map_iff:
  assumes "lru_inv c"
  shows "map_of (item_map c) key = None \<longleftrightarrow> key \<notin> set (lru_keys c)"
proof -
  have "map_of (item_map c) key = Some n \<longleftrightarrow> (\<exists>sz. (n, key, sz) \<in> set (item_list c))" for n
    using assms by (simp add: lru_inv_def)
  then show ?thesis unfolding lru_keys_iff by (metis not_None_eq)
qed

lemma lru_used_nonneg: "lru_inv c \<Longrightarrow> 0 \<le> used_capacity c"
  by (auto simp: lru_inv_def intro!: sum_list_nonneg)

section \<open>The operations on the abstraction\<close>

lemma lru_Add_Inr:
  assumes "lru_inv c"
  shows "lru_Add key sz c = (if key \<in> set (lru_keys c) then Inl (CheckFailed ''it == item_map_.end()'')
     else Inr (c\<lparr>item_list := (next_node c, key, sz) # item_list c,
                 item_map := AList.update key (next_node c) (item_map c),
                 next_node := Suc (next_node c), used_capacity := used_capacity c + sz\<rparr>))"
  using lru_map_iff [OF assms, of key] by (simp add: lru_Add_def check_def)

text \<open>\<open>Add\<close> puts the object at the front; adding a present object aborts.\<close>

lemma lru_Add_spec:
  assumes inv: "lru_inv c" and sz: "0 \<le> sz" and ret: "lru_Add key sz c = Inr c'"
  shows "key \<notin> set (lru_keys c)" and "lru_items c' = (key, sz) # lru_items c" and "lru_inv c'"
    and "capacity c' = capacity c" and "original_capacity c' = original_capacity c"
proof -
  show fresh: "key \<notin> set (lru_keys c)"
    using ret unfolding lru_Add_Inr [OF inv] by (auto split: if_splits)
  then have c': "c' = c\<lparr>item_list := (next_node c, key, sz) # item_list c,
                 item_map := AList.update key (next_node c) (item_map c),
                 next_node := Suc (next_node c), used_capacity := used_capacity c + sz\<rparr>"
    using ret unfolding lru_Add_Inr [OF inv] by simp
  show items: "lru_items c' = (key, sz) # lru_items c"
    and "capacity c' = capacity c" "original_capacity c' = original_capacity c"
    by (simp_all add: c' lru_items_def)
  have new: "next_node c \<notin> fst ` set (item_list c)"
    using inv by (auto simp: lru_inv_def)
  have map: "map_of (item_map c') k = Some n \<longleftrightarrow> (\<exists>s. (n, k, s) \<in> set (item_list c'))" for k n
    using inv fresh unfolding c' lru_inv_def lru_keys_iff by auto
  show "lru_inv c'"
    unfolding lru_inv_def
  proof (intro conjI allI)
    show "map_of (item_map c') k = Some n \<longleftrightarrow> (\<exists>s. (n, k, s) \<in> set (item_list c'))" for k n
      by (rule map)
    show "distinct (lru_keys c')" using inv fresh by (simp add: lru_keys_def items lru_inv_def)
  qed (use inv new sz in \<open>auto simp: c' lru_items_def lru_inv_def less_SucI\<close>)
qed

text \<open>\<open>Remove\<close> of an absent object returns -1 and changes nothing.\<close>

lemma lru_Remove_absent:
  "lru_inv c \<Longrightarrow> key \<notin> set (lru_keys c) \<Longrightarrow> lru_Remove key c = Inr (-1, c)"
  by (simp add: lru_Remove_def lru_map_iff [THEN iffD2])

lemma filter_delete_node:
  assumes "distinct (map fst l)" and "distinct (map (fst \<circ> snd) l)" and "(n, key, sz) \<in> set l"
  shows "map snd (AList.delete n l) = filter (\<lambda>p. fst p \<noteq> key) (map snd l)"
    and "(m, k, s) \<in> set (AList.delete n l) \<longleftrightarrow> (m, k, s) \<in> set l \<and> k \<noteq> key"
proof -
  have *: "fst x \<noteq> n \<longleftrightarrow> fst (snd x) \<noteq> key" if "x \<in> set l" for x
    using that assms by (auto simp: distinct_map inj_on_def) (metis fst_conv snd_conv)+
  have "AList.delete n l = filter (\<lambda>x. fst (snd x) \<noteq> key) l"
    unfolding AList.delete_eq by (rule filter_cong) (use * in \<open>auto simp: case_prod_beta\<close>)
  then show "map snd (AList.delete n l) = filter (\<lambda>p. fst p \<noteq> key) (map snd l)"
    and "(m, k, s) \<in> set (AList.delete n l) \<longleftrightarrow> (m, k, s) \<in> set l \<and> k \<noteq> key"
    by (auto simp: filter_map comp_def)
qed

lemma sum_list_filter_key:
  "distinct (map fst xs) \<Longrightarrow> (key, sz) \<in> set xs \<Longrightarrow>
     sum_list (map snd (filter (\<lambda>p. fst p \<noteq> key) xs)) = sum_list (map snd xs) - (sz :: int)"
proof (induction xs)
  case (Cons x xs)
  show ?case
  proof (cases "fst x = key")
    case True
    then have "x = (key, sz)" and "key \<notin> fst ` set xs"
      using Cons.prems by (auto simp: image_iff)
    moreover from this(2) have "filter (\<lambda>p. fst p \<noteq> key) xs = xs"
      by (auto simp: filter_id_conv)
    ultimately show ?thesis by simp
  next
    case False
    with Cons show ?thesis by auto
  qed
qed simp

text \<open>\<open>Remove\<close> of a present object returns its size and takes it out of the list.\<close>

lemma lru_Remove_present:
  assumes inv: "lru_inv c" and mem: "(key, sz) \<in> set (lru_items c)"
  shows "\<exists>c'. lru_Remove key c = Inr (sz, c') \<and> lru_inv c' \<and>
     lru_items c' = filter (\<lambda>p. fst p \<noteq> key) (lru_items c) \<and>
     capacity c' = capacity c \<and> original_capacity c' = original_capacity c"
proof -
  obtain n where n: "(n, key, sz) \<in> set (item_list c)"
    using mem by (auto simp: lru_items_def)
  have dn: "distinct (map fst (item_list c))" and dk: "distinct (map (fst \<circ> snd) (item_list c))"
    and used: "used_capacity c = sum_list (map snd (lru_items c))"
    and map: "\<And>k m. map_of (item_map c) k = Some m \<longleftrightarrow> (\<exists>s. (m, k, s) \<in> set (item_list c))"
    using inv by (auto simp: lru_inv_def lru_keys_def lru_items_def)
  note del = filter_delete_node [OF dn dk n]
  let ?c' = "c\<lparr>used_capacity := used_capacity c - sz, item_list := AList.delete n (item_list c),
               item_map := AList.delete key (item_map c)\<rparr>"
  have items: "lru_items ?c' = filter (\<lambda>p. fst p \<noteq> key) (lru_items c)"
    using del(1) by (simp add: lru_items_def)
  have dk': "distinct (map fst (lru_items c))"
    using inv by (simp add: lru_inv_def lru_keys_def)
  have used': "used_capacity ?c' = sum_list (map snd (lru_items ?c'))"
    using sum_list_filter_key [OF dk' mem] used items by simp
  have map': "map_of (item_map ?c') k = Some m \<longleftrightarrow> (\<exists>s. (m, k, s) \<in> set (item_list ?c'))" for k m
    using map [of k m] del(2) by auto
  have "lru_inv ?c'"
    unfolding lru_inv_def
  proof (intro conjI allI)
    show "map_of (item_map ?c') k = Some m \<longleftrightarrow> (\<exists>s. (m, k, s) \<in> set (item_list ?c'))" for k m
      by (rule map')
    show "distinct (lru_keys ?c')"
      using dk' by (simp add: lru_keys_def items distinct_map_filter)
    show "used_capacity ?c' = sum_list (map snd (lru_items ?c'))" by (rule used')
    show "\<forall>sz \<in> snd ` set (lru_items ?c'). 0 \<le> sz"
      unfolding items using inv by (auto simp: lru_inv_def)
  qed (use inv in \<open>auto simp: lru_inv_def distinct_delete\<close>)
  moreover have "lru_Remove key c = Inr (sz, ?c')"
  proof -
    have "map_of (item_map c) key = Some n" using map n by blast
    moreover have "map_of (item_list c) n = Some (key, sz)" using dn n by simp
    moreover have "0 \<le> used_capacity ?c'" using lru_used_nonneg [OF \<open>lru_inv ?c'\<close>] .
    ultimately show ?thesis by (simp add: lru_Remove_def Let_def)
  qed
  ultimately show ?thesis using items by auto
qed


lemma lru_Remove_spec:
  assumes "lru_inv c"
  shows "\<exists>sz c'. lru_Remove key c = Inr (sz, c') \<and> lru_inv c' \<and>
     lru_items c' = filter (\<lambda>p. fst p \<noteq> key) (lru_items c) \<and>
     sz = (case map_of (lru_items c) key of Some n \<Rightarrow> n | None \<Rightarrow> -1) \<and>
     capacity c' = capacity c \<and> original_capacity c' = original_capacity c"
proof (cases "map_of (lru_items c) key")
  case None
  then have "key \<notin> set (lru_keys c)"
    by (simp add: lru_keys_def map_of_eq_None_iff)
  moreover from this have "filter (\<lambda>p. fst p \<noteq> key) (lru_items c) = lru_items c"
    by (auto simp: filter_id_conv lru_keys_def)
  ultimately show ?thesis using assms None by (simp add: lru_Remove_absent)
next
  case (Some n)
  with lru_Remove_present [OF assms map_of_SomeD [OF Some]] show ?thesis by auto
qed

section \<open>The choice of victims\<close>

lemma lru_choose_loop_spec:
  "lru_choose_loop required rest bytes out c = (bytes', out', c') \<Longrightarrow>
   \<exists>k \<le> length rest.
      out' = out @ map (\<lambda>r. fst (snd r)) (take k rest) \<and>
      bytes' = bytes + sum_list (map (\<lambda>r. snd (snd r)) (take k rest)) \<and>
      (required \<le> bytes' \<or> k = length rest) \<and>
      (\<forall>j < k. bytes + sum_list (map (\<lambda>r. snd (snd r)) (take j rest)) < required) \<and>
      c' = c\<lparr>bytes_evicted_total := bytes_evicted_total c + (bytes' - bytes),
             num_evictions_total := num_evictions_total c + int k\<rparr>"
proof (induction rest arbitrary: bytes out c)
  case (Cons x rest)
  obtain n key sz where x: "x = (n, key, sz)" by (rule prod_cases3)
  show ?case
  proof (cases "bytes < required")
    case True
    with Cons.prems have "lru_choose_loop required rest (bytes + sz) (out @ [key])
        (c\<lparr>bytes_evicted_total := bytes_evicted_total c + sz,
           num_evictions_total := num_evictions_total c + 1\<rparr>) = (bytes', out', c')"
      by (simp add: x)
    from Cons.IH [OF this] obtain k where k: "k \<le> length rest"
      "out' = (out @ [key]) @ map (\<lambda>r. fst (snd r)) (take k rest)"
      "bytes' = bytes + sz + sum_list (map (\<lambda>r. snd (snd r)) (take k rest))"
      "required \<le> bytes' \<or> k = length rest"
      "\<forall>j < k. bytes + sz + sum_list (map (\<lambda>r. snd (snd r)) (take j rest)) < required"
      "c' = c\<lparr>bytes_evicted_total := bytes_evicted_total c + sz,
             num_evictions_total := num_evictions_total c + 1,
             bytes_evicted_total := bytes_evicted_total c + sz + (bytes' - (bytes + sz)),
             num_evictions_total := num_evictions_total c + 1 + int k\<rparr>"
      by (elim exE conjE) (rule that, simp_all)
    have "bytes + sum_list (map (\<lambda>r. snd (snd r)) (take j (x # rest))) < required" if "j < Suc k" for j
      using that True k(5) by (cases j) (auto simp: x algebra_simps)
    with k show ?thesis
      by (intro exI [of _ "Suc k"] conjI) (auto simp: x)
  next
    case False
    with Cons.prems show ?thesis by (intro exI [of _ 0]) (simp add: x)
  qed
qed simp

text \<open>
  The victims are the \<open>k\<close> least recently used objects for the smallest \<open>k\<close> that frees the
  required number of bytes, or all of them.
\<close>

lemma lru_choose_spec:
  assumes "lru_ChooseObjectsToEvict required out c = (bytes, out', c')"
  obtains k where "k \<le> length (lru_items c)"
    and "out' = out @ take k (rev (lru_keys c))"
    and "bytes = sum_list (map snd (take k (rev (lru_items c))))"
    and "required \<le> bytes \<or> k = length (lru_items c)"
    and "\<And>j. j < k \<Longrightarrow> sum_list (map snd (take j (rev (lru_items c)))) < required"
    and "lru_items c' = lru_items c" and "lru_inv c' = lru_inv c"
    and "capacity c' = capacity c" and "original_capacity c' = original_capacity c"
    and "item_map c' = item_map c" and "used_capacity c' = used_capacity c"
proof -
  obtain k where k: "k \<le> length (item_list c)"
    "out' = out @ map (\<lambda>r. fst (snd r)) (take k (rev (item_list c)))"
    "bytes = sum_list (map (\<lambda>r. snd (snd r)) (take k (rev (item_list c))))"
    "required \<le> bytes \<or> k = length (item_list c)"
    "\<And>j. j < k \<Longrightarrow> sum_list (map (\<lambda>r. snd (snd r)) (take j (rev (item_list c)))) < required"
    "c' = c\<lparr>bytes_evicted_total := bytes_evicted_total c + bytes,
             num_evictions_total := num_evictions_total c + int k\<rparr>"
    using lru_choose_loop_spec [OF assms [unfolded lru_ChooseObjectsToEvict_def]] by auto
  show ?thesis
    by (rule that [of k])
      (use k in \<open>simp_all add: lru_items_def lru_keys_def lru_inv_def take_map rev_map comp_def\<close>)
qed

section \<open>The cache as an interface\<close>

text \<open>
  What the eviction policies rely on: a cache is a list of (object, size) pairs, most recently
  used first, with one pair per object.
\<close>

locale recency_cache =
  fixes inv :: "'c \<Rightarrow> bool"
    and items :: "'c \<Rightarrow> ('k \<times> int) list"
    and add :: "'k \<Rightarrow> int \<Rightarrow> 'c \<Rightarrow> 'c res"
    and remove :: "'k \<Rightarrow> 'c \<Rightarrow> (int \<times> 'c) res"
  assumes inv_distinct: "inv c \<Longrightarrow> distinct (map fst (items c))"
    and inv_nonneg: "inv c \<Longrightarrow> (k, n) \<in> set (items c) \<Longrightarrow> 0 \<le> n"
    and add_total: "inv c \<Longrightarrow> k \<notin> fst ` set (items c) \<Longrightarrow> \<exists>c'. add k n c = Inr c'"
    and add_items: "inv c \<Longrightarrow> 0 \<le> n \<Longrightarrow> add k n c = Inr c' \<Longrightarrow>
          k \<notin> fst ` set (items c) \<and> items c' = (k, n) # items c \<and> inv c'"
    and remove_items: "inv c \<Longrightarrow> \<exists>c'. inv c' \<and> items c' = filter (\<lambda>p. fst p \<noteq> k) (items c) \<and>
          remove k c = Inr (case map_of (items c) k of Some n \<Rightarrow> n | None \<Rightarrow> -1, c')"
begin

lemma remove_total: "inv c \<Longrightarrow> \<exists>n c'. remove k c = Inr (n, c')"
  using remove_items by blast

lemma remove_invD:
  assumes "inv c" and "remove k c = Inr (n, c')"
  shows "inv c'" and "items c' = filter (\<lambda>p. fst p \<noteq> k) (items c)"
    and "n = (case map_of (items c) k of Some n \<Rightarrow> n | None \<Rightarrow> -1)"
  using remove_items [OF assms(1), of k] assms(2) by auto

text \<open>Removing and adding again moves an object to the front and keeps its size.\<close>

lemma touch:
  assumes "inv c" and "(k, n) \<in> set (items c)" and "remove k c = Inr (m, c1)"
  shows "m = n" and "\<exists>c2. add k m c1 = Inr c2 \<and> inv c2 \<and>
           items c2 = (k, n) # filter (\<lambda>p. fst p \<noteq> k) (items c)"
proof -
  note r = remove_invD [OF assms(1,3)]
  have "map_of (items c) k = Some n"
    using inv_distinct [OF assms(1)] assms(2) by simp
  then show m: "m = n" using r(3) by simp
  have "k \<notin> fst ` set (items c1)" by (auto simp: r(2))
  with add_total [OF r(1)] obtain c2 where c2: "add k m c1 = Inr c2" by blast
  with add_items [OF r(1) _ c2] inv_nonneg [OF assms(1,2)] m r(2)
  show "\<exists>c2. add k m c1 = Inr c2 \<and> inv c2 \<and> items c2 = (k, n) # filter (\<lambda>p. fst p \<noteq> k) (items c)"
    by auto
qed

text \<open>Removing a list of objects, as the loops over the victims do.\<close>

lemma remove_list:
  assumes "inv c"
  shows "\<exists>c'. rfold (\<lambda>k c. rbind (remove k c) (\<lambda>(_, c). Inr c)) ks c = Inr c' \<and> inv c' \<and>
     items c' = filter (\<lambda>p. fst p \<notin> set ks) (items c)"
  using assms
proof (induction ks arbitrary: c)
  case (Cons k ks)
  obtain n c1 where r: "remove k c = Inr (n, c1)" using remove_total [OF Cons.prems] by blast
  note s = remove_invD [OF Cons.prems r]
  from Cons.IH [OF s(1)] obtain c' where
    "rfold (\<lambda>k c. rbind (remove k c) (\<lambda>(_, c). Inr c)) ks c1 = Inr c'" "inv c'"
    "items c' = filter (\<lambda>p. fst p \<notin> set ks) (items c1)" by blast
  with r s(2) show ?case by (auto intro: filter_cong)
qed simp

end

interpretation lru: recency_cache lru_inv lru_items lru_Add lru_Remove
proof
  fix c k n c'
  assume inv: "lru_inv c"
  then show "distinct (map fst (lru_items c))" by (simp add: lru_inv_def lru_keys_def)
  show "0 \<le> n" if "(k, n) \<in> set (lru_items c)" using inv that by (force simp: lru_inv_def)
  show "\<exists>c'. lru_Add k n c = Inr c'" if "k \<notin> fst ` set (lru_items c)"
    using lru_Add_Inr [OF inv, of k n] that by (auto simp: lru_keys_def)
  show "k \<notin> fst ` set (lru_items c) \<and> lru_items c' = (k, n) # lru_items c \<and> lru_inv c'"
    if "0 \<le> n" "lru_Add k n c = Inr c'"
    using lru_Add_spec [OF inv that] by (simp add: lru_keys_def)
  show "\<exists>c'. lru_inv c' \<and> lru_items c' = filter (\<lambda>p. fst p \<noteq> k) (lru_items c) \<and>
      lru_Remove k c = Inr (case map_of (lru_items c) k of Some n \<Rightarrow> n | None \<Rightarrow> -1, c')"
    using lru_Remove_spec [OF inv, of k] by auto
qed

end
