(* ===== verification/Eviction_Policy.thy ===== *)
theory Eviction_Policy
  imports Lru_Cache Allocator
begin

text \<open>
  The eviction policies: \<open>EvictionPolicy\<close> (src/arrow/cpp/src/plasma/eviction_policy.cc), one
  LRU cache for the store, and \<open>QuotaAwarePolicy\<close> (quota_aware_policy.cc), which extends it
  with one LRU cache per client that has asked for a quota. The store uses the latter.

  \<open>store_info_->objects\<close> is the parameter \<open>objs\<close>; a \<open>Client*\<close> is the client's connection
  descriptor, which identifies it as long as it is connected.

  The lemmas show the invariant that ties the caches, the ownership map and the capacities
  together and that every operation keeps it; that no operation ever names a pinned object as
  a victim; that space requests free what they promise; and the bound on the quotas.
\<close>

section \<open>The basic policy\<close>

record EvictionPolicy =
  pinned_memory_bytes :: int
  cache :: LRUCache

definition GetObjectSize :: "ObjectTable \<Rightarrow> UniqueID \<Rightarrow> int res" where
  "GetObjectSize objs object_id =
     (case GetObjectTableEntry objs object_id of
        None \<Rightarrow> Inl NullDeref
      | Some entry \<Rightarrow> Inr (sadd64 (e_data_size entry) (e_metadata_size entry)))"

text \<open>\<open>cache_.Remove(object_id)\<close> with its result dropped, also in a loop over a vector.\<close>

definition lru_drop :: "UniqueID \<Rightarrow> LRUCache \<Rightarrow> LRUCache res" where
  "lru_drop object_id c = rbind (lru_Remove object_id c) (\<lambda>(_, c). Inr c)"

definition ep_ChooseObjectsToEvict ::
    "int \<Rightarrow> UniqueID list \<Rightarrow> 'a EvictionPolicy_scheme \<Rightarrow> (int \<times> UniqueID list \<times> 'a EvictionPolicy_scheme) res" where
  "ep_ChooseObjectsToEvict num_bytes_required objects_to_evict p =
     (case lru_ChooseObjectsToEvict num_bytes_required objects_to_evict (cache p) of
        (bytes_evicted, objects_to_evict, c) \<Rightarrow>
          rbind (rfold lru_drop objects_to_evict c) (\<lambda>c.
          Inr (bytes_evicted, objects_to_evict, p\<lparr>cache := c\<rparr>)))"

definition ep_ObjectCreated ::
    "ObjectTable \<Rightarrow> UniqueID \<Rightarrow> 'a EvictionPolicy_scheme \<Rightarrow> 'a EvictionPolicy_scheme res" where
  "ep_ObjectCreated objs object_id p =
     rbind (GetObjectSize objs object_id) (\<lambda>sz.
     rbind (lru_Add object_id sz (cache p)) (\<lambda>c. Inr (p\<lparr>cache := c\<rparr>)))"

definition RequireSpace ::
    "PlasmaAllocator \<Rightarrow> int \<Rightarrow> UniqueID list \<Rightarrow> 'a EvictionPolicy_scheme \<Rightarrow>
       (bool \<times> UniqueID list \<times> 'a EvictionPolicy_scheme) res" where
  "RequireSpace a sz objects_to_evict p =
     (let required_space = ssub64 (sadd64 (Allocated a) sz) (GetFootprintLimit a);
          space_to_free = max required_space (cdiv (GetFootprintLimit a) 5)
      in rbind (ep_ChooseObjectsToEvict space_to_free objects_to_evict p)
           (\<lambda>(num_bytes_evicted, objects_to_evict, p).
            Inr (required_space \<le> num_bytes_evicted \<and> 0 < num_bytes_evicted, objects_to_evict, p)))"

definition ep_BeginObjectAccess ::
    "ObjectTable \<Rightarrow> UniqueID \<Rightarrow> 'a EvictionPolicy_scheme \<Rightarrow> 'a EvictionPolicy_scheme res" where
  "ep_BeginObjectAccess objs object_id p =
     rbind (lru_drop object_id (cache p)) (\<lambda>c.
     rbind (GetObjectSize objs object_id) (\<lambda>sz.
     Inr (p\<lparr>cache := c, pinned_memory_bytes := pinned_memory_bytes p + sz\<rparr>)))"

definition ep_EndObjectAccess ::
    "ObjectTable \<Rightarrow> UniqueID \<Rightarrow> 'a EvictionPolicy_scheme \<Rightarrow> 'a EvictionPolicy_scheme res" where
  "ep_EndObjectAccess objs object_id p =
     rbind (GetObjectSize objs object_id) (\<lambda>sz.
     rbind (lru_Add object_id sz (cache p)) (\<lambda>c.
     Inr (p\<lparr>cache := c, pinned_memory_bytes := pinned_memory_bytes p - sz\<rparr>)))"

definition ep_RemoveObject ::
    "UniqueID \<Rightarrow> 'a EvictionPolicy_scheme \<Rightarrow> 'a EvictionPolicy_scheme res" where
  "ep_RemoveObject object_id p =
     rbind (lru_drop object_id (cache p)) (\<lambda>c. Inr (p\<lparr>cache := c\<rparr>))"

definition lru_refresh :: "UniqueID \<Rightarrow> LRUCache \<Rightarrow> LRUCache res" where
  "lru_refresh object_id c =
     rbind (lru_Remove object_id c) (\<lambda>(sz, c).
     if sz \<noteq> -1 then lru_Add object_id sz c else Inr c)"

definition ep_RefreshObjects ::
    "UniqueID list \<Rightarrow> 'a EvictionPolicy_scheme \<Rightarrow> 'a EvictionPolicy_scheme res" where
  "ep_RefreshObjects object_ids p =
     rbind (rfold lru_refresh object_ids (cache p)) (\<lambda>c. Inr (p\<lparr>cache := c\<rparr>))"

section \<open>The quota-aware policy\<close>

record QuotaAwarePolicy = EvictionPolicy +
  per_client_cache :: "(int \<times> LRUCache) list"
  owned_by_client :: "(UniqueID \<times> int) list"
  shared_for_read :: "UniqueID list"

definition new_QuotaAwarePolicy :: "int \<Rightarrow> QuotaAwarePolicy" where
  "new_QuotaAwarePolicy max_size =
     \<lparr>pinned_memory_bytes = 0, cache = new_LRUCache ''global lru'' max_size,
      per_client_cache = [], owned_by_client = [], shared_for_read = []\<rparr>"

definition HasQuota :: "int \<Rightarrow> bool \<Rightarrow> QuotaAwarePolicy \<Rightarrow> bool" where
  "HasQuota client is_create p \<longleftrightarrow>
     (if \<not> is_create then False else map_of (per_client_cache p) client \<noteq> None)"

text \<open>
  \<open>per_client_cache_[client]->f()\<close>: \<open>operator[]\<close> creates a null pointer for an absent client.
\<close>

definition with_client_cache ::
    "int \<Rightarrow> (LRUCache \<Rightarrow> ('r \<times> LRUCache) res) \<Rightarrow> QuotaAwarePolicy \<Rightarrow> ('r \<times> QuotaAwarePolicy) res" where
  "with_client_cache client f p =
     (case map_of (per_client_cache p) client of
        None \<Rightarrow> Inl NullDeref
      | Some c \<Rightarrow> rbind (f c) (\<lambda>(r, c).
          Inr (r, p\<lparr>per_client_cache := AList.update client c (per_client_cache p)\<rparr>)))"

definition ObjectCreated ::
    "ObjectTable \<Rightarrow> UniqueID \<Rightarrow> int \<Rightarrow> bool \<Rightarrow> QuotaAwarePolicy \<Rightarrow> QuotaAwarePolicy res" where
  "ObjectCreated objs object_id client is_create p =
     (if HasQuota client is_create p
      then rbind (GetObjectSize objs object_id) (\<lambda>sz.
           rbind (with_client_cache client
                    (\<lambda>c. rbind (lru_Add object_id sz c) (\<lambda>c. Inr ((), c))) p) (\<lambda>(_, p).
           Inr (p\<lparr>owned_by_client := AList.update object_id client (owned_by_client p)\<rparr>)))
      else ep_ObjectCreated objs object_id p)"

text \<open>
  \<open>cache_.OriginalCapacity() * kGlobalLruReserveFraction\<close> is computed in \<open>double\<close>. \<open>rne53\<close>
  rounds an integer to 53 significant bits, ties to even; 0.3 is the double
  \<open>5404319552844595 * 2^-54\<close>, so both sides of the comparison are scaled by \<open>2^54\<close>.
\<close>

fun bit_length :: "nat \<Rightarrow> nat" where
  "bit_length n = (if n = 0 then 0 else Suc (bit_length (n div 2)))"

declare bit_length.simps [simp del]

definition rne53_nat :: "nat \<Rightarrow> nat" where
  "rne53_nat n =
     (if n < 2 ^ 53 then n
      else let k = bit_length n - 53; q = n div 2 ^ k; r = n mod 2 ^ k; h = 2 ^ (k - 1)
           in (if h < r \<or> (r = h \<and> odd q) then q + 1 else q) * 2 ^ k)"

definition rne53 :: "int \<Rightarrow> int" where
  "rne53 x = sgn x * int (rne53_nat (nat \<bar>x\<bar>))"

definition below_reserve :: "int \<Rightarrow> int \<Rightarrow> bool" where
  "below_reserve remaining original \<longleftrightarrow>
     rne53 remaining * 2 ^ 54 < rne53 (rne53 original * 5404319552844595)"

definition SetClientQuota ::
    "int \<Rightarrow> string \<Rightarrow> int \<Rightarrow> QuotaAwarePolicy \<Rightarrow> (bool \<times> QuotaAwarePolicy) res" where
  "SetClientQuota client name output_memory_quota p =
     (if map_of (per_client_cache p) client \<noteq> None then Inr (False, p)
      else if below_reserve (ssub64 (lru_Capacity (cache p)) output_memory_quota)
                (lru_OriginalCapacity (cache p)) then Inr (False, p)
      else rbind (lru_AdjustCapacity (- output_memory_quota) (cache p)) (\<lambda>c.
           Inr (True, p\<lparr>cache := c,
                  per_client_cache := AList.update client (new_LRUCache name output_memory_quota)
                                        (per_client_cache p)\<rparr>)))"

text \<open>One pass of the loop over the candidates of \<open>EnforcePerClientQuota\<close>.\<close>

definition quota_evict_one ::
    "int \<Rightarrow> UniqueID \<Rightarrow> UniqueID list \<times> QuotaAwarePolicy \<Rightarrow> (UniqueID list \<times> QuotaAwarePolicy) res" where
  "quota_evict_one client object_id = (\<lambda>(objects_to_evict, p).
     let (objects_to_evict, p) =
           (if object_id \<in> set (shared_for_read p)
            then (objects_to_evict, p\<lparr>shared_for_read := removeAll object_id (shared_for_read p)\<rparr>)
            else (objects_to_evict @ [object_id], p));
         p = p\<lparr>owned_by_client := AList.delete object_id (owned_by_client p)\<rparr>
     in rbind (with_client_cache client (lru_Remove object_id) p) (\<lambda>(_, p).
        Inr (objects_to_evict, p)))"

definition EnforcePerClientQuota ::
    "int \<Rightarrow> int \<Rightarrow> bool \<Rightarrow> UniqueID list \<Rightarrow> QuotaAwarePolicy \<Rightarrow>
       (bool \<times> UniqueID list \<times> QuotaAwarePolicy) res" where
  "EnforcePerClientQuota client sz is_create objects_to_evict p =
     (if \<not> HasQuota client is_create p then Inr (True, objects_to_evict, p)
      else case map_of (per_client_cache p) client of
        None \<Rightarrow> Inl NullDeref
      | Some client_cache \<Rightarrow>
          if lru_Capacity client_cache < sz then Inr (False, objects_to_evict, p)
          else if sz \<le> lru_RemainingCapacity client_cache then Inr (True, objects_to_evict, p)
          else
            let space_to_free = ssub64 sz (lru_RemainingCapacity client_cache) in
            if 0 < space_to_free
            then case lru_ChooseObjectsToEvict space_to_free [] client_cache of
                   (_, candidates, client_cache) \<Rightarrow>
                     rbind (rfold (quota_evict_one client) candidates
                              (objects_to_evict,
                               p\<lparr>per_client_cache :=
                                   AList.update client client_cache (per_client_cache p)\<rparr>))
                       (\<lambda>(objects_to_evict, p). Inr (True, objects_to_evict, p))
            else Inr (True, objects_to_evict, p))"

definition BeginObjectAccess ::
    "ObjectTable \<Rightarrow> UniqueID \<Rightarrow> QuotaAwarePolicy \<Rightarrow> QuotaAwarePolicy res" where
  "BeginObjectAccess objs object_id p =
     (if map_of (owned_by_client p) object_id \<noteq> None
      then let p = p\<lparr>shared_for_read := List.insert object_id (shared_for_read p)\<rparr>
           in rbind (GetObjectSize objs object_id) (\<lambda>sz.
              Inr (p\<lparr>pinned_memory_bytes := pinned_memory_bytes p + sz\<rparr>))
      else ep_BeginObjectAccess objs object_id p)"

definition EndObjectAccess ::
    "ObjectTable \<Rightarrow> UniqueID \<Rightarrow> QuotaAwarePolicy \<Rightarrow> QuotaAwarePolicy res" where
  "EndObjectAccess objs object_id p =
     (if map_of (owned_by_client p) object_id \<noteq> None
      then let p = p\<lparr>shared_for_read := removeAll object_id (shared_for_read p)\<rparr>
           in rbind (GetObjectSize objs object_id) (\<lambda>sz.
              Inr (p\<lparr>pinned_memory_bytes := pinned_memory_bytes p - sz\<rparr>))
      else ep_EndObjectAccess objs object_id p)"

definition RemoveObject :: "UniqueID \<Rightarrow> QuotaAwarePolicy \<Rightarrow> QuotaAwarePolicy res" where
  "RemoveObject object_id p =
     (case map_of (owned_by_client p) object_id of
        Some client \<Rightarrow>
          rbind (with_client_cache client (lru_Remove object_id) p) (\<lambda>(_, p).
          Inr (p\<lparr>owned_by_client := AList.delete object_id (owned_by_client p),
                 shared_for_read := removeAll object_id (shared_for_read p)\<rparr>))
      | None \<Rightarrow> ep_RemoveObject object_id p)"

definition quota_refresh :: "UniqueID \<Rightarrow> QuotaAwarePolicy \<Rightarrow> QuotaAwarePolicy res" where
  "quota_refresh object_id p =
     (case map_of (owned_by_client p) object_id of
        Some client \<Rightarrow>
          rbind (with_client_cache client (lru_Remove object_id) p) (\<lambda>(sz, p).
          rbind (with_client_cache client
                   (\<lambda>c. rbind (lru_Add object_id sz c) (\<lambda>c. Inr ((), c))) p) (\<lambda>(_, p).
          Inr p))
      | None \<Rightarrow> Inr p)"

definition RefreshObjects :: "UniqueID list \<Rightarrow> QuotaAwarePolicy \<Rightarrow> QuotaAwarePolicy res" where
  "RefreshObjects object_ids p = rbind (rfold quota_refresh object_ids p) (ep_RefreshObjects object_ids)"

text \<open>The lambda that \<open>ClientDisconnected\<close> hands to \<open>Foreach\<close>.\<close>

definition disown :: "ObjectTable \<Rightarrow> UniqueID \<Rightarrow> QuotaAwarePolicy \<Rightarrow> QuotaAwarePolicy res" where
  "disown objs obj p =
     rbind (if obj \<notin> set (shared_for_read p)
            then rbind (GetObjectSize objs obj) (\<lambda>sz. lru_Add obj sz (cache p))
            else Inr (cache p)) (\<lambda>c.
     Inr (p\<lparr>cache := c,
            owned_by_client := AList.delete obj (owned_by_client p),
            shared_for_read := removeAll obj (shared_for_read p)\<rparr>))"

definition ClientDisconnected ::
    "ObjectTable \<Rightarrow> int \<Rightarrow> QuotaAwarePolicy \<Rightarrow> QuotaAwarePolicy res" where
  "ClientDisconnected objs client p =
     (case map_of (per_client_cache p) client of
        None \<Rightarrow> Inr p
      | Some client_cache \<Rightarrow>
          rbind (lru_AdjustCapacity (lru_Capacity client_cache) (cache p)) (\<lambda>c.
          rbind (lru_Foreach (disown objs) client_cache (p\<lparr>cache := c\<rparr>)) (\<lambda>p.
          Inr (p\<lparr>per_client_cache := AList.delete client (per_client_cache p)\<rparr>))))"

definition policy_DebugString ::
    "(int \<Rightarrow> int \<Rightarrow> string) \<Rightarrow> PlasmaAllocator \<Rightarrow> QuotaAwarePolicy \<Rightarrow> string" where
  "policy_DebugString fmt a p =
     ''num clients with quota: '' @ nat_string (length (per_client_cache p)) @
     [CHR 0x0A] @ ''quota map size: '' @ nat_string (length (owned_by_client p)) @
     [CHR 0x0A] @ ''pinned quota map size: '' @ nat_string (length (shared_for_read p)) @
     [CHR 0x0A] @ ''allocated bytes: '' @ int_string (Allocated a) @
     [CHR 0x0A] @ ''allocation limit: '' @ int_string (GetFootprintLimit a) @
     [CHR 0x0A] @ ''pinned bytes: '' @ int_string (pinned_memory_bytes p) @
     lru_DebugString fmt (cache p) @
     concat (map (\<lambda>(_, c). lru_DebugString fmt c) (per_client_cache p))"

section \<open>Invariant\<close>

text \<open>
  Each object is in at most one cache, \<open>owned_by_client_\<close> says in which client cache it is, a
  shared object is owned, and the capacities add up to the capacity the policy started with.
\<close>

definition owners_ok :: "(int \<times> LRUCache) list \<Rightarrow> (UniqueID \<times> int) list \<Rightarrow> bool" where
  "owners_ok pc ow \<longleftrightarrow>
     (\<forall>cl obj. map_of ow obj = Some cl \<longleftrightarrow>
        (\<exists>c. map_of pc cl = Some c \<and> obj \<in> set (lru_keys c)))"

definition policy_inv :: "QuotaAwarePolicy \<Rightarrow> bool" where
  "policy_inv p \<longleftrightarrow>
     lru_inv (cache p) \<and> alist_ok (per_client_cache p) \<and> alist_ok (owned_by_client p) \<and>
     (\<forall>cl c. map_of (per_client_cache p) cl = Some c \<longrightarrow> lru_inv c) \<and>
     owners_ok (per_client_cache p) (owned_by_client p) \<and>
     (\<forall>obj \<in> set (lru_keys (cache p)). map_of (owned_by_client p) obj = None) \<and>
     (\<forall>obj \<in> set (shared_for_read p). map_of (owned_by_client p) obj \<noteq> None) \<and>
     capacity (cache p) + sum_list (map (capacity \<circ> snd) (per_client_cache p)) =
       original_capacity (cache p)"

text \<open>An object the policy may name as a victim: in the global cache, or owned and not shared.\<close>

definition evictable :: "QuotaAwarePolicy \<Rightarrow> UniqueID \<Rightarrow> bool" where
  "evictable p obj \<longleftrightarrow>
     obj \<in> set (lru_keys (cache p)) \<or>
     (map_of (owned_by_client p) obj \<noteq> None \<and> obj \<notin> set (shared_for_read p))"

text \<open>An object the policy knows: in the global cache or in a client's.\<close>

definition tracked :: "QuotaAwarePolicy \<Rightarrow> UniqueID \<Rightarrow> bool" where
  "tracked p obj \<longleftrightarrow>
     obj \<in> set (lru_keys (cache p)) \<or> map_of (owned_by_client p) obj \<noteq> None"


section \<open>Lists of capacities\<close>

lemma map_snd_update_same:
  "map_of al k = Some v0 \<Longrightarrow> f v = f v0 \<Longrightarrow>
     map (f \<circ> snd) (AList.update k v al) = map (f \<circ> snd) al"
  by (induction al) auto

lemma sum_snd_update_new:
  "map_of al k = None \<Longrightarrow>
     sum_list (map (f \<circ> snd) (AList.update k v al)) = sum_list (map (f \<circ> snd) al) + (f v :: int)"
  by (induction al) (auto split: if_splits)

lemma sum_snd_delete:
  "alist_ok al \<Longrightarrow> map_of al k = Some v \<Longrightarrow>
     sum_list (map (f \<circ> snd) (AList.delete k al)) = sum_list (map (f \<circ> snd) al) - (f v :: int)"
proof (induction al)
  case (Cons x al)
  show ?case
  proof (cases "fst x = k")
    case True
    then have "map_of al k = None" and "x = (k, v)"
      using Cons.prems by (auto simp: alist_ok_def map_of_eq_None_iff prod_eq_iff)
    moreover from this(1) have "AList.delete k al = al"
      by (simp add: delete_id map_of_eq_None_iff)
    ultimately show ?thesis by simp
  next
    case False
    with Cons show ?thesis by (cases x) (auto simp: alist_ok_def)
  qed
qed simp

section \<open>The caches inside the policy\<close>

lemma lru_Remove_keys:
  assumes "lru_inv c" and "lru_Remove obj c = Inr (sz, c')"
  shows "lru_inv c'" and "lru_keys c' = filter (\<lambda>k. k \<noteq> obj) (lru_keys c)"
    and "capacity c' = capacity c" and "original_capacity c' = original_capacity c"
    and "sz = (case map_of (lru_items c) obj of Some n \<Rightarrow> n | None \<Rightarrow> -1)"
    and "lru_items c' = filter (\<lambda>p. fst p \<noteq> obj) (lru_items c)"
  using lru_Remove_spec [OF assms(1), of obj] assms(2)
  by (auto simp: lru_keys_def filter_map comp_def)

lemma lru_drop_total: "lru_inv c \<Longrightarrow> \<exists>c'. lru_drop obj c = Inr c'"
  using lru_Remove_spec [of c obj] by (auto simp: lru_drop_def)

lemma lru_drop_keys:
  assumes "lru_inv c" and "lru_drop obj c = Inr c'"
  shows "lru_inv c'" and "lru_keys c' = filter (\<lambda>k. k \<noteq> obj) (lru_keys c)"
    and "capacity c' = capacity c" and "original_capacity c' = original_capacity c"
    and "lru_items c' = filter (\<lambda>p. fst p \<noteq> obj) (lru_items c)"
  using assms lru_Remove_keys [OF assms(1)]
  by (auto simp: lru_drop_def elim!: rbind_InrE)

lemma lru_Add_keys:
  assumes "lru_inv c" and "0 \<le> sz" and "lru_Add obj sz c = Inr c'"
  shows "lru_inv c'" and "lru_keys c' = obj # lru_keys c" and "obj \<notin> set (lru_keys c)"
    and "capacity c' = capacity c" and "original_capacity c' = original_capacity c"
    and "lru_items c' = (obj, sz) # lru_items c"
  using lru_Add_spec [OF assms] by (simp_all add: lru_keys_def)

lemma lru_Add_total: "lru_inv c \<Longrightarrow> obj \<notin> set (lru_keys c) \<Longrightarrow> \<exists>c'. lru_Add obj sz c = Inr c'"
  by (simp add: lru_Add_Inr)

lemma lru_drop_list:
  assumes "lru_inv c"
  shows "\<exists>c'. rfold lru_drop ks c = Inr c' \<and> lru_inv c' \<and> capacity c' = capacity c \<and>
     original_capacity c' = original_capacity c \<and>
     lru_items c' = filter (\<lambda>p. fst p \<notin> set ks) (lru_items c)"
  using assms
proof (induction ks arbitrary: c)
  case (Cons k ks)
  obtain c1 where r: "lru_drop k c = Inr c1" using lru_drop_total [OF Cons.prems] by blast
  note s = lru_drop_keys [OF Cons.prems r]
  from Cons.IH [OF s(1)] r s(3-) show ?case by (auto intro: filter_cong)
qed simp

lemma lru_refresh_keys:
  assumes "lru_inv c"
  shows "\<exists>c'. lru_refresh obj c = Inr c' \<and> lru_inv c' \<and> set (lru_keys c') = set (lru_keys c) \<and>
     capacity c' = capacity c \<and> original_capacity c' = original_capacity c"
proof (cases "map_of (lru_items c) obj")
  case None
  with lru_Remove_spec [OF assms, of obj]
  obtain c' where r: "lru_Remove obj c = Inr (-1, c')" by auto
  from lru_Remove_keys [OF assms r] None have "set (lru_keys c') = set (lru_keys c)"
    by (auto simp: lru_keys_def map_of_eq_None_iff)
  with r lru_Remove_keys [OF assms r] show ?thesis by (simp add: lru_refresh_def)
next
  case (Some n)
  with lru_Remove_spec [OF assms, of obj]
  obtain c1 where r: "lru_Remove obj c = Inr (n, c1)" by auto
  note k = lru_Remove_keys [OF assms r]
  have n: "0 \<le> n" using lru.inv_nonneg [OF assms map_of_SomeD [OF Some]] .
  have "obj \<in> set (lru_keys c)" using map_of_SomeD [OF Some] by (force simp: lru_keys_def)
  moreover obtain c' where a: "lru_Add obj n c1 = Inr c'"
    using lru_Add_total [OF k(1), of obj n] by (auto simp: k(2))
  ultimately show ?thesis
    using r a n k lru_Add_keys [OF k(1) n a] by (auto simp: lru_refresh_def)
qed

lemma with_client_cache_Inr:
  "with_client_cache cl f p = Inr (r, p') \<longleftrightarrow>
     (\<exists>c c'. map_of (per_client_cache p) cl = Some c \<and> f c = Inr (r, c') \<and>
             p' = p\<lparr>per_client_cache := AList.update cl c' (per_client_cache p)\<rparr>)"
  by (auto simp: with_client_cache_def rbind_eq_Inr split: option.splits)

section \<open>Preservation of the invariant\<close>

lemma policy_invD:
  assumes "policy_inv p"
  shows "lru_inv (cache p)" and "alist_ok (per_client_cache p)" and "alist_ok (owned_by_client p)"
    and "\<And>cl c. map_of (per_client_cache p) cl = Some c \<Longrightarrow> lru_inv c"
    and "\<And>cl obj. map_of (owned_by_client p) obj = Some cl \<longleftrightarrow>
        (\<exists>c. map_of (per_client_cache p) cl = Some c \<and> obj \<in> set (lru_keys c))"
    and "\<And>obj. obj \<in> set (lru_keys (cache p)) \<Longrightarrow> map_of (owned_by_client p) obj = None"
    and "\<And>obj. obj \<in> set (shared_for_read p) \<Longrightarrow> map_of (owned_by_client p) obj \<noteq> None"
    and "capacity (cache p) + sum_list (map (capacity \<circ> snd) (per_client_cache p)) =
       original_capacity (cache p)"
  using assms unfolding policy_inv_def owners_ok_def by blast+

lemma policy_inv_new: "policy_inv (new_QuotaAwarePolicy max_size)"
  by (simp add: policy_inv_def owners_ok_def new_QuotaAwarePolicy_def lru_inv_new lru_keys_def)
    (simp add: new_LRUCache_def)

text \<open>A new global cache with the same capacities and no owned object in it.\<close>

lemma policy_inv_global:
  assumes "policy_inv p" and "lru_inv c" and "capacity c = capacity (cache p)"
    and "original_capacity c = original_capacity (cache p)"
    and "\<And>obj. obj \<in> set (lru_keys c) \<Longrightarrow> map_of (owned_by_client p) obj = None"
  shows "policy_inv (p\<lparr>cache := c\<rparr>)" and "policy_inv (p\<lparr>cache := c, pinned_memory_bytes := n\<rparr>)"
  using assms unfolding policy_inv_def by simp_all

text \<open>A new cache for one client, with the ownership map following it.\<close>

lemma policy_inv_client:
  assumes "policy_inv p" and "map_of (per_client_cache p) cl = Some c" and "lru_inv c'"
    and "capacity c' = capacity c" and "alist_ok ow"
    and "\<And>obj cl'. map_of ow obj = Some cl' \<longleftrightarrow>
           (if cl' = cl then obj \<in> set (lru_keys c') else map_of (owned_by_client p) obj = Some cl')"
    and "\<And>obj. obj \<in> set (lru_keys (cache p)) \<Longrightarrow> map_of ow obj = None"
    and "\<And>obj. obj \<in> set sh \<Longrightarrow> map_of ow obj \<noteq> None"
  shows "policy_inv (p\<lparr>per_client_cache := AList.update cl c' (per_client_cache p),
                       owned_by_client := ow, shared_for_read := sh\<rparr>)"
proof -
  have "owners_ok (AList.update cl c' (per_client_cache p)) ow"
    unfolding owners_ok_def using assms(6) policy_invD(5) [OF assms(1)] by simp
  then show ?thesis
    using assms policy_invD(1-4,8) [OF assms(1)]
    by (simp add: policy_inv_def map_snd_update_same [where f = capacity])
qed


lemma evictable_tracked: "evictable p obj \<Longrightarrow> tracked p obj"
  by (auto simp: evictable_def tracked_def)

definition size_ok :: "ObjectTable \<Rightarrow> bool" where
  "size_ok objs \<longleftrightarrow> (\<forall>obj sz. GetObjectSize objs obj = Inr sz \<longrightarrow> 0 \<le> sz)"

lemma GetObjectSize_total: "GetObjectTableEntry objs obj = Some e \<Longrightarrow> \<exists>sz. GetObjectSize objs obj = Inr sz"
  by (simp add: GetObjectSize_def)

lemma BeginObjectAccess_total:
  assumes "policy_inv p" and "GetObjectTableEntry objs obj = Some e"
  shows "\<exists>p'. BeginObjectAccess objs obj p = Inr p'"
  using lru_drop_total [OF policy_invD(1) [OF assms(1)], of obj] GetObjectSize_total [OF assms(2)]
  by (auto simp: BeginObjectAccess_def ep_BeginObjectAccess_def Let_def)

lemma BeginObjectAccess_spec:
  assumes "policy_inv p" and "BeginObjectAccess objs obj p = Inr p'"
  shows "policy_inv p'" and "evictable p' x \<longleftrightarrow> evictable p x \<and> x \<noteq> obj"
    and "tracked p' x \<longleftrightarrow> tracked p x \<and> (x \<noteq> obj \<or> map_of (owned_by_client p) obj \<noteq> None)"
    and "owned_by_client p' = owned_by_client p"
proof -
  have "policy_inv p' \<and> (evictable p' x \<longleftrightarrow> evictable p x \<and> x \<noteq> obj) \<and>
      (tracked p' x \<longleftrightarrow> tracked p x \<and> (x \<noteq> obj \<or> map_of (owned_by_client p) obj \<noteq> None)) \<and>
      owned_by_client p' = owned_by_client p"
  proof (cases "map_of (owned_by_client p) obj = None")
    case True
    with assms(2) obtain c sz where c: "lru_drop obj (cache p) = Inr c"
      "p' = p\<lparr>cache := c, pinned_memory_bytes := pinned_memory_bytes p + sz\<rparr>"
      by (auto simp: BeginObjectAccess_def ep_BeginObjectAccess_def elim!: rbind_InrE)
    note k = lru_drop_keys [OF policy_invD(1) [OF assms(1)] c(1)]
    have "policy_inv p'"
      unfolding c(2) using k policy_invD(6) [OF assms(1)] by (intro policy_inv_global [OF assms(1)]) auto
    with True show ?thesis by (auto simp: c(2) evictable_def tracked_def k(2))
  next
    case False
    with assms(2) obtain sz where p': "p' = p\<lparr>shared_for_read := List.insert obj (shared_for_read p),
        pinned_memory_bytes := pinned_memory_bytes p + sz\<rparr>"
      by (auto simp: BeginObjectAccess_def Let_def elim!: rbind_InrE)
    have "policy_inv p'"
      using assms(1) False by (auto simp: p' policy_inv_def)
    moreover have "obj \<notin> set (lru_keys (cache p))" using policy_invD(6) [OF assms(1), of obj] False by auto
    ultimately show ?thesis using False by (auto simp: p' evictable_def tracked_def)
  qed
  then show "policy_inv p'" and "evictable p' x \<longleftrightarrow> evictable p x \<and> x \<noteq> obj"
    and "tracked p' x \<longleftrightarrow> tracked p x \<and> (x \<noteq> obj \<or> map_of (owned_by_client p) obj \<noteq> None)"
    and "owned_by_client p' = owned_by_client p"
    by simp_all
qed

lemma EndObjectAccess_total:
  assumes "policy_inv p" and "GetObjectTableEntry objs obj = Some e" and "\<not> evictable p obj"
  shows "\<exists>p'. EndObjectAccess objs obj p = Inr p'"
proof (cases "map_of (owned_by_client p) obj = None")
  case True
  obtain sz where sz: "GetObjectSize objs obj = Inr sz"
    using GetObjectSize_total [OF assms(2)] by blast
  obtain c where "lru_Add obj sz (cache p) = Inr c"
    using lru_Add_total [OF policy_invD(1) [OF assms(1)]] assms(3) by (auto simp: evictable_def)
  with True sz show ?thesis by (simp add: EndObjectAccess_def ep_EndObjectAccess_def)
next
  case False
  with GetObjectSize_total [OF assms(2)] show ?thesis by (auto simp: EndObjectAccess_def Let_def)
qed

lemma EndObjectAccess_spec:
  assumes "policy_inv p" and "size_ok objs" and "EndObjectAccess objs obj p = Inr p'"
  shows "policy_inv p'" and "evictable p' x \<longleftrightarrow> evictable p x \<or> x = obj"
    and "tracked p' x \<longleftrightarrow> tracked p x \<or> x = obj"
proof -
  have "policy_inv p' \<and> (evictable p' x \<longleftrightarrow> evictable p x \<or> x = obj) \<and>
      (tracked p' x \<longleftrightarrow> tracked p x \<or> x = obj)"
  proof (cases "map_of (owned_by_client p) obj = None")
    case True
    with assms(3) obtain c sz where c: "lru_Add obj sz (cache p) = Inr c"
      "GetObjectSize objs obj = Inr sz"
      "p' = p\<lparr>cache := c, pinned_memory_bytes := pinned_memory_bytes p - sz\<rparr>"
      by (auto simp: EndObjectAccess_def ep_EndObjectAccess_def elim!: rbind_InrE)
    have "0 \<le> sz" using assms(2) c(2) by (auto simp: size_ok_def)
    note k = lru_Add_keys [OF policy_invD(1) [OF assms(1)] this c(1)]
    have "policy_inv p'"
      unfolding c(3) using k True policy_invD(6) [OF assms(1)]
      by (intro policy_inv_global [OF assms(1)]) auto
    with True show ?thesis by (auto simp: c(3) evictable_def tracked_def k(2))
  next
    case False
    with assms(3) obtain sz where p': "p' = p\<lparr>shared_for_read := removeAll obj (shared_for_read p),
        pinned_memory_bytes := pinned_memory_bytes p - sz\<rparr>"
      by (auto simp: EndObjectAccess_def Let_def elim!: rbind_InrE)
    have "policy_inv p'"
      using assms(1) False by (auto simp: p' policy_inv_def)
    with False show ?thesis by (auto simp: p' evictable_def tracked_def)
  qed
  then show "policy_inv p'" and "evictable p' x \<longleftrightarrow> evictable p x \<or> x = obj"
    and "tracked p' x \<longleftrightarrow> tracked p x \<or> x = obj" by simp_all
qed

lemma ObjectCreated_spec:
  assumes "policy_inv p" and "size_ok objs" and "\<not> tracked p obj"
    and "ObjectCreated objs obj cl is_create p = Inr p'"
  shows "policy_inv p' \<and> (evictable p' x \<longleftrightarrow> evictable p x \<or> x = obj) \<and>
      (tracked p' x \<longleftrightarrow> tracked p x \<or> x = obj)"
proof (cases "HasQuota cl is_create p")
  case True
  with assms(4) obtain sz c c' where c: "GetObjectSize objs obj = Inr sz"
    "map_of (per_client_cache p) cl = Some c" "lru_Add obj sz c = Inr c'"
    "p' = p\<lparr>per_client_cache := AList.update cl c' (per_client_cache p),
            owned_by_client := AList.update obj cl (owned_by_client p)\<rparr>"
    by (auto simp: ObjectCreated_def with_client_cache_Inr elim!: rbind_InrE)
  have "0 \<le> sz" using assms(2) c(1) by (auto simp: size_ok_def)
  note k = lru_Add_keys [OF policy_invD(4) [OF assms(1) c(2)] this c(3)]
  have un: "map_of (owned_by_client p) obj = None" "obj \<notin> set (lru_keys (cache p))"
    using assms(3) by (auto simp: tracked_def)
  have ns: "obj \<notin> set (shared_for_read p)" using policy_invD(7) [OF assms(1)] un by blast
  have own: "map_of (owned_by_client p) y = Some cl \<longleftrightarrow> y \<in> set (lru_keys c)" for y
    using policy_invD(5) [OF assms(1)] c(2) by auto
  have "policy_inv (p\<lparr>per_client_cache := AList.update cl c' (per_client_cache p),
      owned_by_client := AList.update obj cl (owned_by_client p),
      shared_for_read := shared_for_read p\<rparr>)"
    by (rule policy_inv_client [OF assms(1) c(2) k(1)])
      (use k un own policy_invD(3,6,7) [OF assms(1)] in auto)
  then have "policy_inv p'" by (simp add: c(4))
  with un ns show ?thesis by (auto simp: c(4) evictable_def tracked_def)
next
  case False
  with assms(4) obtain c sz where c: "lru_Add obj sz (cache p) = Inr c"
    "GetObjectSize objs obj = Inr sz" "p' = p\<lparr>cache := c\<rparr>"
    by (auto simp: ObjectCreated_def ep_ObjectCreated_def elim!: rbind_InrE)
  have "0 \<le> sz" using assms(2) c(2) by (auto simp: size_ok_def)
  note k = lru_Add_keys [OF policy_invD(1) [OF assms(1)] this c(1)]
  have "policy_inv p'"
    unfolding c(3) using k assms(3) policy_invD(6) [OF assms(1)]
    by (intro policy_inv_global [OF assms(1)]) (auto simp: tracked_def)
  then show ?thesis by (auto simp: c(3) evictable_def tracked_def k(2))
qed

lemma ObjectCreated_total:
  assumes "policy_inv p" and "GetObjectTableEntry objs obj = Some e" and "\<not> tracked p obj"
  shows "\<exists>p'. ObjectCreated objs obj cl is_create p = Inr p'"
proof -
  obtain sz where sz: "GetObjectSize objs obj = Inr sz"
    using GetObjectSize_total [OF assms(2)] by blast
  obtain c where c: "lru_Add obj sz (cache p) = Inr c"
    using lru_Add_total [OF policy_invD(1) [OF assms(1)]] assms(3) by (auto simp: tracked_def)
  show ?thesis
  proof (cases "map_of (per_client_cache p) cl")
    case None
    with c sz show ?thesis by (simp add: ObjectCreated_def HasQuota_def ep_ObjectCreated_def)
  next
    case (Some d)
    then have "obj \<notin> set (lru_keys d)"
      using policy_invD(5) [OF assms(1), of obj cl] assms(3) by (auto simp: tracked_def)
    with lru_Add_total [OF policy_invD(4) [OF assms(1) Some]] obtain d' where "lru_Add obj sz d = Inr d'"
      by blast
    with Some c sz show ?thesis
      by (auto simp: ObjectCreated_def HasQuota_def ep_ObjectCreated_def with_client_cache_def)
  qed
qed


lemma RemoveObject_spec:
  assumes "policy_inv p"
  shows "\<exists>p'. RemoveObject obj p = Inr p' \<and> policy_inv p' \<and>
      (\<forall>x. (evictable p' x \<longleftrightarrow> evictable p x \<and> x \<noteq> obj) \<and> (tracked p' x \<longleftrightarrow> tracked p x \<and> x \<noteq> obj))"
proof (cases "map_of (owned_by_client p) obj")
  case None
  obtain c where c: "lru_drop obj (cache p) = Inr c"
    using lru_drop_total [OF policy_invD(1) [OF assms]] by blast
  note k = lru_drop_keys [OF policy_invD(1) [OF assms] c]
  have "policy_inv (p\<lparr>cache := c\<rparr>)"
    using k policy_invD(6) [OF assms] by (intro policy_inv_global [OF assms]) auto
  with None c show ?thesis
    by (auto simp: RemoveObject_def ep_RemoveObject_def evictable_def tracked_def k(2))
next
  case (Some cl)
  then obtain c where c: "map_of (per_client_cache p) cl = Some c" "obj \<in> set (lru_keys c)"
    using policy_invD(5) [OF assms] by auto
  then obtain sz c' where r: "lru_Remove obj c = Inr (sz, c')"
    using lru.remove_total [OF policy_invD(4) [OF assms c(1)]] by blast
  note k = lru_Remove_keys [OF policy_invD(4) [OF assms c(1)] r]
  let ?p' = "p\<lparr>per_client_cache := AList.update cl c' (per_client_cache p),
      owned_by_client := AList.delete obj (owned_by_client p),
      shared_for_read := removeAll obj (shared_for_read p)\<rparr>"
  have own: "y \<in> set (lru_keys c) \<longleftrightarrow> map_of (owned_by_client p) y = Some cl" for y
    using policy_invD(5) [OF assms] c(1) by auto
  have "policy_inv ?p'"
    by (rule policy_inv_client [OF assms c(1) k(1)])
      (use Some k own policy_invD(3,6,7) [OF assms] in auto)
  moreover have "RemoveObject obj p = Inr ?p'"
    using Some c(1) r by (simp add: RemoveObject_def with_client_cache_def)
  moreover have "obj \<notin> set (lru_keys (cache p))"
    using policy_invD(6) [OF assms, of obj] Some by auto
  ultimately show ?thesis by (auto simp: evictable_def tracked_def)
qed

lemma lru_refresh_list:
  assumes "lru_inv c"
  shows "\<exists>c'. rfold lru_refresh ids c = Inr c' \<and> lru_inv c' \<and> set (lru_keys c') = set (lru_keys c) \<and>
     capacity c' = capacity c \<and> original_capacity c' = original_capacity c"
  using assms
proof (induction ids arbitrary: c)
  case (Cons x ids)
  from lru_refresh_keys [OF Cons.prems, of x] obtain c1 where "lru_refresh x c = Inr c1" "lru_inv c1"
    "set (lru_keys c1) = set (lru_keys c)" "capacity c1 = capacity c"
    "original_capacity c1 = original_capacity c" by blast
  with Cons.IH [of c1] show ?case by auto
qed simp

lemma quota_refresh_spec:
  assumes "policy_inv p"
  shows "\<exists>p'. quota_refresh obj p = Inr p' \<and> policy_inv p' \<and> cache p' = cache p \<and>
     owned_by_client p' = owned_by_client p \<and> shared_for_read p' = shared_for_read p"
proof (cases "map_of (owned_by_client p) obj")
  case None
  with assms show ?thesis by (simp add: quota_refresh_def)
next
  case (Some cl)
  then obtain c where c: "map_of (per_client_cache p) cl = Some c" "obj \<in> set (lru_keys c)"
    using policy_invD(5) [OF assms] by auto
  note inv = policy_invD(4) [OF assms c(1)]
  from c(2) obtain n where n: "(obj, n) \<in> set (lru_items c)" by (auto simp: lru_keys_def)
  obtain m c1 where r: "lru_Remove obj c = Inr (m, c1)"
    using lru.remove_total [OF inv] by blast
  from lru.touch [OF inv n r] obtain c2 where a: "lru_Add obj m c1 = Inr c2" "m = n" by blast
  have m: "0 \<le> m" using lru.inv_nonneg [OF inv n] a(2) by simp
  note k1 = lru_Remove_keys [OF inv r]
  note k2 = lru_Add_keys [OF k1(1) m a(1)]
  let ?p' = "p\<lparr>per_client_cache := AList.update cl c2 (AList.update cl c1 (per_client_cache p))\<rparr>"
  let ?q = "p\<lparr>per_client_cache := AList.update cl c1 (per_client_cache p)\<rparr>"
  have own: "map_of (owned_by_client p) y = Some cl \<longleftrightarrow> y \<in> set (lru_keys c)" for y
    using policy_invD(5) [OF assms] c(1) by auto
  have "owners_ok (AList.update cl c2 (AList.update cl c1 (per_client_cache p))) (owned_by_client p)"
    using assms c own k1(2) k2(2) unfolding owners_ok_def policy_inv_def by auto
  moreover have "map (capacity \<circ> snd) (AList.update cl c2 (AList.update cl c1 (per_client_cache p))) =
      map (capacity \<circ> snd) (per_client_cache p)"
    using c(1) k1(3) k2(4)
    by (simp add: map_snd_update_same [where f = capacity and ?v0.0 = c1]
        map_snd_update_same [where f = capacity and ?v0.0 = c])
  ultimately have "policy_inv ?p'"
    using assms k2(1) by (auto simp: policy_inv_def)
  with Some c(1) r a(1) show ?thesis
    by (auto simp: quota_refresh_def with_client_cache_def)
qed

lemma RefreshObjects_spec:
  assumes "policy_inv p"
  shows "\<exists>p'. RefreshObjects ids p = Inr p' \<and> policy_inv p' \<and>
     (\<forall>x. (evictable p' x \<longleftrightarrow> evictable p x) \<and> (tracked p' x \<longleftrightarrow> tracked p x))"
proof -
  have "\<exists>q. rfold quota_refresh ids p = Inr q \<and> policy_inv q \<and> cache q = cache p \<and>
     owned_by_client q = owned_by_client p \<and> shared_for_read q = shared_for_read p"
    using assms
  proof (induction ids arbitrary: p)
    case (Cons x ids)
    from quota_refresh_spec [OF Cons.prems, of x] obtain q where
      "quota_refresh x p = Inr q" "policy_inv q" "cache q = cache p"
      "owned_by_client q = owned_by_client p" "shared_for_read q = shared_for_read p" by blast
    with Cons.IH [of q] show ?case by auto
  qed simp
  then obtain q where q: "rfold quota_refresh ids p = Inr q" "policy_inv q" "cache q = cache p"
    "owned_by_client q = owned_by_client p" "shared_for_read q = shared_for_read p" by blast
  from lru_refresh_list [OF policy_invD(1) [OF q(2)], of ids] obtain c where
    c: "rfold lru_refresh ids (cache q) = Inr c" "lru_inv c" "set (lru_keys c) = set (lru_keys (cache q))"
    "capacity c = capacity (cache q)" "original_capacity c = original_capacity (cache q)" by blast
  have "policy_inv (q\<lparr>cache := c\<rparr>)"
    using c policy_invD(6) [OF q(2)] by (intro policy_inv_global [OF q(2)]) auto
  with q c show ?thesis
    by (auto simp: RefreshObjects_def ep_RefreshObjects_def evictable_def tracked_def)
qed


section \<open>Victims\<close>

lemma filter_drop_keys:
  "lru_items c' = filter (\<lambda>p. fst p \<notin> set ks) (lru_items c) \<Longrightarrow>
     lru_keys c' = filter (\<lambda>k. k \<notin> set ks) (lru_keys c)"
  by (simp add: lru_keys_def filter_map comp_def)

lemma ep_ChooseObjectsToEvict_spec:
  assumes "policy_inv p"
  obtains k c where "k \<le> length (lru_items (cache p))"
    and "ep_ChooseObjectsToEvict required out p =
           Inr (sum_list (map snd (take k (rev (lru_items (cache p))))),
                out @ take k (rev (lru_keys (cache p))), p\<lparr>cache := c\<rparr>)"
    and "required \<le> sum_list (map snd (take k (rev (lru_items (cache p))))) \<or>
           k = length (lru_items (cache p))"
    and "\<And>j. j < k \<Longrightarrow> sum_list (map snd (take j (rev (lru_items (cache p))))) < required"
    and "policy_inv (p\<lparr>cache := c\<rparr>)"
    and "lru_keys c = filter (\<lambda>x. x \<notin> set (out @ take k (rev (lru_keys (cache p))))) (lru_keys (cache p))"
proof -
  note inv = policy_invD(1) [OF assms]
  obtain bytes out' c0 where c0: "lru_ChooseObjectsToEvict required out (cache p) = (bytes, out', c0)"
    by (rule prod_cases3)
  from lru_choose_spec [OF c0] obtain k where k: "k \<le> length (lru_items (cache p))"
    "out' = out @ take k (rev (lru_keys (cache p)))"
    "bytes = sum_list (map snd (take k (rev (lru_items (cache p)))))"
    "required \<le> bytes \<or> k = length (lru_items (cache p))"
    "\<And>j. j < k \<Longrightarrow> sum_list (map snd (take j (rev (lru_items (cache p))))) < required"
    "lru_items c0 = lru_items (cache p)" "lru_inv c0" "capacity c0 = capacity (cache p)"
    "original_capacity c0 = original_capacity (cache p)"
    using inv by metis
  from lru_drop_list [OF k(7), of out'] obtain c where c: "rfold lru_drop out' c0 = Inr c" "lru_inv c"
    "capacity c = capacity c0" "original_capacity c = original_capacity c0"
    "lru_items c = filter (\<lambda>p. fst p \<notin> set out') (lru_items c0)" by blast
  have keys: "lru_keys c = filter (\<lambda>x. x \<notin> set out') (lru_keys (cache p))"
    using filter_drop_keys [OF c(5)] k(6) by (simp add: lru_keys_def)
  have "policy_inv (p\<lparr>cache := c\<rparr>)"
    using c k keys policy_invD(6) [OF assms] by (intro policy_inv_global [OF assms]) auto
  with that [of k c] c0 k c(1) keys show ?thesis
    by (auto simp: ep_ChooseObjectsToEvict_def)
qed

lemma RequireSpace_spec:
  assumes "policy_inv p"
  obtains ok vs p' where "RequireSpace a sz out p = Inr (ok, out @ vs, p')" and "policy_inv p'"
    and "set vs \<subseteq> set (lru_keys (cache p))" and "distinct vs"
    and "ok \<Longrightarrow> vs \<noteq> []"
    and "\<And>x. evictable p' x \<longleftrightarrow> evictable p x \<and> \<not> (x \<in> set (out @ vs) \<and> x \<in> set (lru_keys (cache p)))"
    and "\<And>x. tracked p' x \<longleftrightarrow> tracked p x \<and> \<not> (x \<in> set (out @ vs) \<and> x \<in> set (lru_keys (cache p)))"
    and "owned_by_client p' = owned_by_client p" and "shared_for_read p' = shared_for_read p"
    and "lru_keys (cache p') = filter (\<lambda>x. x \<notin> set (out @ vs)) (lru_keys (cache p))"
proof -
  let ?req = "ssub64 (sadd64 (Allocated a) sz) (GetFootprintLimit a)"
  obtain k c where k: "ep_ChooseObjectsToEvict (max ?req (cdiv (GetFootprintLimit a) 5)) out p =
           Inr (sum_list (map snd (take k (rev (lru_items (cache p))))),
                out @ take k (rev (lru_keys (cache p))), p\<lparr>cache := c\<rparr>)"
    "policy_inv (p\<lparr>cache := c\<rparr>)"
    "lru_keys c = filter (\<lambda>x. x \<notin> set (out @ take k (rev (lru_keys (cache p))))) (lru_keys (cache p))"
    using ep_ChooseObjectsToEvict_spec [OF assms] by metis
  let ?vs = "take k (rev (lru_keys (cache p)))"
  have "distinct (lru_keys (cache p))" using policy_invD(1) [OF assms] by (simp add: lru_inv_def)
  then have d: "distinct ?vs" by simp
  have sub: "set ?vs \<subseteq> set (lru_keys (cache p))" using set_take_subset by fastforce
  have own: "map_of (owned_by_client p) x = None" if "x \<in> set (lru_keys (cache p))" for x
    using policy_invD(6) [OF assms that] .
  have ne: "?vs \<noteq> []" if "0 < sum_list (map snd (take k (rev (lru_items (cache p)))))"
    using that by (cases "k = 0") (auto simp: lru_keys_def)
  show ?thesis
    by (rule that [of "?req \<le> sum_list (map snd (take k (rev (lru_items (cache p))))) \<and>
            0 < sum_list (map snd (take k (rev (lru_items (cache p)))))" ?vs "p\<lparr>cache := c\<rparr>"])
      (use k sub d own ne in \<open>auto simp: RequireSpace_def Let_def evictable_def tracked_def\<close>)
qed


lemma quota_evict_one_spec:
  assumes "policy_inv p" and "map_of (owned_by_client p) obj = Some cl"
  shows "\<exists>p'. quota_evict_one cl obj (out, p) =
       Inr (if obj \<in> set (shared_for_read p) then out else out @ [obj], p') \<and> policy_inv p' \<and>
     cache p' = cache p \<and> owned_by_client p' = AList.delete obj (owned_by_client p) \<and>
     set (shared_for_read p') = set (shared_for_read p) - {obj} \<and>
     (\<forall>c. map_of (per_client_cache p) cl = Some c \<longrightarrow>
        (\<exists>c'. map_of (per_client_cache p') cl = Some c' \<and> capacity c' = capacity c \<and>
              lru_items c' = filter (\<lambda>q. fst q \<noteq> obj) (lru_items c)))"
proof -
  obtain c where c: "map_of (per_client_cache p) cl = Some c" "obj \<in> set (lru_keys c)"
    using policy_invD(5) [OF assms(1)] assms(2) by auto
  obtain sz c' where r: "lru_Remove obj c = Inr (sz, c')"
    using lru.remove_total [OF policy_invD(4) [OF assms(1) c(1)]] by blast
  note k = lru_Remove_keys [OF policy_invD(4) [OF assms(1) c(1)] r]
  have own: "y \<in> set (lru_keys c) \<longleftrightarrow> map_of (owned_by_client p) y = Some cl" for y
    using policy_invD(5) [OF assms(1)] c(1) by auto
  have P: "policy_inv (p\<lparr>per_client_cache := AList.update cl c' (per_client_cache p),
      owned_by_client := AList.delete obj (owned_by_client p),
      shared_for_read := removeAll obj (shared_for_read p)\<rparr>)"
    by (rule policy_inv_client [OF assms(1) c(1) k(1)])
      (use assms(2) k own policy_invD(3,6,7) [OF assms(1)] in auto)
  have "p\<lparr>shared_for_read := sh, owned_by_client := ow, per_client_cache := pc\<rparr> =
      p\<lparr>per_client_cache := pc, owned_by_client := ow, shared_for_read := sh\<rparr>" for pc ow sh
    by (cases p) simp
  note P = P [folded this]
  show ?thesis
  proof (cases "obj \<in> set (shared_for_read p)")
    case True
    with P c(1) r k(3,6) show ?thesis by (simp add: quota_evict_one_def with_client_cache_def Let_def)
  next
    case False
    with P c(1) r k(3,6) show ?thesis
      by (simp add: quota_evict_one_def with_client_cache_def Let_def removeAll_id)
  qed
qed

lemma quota_evict_list:
  assumes "policy_inv p" and "distinct ks" and "\<And>k. k \<in> set ks \<Longrightarrow> map_of (owned_by_client p) k = Some cl"
    and "map_of (per_client_cache p) cl = Some c"
  shows "\<exists>p' c'. rfold (quota_evict_one cl) ks (out, p) =
       Inr (out @ filter (\<lambda>k. k \<notin> set (shared_for_read p)) ks, p') \<and> policy_inv p' \<and>
     cache p' = cache p \<and>
     map_of (owned_by_client p') = map_of (owned_by_client p) |` (- set ks) \<and>
     set (shared_for_read p') = set (shared_for_read p) - set ks \<and>
     map_of (per_client_cache p') cl = Some c' \<and> capacity c' = capacity c \<and>
     lru_items c' = filter (\<lambda>q. fst q \<notin> set ks) (lru_items c)"
  using assms
proof (induction ks arbitrary: out p c)
  case (Cons k ks)
  let ?out = "if k \<in> set (shared_for_read p) then out else out @ [k]"
  from quota_evict_one_spec [OF Cons.prems(1), of k cl out] Cons.prems(3,4)
  obtain p1 c1 where p1: "quota_evict_one cl k (out, p) = Inr (?out, p1)" "policy_inv p1"
     "cache p1 = cache p" "owned_by_client p1 = AList.delete k (owned_by_client p)"
     "set (shared_for_read p1) = set (shared_for_read p) - {k}"
     "map_of (per_client_cache p1) cl = Some c1" "capacity c1 = capacity c"
     "lru_items c1 = filter (\<lambda>q. fst q \<noteq> k) (lru_items c)" by auto
  have own: "map_of (owned_by_client p1) x = Some cl" if "x \<in> set ks" for x
    using Cons.prems(2,3) that by (auto simp: p1(4))
  have d: "distinct ks" using Cons.prems(2) by simp
  have IH: "\<exists>p' c'. rfold (quota_evict_one cl) ks (?out, p1) =
       Inr (?out @ filter (\<lambda>k. k \<notin> set (shared_for_read p1)) ks, p') \<and> policy_inv p' \<and>
     cache p' = cache p1 \<and>
     map_of (owned_by_client p') = map_of (owned_by_client p1) |` (- set ks) \<and>
     set (shared_for_read p') = set (shared_for_read p1) - set ks \<and>
     map_of (per_client_cache p') cl = Some c' \<and> capacity c' = capacity c1 \<and>
     lru_items c' = filter (\<lambda>q. fst q \<notin> set ks) (lru_items c1)"
    by (rule Cons.IH [OF p1(2) d own p1(6)])
  then obtain p' c' where p': "rfold (quota_evict_one cl) ks (?out, p1) =
       Inr (?out @ filter (\<lambda>k. k \<notin> set (shared_for_read p1)) ks, p')" "policy_inv p'" "cache p' = cache p1"
     "map_of (owned_by_client p') = map_of (owned_by_client p1) |` (- set ks)"
     "set (shared_for_read p') = set (shared_for_read p1) - set ks"
     "map_of (per_client_cache p') cl = Some c'" "capacity c' = capacity c1"
     "lru_items c' = filter (\<lambda>q. fst q \<notin> set ks) (lru_items c1)"
    by (elim exE conjE) (rule that)
  have "filter (\<lambda>k. k \<notin> set (shared_for_read p1)) ks = filter (\<lambda>k. k \<notin> set (shared_for_read p)) ks"
    using Cons.prems(2) by (intro filter_cong) (auto simp: p1(5))
  with p1 p' show ?case by (auto simp: fun_eq_iff restrict_map_def intro: filter_cong)
qed (simp add: restrict_map_def)

lemma filter_not_taken:
  "distinct (map fst ys) \<Longrightarrow> filter (\<lambda>p. fst p \<notin> set (take k (map fst ys))) ys = drop k ys"
proof (induction ys arbitrary: k)
  case (Cons y ys)
  show ?case
  proof (cases k)
    case (Suc j)
    have "filter (\<lambda>p. fst p \<notin> set (take k (map fst (y # ys)))) ys =
        filter (\<lambda>p. fst p \<notin> set (take j (map fst ys))) ys"
      using Cons.prems by (intro filter_cong) (auto simp: Suc image_iff)
    with Cons Suc show ?thesis by simp
  qed (simp add: filter_id_conv)
qed simp

text \<open>Taking the \<open>k\<close> least recently used objects out frees exactly their bytes.\<close>

lemma used_after_victims:
  assumes "lru_inv c" and "lru_inv c'"
    and "lru_items c' = filter (\<lambda>q. fst q \<notin> set (take k (rev (lru_keys c)))) (lru_items c)"
  shows "used_capacity c' = used_capacity c - sum_list (map snd (take k (rev (lru_items c))))"
proof -
  have "rev (lru_items c') = drop k (rev (lru_items c))"
    using filter_not_taken [of "rev (lru_items c)" k] lru.inv_distinct [OF assms(1)] assms(3)
    by (simp add: rev_filter [symmetric] rev_map [symmetric] lru_keys_def)
  then have "sum_list (map snd (lru_items c')) = sum_list (map snd (drop k (rev (lru_items c))))"
    by (metis rev_map sum_list_rev)
  moreover have "sum_list (map snd (lru_items c)) = sum_list (map snd (take k (rev (lru_items c))))
      + sum_list (map snd (drop k (rev (lru_items c))))"
    by (metis append_take_drop_id map_append rev_map sum_list_append sum_list_rev)
  ultimately show ?thesis using assms(1,2) by (simp add: lru_inv_def)
qed

text \<open>The branch of \<open>EnforcePerClientQuota\<close> that has to evict, for a client with cache \<open>c\<close>.\<close>

lemma quota_eviction:
  assumes "policy_inv p" and c: "map_of (per_client_cache p) cl = Some c"
    and need: "ssub64 sz (lru_RemainingCapacity c) = need"
  obtains ks c0 p' c1 bytes where "lru_ChooseObjectsToEvict need [] c = (bytes, ks, c0)"
    and "rfold (quota_evict_one cl) ks (out, p\<lparr>per_client_cache := AList.update cl c0 (per_client_cache p)\<rparr>) =
         Inr (out @ filter (\<lambda>k. k \<notin> set (shared_for_read p)) ks, p')"
    and "policy_inv p'" and "cache p' = cache p" and "distinct ks"
    and "map_of (owned_by_client p') = map_of (owned_by_client p) |` (- set ks)"
    and "set (shared_for_read p') = set (shared_for_read p) - set ks"
    and "\<And>y. y \<in> set ks \<Longrightarrow> map_of (owned_by_client p) y = Some cl"
    and "map_of (per_client_cache p') cl = Some c1"
    and "sz \<le> capacity c \<Longrightarrow> in_int64 (sz - lru_RemainingCapacity c) \<Longrightarrow> sz \<le> lru_RemainingCapacity c1"
proof -
  obtain bytes ks c0 where c0: "lru_ChooseObjectsToEvict need [] c = (bytes, ks, c0)"
    by (rule prod_cases3)
  obtain k where k: "ks = take k (rev (lru_keys c))"
    "lru_items c0 = lru_items c" "lru_inv c0 = lru_inv c" "capacity c0 = capacity c"
    "bytes = sum_list (map snd (take k (rev (lru_items c))))" "need \<le> bytes \<or> k = length (lru_items c)"
    by (rule lru_choose_spec [OF c0], rule that) simp_all
  have inv: "lru_inv c" using policy_invD(4) [OF assms(1) c] .
  have keys: "lru_keys c0 = lru_keys c" by (simp add: lru_keys_def k(2))
  let ?p = "p\<lparr>per_client_cache := AList.update cl c0 (per_client_cache p)\<rparr>"
  have own: "y \<in> set (lru_keys c) \<longleftrightarrow> map_of (owned_by_client p) y = Some cl" for y
    using policy_invD(5) [OF assms(1)] c by auto
  have "policy_inv (p\<lparr>per_client_cache := AList.update cl c0 (per_client_cache p),
      owned_by_client := owned_by_client p, shared_for_read := shared_for_read p\<rparr>)"
    by (rule policy_inv_client [OF assms(1) c]) (use k inv keys own policy_invD(3,6,7) [OF assms(1)] in auto)
  then have P: "policy_inv ?p" by simp
  have d: "distinct ks" using inv by (simp add: k(1) lru_inv_def)
  have kso: "map_of (owned_by_client p) y = Some cl" if "y \<in> set ks" for y
    using that own set_take_subset [of k "rev (lru_keys c)"] by (auto simp: k(1))
  then have "map_of (owned_by_client ?p) y = Some cl" if "y \<in> set ks" for y using that by simp
  from quota_evict_list [OF P d this, of c0 out] obtain p' c1 where
    p': "rfold (quota_evict_one cl) ks (out, ?p) =
       Inr (out @ filter (\<lambda>k. k \<notin> set (shared_for_read p)) ks, p')" "policy_inv p'" "cache p' = cache p"
     "map_of (owned_by_client p') = map_of (owned_by_client p) |` (- set ks)"
     "set (shared_for_read p') = set (shared_for_read p) - set ks"
     "map_of (per_client_cache p') cl = Some c1" "capacity c1 = capacity c"
     "lru_items c1 = filter (\<lambda>q. fst q \<notin> set ks) (lru_items c)"
    by (auto simp: k(2,4))
  have used: "used_capacity c1 = used_capacity c - bytes"
    using used_after_victims [OF inv policy_invD(4) [OF p'(2,6)]] p'(8) k(1,5) by simp
  have "bytes = used_capacity c" if "k = length (lru_items c)"
    using that inv k(5) by (simp add: lru_inv_def rev_map [symmetric] sum_list_rev)
  then have "sz \<le> lru_RemainingCapacity c1" if "sz \<le> capacity c" "in_int64 (sz - lru_RemainingCapacity c)"
    using k(6) need that used p'(7) by (auto simp: ssub64_id lru_RemainingCapacity_def)
  with c0 p' d kso that show thesis by blast
qed

lemma EnforcePerClientQuota_spec:
  assumes "policy_inv p"
  obtains ok vs p' where "EnforcePerClientQuota cl sz is_create out p = Inr (ok, out @ vs, p')"
    and "policy_inv p'" and "cache p' = cache p" and "distinct vs"
    and "\<And>v. v \<in> set vs \<Longrightarrow> map_of (owned_by_client p) v = Some cl \<and> v \<notin> set (shared_for_read p)"
    and "\<And>x. evictable p' x \<longleftrightarrow> evictable p x \<and> x \<notin> set vs"
    and "\<And>x. tracked p' x \<Longrightarrow> tracked p x \<and> x \<notin> set vs"
    and "ok \<longleftrightarrow> (HasQuota cl is_create p \<longrightarrow>
           (\<exists>c. map_of (per_client_cache p) cl = Some c \<and> sz \<le> capacity c))"
    and "ok \<and> HasQuota cl is_create p \<and>
           (\<forall>c. map_of (per_client_cache p) cl = Some c \<longrightarrow> in_int64 (sz - lru_RemainingCapacity c)) \<longrightarrow>
           (\<exists>c'. map_of (per_client_cache p') cl = Some c' \<and> sz \<le> lru_RemainingCapacity c')"
proof (cases "HasQuota cl is_create p")
  case False
  then have "EnforcePerClientQuota cl sz is_create out p = Inr (True, out @ [], p)"
    by (simp add: EnforcePerClientQuota_def)
  then show ?thesis
    by (rule that) (use assms False in auto)
next
  case True
  then obtain c where c: "map_of (per_client_cache p) cl = Some c"
    by (auto simp: HasQuota_def split: if_splits)
  let ?need = "ssub64 sz (lru_RemainingCapacity c)"
  show ?thesis
  proof (cases "capacity c < sz \<or> sz \<le> lru_RemainingCapacity c \<or> \<not> 0 < ?need")
    case True
    with \<open>HasQuota cl is_create p\<close> c
    have "EnforcePerClientQuota cl sz is_create out p = Inr (sz \<le> capacity c, out @ [], p)"
      using lru_used_nonneg [OF policy_invD(4) [OF assms c]]
      by (auto simp: EnforcePerClientQuota_def lru_Capacity_def lru_RemainingCapacity_def Let_def)
    then show ?thesis
      by (rule that)
        (use assms c True \<open>HasQuota cl is_create p\<close> in \<open>auto simp: ssub64_id\<close>)
  next
    case False
    obtain ks c0 p' c1 bytes where c0: "lru_ChooseObjectsToEvict ?need [] c = (bytes, ks, c0)"
      and p': "rfold (quota_evict_one cl) ks (out, p\<lparr>per_client_cache := AList.update cl c0 (per_client_cache p)\<rparr>) =
         Inr (out @ filter (\<lambda>k. k \<notin> set (shared_for_read p)) ks, p')" "policy_inv p'" "cache p' = cache p"
       "map_of (owned_by_client p') = map_of (owned_by_client p) |` (- set ks)"
       "set (shared_for_read p') = set (shared_for_read p) - set ks" "map_of (per_client_cache p') cl = Some c1"
      and d: "distinct ks" and kso: "\<And>y. y \<in> set ks \<Longrightarrow> map_of (owned_by_client p) y = Some cl"
      and room: "sz \<le> capacity c \<Longrightarrow> in_int64 (sz - lru_RemainingCapacity c) \<Longrightarrow> sz \<le> lru_RemainingCapacity c1"
      by (rule quota_eviction [OF assms c refl]) (rule that)
    have nog: "y \<notin> set (lru_keys (cache p))" if "y \<in> set ks" for y
      using policy_invD(6) [OF assms, of y] kso [OF that] by auto
    have "EnforcePerClientQuota cl sz is_create out p =
        Inr (True, out @ filter (\<lambda>k. k \<notin> set (shared_for_read p)) ks, p')"
      using \<open>HasQuota cl is_create p\<close> False c c0 p'(1)
      by (simp add: EnforcePerClientQuota_def lru_Capacity_def Let_def)
    then show ?thesis
      by (rule that [of True "filter (\<lambda>k. k \<notin> set (shared_for_read p)) ks" p'])
        (use d p' c False kso nog room in \<open>auto simp: evictable_def tracked_def restrict_map_def split: if_splits\<close>)
  qed
qed


section \<open>Disconnection\<close>

text \<open>
  The loop of \<open>ClientDisconnected\<close> pushes the unshared objects of the client onto the front of
  the global cache one by one, so that they end up there in reverse order.
\<close>

lemma disown_step:
  assumes "lru_inv (cache p)" and "size_ok objs" and "disown objs k p = Inr p'"
  shows "\<exists>c. p' = p\<lparr>cache := c, owned_by_client := AList.delete k (owned_by_client p),
      shared_for_read := removeAll k (shared_for_read p)\<rparr> \<and>
    lru_inv c \<and> capacity c = capacity (cache p) \<and> original_capacity c = original_capacity (cache p) \<and>
    lru_keys c = (if k \<notin> set (shared_for_read p) then [k] else []) @ lru_keys (cache p)"
proof (cases "k \<in> set (shared_for_read p)")
  case True
  with assms show ?thesis by (intro exI [of _ "cache p"]) (auto simp: disown_def elim!: rbind_InrE)
next
  case False
  with assms(3) obtain sz c where "GetObjectSize objs k = Inr sz" "lru_Add k sz (cache p) = Inr c"
    "p' = p\<lparr>cache := c, owned_by_client := AList.delete k (owned_by_client p), shared_for_read := removeAll k (shared_for_read p)\<rparr>"
    by (auto simp: disown_def elim!: rbind_InrE)
  with assms(1,2) False lru_Add_keys [of "cache p" sz k c] show ?thesis by (auto simp: size_ok_def)
qed

lemma disown_list:
  assumes "lru_inv (cache p)" and "size_ok objs" and "distinct ks"
    and "rfold (disown objs) ks p = Inr p'"
  shows "lru_inv (cache p')"
    and "lru_keys (cache p') = rev (filter (\<lambda>k. k \<notin> set (shared_for_read p)) ks) @ lru_keys (cache p)"
    and "capacity (cache p') = capacity (cache p)"
    and "original_capacity (cache p') = original_capacity (cache p)"
    and "map_of (owned_by_client p') = map_of (owned_by_client p) |` (- set ks)"
    and "set (shared_for_read p') = set (shared_for_read p) - set ks"
    and "per_client_cache p' = per_client_cache p"
    and "alist_ok (owned_by_client p) \<Longrightarrow> alist_ok (owned_by_client p')"
proof -
  have "lru_inv (cache p') \<and>
    lru_keys (cache p') = rev (filter (\<lambda>k. k \<notin> set (shared_for_read p)) ks) @ lru_keys (cache p) \<and>
    capacity (cache p') = capacity (cache p) \<and>
    original_capacity (cache p') = original_capacity (cache p) \<and>
    map_of (owned_by_client p') = map_of (owned_by_client p) |` (- set ks) \<and>
    set (shared_for_read p') = set (shared_for_read p) - set ks \<and>
    per_client_cache p' = per_client_cache p \<and>
    (alist_ok (owned_by_client p) \<longrightarrow> alist_ok (owned_by_client p'))"
    using assms
  proof (induction ks arbitrary: p)
    case (Cons k ks)
    from Cons.prems(4) obtain p1 where s: "disown objs k p = Inr p1" "rfold (disown objs) ks p1 = Inr p'"
      by (auto elim: rbind_InrE)
    from disown_step [OF Cons.prems(1,2) s(1)] obtain c where c: "p1 = p\<lparr>cache := c,
        owned_by_client := AList.delete k (owned_by_client p), shared_for_read := removeAll k (shared_for_read p)\<rparr>"
      and k: "lru_inv c \<and> capacity c = capacity (cache p) \<and> original_capacity c = original_capacity (cache p) \<and>
        lru_keys c = (if k \<notin> set (shared_for_read p) then [k] else []) @ lru_keys (cache p)"
      by blast
    have sh: "filter (\<lambda>x. x \<notin> set (shared_for_read p1)) ks = filter (\<lambda>x. x \<notin> set (shared_for_read p)) ks"
      using Cons.prems(3) by (intro filter_cong) (auto simp: c)
    have inv1: "lru_inv (cache p1)" using k by (simp add: c)
    have d: "distinct ks" using Cons.prems(3) by simp
    from Cons.IH [OF inv1 Cons.prems(2) d s(2), unfolded sh] k Cons.prems(3) show ?case
      by (simp add: c) (auto simp: fun_eq_iff restrict_map_def)
  qed (simp add: restrict_map_def)
  then show "lru_inv (cache p')"
    and "lru_keys (cache p') = rev (filter (\<lambda>k. k \<notin> set (shared_for_read p)) ks) @ lru_keys (cache p)"
    and "capacity (cache p') = capacity (cache p)"
    and "original_capacity (cache p') = original_capacity (cache p)"
    and "map_of (owned_by_client p') = map_of (owned_by_client p) |` (- set ks)"
    and "set (shared_for_read p') = set (shared_for_read p) - set ks"
    and "per_client_cache p' = per_client_cache p"
    and "alist_ok (owned_by_client p) \<Longrightarrow> alist_ok (owned_by_client p')"
    by blast+
qed

lemma lru_Foreach_keys: "lru_Foreach f c s = rfold f (lru_keys c) s"
proof -
  have "rfold (\<lambda>(n, key, sz). f key) xs s = rfold f (map fst (map snd xs)) s" for xs s
    by (induction xs arbitrary: s) (auto intro: rbind_cong)
  then show ?thesis by (simp add: lru_Foreach_def lru_keys_def lru_items_def)
qed

lemma ClientDisconnected_spec:
  assumes inv: "policy_inv p" and sz: "size_ok objs" and ret: "ClientDisconnected objs cl p = Inr p'"
  shows "policy_inv p'" and "evictable p' x \<longleftrightarrow> evictable p x" and "tracked p' x \<Longrightarrow> tracked p x"
    and "map_of (per_client_cache p') cl = None"
    and "map_of (per_client_cache p) cl = Some c \<Longrightarrow> lru_keys (cache p') =
           rev (filter (\<lambda>k. k \<notin> set (shared_for_read p)) (lru_keys c)) @ lru_keys (cache p)"
proof -
  have "policy_inv p' \<and> (evictable p' x \<longleftrightarrow> evictable p x) \<and> (tracked p' x \<longrightarrow> tracked p x) \<and>
    map_of (per_client_cache p') cl = None \<and>
    (\<forall>c. map_of (per_client_cache p) cl = Some c \<longrightarrow> lru_keys (cache p') =
           rev (filter (\<lambda>k. k \<notin> set (shared_for_read p)) (lru_keys c)) @ lru_keys (cache p))"
  proof (cases "map_of (per_client_cache p) cl")
    case None
    with assms show ?thesis by (simp add: ClientDisconnected_def)
  next
    case (Some c)
    let ?p = "p\<lparr>cache := (cache p)\<lparr>capacity := capacity (cache p) + capacity c\<rparr>\<rparr>"
    from ret Some obtain p1 where p1: "rfold (disown objs) (lru_keys c) ?p = Inr p1"
      "p' = p1\<lparr>per_client_cache := AList.delete cl (per_client_cache p1)\<rparr>"
      by (auto simp: ClientDisconnected_def lru_AdjustCapacity_def lru_Capacity_def lru_Foreach_keys
          rbind_check_eq_Inr elim!: rbind_InrE)
    have linv: "lru_inv (cache ?p)" using policy_invD(1) [OF inv] by (simp add: lru_inv_def lru_keys_def lru_items_def)
    have d: "distinct (lru_keys c)" using policy_invD(4) [OF inv Some] by (simp add: lru_inv_def)
    have keys: "lru_keys (cache ?p) = lru_keys (cache p)" by (simp add: lru_keys_def lru_items_def)
    note L = disown_list [OF linv sz d p1(1), unfolded keys, simplified]
    have own: "y \<in> set (lru_keys c) \<longleftrightarrow> map_of (owned_by_client p) y = Some cl" for y
      using policy_invD(5) [OF inv] Some by auto
    have "owners_ok (per_client_cache p') (owned_by_client p')"
      by (auto simp: owners_ok_def p1(2) L own restrict_map_def policy_invD(5) [OF inv, symmetric])
    moreover have "capacity (cache p') + sum_list (map (capacity \<circ> snd) (per_client_cache p')) =
        original_capacity (cache p')"
      using policy_invD(8) [OF inv] sum_snd_delete [OF policy_invD(2) [OF inv] Some, of capacity]
      by (simp add: p1(2) L(3,4,7))
    ultimately have "policy_inv p'"
      using L policy_invD(2-4,6,7) [OF inv] own
      by (auto simp: policy_inv_def p1(2) restrict_map_def split: if_splits)
    moreover have "evictable p' x \<longleftrightarrow> evictable p x" "tracked p' x \<Longrightarrow> tracked p x"
      using policy_invD(6) [OF inv, of x] own by (auto simp: evictable_def tracked_def p1(2) L restrict_map_def)
    ultimately show ?thesis using Some L(2,7) by (simp add: p1(2))
  qed
  then show "policy_inv p'" and "evictable p' x \<longleftrightarrow> evictable p x" and "tracked p' x \<Longrightarrow> tracked p x"
    and "map_of (per_client_cache p') cl = None"
    and "map_of (per_client_cache p) cl = Some c \<Longrightarrow> lru_keys (cache p') =
           rev (filter (\<lambda>k. k \<notin> set (shared_for_read p)) (lru_keys c)) @ lru_keys (cache p)"
    by blast+
qed


section \<open>Quotas\<close>

lemma bit_length_bounds: "0 < n \<Longrightarrow> 2 ^ (bit_length n - 1) \<le> n \<and> n < 2 ^ bit_length n \<and> 0 < bit_length n"
proof (induction n rule: bit_length.induct)
  case (1 n)
  show ?case
  proof (cases "n = 1")
    case True
    then show ?thesis by (simp add: bit_length.simps [of "Suc 0"] bit_length.simps [of 0])
  next
    case False
    with 1 have IH: "2 ^ (bit_length (n div 2) - 1) \<le> n div 2" "n div 2 < 2 ^ bit_length (n div 2)"
      "0 < bit_length (n div 2)" by (auto simp: div_greater_zero_iff)
    obtain b where b: "bit_length (n div 2) = Suc b" using IH(3) gr0_implies_Suc by blast
    have "bit_length n = Suc (Suc b)" using 1(2) b by (simp add: bit_length.simps [of n])
    with IH(1,2) b show ?thesis by (simp add: less_mult_imp_div_less) linarith
  qed
qed

text \<open>Rounding down loses at most one part in \<open>2^53\<close>.\<close>

lemma rne53_nat_lower: "n * (2 ^ 53 - 1) \<le> rne53_nat n * 2 ^ 53"
proof (cases "n < 2 ^ 53")
  case True
  then show ?thesis by (simp add: rne53_nat_def)
next
  case False
  define k where "k = bit_length n - 53"
  define q where "q = n div 2 ^ k"
  define r where "r = n mod 2 ^ k"
  have n: "2 ^ (bit_length n - 1) \<le> n" "n < 2 ^ bit_length n"
    using bit_length_bounds [of n] False by auto
  have "53 < bit_length n"
  proof (rule ccontr)
    assume "\<not> 53 < bit_length n"
    then have "(2 :: nat) ^ bit_length n \<le> 2 ^ 53" by (intro power_increasing) auto
    with n(2) False show False by linarith
  qed
  then have k: "bit_length n - 1 = 52 + k" "0 < k" by (auto simp: k_def)
  then obtain j where j: "k = Suc j" using gr0_implies_Suc by blast
  have low: "2 ^ 53 * 2 ^ j \<le> n" using n(1) k(1) j by (simp add: power_add)
  have nqr: "n = q * 2 ^ k + r" unfolding q_def r_def by (rule div_mult_mod_eq [symmetric])
  have val: "rne53_nat n = (if 2 ^ (k - 1) < r \<or> (r = 2 ^ (k - 1) \<and> odd q) then q + 1 else q) * 2 ^ k"
    unfolding rne53_nat_def Let_def k_def q_def r_def using False by simp
  have "r < 2 ^ k" by (simp add: r_def)
  then have "n \<le> rne53_nat n + 2 ^ j"
    unfolding val using nqr by (auto simp: j)
  then have "n * 2 ^ 53 \<le> rne53_nat n * 2 ^ 53 + 2 ^ j * 2 ^ 53"
    by (metis add_mult_distrib mult_le_mono1)
  with low show ?thesis by (simp add: algebra_simps)
qed

lemma rne53_exact: "\<bar>x\<bar> < 2 ^ 53 \<Longrightarrow> rne53 x = x"
  by (cases "0 \<le> x") (auto simp: rne53_def rne53_nat_def sgn_if nat_less_iff)

text \<open>The floating-point test accepts a quota only if three tenths of the store stay shared.\<close>

lemma not_below_reserve:
  assumes "\<not> below_reserve rem orig" and "0 \<le> orig" and "orig \<le> 2 ^ 50" and "\<bar>rem\<bar> < 2 ^ 53"
  shows "3 * orig \<le> 10 * rem"
proof -
  let ?P = "orig * 5404319552844595"
  have o: "rne53 orig = orig" using assms(2,3) by (intro rne53_exact) auto
  have r: "rne53 rem = rem" using assms(4) by (rule rne53_exact)
  have ge: "rne53 ?P \<le> rem * 2 ^ 54" using assms(1) by (simp add: below_reserve_def o r)
  have "int (nat ?P * (2 ^ 53 - 1)) \<le> int (rne53_nat (nat ?P) * 2 ^ 53)"
    unfolding of_nat_le_iff by (rule rne53_nat_lower)
  then have low: "?P * (2 ^ 53 - 1) \<le> rne53 ?P * 2 ^ 53"
    using assms(2) by (auto simp: rne53_def sgn_if)
  show ?thesis using ge low assms(2,3) by simp
qed

lemma SetClientQuota_spec:
  assumes inv: "policy_inv p" and ret: "SetClientQuota cl name q p = Inr (ok, p')"
  shows "policy_inv p'" and "evictable p' x \<longleftrightarrow> evictable p x" and "tracked p' x \<longleftrightarrow> tracked p x"
    and "original_capacity (cache p') = original_capacity (cache p)"
proof -
  have "policy_inv p' \<and> (evictable p' x \<longleftrightarrow> evictable p x) \<and> (tracked p' x \<longleftrightarrow> tracked p x) \<and>
    original_capacity (cache p') = original_capacity (cache p)"
  proof (cases "p' = p")
    case False
    let ?c = "(cache p)\<lparr>capacity := capacity (cache p) - q\<rparr>"
    from ret False have none: "map_of (per_client_cache p) cl = None"
      and p': "p' = p\<lparr>cache := ?c, per_client_cache :=
                 AList.update cl (new_LRUCache name q) (per_client_cache p)\<rparr>"
      by (auto simp: SetClientQuota_def lru_AdjustCapacity_def check_def rbind_assoc split: if_splits)
    have keys: "lru_keys ?c = lru_keys (cache p)" "lru_inv ?c = lru_inv (cache p)"
      by (simp_all add: lru_keys_def lru_items_def lru_inv_def)
    have "owners_ok (AList.update cl (new_LRUCache name q) (per_client_cache p)) (owned_by_client p)"
      using none policy_invD(5) [OF inv, of _ cl] unfolding owners_ok_def
      by (auto simp: policy_invD(5) [OF inv] lru_keys_def)
    moreover have "capacity (new_LRUCache name q) = q" by (simp add: new_LRUCache_def)
    ultimately have "policy_inv p'"
      using policy_invD(1-4,6-8) [OF inv] keys lru_inv_new sum_snd_update_new [OF none, of capacity "new_LRUCache name q"]
      by (auto simp: policy_inv_def p' split: if_splits)
    then show ?thesis using keys by (simp add: p' evictable_def tracked_def)
  qed (use inv in simp)
  then show "policy_inv p'" and "evictable p' x \<longleftrightarrow> evictable p x" and "tracked p' x \<longleftrightarrow> tracked p x"
    and "original_capacity (cache p') = original_capacity (cache p)"
    by simp_all
qed


section \<open>The policy as an interface\<close>

text \<open>
  What the store relies on: a set of objects that may be evicted, which shrinks when an object
  is accessed or removed and grows when its last access ends. \<open>ok objs\<close> says that the sizes in
  the object table are sound.
\<close>

locale access_policy =
  fixes inv :: "'p \<Rightarrow> bool"
    and ok :: "'t \<Rightarrow> bool"
    and candidate :: "'p \<Rightarrow> 'k \<Rightarrow> bool"
    and present :: "'t \<Rightarrow> 'k \<Rightarrow> bool"
    and begin_access :: "'t \<Rightarrow> 'k \<Rightarrow> 'p \<Rightarrow> 'p res"
    and end_access :: "'t \<Rightarrow> 'k \<Rightarrow> 'p \<Rightarrow> 'p res"
  assumes begin_ok: "inv p \<Longrightarrow> begin_access t k p = Inr p' \<Longrightarrow>
            inv p' \<and> (\<forall>x. candidate p' x \<longleftrightarrow> candidate p x \<and> x \<noteq> k)"
    and begin_total: "inv p \<Longrightarrow> present t k \<Longrightarrow> \<exists>p'. begin_access t k p = Inr p'"
    and end_ok: "inv p \<Longrightarrow> ok t \<Longrightarrow> end_access t k p = Inr p' \<Longrightarrow>
            inv p' \<and> (\<forall>x. candidate p' x \<longleftrightarrow> candidate p x \<or> x = k)"
    and end_total: "inv p \<Longrightarrow> present t k \<Longrightarrow> \<not> candidate p k \<Longrightarrow> \<exists>p'. end_access t k p = Inr p'"
begin

text \<open>Pinning a list of objects: none of them is a candidate afterwards, the others are as before.\<close>

lemma pin_list:
  assumes "inv p" and "\<And>k. k \<in> set ks \<Longrightarrow> present t k"
  shows "\<exists>p'. rfold (begin_access t) ks p = Inr p' \<and> inv p' \<and>
           (\<forall>x. candidate p' x \<longleftrightarrow> candidate p x \<and> x \<notin> set ks)"
  using assms
proof (induction ks arbitrary: p)
  case (Cons k ks)
  from begin_total [OF Cons.prems(1)] Cons.prems(2)
  obtain q where q: "begin_access t k p = Inr q" by fastforce
  note b = begin_ok [OF Cons.prems(1) q]
  from Cons.IH [of q] b Cons.prems(2)
  obtain p' where "rfold (begin_access t) ks q = Inr p'" "inv p'"
    "\<forall>x. candidate p' x \<longleftrightarrow> candidate q x \<and> x \<notin> set ks" by auto
  with q b show ?case by auto
qed simp

text \<open>Beginning and ending an access makes the object a candidate and changes no other.\<close>

lemma access_cycle:
  assumes "inv p" and "ok t" and "present t k"
  shows "\<exists>q p'. begin_access t k p = Inr q \<and> end_access t k q = Inr p' \<and> inv p' \<and>
           (\<forall>x. candidate p' x \<longleftrightarrow> candidate p x \<or> x = k)"
proof -
  obtain q where q: "begin_access t k p = Inr q" using begin_total assms(1,3) by blast
  note b = begin_ok [OF assms(1) q]
  then obtain p' where p': "end_access t k q = Inr p'" using end_total assms(3) by blast
  with b end_ok [of q t k p'] assms(2) q show ?thesis by auto
qed

end

interpretation quota: access_policy policy_inv size_ok evictable
    "\<lambda>objs k. GetObjectTableEntry objs k \<noteq> None" BeginObjectAccess EndObjectAccess
proof
  fix p t k p'
  assume p: "policy_inv p"
  show "policy_inv p' \<and> (\<forall>x. evictable p' x \<longleftrightarrow> evictable p x \<and> x \<noteq> k)"
    if "BeginObjectAccess t k p = Inr p'"
    using BeginObjectAccess_spec [OF p that] by blast
  show "\<exists>p'. BeginObjectAccess t k p = Inr p'" if "GetObjectTableEntry t k \<noteq> None"
    using BeginObjectAccess_total [OF p] that by blast
  show "policy_inv p' \<and> (\<forall>x. evictable p' x \<longleftrightarrow> evictable p x \<or> x = k)"
    if "size_ok t" "EndObjectAccess t k p = Inr p'"
    using EndObjectAccess_spec [OF p that] by blast
  show "\<exists>p'. EndObjectAccess t k p = Inr p'" if "GetObjectTableEntry t k \<noteq> None" "\<not> evictable p k"
    using EndObjectAccess_total [OF p _ that(2)] that(1) by blast
qed

section \<open>Reachable policies\<close>

text \<open>
  Every history of calls the store can make on a policy that starts with \<open>M\<close> bytes. The object
  table may be different at every call; the sizes in it are sound, and an object is created
  only while the policy does not know it.
\<close>

inductive policy_reach :: "int \<Rightarrow> QuotaAwarePolicy \<Rightarrow> bool" for M where
  start: "policy_reach M (new_QuotaAwarePolicy M)"
| created: "policy_reach M p \<Longrightarrow> size_ok objs \<Longrightarrow> \<not> tracked p obj \<Longrightarrow>
     ObjectCreated objs obj cl is_create p = Inr p' \<Longrightarrow> policy_reach M p'"
| begins: "policy_reach M p \<Longrightarrow> BeginObjectAccess objs obj p = Inr p' \<Longrightarrow> policy_reach M p'"
| ends: "policy_reach M p \<Longrightarrow> size_ok objs \<Longrightarrow> EndObjectAccess objs obj p = Inr p' \<Longrightarrow> policy_reach M p'"
| removed: "policy_reach M p \<Longrightarrow> RemoveObject obj p = Inr p' \<Longrightarrow> policy_reach M p'"
| refreshed: "policy_reach M p \<Longrightarrow> RefreshObjects ids p = Inr p' \<Longrightarrow> policy_reach M p'"
| quota: "policy_reach M p \<Longrightarrow> SetClientQuota cl name q p = Inr (ok, p') \<Longrightarrow> policy_reach M p'"
| enforced: "policy_reach M p \<Longrightarrow> EnforcePerClientQuota cl sz is_create out p = Inr (ok, out', p') \<Longrightarrow>
     policy_reach M p'"
| required: "policy_reach M p \<Longrightarrow> RequireSpace a sz out p = Inr (ok, out', p') \<Longrightarrow> policy_reach M p'"
| disconnected: "policy_reach M p \<Longrightarrow> size_ok objs \<Longrightarrow> ClientDisconnected objs cl p = Inr p' \<Longrightarrow>
     policy_reach M p'"

lemma policy_reach_inv: "policy_reach M p \<Longrightarrow> policy_inv p"
proof (induction rule: policy_reach.induct)
  case start
  show ?case by (rule policy_inv_new)
next
  case (created p objs obj cl is_create p')
  then show ?case using ObjectCreated_spec by blast
next
  case (begins p objs obj p')
  then show ?case using BeginObjectAccess_spec(1) by blast
next
  case (ends p objs obj p')
  then show ?case using EndObjectAccess_spec(1) by blast
next
  case (removed p obj p')
  then show ?case using RemoveObject_spec [of p obj] by auto
next
  case (refreshed p ids p')
  then show ?case using RefreshObjects_spec [of p ids] by auto
next
  case (quota p cl name q ok p')
  then show ?case using SetClientQuota_spec(1) by blast
next
  case (enforced p cl sz is_create out ok out' p')
  then show ?case by (elim EnforcePerClientQuota_spec [of p cl sz is_create out]) auto
next
  case (required p a sz out ok out' p')
  then show ?case by (elim RequireSpace_spec [of p a sz out]) auto
next
  case (disconnected p objs cl p')
  then show ?case using ClientDisconnected_spec(1) by blast
qed


section \<open>Properties of the policy\<close>

lemma lru_orig:
  "lru_Add obj sz c = Inr c' \<Longrightarrow> original_capacity c' = original_capacity c"
  "lru_Remove obj c = Inr (n, c') \<Longrightarrow> original_capacity c' = original_capacity c"
  "lru_AdjustCapacity d c = Inr c' \<Longrightarrow> original_capacity c' = original_capacity c"
  by (auto simp: lru_Add_def lru_Remove_def lru_AdjustCapacity_def rbind_check_eq_Inr Let_def
      split: option.splits)

lemma disown_orig:
  "disown objs obj p = Inr p' \<Longrightarrow> original_capacity (cache p') = original_capacity (cache p)"
  by (auto simp: disown_def lru_orig elim!: rbind_InrE split: if_splits)

lemma RefreshObjects_orig:
  assumes "policy_inv p" and "RefreshObjects ids p = Inr p'"
  shows "original_capacity (cache p') = original_capacity (cache p)"
proof -
  obtain q where q: "rfold quota_refresh ids p = Inr q" "ep_RefreshObjects ids q = Inr p'"
    using assms(2) by (auto simp: RefreshObjects_def elim: rbind_InrE)
  have step: "policy_inv t' \<and> cache t' = cache t" if "policy_inv t" "quota_refresh x t = Inr t'" for x t t'
    using quota_refresh_spec [OF that(1), of x] that(2) by auto
  have "policy_inv q \<and> original_capacity (cache q) = original_capacity (cache p)"
    by (rule rfold_invariant [OF q(1), where P = "\<lambda>r. policy_inv r \<and>
          original_capacity (cache r) = original_capacity (cache p)"])
      (use assms(1) step in auto)
  with q(2) lru_refresh_list [OF policy_invD(1), of q ids] show ?thesis by (auto simp: ep_RefreshObjects_def)
qed

lemma RequireSpace_orig:
  assumes "policy_inv p" and "RequireSpace a sz out p = Inr (ok, out', p')"
  shows "original_capacity (cache p') = original_capacity (cache p)"
proof -
  let ?t = "max (ssub64 (sadd64 (Allocated a) sz) (GetFootprintLimit a)) (cdiv (GetFootprintLimit a) 5)"
  obtain b out0 c where "lru_ChooseObjectsToEvict ?t out (cache p) = (b, out0, c)"
    and "\<exists>c'. rfold lru_drop out0 c = Inr c' \<and> p' = p\<lparr>cache := c'\<rparr>"
    using assms(2)
    by (auto simp: RequireSpace_def ep_ChooseObjectsToEvict_def Let_def elim!: rbind_InrE split: prod.splits)
  moreover from this(1) have "lru_inv c" "original_capacity c = original_capacity (cache p)"
    using policy_invD(1) [OF assms(1)] by (auto elim: lru_choose_spec)
  ultimately show ?thesis using lru_drop_list [of c out0] by auto
qed

lemma policy_reach_orig: "policy_reach M p \<Longrightarrow> original_capacity (cache p) = M"
proof (induction rule: policy_reach.induct)
  case start
  show ?case by (simp add: new_QuotaAwarePolicy_def new_LRUCache_def)
next
  case (created p objs obj cl is_create p')
  then show ?case
    by (auto simp: ObjectCreated_def ep_ObjectCreated_def with_client_cache_Inr lru_orig
        elim!: rbind_InrE split: if_splits)
next
  case (begins p objs obj p')
  then show ?case
    by (auto simp: BeginObjectAccess_def ep_BeginObjectAccess_def lru_drop_def lru_orig Let_def
        elim!: rbind_InrE split: if_splits)
next
  case (ends p objs obj p')
  then show ?case
    by (auto simp: EndObjectAccess_def ep_EndObjectAccess_def lru_orig Let_def
        elim!: rbind_InrE split: if_splits)
next
  case (removed p obj p')
  then show ?case
    by (auto simp: RemoveObject_def ep_RemoveObject_def lru_drop_def with_client_cache_Inr lru_orig
        elim!: rbind_InrE split: option.splits)
next
  case (refreshed p ids p')
  then show ?case using RefreshObjects_orig [OF policy_reach_inv] by simp
next
  case (quota p cl name q ok p')
  then show ?case using SetClientQuota_spec(4) [OF policy_reach_inv] by auto
next
  case (enforced p cl sz is_create out ok out' p')
  then show ?case
    by (elim EnforcePerClientQuota_spec [OF policy_reach_inv, of M p cl sz is_create out]) auto
next
  case (required p a sz out ok out' p')
  then show ?case using RequireSpace_orig [OF policy_reach_inv] by simp
next
  case (disconnected p objs cl p')
  have "rfold (disown objs) ks q = Inr r \<Longrightarrow> original_capacity (cache r) = original_capacity (cache q)" for ks q r
    by (rule rfold_invariant [where P = "\<lambda>r. original_capacity (cache r) = original_capacity (cache q)"])
      (auto simp: disown_orig)
  with disconnected show ?case
    by (auto simp: ClientDisconnected_def lru_Foreach_keys lru_orig elim!: rbind_InrE split: option.splits)
qed



text \<open>
  C20. \<open>RequireSpace\<close> names the least recently used objects, oldest first, and stops as soon as
  they add up to the larger of what the request lacks and a fifth of the store; it reports
  success exactly when the victims cover what the request lacks and there is at least a byte.
\<close>
theorem require_space_lru_minimal:
  assumes "policy_inv p" and "RequireSpace a sz [] p = Inr (ok, vs, p')"
  shows "\<exists>k. vs = take k (rev (lru_keys (cache p))) \<and>
      (let freed = (\<lambda>j. sum_list (map snd (take j (rev (lru_items (cache p))))));
           lacking = ssub64 (sadd64 (allocated a) sz) (footprint_limit a);
           target = max lacking (cdiv (footprint_limit a) 5)
       in (target \<le> freed k \<or> k = length (lru_items (cache p))) \<and>
          (\<forall>j < k. freed j < target) \<and> (ok \<longleftrightarrow> lacking \<le> freed k \<and> 0 < freed k))"
proof -
  let ?lack = "ssub64 (sadd64 (Allocated a) sz) (GetFootprintLimit a)"
  obtain k c where k: "ep_ChooseObjectsToEvict (max ?lack (cdiv (GetFootprintLimit a) 5)) [] p =
           Inr (sum_list (map snd (take k (rev (lru_items (cache p))))),
                [] @ take k (rev (lru_keys (cache p))), p\<lparr>cache := c\<rparr>)"
    "max ?lack (cdiv (GetFootprintLimit a) 5) \<le> sum_list (map snd (take k (rev (lru_items (cache p))))) \<or>
       k = length (lru_items (cache p))"
    "\<And>j. j < k \<Longrightarrow> sum_list (map snd (take j (rev (lru_items (cache p))))) <
       max ?lack (cdiv (GetFootprintLimit a) 5)"
    by (rule ep_ChooseObjectsToEvict_spec [OF assms(1)], rule that)
  with assms(2) show ?thesis
    by (intro exI [of _ k])
      (auto simp: RequireSpace_def Let_def Allocated_def GetFootprintLimit_def)
qed

theorem require_space_lru_minimal_witness:
  "\<exists>p a vs p'. lru_keys (cache p) = [UniqueID [2], UniqueID [1]] \<and> policy_inv p \<and>
     RequireSpace a 40 [] p = Inr (True, vs, p') \<and> (\<exists>k. vs = take k [UniqueID [1], UniqueID [2]])"
proof -
  let ?c = "\<lparr>item_list = [(1, UniqueID [2], 30), (0, UniqueID [1], 50)],
             item_map = [(UniqueID [1], 0), (UniqueID [2], 1)], next_node = 2, lru_name = ''global lru'',
             original_capacity = 100, capacity = 100, used_capacity = 80,
             num_evictions_total = 0, bytes_evicted_total = 0\<rparr>"
  let ?p = "\<lparr>pinned_memory_bytes = 0, cache = ?c, per_client_cache = [], owned_by_client = [], shared_for_read = []\<rparr>"
  let ?a = "\<lparr>footprint_limit = 100, allocated = 80, base_pointer = 4096,
             available_regions = [(20, 80)], pa_fd = 3, mmap_records = []\<rparr>"
  have keys: "lru_keys (cache ?p) = [UniqueID [2], UniqueID [1]]"
    by (simp add: lru_keys_def lru_items_def)
  have inv: "policy_inv ?p"
    by (auto simp: policy_inv_def owners_ok_def lru_inv_def lru_keys_def lru_items_def alist_ok_def split: if_splits)
  obtain vs p' where r: "RequireSpace ?a 40 [] ?p = Inr (True, vs, p')"
    by (simp add: RequireSpace_def ep_ChooseObjectsToEvict_def lru_ChooseObjectsToEvict_def lru_drop_def
        lru_Remove_def Let_def Allocated_def GetFootprintLimit_def ssub64_def sadd64_def int64_of_def cdiv_def
        check_def)
  from require_space_lru_minimal [OF inv r] obtain k where "vs = take k (rev (lru_keys (cache ?p)))"
    by blast
  then have "\<exists>k. vs = take k [UniqueID [1], UniqueID [2]]" unfolding keys by auto
  with keys inv r show ?thesis by blast
qed


text \<open>
  C24. A quota is granted only while three tenths of the store stay in the global cache (for
  stores of at most \<open>2^50\<close> bytes): the comparison in floating point loses nothing.
\<close>
theorem quota_keeps_reserve:
  assumes "policy_reach M p" and "0 \<le> M" and "M \<le> 2 ^ 50" and "\<bar>capacity (cache p) - q\<bar> < 2 ^ 53"
    and "SetClientQuota cl name q p = Inr (True, p')"
  shows "3 * M \<le> 10 * capacity (cache p') \<and>
         (\<exists>c. map_of (per_client_cache p') cl = Some c \<and> capacity c = q \<and> lru_items c = [])"
proof -
  have orig: "original_capacity (cache p) = M" using assms(1) by (rule policy_reach_orig)
  have "in_int64 (capacity (cache p) - q)" using assms(4) by (auto simp: in_int64_def)
  then have sub: "ssub64 (capacity (cache p)) q = capacity (cache p) - q" by (rule ssub64_id)
  from assms(5) have nb: "\<not> below_reserve (capacity (cache p) - q) M"
    and p': "p' = p\<lparr>cache := (cache p)\<lparr>capacity := capacity (cache p) - q\<rparr>,
        per_client_cache := AList.update cl (new_LRUCache name q) (per_client_cache p)\<rparr>"
    by (auto simp: SetClientQuota_def lru_AdjustCapacity_def lru_Capacity_def lru_OriginalCapacity_def
        check_def orig sub split: if_splits)
  from not_below_reserve [OF nb assms(2-4)] show ?thesis
    by (simp add: p' new_LRUCache_def lru_items_def)
qed

theorem quota_keeps_reserve_witness:
  "\<exists>p'. SetClientQuota 7 ''c'' 700 (new_QuotaAwarePolicy 1000) = Inr (True, p') \<and>
        3 * 1000 \<le> 10 * capacity (cache p')"
proof -
  have "\<not> below_reserve 300 1000"
    by (simp add: below_reserve_def rne53_exact) (simp add: rne53_def rne53_nat_def Let_def bit_length.simps)
  then obtain p' where p': "SetClientQuota 7 ''c'' 700 (new_QuotaAwarePolicy 1000) = Inr (True, p')"
    by (simp add: SetClientQuota_def new_QuotaAwarePolicy_def lru_Capacity_def
        lru_OriginalCapacity_def new_LRUCache_def lru_AdjustCapacity_def ssub64_def int64_of_def)
  have "capacity (cache (new_QuotaAwarePolicy 1000)) = 1000"
    by (simp add: new_QuotaAwarePolicy_def new_LRUCache_def)
  with quota_keeps_reserve [OF policy_reach.start _ _ _ p'] p' show ?thesis by auto
qed

text \<open>
  C23. \<open>EnforcePerClientQuota\<close> refuses a request exactly when it is larger than the client's
  whole quota. Otherwise it makes the object fit into the quota, and the objects it names for
  eviction all belong to that client and are not being read; the global cache is untouched.
\<close>
theorem enforce_quota_fits:
  assumes "policy_inv p" and "map_of (per_client_cache p) cl = Some c"
    and "0 \<le> sz" and "sz < 2 ^ 62" and "\<bar>lru_RemainingCapacity c\<bar> < 2 ^ 62"
    and "EnforcePerClientQuota cl sz True [] p = Inr (ok, vs, p')"
  shows "(ok \<longleftrightarrow> sz \<le> capacity c) \<and>
         (ok \<longrightarrow> (\<exists>c'. map_of (per_client_cache p') cl = Some c' \<and> used_capacity c' + sz \<le> capacity c')) \<and>
         (\<forall>v \<in> set vs. map_of (owned_by_client p) v = Some cl \<and> v \<notin> set (shared_for_read p)) \<and>
         cache p' = cache p \<and> policy_inv p'"
proof -
  have quota: "HasQuota cl True p" using assms(2) by (simp add: HasQuota_def)
  obtain ok0 vs0 q where
    e: "EnforcePerClientQuota cl sz True [] p = Inr (ok0, [] @ vs0, q)" "policy_inv q" "cache q = cache p"
    and v: "\<And>v. v \<in> set vs0 \<Longrightarrow> map_of (owned_by_client p) v = Some cl \<and> v \<notin> set (shared_for_read p)"
    and iff: "ok0 \<longleftrightarrow> (HasQuota cl True p \<longrightarrow> (\<exists>c. map_of (per_client_cache p) cl = Some c \<and> sz \<le> capacity c))"
    and room: "ok0 \<and> HasQuota cl True p \<and>
           (\<forall>c. map_of (per_client_cache p) cl = Some c \<longrightarrow> in_int64 (sz - lru_RemainingCapacity c)) \<longrightarrow>
           (\<exists>c'. map_of (per_client_cache q) cl = Some c' \<and> sz \<le> lru_RemainingCapacity c')"
    by (rule EnforcePerClientQuota_spec [OF assms(1)], rule that)
  have "in_int64 (sz - lru_RemainingCapacity c)"
    using assms(3-5) by (auto simp: in_int64_def)
  with room quota assms(2) have "ok0 \<Longrightarrow>
      \<exists>c'. map_of (per_client_cache q) cl = Some c' \<and> used_capacity c' + sz \<le> capacity c'"
    by (fastforce simp: lru_RemainingCapacity_def)
  with e v iff quota assms(2,6) show ?thesis by auto
qed

theorem enforce_quota_fits_witness:
  "\<exists>p c vs p'. map_of (per_client_cache p) 7 = Some c \<and> lru_keys c = [UniqueID [2], UniqueID [1]] \<and>
     EnforcePerClientQuota 7 60 True [] p = Inr (True, vs, p') \<and> vs = [UniqueID [1]] \<and>
     (\<exists>c'. map_of (per_client_cache p') 7 = Some c' \<and> used_capacity c' + 60 \<le> capacity c')"
proof -
  let ?c = "\<lparr>item_list = [(1, UniqueID [2], 30), (0, UniqueID [1], 50)],
             item_map = [(UniqueID [1], 0), (UniqueID [2], 1)], next_node = 2, lru_name = ''c'',
             original_capacity = 100, capacity = 100, used_capacity = 80,
             num_evictions_total = 0, bytes_evicted_total = 0\<rparr>"
  let ?p = "\<lparr>pinned_memory_bytes = 0, cache = (new_LRUCache ''global lru'' 1000)\<lparr>capacity := 900\<rparr>,
             per_client_cache = [(7, ?c)], owned_by_client = [(UniqueID [1], 7), (UniqueID [2], 7)],
             shared_for_read = [UniqueID [2]]\<rparr>"
  have inv: "policy_inv ?p"
    by (auto simp: policy_inv_def owners_ok_def lru_inv_def lru_keys_def lru_items_def alist_ok_def
        new_LRUCache_def split: if_splits)
  have c: "map_of (per_client_cache ?p) 7 = Some ?c" by simp
  obtain p' where e: "EnforcePerClientQuota 7 60 True [] ?p = Inr (True, [UniqueID [1]], p')"
    by (simp add: EnforcePerClientQuota_def HasQuota_def lru_Capacity_def lru_RemainingCapacity_def Let_def
        ssub64_def int64_of_def lru_ChooseObjectsToEvict_def quota_evict_one_def with_client_cache_def
        lru_Remove_def check_def)
  have "\<bar>lru_RemainingCapacity ?c\<bar> < 2 ^ 62" by (simp add: lru_RemainingCapacity_def)
  from enforce_quota_fits [OF inv c _ _ this e] c e
  show ?thesis by (intro exI [of _ ?p] exI [of _ ?c]) (auto simp: lru_keys_def lru_items_def)
qed

text \<open>
  When a client with a quota disconnects, its objects that nobody reads go to the front of
  the global cache in reverse order of use, so the most recently used of them is the first to
  be evicted among them; which objects may be evicted does not change, and its capacity returns.
\<close>
theorem disconnect_merges_reversed:
  assumes "policy_inv p" and "size_ok objs" and "map_of (per_client_cache p) cl = Some c"
    and "ClientDisconnected objs cl p = Inr p'"
  shows "lru_keys (cache p') =
           rev (filter (\<lambda>k. k \<notin> set (shared_for_read p)) (lru_keys c)) @ lru_keys (cache p) \<and>
         (\<forall>x. evictable p' x \<longleftrightarrow> evictable p x) \<and> map_of (per_client_cache p') cl = None \<and> policy_inv p'"
  using ClientDisconnected_spec(1,2,4) [OF assms(1,2,4)] ClientDisconnected_spec(5) [OF assms(1,2,4,3)]
  by blast

theorem disconnect_merges_reversed_witness:
  "\<exists>p objs p' c. map_of (per_client_cache p) 7 = Some c \<and> lru_keys c = [UniqueID [2], UniqueID [1]] \<and>
     ClientDisconnected objs 7 p = Inr p' \<and> lru_keys (cache p') = [UniqueID [1], UniqueID [2]]"
proof -
  let ?c = "\<lparr>item_list = [(1, UniqueID [2], 30), (0, UniqueID [1], 50)],
             item_map = [(UniqueID [1], 0), (UniqueID [2], 1)], next_node = 2, lru_name = ''c'',
             original_capacity = 100, capacity = 100, used_capacity = 80,
             num_evictions_total = 0, bytes_evicted_total = 0\<rparr>"
  let ?p = "\<lparr>pinned_memory_bytes = 0, cache = (new_LRUCache ''global lru'' 1000)\<lparr>capacity := 900\<rparr>,
             per_client_cache = [(7, ?c)], owned_by_client = [(UniqueID [1], 7), (UniqueID [2], 7)],
             shared_for_read = []\<rparr>"
  let ?objs = "[(UniqueID [1], new_ObjectTableEntry\<lparr>e_data_size := 50\<rparr>),
                (UniqueID [2], new_ObjectTableEntry\<lparr>e_data_size := 30\<rparr>)]"
  have inv: "policy_inv ?p"
    by (auto simp: policy_inv_def owners_ok_def lru_inv_def lru_keys_def lru_items_def alist_ok_def
        new_LRUCache_def split: if_splits)
  have sz: "size_ok ?objs"
    by (auto simp: size_ok_def GetObjectSize_def GetObjectTableEntry_def new_ObjectTableEntry_def
        sadd64_def int64_of_def split: if_splits)
  have c: "map_of (per_client_cache ?p) 7 = Some ?c" by simp
  obtain p' where d: "ClientDisconnected ?objs 7 ?p = Inr p'"
    by (simp add: ClientDisconnected_def lru_AdjustCapacity_def lru_Foreach_def disown_def GetObjectSize_def
        GetObjectTableEntry_def lru_Add_def new_LRUCache_def check_def)
  from disconnect_merges_reversed [OF inv sz c d] c d
  show ?thesis
    by (intro exI [of _ ?p] exI [of _ ?objs] exI [of _ p'] exI [of _ ?c])
      (auto simp: lru_keys_def lru_items_def new_LRUCache_def)
qed

end
