(* ===== verification/External_Store.thy ===== *)
theory External_Store
  imports Common
begin

text \<open>
  External stores for evicted objects: the registry (src/arrow/cpp/src/plasma/external_store.cc)
  and the sample implementation \<open>HashTableStore\<close> (hash_table_store.cc). A buffer that \<open>Get\<close>
  fills is described by its size; the result says what was written into it.

  The locale \<open>backing_store\<close> states what the store relies on when it writes objects out and
  reads them back; \<open>HashTableStore\<close> is an instance.
\<close>

section \<open>The interface\<close>

record 'x ExternalStore =
  es_Connect :: "string \<Rightarrow> 'x \<Rightarrow> (Status \<times> 'x) res"
  es_Put :: "UniqueID list \<Rightarrow> byte list list \<Rightarrow> 'x \<Rightarrow> (Status \<times> 'x) res"
  es_Get :: "UniqueID list \<Rightarrow> nat list \<Rightarrow> 'x \<Rightarrow> (Status \<times> byte list option list) res"

section \<open>The registry\<close>

type_synonym 's StoreMap = "(string \<times> 's) list"

definition ExtractStoreName :: "string \<Rightarrow> Status \<times> string" where
  "ExtractStoreName endpoint =
     (if CHR '':'' \<notin> set endpoint then (mk_status SC_Invalid (''Malformed endpoint '' @ endpoint), '''')
      else (Status_OK, takeWhile (\<lambda>c. c \<noteq> CHR '':'') endpoint))"

text \<open>\<open>insert\<close> on an \<open>unordered_map\<close> keeps the value of a present key.\<close>

definition RegisterStore :: "string \<Rightarrow> 's \<Rightarrow> 's StoreMap \<Rightarrow> 's StoreMap" where
  "RegisterStore store_name st m = (if map_of m store_name = None then AList.update store_name st m else m)"

definition DeregisterStore :: "string \<Rightarrow> 's StoreMap \<Rightarrow> 's StoreMap" where
  "DeregisterStore store_name m = AList.delete store_name m"

definition GetStore :: "string \<Rightarrow> 's StoreMap \<Rightarrow> 's option" where
  "GetStore store_name m = map_of m store_name"

section \<open>The hash table store\<close>

type_synonym HashTable = "(UniqueID \<times> byte list) list"

definition hts_Connect :: "string \<Rightarrow> HashTable \<Rightarrow> (Status \<times> HashTable) res" where
  "hts_Connect endpoint t = Inr (Status_OK, t)"

fun hts_put_loop :: "UniqueID list \<Rightarrow> byte list list \<Rightarrow> HashTable \<Rightarrow> HashTable res" where
  "hts_put_loop [] data t = Inr t"
| "hts_put_loop (i # ids) [] t = Inl OutOfBounds"
| "hts_put_loop (i # ids) (d # data) t = hts_put_loop ids data (AList.update i d t)"

definition hts_Put :: "UniqueID list \<Rightarrow> byte list list \<Rightarrow> HashTable \<Rightarrow> (Status \<times> HashTable) res" where
  "hts_Put ids data t = rbind (hts_put_loop ids data t) (\<lambda>t. Inr (Status_OK, t))"

fun hts_get_loop :: "UniqueID list \<Rightarrow> nat list \<Rightarrow> HashTable \<Rightarrow> byte list option list res" where
  "hts_get_loop (i # ids) (n # sizes) t =
     rbind (case map_of t i of
              Some d \<Rightarrow> rbind (check (n = length d) ''buffers[i]->size() == result->second.size()'') (\<lambda>_. Inr (Some d))
            | None \<Rightarrow> Inr None) (\<lambda>r.
     rbind (hts_get_loop ids sizes t) (\<lambda>rs. Inr (r # rs)))"
| "hts_get_loop ids sizes t = Inr []"

definition hts_Get :: "UniqueID list \<Rightarrow> nat list \<Rightarrow> HashTable \<Rightarrow> (Status \<times> byte list option list) res" where
  "hts_Get ids sizes t =
     rbind (check (length ids = length sizes) ''ids.size() == buffers.size()'') (\<lambda>_.
     rbind (hts_get_loop ids sizes t) (\<lambda>rs. Inr (Status_OK, rs)))"

definition HashTableStore :: "HashTable ExternalStore" where
  "HashTableStore = \<lparr>es_Connect = hts_Connect, es_Put = hts_Put, es_Get = hts_Get\<rparr>"

section \<open>What the store relies on\<close>

text \<open>
  \<open>held x i\<close> is what the external store holds for an object. \<open>Put\<close> stores exactly the given
  contents; \<open>Get\<close> into a buffer of the right size returns them.
\<close>

locale backing_store =
  fixes put :: "UniqueID list \<Rightarrow> byte list list \<Rightarrow> 'x \<Rightarrow> (Status \<times> 'x) res"
    and get :: "UniqueID list \<Rightarrow> nat list \<Rightarrow> 'x \<Rightarrow> (Status \<times> byte list option list) res"
    and held :: "'x \<Rightarrow> UniqueID \<Rightarrow> byte list option"
  assumes put_held: "length ids = length data \<Longrightarrow> distinct ids \<Longrightarrow>
      \<exists>x'. put ids data x = Inr (Status_OK, x') \<and>
           held x' = (\<lambda>i. case map_of (zip ids data) i of Some d \<Rightarrow> Some d | None \<Rightarrow> held x i)"
    and get_held: "length ids = length sizes \<Longrightarrow>
      (\<And>k d. k < length ids \<Longrightarrow> held x (ids ! k) = Some d \<Longrightarrow> sizes ! k = length d) \<Longrightarrow>
      get ids sizes x = Inr (Status_OK, map (held x) ids)"
begin

text \<open>What was put is what is read back, as long as the buffers have the sizes of the contents.\<close>

lemma put_get:
  assumes "length ids = length data" and "distinct ids"
  shows "\<exists>x'. put ids data x = Inr (Status_OK, x') \<and>
     get ids (map length data) x' = Inr (Status_OK, map Some data)"
proof -
  obtain x' where x': "put ids data x = Inr (Status_OK, x')"
    "held x' = (\<lambda>i. case map_of (zip ids data) i of Some d \<Rightarrow> Some d | None \<Rightarrow> held x i)"
    using put_held [OF assms] by blast
  have h: "held x' (ids ! k) = Some (data ! k)" if "k < length ids" for k
    using map_of_zip_nth [OF assms(1,2)] that assms(1) by (simp add: x'(2))
  have "get ids (map length data) x' = Inr (Status_OK, map (held x') ids)"
    by (rule get_held) (use assms(1) h in auto)
  moreover have "map (held x') ids = map Some data"
    using h assms(1) by (intro nth_equalityI) auto
  ultimately show ?thesis using x'(1) by auto
qed

end

lemma hts_put_loop_held:
  "length ids = length data \<Longrightarrow> distinct ids \<Longrightarrow>
     \<exists>t'. hts_put_loop ids data t = Inr t' \<and>
       map_of t' = (\<lambda>i. case map_of (zip ids data) i of Some d \<Rightarrow> Some d | None \<Rightarrow> map_of t i)"
proof (induction ids data t rule: hts_put_loop.induct)
  case (3 i ids d data t)
  then obtain t' where t': "hts_put_loop ids data (AList.update i d t) = Inr t'"
    "map_of t' = (\<lambda>j. case map_of (zip ids data) j of Some d \<Rightarrow> Some d | None \<Rightarrow> map_of (AList.update i d t) j)"
    by auto
  have "map_of (zip ids data) i = None"
    using 3(2,3) by (auto simp: map_of_eq_None_iff dest: set_zip_leftD)
  with t' show ?case by (auto simp: fun_eq_iff split: option.splits)
qed (auto simp: fun_eq_iff)

lemma hts_get_loop_held:
  "length ids = length sizes \<Longrightarrow>
     (\<And>k d. k < length ids \<Longrightarrow> map_of t (ids ! k) = Some d \<Longrightarrow> sizes ! k = length d) \<Longrightarrow>
     hts_get_loop ids sizes t = Inr (map (map_of t) ids)"
proof (induction ids sizes t rule: hts_get_loop.induct)
  case (1 i ids n sizes t)
  have c: "(case map_of t i of
      Some d \<Rightarrow> rbind (check (n = length d) ''buffers[i]->size() == result->second.size()'') (\<lambda>_. Inr (Some d))
    | None \<Rightarrow> Inr None) = Inr (map_of t i)"
    using "1.prems"(2) [of 0] by (cases "map_of t i") simp_all
  have "hts_get_loop ids sizes t = Inr (map (map_of t) ids)"
  proof (rule "1.IH" [OF c])
    show "length ids = length sizes" using "1.prems"(1) by simp
    show "sizes ! k = length d" if "k < length ids" "map_of t (ids ! k) = Some d" for k d
      using "1.prems"(2) [of "Suc k" d] that by simp
  qed
  with c show ?case by simp
qed auto

interpretation hashtable: backing_store hts_Put hts_Get "map_of"
proof
  fix ids :: "UniqueID list" and data :: "byte list list" and x :: HashTable
  assume "length ids = length data" "distinct ids"
  with hts_put_loop_held [of ids data x]
  show "\<exists>x'. hts_Put ids data x = Inr (Status_OK, x') \<and>
      map_of x' = (\<lambda>i. case map_of (zip ids data) i of Some d \<Rightarrow> Some d | None \<Rightarrow> map_of x i)"
    by (auto simp: hts_Put_def)
next
  fix ids :: "UniqueID list" and sizes :: "nat list" and x :: HashTable
  assume "length ids = length sizes"
    "\<And>k d. k < length ids \<Longrightarrow> map_of x (ids ! k) = Some d \<Longrightarrow> sizes ! k = length d"
  from hts_get_loop_held [OF this] \<open>length ids = length sizes\<close>
  show "hts_Get ids sizes x = Inr (Status_OK, map (map_of x) ids)"
    by (simp add: hts_Get_def)
qed

text \<open>A registered store is found until it is deregistered; the first registration wins.\<close>

lemma registry_lookup:
  "GetStore n (RegisterStore n' s m) = (if n = n' \<and> GetStore n m = None then Some s else GetStore n m)"
  "GetStore n (DeregisterStore n' m) = (if n = n' then None else GetStore n m)"
  by (auto simp: GetStore_def RegisterStore_def DeregisterStore_def)

text \<open>
  What is put into the hash table store is read back into buffers of the right size; if a
  buffer has any other size, as for an object with metadata, whose buffer the store sizes
  without it, \<open>Get\<close> aborts the process.
\<close>
theorem hashtable_put_get:
  assumes "length ids = length data" and "distinct ids"
  shows "\<exists>t'. hts_Put ids data t = Inr (Status_OK, t') \<and>
     hts_Get ids (map length data) t' = Inr (Status_OK, map Some data) \<and>
     (\<forall>i d n. hts_Put [i] [d] t = Inr (Status_OK, t') \<and> n \<noteq> length d \<longrightarrow>
        hts_Get [i] [n] t' = Inl (CheckFailed ''buffers[i]->size() == result->second.size()''))"
  using hashtable.put_get [OF assms, of t] by (auto simp: hts_Put_def hts_Get_def)

theorem hashtable_put_get_witness:
  "\<exists>t'. hts_Put [UniqueID [1], UniqueID [2]] [[5], [6, 7]] [] = Inr (Status_OK, t') \<and>
     hts_Get [UniqueID [1], UniqueID [2]] [1, 2] t' = Inr (Status_OK, [Some [5], Some [6, 7]])"
proof -
  have "length [UniqueID [1], UniqueID [2]] = length [[5 :: byte], [6, 7]]" "distinct [UniqueID [1], UniqueID [2]]"
    by simp_all
  from hashtable_put_get [OF this, of "[]"] show ?thesis by (auto simp: numeral_2_eq_2)
qed

end
