(* ===== verification/Rpc.thy ===== *)
theory Rpc
  imports Protocol
begin

text \<open>
  Lookup of objects in the other node's store (src/arrow/cpp/src/plasma/rpc/rpc.cc, rpc.h, with
  the message types of rpc.proto). The gRPC stub is a parameter: it maps the request to the
  reply, which is empty when the call fails.

  The lemmas show what a client learns of an object of the remote table and what a failed call
  leads to.
\<close>

datatype DetailStatus = RD_OK | RD_MISSING | RD_EVICTED | RD_UNSEALED

record RpcObject =
  rp_data_offset :: nat
  rp_metadata_offset :: nat
  rp_data_size :: nat
  rp_metadata_size :: nat
  rp_device_num :: nat

definition zero_RpcObject :: RpcObject where
  "zero_RpcObject = \<lparr>rp_data_offset = 0, rp_metadata_offset = 0, rp_data_size = 0, rp_metadata_size = 0,
     rp_device_num = 0\<rparr>"

record ObjectDetails =
  d_status :: DetailStatus
  d_object :: RpcObject

text \<open>A new \<open>ObjectDetails\<close> has status \<open>OK\<close>, the zero value of the enumeration.\<close>

definition object_details :: "ObjectTableEntry option \<Rightarrow> ObjectDetails" where
  "object_details entry =
     (case entry of
        None \<Rightarrow> \<lparr>d_status = RD_MISSING, d_object = zero_RpcObject\<rparr>
      | Some e \<Rightarrow>
          (case e_state e of
             PLASMA_EVICTED \<Rightarrow> \<lparr>d_status = RD_EVICTED, d_object = zero_RpcObject\<rparr>
           | PLASMA_CREATED \<Rightarrow> \<lparr>d_status = RD_UNSEALED, d_object = zero_RpcObject\<rparr>
           | PLASMA_SEALED \<Rightarrow>
               \<lparr>d_status = RD_OK,
                d_object = \<lparr>rp_data_offset = uint64_of (e_offset e),
                            rp_metadata_offset = uint64_of (e_offset e + e_data_size e),
                            rp_data_size = uint64_of (e_data_size e),
                            rp_metadata_size = uint64_of (e_metadata_size e),
                            rp_device_num = nat (e_device_num e mod 2 ^ 32)\<rparr>\<rparr>))"

definition RpcService_GetObjects :: "ObjectTable \<Rightarrow> byte list list \<Rightarrow> ObjectDetails list res" where
  "RpcService_GetObjects objects ids =
     rmap (\<lambda>i. rbind (from_binary i) (\<lambda>i. Inr (object_details (GetObjectTableEntry objects i)))) ids"

type_synonym rpc_stub = "byte list list \<Rightarrow> ObjectDetails list"

definition RpcClient_GetObjects :: "rpc_stub \<Rightarrow> UniqueID list \<Rightarrow> ObjectDetails list" where
  "RpcClient_GetObjects stub object_ids = stub (map id_binary object_ids)"

text \<open>\<open>mutable_objects_details(0)\<close> of an empty reply is out of bounds.\<close>

definition RpcClient_GetObject :: "rpc_stub \<Rightarrow> UniqueID \<Rightarrow> ObjectDetails res" where
  "RpcClient_GetObject stub object_id = vec_get (RpcClient_GetObjects stub [object_id]) 0"

text \<open>How \<open>ProcessGetRequest\<close> turns the reply into a \<open>PlasmaObject\<close>.\<close>

definition remote_object :: "RpcObject \<Rightarrow> PlasmaObject" where
  "remote_object r =
     \<lparr>o_store_fd = -1, o_data_offset = int64_of (int (rp_data_offset r)),
      o_metadata_offset = int64_of (int (rp_metadata_offset r)),
      o_data_size = int64_of (int (rp_data_size r)), o_metadata_size = int64_of (int (rp_metadata_size r)),
      o_device_num = int32_of (int (rp_device_num r))\<rparr>"

text \<open>A stub that reaches a store with table \<open>R\<close>.\<close>

definition reaches :: "rpc_stub \<Rightarrow> ObjectTable \<Rightarrow> bool" where
  "reaches stub R \<longleftrightarrow> (\<forall>ids. RpcService_GetObjects R ids = Inr (stub ids) \<or> (\<exists>f. RpcService_GetObjects R ids = Inl f))"

lemma service_ids:
  "list_all id_ok ids \<Longrightarrow> RpcService_GetObjects R (map id_binary ids) =
     Inr (map (\<lambda>i. object_details (GetObjectTableEntry R i)) ids)"
  unfolding RpcService_GetObjects_def by (induction ids) auto

lemma reaches_ids:
  "reaches stub R \<Longrightarrow> list_all id_ok ids \<Longrightarrow>
     RpcClient_GetObjects stub ids = map (\<lambda>i. object_details (GetObjectTableEntry R i)) ids"
  using service_ids [of ids R] unfolding reaches_def RpcClient_GetObjects_def
  by (metis sum.distinct(1) sum.inject(2))

lemma reaches_id:
  "reaches stub R \<Longrightarrow> id_ok i \<Longrightarrow>
     RpcClient_GetObject stub i = Inr (object_details (GetObjectTableEntry R i))"
  using reaches_ids [of stub R "[i]"] by (simp add: RpcClient_GetObject_def vec_get_def)

text \<open>
  A lookup in the remote store tells exactly whether the object is there and sealed,
  evicted or unsealed, and gives the offsets and sizes of a sealed object unchanged. If the
  call fails, so that the reply is empty, the caller reads past the end of the reply.
\<close>
theorem remote_lookup_exact:
  assumes "reaches stub R" and "id_ok i"
  shows "\<exists>d. RpcClient_GetObject stub i = Inr d \<and>
     (d_status d = RD_MISSING \<longleftrightarrow> GetObjectTableEntry R i = None) \<and>
     (\<forall>e. GetObjectTableEntry R i = Some e \<longrightarrow>
        (d_status d = RD_OK \<longleftrightarrow> e_state e = PLASMA_SEALED) \<and>
        (d_status d = RD_EVICTED \<longleftrightarrow> e_state e = PLASMA_EVICTED) \<and>
        (e_state e = PLASMA_SEALED \<and> in_int64 (e_offset e) \<and> in_int64 (e_data_size e) \<and>
         in_int64 (e_metadata_size e) \<and> in_int64 (e_offset e + e_data_size e) \<and> in_int32 (e_device_num e) \<longrightarrow>
           remote_object (d_object d) =
             \<lparr>o_store_fd = -1, o_data_offset = e_offset e, o_metadata_offset = e_offset e + e_data_size e,
              o_data_size = e_data_size e, o_metadata_size = e_metadata_size e,
              o_device_num = e_device_num e\<rparr>)) \<and>
     RpcClient_GetObject (\<lambda>_. []) i = Inl OutOfBounds"
proof -
  have dev: "int32_of (x mod 4294967296) = x" if "in_int32 x" for x
    using that by (simp add: int32_of_def in_int32_def mod_simps)
  have "RpcClient_GetObject stub i = Inr (object_details (GetObjectTableEntry R i))"
    using reaches_id [OF assms] .
  then show ?thesis
    by (intro exI [of _ "object_details (GetObjectTableEntry R i)"])
      (auto simp: object_details_def remote_object_def int64_uint64_roundtrip dev
        RpcClient_GetObject_def RpcClient_GetObjects_def vec_get_def split: option.splits ObjectState.splits)
qed

theorem remote_lookup_exact_witness:
  "\<exists>stub R d. GetObjectTableEntry R (UniqueID (replicate 20 7)) \<noteq> None \<and> reaches stub R \<and>
     RpcClient_GetObject stub (UniqueID (replicate 20 7)) = Inr d \<and> d_status d = RD_OK"
proof -
  let ?i = "UniqueID (replicate 20 7)"
  let ?R = "[(?i, new_ObjectTableEntry\<lparr>e_state := PLASMA_SEALED\<rparr>)]"
  let ?stub = "\<lambda>ids. case RpcService_GetObjects ?R ids of Inr r \<Rightarrow> r | Inl _ \<Rightarrow> []"
  have r: "reaches ?stub ?R"
    unfolding reaches_def
  proof
    fix ids
    show "RpcService_GetObjects ?R ids = Inr (?stub ids) \<or> (\<exists>f. RpcService_GetObjects ?R ids = Inl f)"
      by (cases "RpcService_GetObjects ?R ids") simp_all
  qed
  have i: "id_ok ?i" by (simp add: id_ok_def kUniqueIDSize_def)
  obtain d where d: "RpcClient_GetObject ?stub ?i = Inr d"
    "\<forall>e. GetObjectTableEntry ?R ?i = Some e \<longrightarrow> (d_status d = RD_OK \<longleftrightarrow> e_state e = PLASMA_SEALED)"
    using remote_lookup_exact [OF r i] by blast
  have e: "GetObjectTableEntry ?R ?i = Some (new_ObjectTableEntry\<lparr>e_state := PLASMA_SEALED\<rparr>)"
    by (simp add: GetObjectTableEntry_def)
  with d have "d_status d = RD_OK" by simp
  with e d(1) r show ?thesis by blast
qed

end
