(* ===== verification/Store.thy ===== *)
theory Store
  imports Eviction_Policy Events External_Store Rpc
begin

text \<open>
  The state of the store process and the operations on single objects
  (src/arrow/cpp/src/plasma/store.cc, store.h): reference counts, allocation with eviction,
  creation, sealing, abortion, deletion, eviction and notifications.

  State is passed explicitly: an operation maps a store to a result and a store, or to a fault.
  The environment \<open>env\<close> supplies what the process cannot control, indexed by the number of
  interactions so far (\<open>tick\<close>): the clock, the outcome of every message and descriptor sent,
  the replies of the remote store, and the external store's operations.

  \<open>mutex_\<close> is a flag. \<open>std::mutex\<close> is not recursive: locking it while this thread holds it
  never returns (\<open>SelfDeadlock\<close>).
\<close>

section \<open>State\<close>

record GetRequest =
  gr_client :: int
  gr_timer :: int
  gr_object_ids :: "UniqueID list"
  gr_objects :: "(UniqueID \<times> PlasmaObject) list"
  gr_num_objects_to_wait_for :: int
  gr_num_satisfied :: int

definition new_GetRequest :: "int \<Rightarrow> UniqueID list \<Rightarrow> GetRequest" where
  "new_GetRequest client object_ids =
     \<lparr>gr_client = client, gr_timer = -1, gr_object_ids = object_ids, gr_objects = [],
      gr_num_objects_to_wait_for = int (length (remdups object_ids)), gr_num_satisfied = 0\<rparr>"

text \<open>What the store puts on its sockets.\<close>

datatype sent =
    SentMessage int MessageType fb_table
  | SentFd int int
  | SentNotification int "byte list"
  | ClosedFd int

datatype notify_out = NotifySent nat | NotifyErr errno

record 'x env =
  env_time :: "nat \<Rightarrow> int"
  env_clock :: "nat \<Rightarrow> int \<times> int"
  env_epoll :: "nat \<Rightarrow> bool"
  env_send :: "nat \<Rightarrow> Status \<times> errno"
  env_send_fd :: "nat \<Rightarrow> int \<times> errno"
  env_notify :: "nat \<Rightarrow> notify_out"
  env_recv_fd :: "nat \<Rightarrow> int"
  env_rpc :: "nat \<Rightarrow> rpc_stub"
  env_external :: "'x ExternalStore option"
  env_erase :: erase_sem
  env_enc :: "fb_table \<Rightarrow> byte list"
  env_root :: "byte list \<Rightarrow> fb_table"
  env_fmt :: "int \<Rightarrow> int \<Rightarrow> string"

record 'x store =
  objects :: ObjectTable
  alloc :: PlasmaAllocator
  policy :: QuotaAwarePolicy
  connected_clients :: "(int \<times> Client) list"
  object_get_requests :: "(UniqueID \<times> nat list) list"
  get_heap :: "(nat \<times> GetRequest) list"
  next_request :: nat
  evloop :: EventLoop
  pending_notifications :: "(int \<times> byte list list) list"
  deletion_cache :: "UniqueID list"
  mutex :: bool
  memory :: "nat \<Rightarrow> byte"
  ext_state :: 'x
  outbox :: "sent list"
  tick :: nat

type_synonym ('a, 'x) op = "'x store \<Rightarrow> ('a \<times> 'x store) res"

definition mbind :: "('a, 'x) op \<Rightarrow> ('a \<Rightarrow> ('b, 'x) op) \<Rightarrow> ('b, 'x) op" where
  "mbind m f s = rbind (m s) (\<lambda>(x, s). f x s)"

definition mret :: "'a \<Rightarrow> ('a, 'x) op" where
  "mret x s = Inr (x, s)"

definition mcheck :: "bool \<Rightarrow> string \<Rightarrow> (unit, 'x) op" where
  "mcheck b msg s = rbind (check b msg) (\<lambda>_. Inr ((), s))"

definition mfault :: "fault \<Rightarrow> ('a, 'x) op" where
  "mfault f s = Inl f"

fun mfold :: "('a \<Rightarrow> 's \<Rightarrow> ('s, 'x) op) \<Rightarrow> 'a list \<Rightarrow> 's \<Rightarrow> ('s, 'x) op" where
  "mfold f [] a = mret a"
| "mfold f (x # xs) a = mbind (f x a) (mfold f xs)"

text \<open>Run an operation of the eviction policy.\<close>

definition on_policy :: "(QuotaAwarePolicy \<Rightarrow> QuotaAwarePolicy res) \<Rightarrow> (unit, 'x) op" where
  "on_policy f s = rbind (f (policy s)) (\<lambda>p. Inr ((), s\<lparr>policy := p\<rparr>))"

definition lock_mutex :: "(unit, 'x) op" where
  "lock_mutex s = (if mutex s then Inl SelfDeadlock else Inr ((), s\<lparr>mutex := True\<rparr>))"

definition unlock_mutex :: "(unit, 'x) op" where
  "unlock_mutex s = Inr ((), s\<lparr>mutex := False\<rparr>)"

text \<open>A scope with a \<open>lock_guard\<close>.\<close>

definition locked :: "('a, 'x) op \<Rightarrow> ('a, 'x) op" where
  "locked m = mbind lock_mutex (\<lambda>_. mbind m (\<lambda>r. mbind unlock_mutex (\<lambda>_. mret r)))"

definition get_entry :: "UniqueID \<Rightarrow> (ObjectTableEntry option, 'x) op" where
  "get_entry object_id s = Inr (GetObjectTableEntry (objects s) object_id, s)"

text \<open>\<open>entry->field = \<dots>\<close> through a pointer to an entry of the table.\<close>

definition set_entry :: "UniqueID \<Rightarrow> (ObjectTableEntry \<Rightarrow> ObjectTableEntry) \<Rightarrow> (unit, 'x) op" where
  "set_entry object_id f s =
     (case GetObjectTableEntry (objects s) object_id of
        None \<Rightarrow> Inl DanglingRef
      | Some e \<Rightarrow> Inr ((), s\<lparr>objects := AList.update object_id (f e) (objects s)\<rparr>))"

definition deref_entry :: "UniqueID \<Rightarrow> (ObjectTableEntry, 'x) op" where
  "deref_entry object_id s =
     (case GetObjectTableEntry (objects s) object_id of
        None \<Rightarrow> Inl NullDeref
      | Some e \<Rightarrow> Inr (e, s))"

definition the_client :: "int \<Rightarrow> (Client, 'x) op" where
  "the_client fd s =
     (case map_of (connected_clients s) fd of None \<Rightarrow> Inl DanglingRef | Some c \<Rightarrow> Inr (c, s))"

definition set_client :: "int \<Rightarrow> (Client \<Rightarrow> Client) \<Rightarrow> (unit, 'x) op" where
  "set_client fd f = mbind (the_client fd) (\<lambda>c s.
     Inr ((), s\<lparr>connected_clients := AList.update fd (f c) (connected_clients s)\<rparr>))"

definition now :: "'x env \<Rightarrow> (int, 'x) op" where
  "now env s = Inr (env_time env (tick s), s\<lparr>tick := Suc (tick s)\<rparr>)"

text \<open>Sending a message: it is in the outbox when it was sent.\<close>

definition send_to :: "'x env \<Rightarrow> int \<Rightarrow> ((Status \<times> errno, 'x) op) sender" where
  "send_to env fd mt t s =
     (case env_send env (tick s) of
        (st, e) \<Rightarrow> Inr ((st, e), s\<lparr>tick := Suc (tick s),
           outbox := (if st_ok st then outbox s @ [SentMessage fd mt t] else outbox s)\<rparr>))"

definition send_fd_to :: "'x env \<Rightarrow> int \<Rightarrow> int \<Rightarrow> (int \<times> errno, 'x) op" where
  "send_fd_to env conn fd s =
     (case env_send_fd env (tick s) of
        (r, e) \<Rightarrow> Inr ((r, e), s\<lparr>tick := Suc (tick s),
           outbox := (if 0 < r then outbox s @ [SentFd conn fd] else outbox s)\<rparr>))"

definition close_fd :: "int \<Rightarrow> (unit, 'x) op" where
  "close_fd fd s = Inr ((), s\<lparr>outbox := outbox s @ [ClosedFd fd], evloop := closed_fd fd (evloop s)\<rparr>)"

definition on_loop :: "(EventLoop \<Rightarrow> ('a \<times> EventLoop) res) \<Rightarrow> ('a, 'x) op" where
  "on_loop f s = rbind (f (evloop s)) (\<lambda>(r, l). Inr (r, s\<lparr>evloop := l\<rparr>))"

definition add_file_event :: "'x env \<Rightarrow> int \<Rightarrow> int \<Rightarrow> callback \<Rightarrow> (bool, 'x) op" where
  "add_file_event env fd events cb s =
     on_loop (AddFileEvent (env_epoll env (tick s)) fd events cb) (s\<lparr>tick := Suc (tick s)\<rparr>)"

definition add_timer :: "'x env \<Rightarrow> int \<Rightarrow> callback \<Rightarrow> (int, 'x) op" where
  "add_timer env timeout cb s =
     on_loop (\<lambda>l. Inr (AddTimer (env_clock env (tick s)) timeout cb l)) (s\<lparr>tick := Suc (tick s)\<rparr>)"

definition PlasmaStore :: "EventLoop \<Rightarrow> PlasmaAllocator \<Rightarrow> 'x \<Rightarrow> (nat \<Rightarrow> byte) \<Rightarrow> 'x store" where
  "PlasmaStore l a x m =
     \<lparr>objects = [], alloc = a, policy = new_QuotaAwarePolicy (GetFootprintLimit a), connected_clients = [],
      object_get_requests = [], get_heap = [], next_request = 0, evloop = l,
      pending_notifications = [], deletion_cache = [], mutex = False, memory = m, ext_state = x,
      outbox = [], tick = 0\<rparr>"

section \<open>Notifications\<close>

text \<open>
  The loop of \<open>SendNotifications\<close>: how many notifications were processed, and whether the
  subscriber is gone. A partial write aborts.
\<close>

fun notify_loop ::
    "'x env \<Rightarrow> int \<Rightarrow> byte list list \<Rightarrow> nat \<Rightarrow> (nat \<times> bool, 'x) op" where
  "notify_loop env fd [] n = mret (n, False)"
| "notify_loop env fd (notification # rest) n = (\<lambda>s.
     let s' = s\<lparr>tick := Suc (tick s)\<rparr> in
     case env_notify env (tick s) of
       NotifySent k \<Rightarrow>
         mbind (mcheck (k = length notification) ''nbytes == sizeof(int64_t) + size'')
           (\<lambda>_. notify_loop env fd rest (Suc n))
           (s'\<lparr>outbox := outbox s @ [SentNotification fd notification]\<rparr>)
     | NotifyErr e \<Rightarrow>
         if errno_retry e
         then mbind (add_file_event env fd kEventLoopWrite (CbSendNotifications fd)) (\<lambda>_. mret (n, False)) s'
         else if e = EPIPE then mret (n, True) s'
         else notify_loop env fd rest (Suc n) s')"

definition SendNotifications :: "'x env \<Rightarrow> int \<Rightarrow> (unit, 'x) op" where
  "SendNotifications env fd s =
     (case map_of (pending_notifications s) fd of
        None \<Rightarrow> Inl InvalidIterator
      | Some notifications \<Rightarrow>
          mbind (notify_loop env fd notifications 0) (\<lambda>(num_processed, closed).
            let rest = drop num_processed notifications in
            mbind (\<lambda>s. Inr ((), s\<lparr>pending_notifications := AList.update fd rest (pending_notifications s)\<rparr>)) (\<lambda>_.
            mbind (if rest = [] then on_loop (RemoveFileEvent fd) else mret ()) (\<lambda>_.
            if closed
            then mbind (close_fd fd) (\<lambda>_ s.
                   Inr ((), s\<lparr>pending_notifications := AList.delete fd (pending_notifications s)\<rparr>))
            else mret ()))) s)"

text \<open>
  \<open>PushNotifications\<close> walks over all subscribers; the iteration order is that of the map when
  the loop starts, since the loop itself only ever removes the current element.
\<close>

definition push_to :: "'x env \<Rightarrow> ObjectInfoT list \<Rightarrow> int \<Rightarrow> (unit, 'x) op" where
  "push_to env infos fd s =
     (case map_of (pending_notifications s) fd of
        None \<Rightarrow> Inr ((), s)
      | Some q \<Rightarrow>
          SendNotifications env fd
            (s\<lparr>pending_notifications :=
                AList.update fd (q @ [CreatePlasmaNotificationBuffer (env_enc env) infos]) (pending_notifications s)\<rparr>))"

definition PushNotifications :: "'x env \<Rightarrow> ObjectInfoT list \<Rightarrow> (unit, 'x) op" where
  "PushNotifications env infos s =
     mfold (\<lambda>fd _. push_to env infos fd) (map fst (pending_notifications s)) () s"

definition PushNotification :: "'x env \<Rightarrow> ObjectInfoT \<Rightarrow> (unit, 'x) op" where
  "PushNotification env info = PushNotifications env [info]"

definition PushNotification_to :: "'x env \<Rightarrow> ObjectInfoT \<Rightarrow> int \<Rightarrow> (unit, 'x) op" where
  "PushNotification_to env info client_fd = push_to env [info] client_fd"

definition zero_ObjectInfoT :: ObjectInfoT where
  "zero_ObjectInfoT = \<lparr>oi_object_id = [], oi_data_size = 0, oi_metadata_size = 0, oi_ref_count = 0,
     oi_create_time = 0, oi_construct_duration = 0, oi_digest = [], oi_is_deletion = False\<rparr>"

definition deletion_info :: "UniqueID \<Rightarrow> ObjectInfoT" where
  "deletion_info object_id = zero_ObjectInfoT\<lparr>oi_object_id := id_binary object_id, oi_is_deletion := True\<rparr>"

section \<open>Eviction\<close>

definition EraseFromObjectTable :: "'x env \<Rightarrow> UniqueID \<Rightarrow> (unit, 'x) op" where
  "EraseFromObjectTable env object_id =
     locked (mbind (deref_entry object_id) (\<lambda>entry s.
       rbind (if e_device_num entry = 0
              then Free (env_erase env) (nat (int (e_pointer entry) + e_offset entry))
                     (uint64_of (e_data_size entry + e_metadata_size entry)) (alloc s)
              else Inr (alloc s)) (\<lambda>a.
       Inr ((), s\<lparr>alloc := a, objects := AList.delete object_id (objects s)\<rparr>))))"

text \<open>The bytes of an \<open>arrow::Buffer\<close> over store memory.\<close>

definition buffer_bytes :: "'x store \<Rightarrow> nat \<Rightarrow> nat \<Rightarrow> byte list" where
  "buffer_bytes s p n = map (memory s) [p ..< p + n]"

text \<open>
  The first loop of \<open>EvictObjects\<close>: with an external store it collects what is to be written
  out, without one it erases the object at once.
\<close>

definition evict_one :: "'x env \<Rightarrow> UniqueID \<Rightarrow> byte list list \<Rightarrow> (byte list list, 'x) op" where
  "evict_one env object_id evicted_object_data =
     mbind (get_entry object_id) (\<lambda>entry.
     case entry of
       None \<Rightarrow> mfault (CheckFailed ''To evict an object it must be in the object table.'')
     | Some entry \<Rightarrow>
         mbind (mcheck (e_state entry = PLASMA_SEALED) ''To evict an object it must have been sealed.'') (\<lambda>_.
         mbind (mcheck (e_ref_count entry = 0)
                  ''To evict an object, there must be no clients currently using it.'') (\<lambda>_.
         if env_external env \<noteq> None
         then (\<lambda>s. Inr (evicted_object_data @
                 [buffer_bytes s (e_pointer entry) (uint64_of (e_data_size entry + e_metadata_size entry))], s))
         else mbind (EraseFromObjectTable env object_id) (\<lambda>_.
              mbind (PushNotification env (deletion_info object_id)) (\<lambda>_. mret evicted_object_data)))))"

text \<open>The second loop, under the lock: free the memory and keep a placeholder.\<close>

definition evict_free :: "'x env \<Rightarrow> UniqueID \<Rightarrow> unit \<Rightarrow> (unit, 'x) op" where
  "evict_free env object_id _ =
     mbind (deref_entry object_id) (\<lambda>entry.
     mbind (\<lambda>s. rbind (Free (env_erase env) (nat (int (e_pointer entry) + e_offset entry))
                        (uint64_of (e_data_size entry + e_metadata_size entry)) (alloc s)) (\<lambda>a.
               Inr ((), s\<lparr>alloc := a\<rparr>))) (\<lambda>_.
     set_entry object_id (\<lambda>e. e\<lparr>e_pointer := 0, e_state := PLASMA_EVICTED\<rparr>)))"

definition EvictObjects :: "'x env \<Rightarrow> UniqueID list \<Rightarrow> (unit, 'x) op" where
  "EvictObjects env object_ids =
     (if object_ids = [] then mret ()
      else mbind (mfold (evict_one env) object_ids []) (\<lambda>evicted_object_data.
           case env_external env of
             None \<Rightarrow> mret ()
           | Some ext \<Rightarrow> (\<lambda>s.
               rbind (es_Put ext object_ids evicted_object_data (ext_state s)) (\<lambda>(st, x).
               mbind (mcheck (st_ok st) ''external_store_->Put'') (\<lambda>_.
                 locked (mfold (evict_free env) object_ids ())) (s\<lparr>ext_state := x\<rparr>)))))"

section \<open>Reference counts\<close>

definition AddToClientObjectIds :: "UniqueID \<Rightarrow> int \<Rightarrow> (unit, 'x) op" where
  "AddToClientObjectIds object_id client =
     mbind (the_client client) (\<lambda>c.
     if object_id \<in> set (c_object_ids c) then mret ()
     else mbind (deref_entry object_id) (\<lambda>entry.
          mbind (if e_ref_count entry = 0
                 then (\<lambda>s. on_policy (BeginObjectAccess (objects s) object_id) s) else mret ()) (\<lambda>_.
          mbind (locked (set_entry object_id (\<lambda>e. e\<lparr>e_ref_count := e_ref_count e + 1\<rparr>))) (\<lambda>_.
          set_client client (\<lambda>c. c\<lparr>c_object_ids := c_object_ids c @ [object_id]\<rparr>)))))"

text \<open>\<open>True\<close> when the client was removed from the users of the object.\<close>

definition RemoveFromClientObjectIds :: "'x env \<Rightarrow> UniqueID \<Rightarrow> int \<Rightarrow> (bool, 'x) op" where
  "RemoveFromClientObjectIds env object_id client =
     mbind (the_client client) (\<lambda>c.
     if object_id \<in> set (c_object_ids c)
     then mbind (set_client client (\<lambda>c. c\<lparr>c_object_ids := removeAll object_id (c_object_ids c)\<rparr>)) (\<lambda>_.
          mbind (locked (set_entry object_id (\<lambda>e. e\<lparr>e_ref_count := e_ref_count e - 1\<rparr>))) (\<lambda>_.
          mbind (deref_entry object_id) (\<lambda>entry.
          mbind (if e_ref_count entry = 0
                 then (\<lambda>s. if object_id \<notin> set (deletion_cache s)
                           then on_policy (EndObjectAccess (objects s) object_id) s
                           else EvictObjects env [object_id]
                                  (s\<lparr>deletion_cache := removeAll object_id (deletion_cache s)\<rparr>))
                 else mret ()) (\<lambda>_. mret True))))
     else mret False)"

definition ReleaseObject :: "'x env \<Rightarrow> UniqueID \<Rightarrow> int \<Rightarrow> (unit, 'x) op" where
  "ReleaseObject env object_id client =
     mbind (get_entry object_id) (\<lambda>entry.
     mbind (mcheck (entry \<noteq> None) ''entry != nullptr'') (\<lambda>_.
     mbind (RemoveFromClientObjectIds env object_id client) (\<lambda>r.
     mcheck r ''RemoveFromClientObjectIds(object_id, entry, client) == 1'')))"

section \<open>Allocation\<close>

text \<open>
  The loop of \<open>AllocateMemory\<close>. Every pass that does not end the loop evicts at least one object
  of the global cache, so the length of that list bounds the number of passes; the fuel is one
  more than that length.
\<close>

fun alloc_loop ::
    "'x env \<Rightarrow> nat \<Rightarrow> nat \<Rightarrow> bool \<Rightarrow> AllocOut \<Rightarrow> 'x store \<Rightarrow> ((nat \<times> AllocOut) \<times> 'x store) res" where
  "alloc_loop env 0 sz evict_if_full out s = Inl OutOfFuel"
| "alloc_loop env (Suc n) sz evict_if_full out s =
     (case Memalign kBlockSize sz out (alloc s) of
        (pointer, out, a) \<Rightarrow>
          if pointer \<noteq> 0 \<or> \<not> evict_if_full then Inr ((pointer, out), s\<lparr>alloc := a\<rparr>)
          else rbind (RequireSpace a (int64_of (int sz)) [] (policy s)) (\<lambda>(success, objects_to_evict, p).
               rbind (EvictObjects env objects_to_evict (s\<lparr>alloc := a, policy := p\<rparr>)) (\<lambda>(_, s).
               if \<not> success then Inr ((0, out), s) else alloc_loop env n sz evict_if_full out s)))"

definition alloc_fuel :: "'x store \<Rightarrow> nat" where
  "alloc_fuel s = Suc (length (lru_keys (cache (policy s))))"

text \<open>The quota of the client comes first: \<open>False\<close> when the object is larger than the quota.\<close>

definition enforce_quota :: "'x env \<Rightarrow> nat \<Rightarrow> bool \<Rightarrow> int \<Rightarrow> bool \<Rightarrow> (bool, 'x) op" where
  "enforce_quota env sz evict_if_full client is_create s =
     (if \<not> evict_if_full then Inr (True, s)
      else rbind (EnforcePerClientQuota client (int64_of (int sz)) is_create [] (policy s))
             (\<lambda>(quota_ok, client_objects_to_evict, p).
              if \<not> quota_ok then Inr (False, s\<lparr>policy := p\<rparr>)
              else rbind (EvictObjects env client_objects_to_evict (s\<lparr>policy := p\<rparr>)) (\<lambda>(_, s). Inr (True, s))))"

definition AllocateMemory ::
    "'x env \<Rightarrow> nat \<Rightarrow> bool \<Rightarrow> AllocOut \<Rightarrow> int \<Rightarrow> bool \<Rightarrow> (nat \<times> AllocOut, 'x) op" where
  "AllocateMemory env sz evict_if_full out client is_create s =
     rbind (enforce_quota env sz evict_if_full client is_create s) (\<lambda>(go, s).
     if \<not> go then Inr ((0, out), s)
     else rbind (alloc_loop env (alloc_fuel s) sz evict_if_full out s) (\<lambda>((pointer, out), s).
          rbind (check (pointer = 0 \<or> out_fd out \<noteq> -1) ''*fd != -1'') (\<lambda>_.
          Inr ((pointer, out), s))))"

section \<open>Creation\<close>

definition AddObjectTableEntry ::
    "'x env \<Rightarrow> UniqueID \<Rightarrow> int \<Rightarrow> int \<Rightarrow> nat \<Rightarrow> AllocOut \<Rightarrow> int \<Rightarrow> (unit, 'x) op" where
  "AddObjectTableEntry env object_id ds ms pointer out dev =
     locked (mbind (now env) (\<lambda>t s.
       Inr ((), s\<lparr>objects := AList.update object_id
         (new_ObjectTableEntry\<lparr>e_data_size := ds, e_metadata_size := ms, e_pointer := pointer,
            e_fd := out_fd out, e_map_size := out_map_size out, e_offset := out_offset out,
            e_state := PLASMA_CREATED, e_device_num := dev, e_create_time := t,
            e_construct_duration := -1\<rparr>) (objects s)\<rparr>)))"

definition remote_status :: "'x env \<Rightarrow> UniqueID \<Rightarrow> (DetailStatus, 'x) op" where
  "remote_status env object_id s =
     rbind (RpcClient_GetObject (env_rpc env (tick s)) object_id) (\<lambda>d.
     Inr (d_status d, s\<lparr>tick := Suc (tick s)\<rparr>))"

definition ObjectExists_store :: "'x env \<Rightarrow> UniqueID \<Rightarrow> (bool, 'x) op" where
  "ObjectExists_store env object_id =
     mbind (get_entry object_id) (\<lambda>entry.
     if entry \<noteq> None then mret True
     else mbind (remote_status env object_id) (\<lambda>st. mret (st \<noteq> RD_MISSING)))"

definition CreateObject ::
    "'x env \<Rightarrow> UniqueID \<Rightarrow> bool \<Rightarrow> int \<Rightarrow> int \<Rightarrow> int \<Rightarrow> int \<Rightarrow> PlasmaObject \<Rightarrow> (PlasmaError \<times> PlasmaObject, 'x) op" where
  "CreateObject env object_id evict_if_full ds ms dev client result =
     mbind (ObjectExists_store env object_id) (\<lambda>ex.
     if ex then mret (ObjectExists, result)
     else if dev \<noteq> 0 then mret (OutOfMemory, result)
     else mbind (AllocateMemory env (uint64_of (sadd64 ds ms)) evict_if_full
                   \<lparr>out_fd = -1, out_map_size = 0, out_offset = 0\<rparr> client True) (\<lambda>(pointer, out).
          if pointer = 0 then mret (OutOfMemory, result)
          else mbind (AddObjectTableEntry env object_id ds ms pointer out dev) (\<lambda>_.
               mbind (\<lambda>s. on_policy (ObjectCreated (objects s) object_id client True) s) (\<lambda>_.
               mbind (AddToClientObjectIds object_id client) (\<lambda>_.
               mret (OK, result\<lparr>o_store_fd := out_fd out, o_data_offset := out_offset out,
                                o_metadata_offset := sadd64 (out_offset out) ds, o_data_size := ds,
                                o_metadata_size := ms, o_device_num := dev\<rparr>))))))"

definition PlasmaObject_init :: "ObjectTableEntry \<Rightarrow> PlasmaObject" where
  "PlasmaObject_init entry =
     \<lparr>o_store_fd = e_fd entry, o_data_offset = e_offset entry,
      o_metadata_offset = sadd64 (e_offset entry) (e_data_size entry),
      o_data_size = e_data_size entry, o_metadata_size = e_metadata_size entry,
      o_device_num = e_device_num entry\<rparr>"

section \<open>Lookup, abortion and deletion\<close>

definition ContainsObject :: "'x env \<Rightarrow> UniqueID \<Rightarrow> (ObjectStatus, 'x) op" where
  "ContainsObject env object_id =
     mbind (get_entry object_id) (\<lambda>entry.
     mbind (case entry of
              Some e \<Rightarrow> mret (e_state e = PLASMA_SEALED \<or> e_state e = PLASMA_EVICTED)
            | None \<Rightarrow> mbind (remote_status env object_id) (\<lambda>st. mret (st = RD_OK \<or> st = RD_EVICTED))) (\<lambda>found.
     mret (if found then OBJECT_FOUND else OBJECT_NOT_FOUND)))"

definition AbortObject :: "'x env \<Rightarrow> UniqueID \<Rightarrow> int \<Rightarrow> (bool, 'x) op" where
  "AbortObject env object_id client =
     mbind (get_entry object_id) (\<lambda>entry.
     case entry of
       None \<Rightarrow> mfault (CheckFailed ''To abort an object it must be in the object table.'')
     | Some entry \<Rightarrow>
         mbind (mcheck (e_state entry \<noteq> PLASMA_SEALED) ''To abort an object it must not have been sealed.'') (\<lambda>_.
         mbind (the_client client) (\<lambda>c.
         if object_id \<notin> set (c_object_ids c) then mret False
         else mbind (EraseFromObjectTable env object_id) (\<lambda>_.
              mbind (set_client client (\<lambda>c. c\<lparr>c_object_ids := removeAll object_id (c_object_ids c)\<rparr>)) (\<lambda>_.
              mret True)))))"

definition DeleteObject :: "'x env \<Rightarrow> UniqueID \<Rightarrow> (PlasmaError, 'x) op" where
  "DeleteObject env object_id =
     mbind (get_entry object_id) (\<lambda>entry.
     case entry of
       None \<Rightarrow> mret ObjectNotFound
     | Some entry \<Rightarrow>
         if e_state entry \<noteq> PLASMA_SEALED
         then (\<lambda>s. Inr (ObjectNotSealed, s\<lparr>deletion_cache := List.insert object_id (deletion_cache s)\<rparr>))
         else if e_ref_count entry \<noteq> 0
         then (\<lambda>s. Inr (ObjectInUse, s\<lparr>deletion_cache := List.insert object_id (deletion_cache s)\<rparr>))
         else mbind (on_policy (RemoveObject object_id)) (\<lambda>_.
              mbind (EraseFromObjectTable env object_id) (\<lambda>_.
              mbind (PushNotification env (deletion_info object_id)) (\<lambda>_. mret OK))))"

end
