(* ===== verification/Store_Get.thy ===== *)
theory Store_Get
  imports Store
begin

text \<open>
  Get requests and sealing (src/arrow/cpp/src/plasma/store.cc): a request waits until all its
  objects are there, or until its timer fires; sealing an object wakes the requests that wait
  for it.

  A \<open>GetRequest*\<close> is the number of a cell in \<open>get_heap\<close>; using a deleted request is a
  \<open>DanglingRef\<close>, and so is using the vector of waiting requests after its map entry is gone.
\<close>

section \<open>Requests\<close>

definition the_request :: "nat \<Rightarrow> (GetRequest, 'x) op" where
  "the_request r s = (case map_of (get_heap s) r of None \<Rightarrow> Inl DanglingRef | Some q \<Rightarrow> Inr (q, s))"

definition set_request :: "nat \<Rightarrow> (GetRequest \<Rightarrow> GetRequest) \<Rightarrow> (unit, 'x) op" where
  "set_request r f = mbind (the_request r) (\<lambda>q s.
     Inr ((), s\<lparr>get_heap := AList.update r (f q) (get_heap s)\<rparr>))"

definition unwait :: "nat \<Rightarrow> UniqueID \<Rightarrow> unit \<Rightarrow> (unit, 'x) op" where
  "unwait r object_id _ s =
     (case map_of (object_get_requests s) object_id of
        None \<Rightarrow> Inr ((), s)
      | Some get_requests \<Rightarrow>
          if r \<in> set get_requests
          then let rest = remove1 r get_requests
               in Inr ((), s\<lparr>object_get_requests :=
                     (if rest = [] then AList.delete object_id (object_get_requests s)
                      else AList.update object_id rest (object_get_requests s))\<rparr>)
          else Inr ((), s))"

definition RemoveGetRequest :: "nat \<Rightarrow> (unit, 'x) op" where
  "RemoveGetRequest r =
     mbind (the_request r) (\<lambda>q.
     mbind (mfold (unwait r) (gr_object_ids q) ()) (\<lambda>_.
     mbind (if gr_timer q \<noteq> -1
            then mbind (on_loop (\<lambda>l. Inr (RemoveTimer (gr_timer q) l)))
                   (\<lambda>err. mcheck (err = kEventLoopOk) ''loop_->RemoveTimer(get_request->timer) == kEventLoopOk'')
            else mret ()) (\<lambda>_ s.
     Inr ((), s\<lparr>get_heap := AList.delete r (get_heap s)\<rparr>))))"

definition RemoveGetRequestsForClient :: "int \<Rightarrow> (unit, 'x) op" where
  "RemoveGetRequestsForClient client s =
     (let waiting = concat (map snd (object_get_requests s));
          rs = remdups (filter (\<lambda>r. case map_of (get_heap s) r of Some q \<Rightarrow> gr_client q = client | None \<Rightarrow> False)
                 waiting)
      in if \<exists>r \<in> set waiting. map_of (get_heap s) r = None then Inl DanglingRef
         else mbind (mcheck (length rs \<le> 1) ''get_requests_to_remove.size() <= 1'')
                (\<lambda>_. mfold (\<lambda>r _. RemoveGetRequest r) rs ()) s)"

text \<open>
  The descriptors a reply needs: one for every local segment of a present object. \<open>operator[]\<close>
  creates a zero object for a requested identifier that has none.
\<close>

definition fds_step ::
    "(nat \<times> MmapRecord) list \<Rightarrow> UniqueID \<Rightarrow> (UniqueID \<times> PlasmaObject) list \<times> int list \<times> int list \<Rightarrow>
       ((UniqueID \<times> PlasmaObject) list \<times> int list \<times> int list) res" where
  "fds_step recs object_id = (\<lambda>(objs, store_fds, mmap_sizes).
     let object = object_at objs object_id;
         objs = (if map_of objs object_id = None then AList.update object_id object objs else objs);
         fd = o_store_fd object
     in if o_data_size object \<noteq> -1 \<and> fd \<notin> set store_fds \<and> fd \<noteq> -1
        then rbind (GetMmapSize fd recs) (\<lambda>m. Inr (objs, store_fds @ [fd], mmap_sizes @ [m]))
        else Inr (objs, store_fds, mmap_sizes))"

definition warn :: "int \<Rightarrow> errno \<Rightarrow> (unit, 'x) op" where
  "warn status e s = rbind (WarnIfSigpipe status e) (\<lambda>_. Inr ((), s))"

definition send_store_fd :: "'x env \<Rightarrow> int \<Rightarrow> int \<Rightarrow> unit \<Rightarrow> (unit, 'x) op" where
  "send_store_fd env client store_fd _ =
     mbind (the_client client) (\<lambda>c.
     if store_fd \<in> set (c_used_fds c) then mret ()
     else mbind (send_fd_to env client store_fd) (\<lambda>(r, e).
          mbind (warn r e) (\<lambda>_.
          set_client client (\<lambda>c. c\<lparr>c_used_fds := List.insert store_fd (c_used_fds c)\<rparr>))))"

definition ReturnFromGet :: "'x env \<Rightarrow> nat \<Rightarrow> (unit, 'x) op" where
  "ReturnFromGet env r =
     mbind (the_request r) (\<lambda>q s.
     rbind (rfold (fds_step (mmap_records (alloc s))) (gr_object_ids q) (gr_objects q, [], []))
       (\<lambda>(objs, store_fds, mmap_sizes).
     mbind (SendGetReply (send_to env (gr_client q)) (gr_object_ids q) objs (length (gr_object_ids q))
              store_fds mmap_sizes) (\<lambda>(st, e).
     mbind (warn (if st_ok st then 0 else -1) e) (\<lambda>_.
     mbind (if st_ok st then mfold (send_store_fd env (gr_client q)) store_fds () else mret ()) (\<lambda>_.
     RemoveGetRequest r)))
       (s\<lparr>get_heap := AList.update r (q\<lparr>gr_objects := objs\<rparr>) (get_heap s)\<rparr>)))"

section \<open>Waking requests\<close>

text \<open>
  The loop of \<open>UpdateObjectGetRequests\<close>: \<open>n\<close> passes are left and \<open>index\<close> is the position in the
  vector of waiting requests, which \<open>ReturnFromGet\<close> shortens.
\<close>

fun update_loop :: "'x env \<Rightarrow> UniqueID \<Rightarrow> nat \<Rightarrow> nat \<Rightarrow> (unit, 'x) op" where
  "update_loop env object_id 0 index = mret ()"
| "update_loop env object_id (Suc n) index = (\<lambda>s.
     case map_of (object_get_requests s) object_id of
       None \<Rightarrow> Inl DanglingRef
     | Some get_requests \<Rightarrow>
         rbind (vec_get get_requests index) (\<lambda>r.
         mbind (get_entry object_id) (\<lambda>entry.
         case entry of
           None \<Rightarrow> mfault (CheckFailed ''entry != nullptr'')
         | Some entry \<Rightarrow>
             mbind (set_request r (\<lambda>q. q\<lparr>gr_objects := AList.update object_id (PlasmaObject_init entry) (gr_objects q),
                                         gr_num_satisfied := gr_num_satisfied q + 1\<rparr>)) (\<lambda>_.
             mbind (the_request r) (\<lambda>q.
             mbind (AddToClientObjectIds object_id (gr_client q)) (\<lambda>_.
             if gr_num_satisfied q = gr_num_objects_to_wait_for q
             then mbind (ReturnFromGet env r) (\<lambda>_. update_loop env object_id n index)
             else update_loop env object_id n (Suc index))))) s))"

definition UpdateObjectGetRequests :: "'x env \<Rightarrow> UniqueID \<Rightarrow> (unit, 'x) op" where
  "UpdateObjectGetRequests env object_id s =
     (case map_of (object_get_requests s) object_id of
        None \<Rightarrow> Inr ((), s)
      | Some get_requests \<Rightarrow>
          mbind (update_loop env object_id (length get_requests) 0) (\<lambda>_ s.
          Inr ((), s\<lparr>object_get_requests := AList.delete object_id (object_get_requests s)\<rparr>)) s)"

section \<open>Sealing\<close>

definition seal_one :: "'x env \<Rightarrow> byte list list \<Rightarrow> UniqueID list \<Rightarrow> nat \<Rightarrow> ObjectInfoT list \<Rightarrow> (ObjectInfoT list, 'x) op" where
  "seal_one env digests object_ids i infos =
     (let object_id = object_ids ! i in
      locked (mbind (get_entry object_id) (\<lambda>entry.
      case entry of
        None \<Rightarrow> mfault (CheckFailed ''entry != nullptr'')
      | Some entry \<Rightarrow>
          mbind (mcheck (e_state entry = PLASMA_CREATED) ''entry->state == ObjectState::PLASMA_CREATED'') (\<lambda>_.
          if length digests \<le> i \<or> length (digests ! i @ [0]) < kDigestSize then mfault OutOfBounds
          else mbind (now env) (\<lambda>t.
          mbind (set_entry object_id (\<lambda>e. e\<lparr>e_state := PLASMA_SEALED,
                   e_digest := take kDigestSize (digests ! i @ [0]),
                   e_construct_duration := t - e_create_time e\<rparr>)) (\<lambda>_.
          mret (infos @ [zero_ObjectInfoT\<lparr>oi_object_id := id_binary object_id, oi_data_size := e_data_size entry,
                   oi_metadata_size := e_metadata_size entry, oi_digest := digests ! i\<rparr>])))))))"

definition SealObjects :: "'x env \<Rightarrow> UniqueID list \<Rightarrow> byte list list \<Rightarrow> (unit, 'x) op" where
  "SealObjects env object_ids digests =
     mbind (mfold (seal_one env digests object_ids) [0 ..< length object_ids] []) (\<lambda>infos.
     mbind (PushNotifications env infos) (\<lambda>_.
     mfold (\<lambda>object_id _. UpdateObjectGetRequests env object_id) object_ids ()))"

section \<open>Processing a get request\<close>

text \<open>The first loop sorts the requested identifiers: \<open>(check_remote_ids, evicted_ids)\<close>.\<close>

definition get_one ::
    "'x env \<Rightarrow> nat \<Rightarrow> int \<Rightarrow> UniqueID \<Rightarrow> UniqueID list \<times> UniqueID list \<Rightarrow> (UniqueID list \<times> UniqueID list, 'x) op" where
  "get_one env r client object_id = (\<lambda>(check_remote_ids, evicted_ids).
     mbind (get_entry object_id) (\<lambda>entry.
     case entry of
       Some entry \<Rightarrow>
         (case e_state entry of
            PLASMA_SEALED \<Rightarrow>
              mbind (set_request r (\<lambda>q. q\<lparr>gr_objects := AList.update object_id (PlasmaObject_init entry) (gr_objects q),
                                          gr_num_satisfied := gr_num_satisfied q + 1\<rparr>)) (\<lambda>_.
              mbind (AddToClientObjectIds object_id client) (\<lambda>_.
              mret (check_remote_ids, evicted_ids)))
          | PLASMA_EVICTED \<Rightarrow>
              mbind (mcheck (e_pointer entry = 0) ''!entry->pointer'') (\<lambda>_.
              mbind (locked (mbind (AllocateMemory env
                       (uint64_of (sadd64 (e_data_size entry) (e_metadata_size entry))) True
                       \<lparr>out_fd = e_fd entry, out_map_size = e_map_size entry, out_offset = e_offset entry\<rparr>
                       client False) (\<lambda>(pointer, out).
                     mbind (set_entry object_id (\<lambda>e. e\<lparr>e_pointer := pointer, e_fd := out_fd out,
                              e_map_size := out_map_size out, e_offset := out_offset out\<rparr>)) (\<lambda>_.
                     mret pointer)))) (\<lambda>pointer.
              if pointer \<noteq> 0
              then mbind (locked (mbind (now env) (\<lambda>t.
                     set_entry object_id (\<lambda>e. e\<lparr>e_state := PLASMA_CREATED, e_create_time := t\<rparr>)))) (\<lambda>_.
                   mbind (\<lambda>s. on_policy (ObjectCreated (objects s) object_id client False) s) (\<lambda>_.
                   mbind (AddToClientObjectIds object_id client) (\<lambda>_.
                   mret (check_remote_ids, evicted_ids @ [object_id]))))
              else mbind (locked (set_entry object_id (\<lambda>e. e\<lparr>e_state := PLASMA_EVICTED\<rparr>))) (\<lambda>_.
                   mret (check_remote_ids, evicted_ids))))
          | PLASMA_CREATED \<Rightarrow> mret (check_remote_ids @ [object_id], evicted_ids))
     | None \<Rightarrow> mret (check_remote_ids @ [object_id], evicted_ids)))"

definition get_remote ::
    "nat \<Rightarrow> ObjectDetails list \<Rightarrow> UniqueID list \<Rightarrow> nat \<Rightarrow> unit \<Rightarrow> (unit, 'x) op" where
  "get_remote r remote_entries check_remote_ids i _ = (\<lambda>s.
     let object_id = check_remote_ids ! i in
     rbind (vec_get remote_entries i) (\<lambda>remote_entry.
     if d_status remote_entry = RD_OK
     then set_request r (\<lambda>q. q\<lparr>gr_objects := AList.update object_id (remote_object (d_object remote_entry)) (gr_objects q),
                               gr_num_satisfied := gr_num_satisfied q + 1\<rparr>) s
     else mbind (set_request r (\<lambda>q. q\<lparr>gr_objects :=
                   AList.update object_id ((object_at (gr_objects q) object_id)\<lparr>o_data_size := -1\<rparr>) (gr_objects q)\<rparr>)) (\<lambda>_ s.
            Inr ((), s\<lparr>object_get_requests :=
               AList.update object_id
                 ((case map_of (object_get_requests s) object_id of Some rs \<Rightarrow> rs | None \<Rightarrow> []) @ [r])
                 (object_get_requests s)\<rparr>)) s))"

definition mem_write :: "nat \<Rightarrow> byte list \<Rightarrow> (nat \<Rightarrow> byte) \<Rightarrow> nat \<Rightarrow> byte" where
  "mem_write p bs m = (\<lambda>a. if p \<le> a \<and> a < p + length bs then bs ! (a - p) else m a)"

definition buffer_fill :: "UniqueID \<times> byte list option \<Rightarrow> unit \<Rightarrow> (unit, 'x) op" where
  "buffer_fill = (\<lambda>(object_id, content) _.
     mbind (deref_entry object_id) (\<lambda>entry s.
     Inr ((), case content of Some d \<Rightarrow> s\<lparr>memory := mem_write (e_pointer entry) d (memory s)\<rparr> | None \<Rightarrow> s)))"

definition get_restored :: "'x env \<Rightarrow> nat \<Rightarrow> UniqueID \<Rightarrow> unit \<Rightarrow> (unit, 'x) op" where
  "get_restored env r object_id _ =
     mbind (now env) (\<lambda>t.
     mbind (set_entry object_id (\<lambda>e. e\<lparr>e_state := PLASMA_SEALED, e_digest := replicate kDigestSize 0,
              e_construct_duration := t - e_create_time e\<rparr>)) (\<lambda>_.
     mbind (deref_entry object_id) (\<lambda>entry.
     set_request r (\<lambda>q. q\<lparr>gr_objects := AList.update object_id (PlasmaObject_init entry) (gr_objects q),
                          gr_num_satisfied := gr_num_satisfied q + 1\<rparr>))))"

definition check_pointer :: "UniqueID \<Rightarrow> nat list \<Rightarrow> (nat list, 'x) op" where
  "check_pointer object_id sizes =
     mbind (deref_entry object_id) (\<lambda>e.
     mbind (mcheck (e_pointer e \<noteq> 0) ''evicted_entries[i]->pointer != nullptr'') (\<lambda>_.
     mret (sizes @ [uint64_of (e_data_size e)])))"

definition get_evicted :: "'x env \<Rightarrow> nat \<Rightarrow> UniqueID list \<Rightarrow> (unit, 'x) op" where
  "get_evicted env r evicted_ids =
     mbind (mfold check_pointer evicted_ids []) (\<lambda>sizes.
     case env_external env of
       None \<Rightarrow> mfault NullDeref
     | Some ext \<Rightarrow> (\<lambda>s.
         rbind (es_Get ext evicted_ids sizes (ext_state s)) (\<lambda>(st, contents).
         mbind (mfold buffer_fill (zip evicted_ids contents) ()) (\<lambda>_.
         if st_ok st then mfold (get_restored env r) evicted_ids ()
         else locked (mfold (\<lambda>object_id _. set_entry object_id (\<lambda>e. e\<lparr>e_state := PLASMA_EVICTED\<rparr>)) evicted_ids ())) s)))"

text \<open>The objects that are not here: ask the other store, wait for those it does not have.\<close>

definition check_remote :: "'x env \<Rightarrow> nat \<Rightarrow> UniqueID list \<Rightarrow> (unit, 'x) op" where
  "check_remote env r check_remote_ids s =
     (if check_remote_ids = [] then Inr ((), s)
      else let remote_entries = RpcClient_GetObjects (env_rpc env (tick s)) check_remote_ids
           in mfold (get_remote r remote_entries check_remote_ids) [0 ..< length check_remote_ids] ()
                (s\<lparr>tick := Suc (tick s)\<rparr>))"

definition reply_or_wait :: "'x env \<Rightarrow> nat \<Rightarrow> int \<Rightarrow> (unit, 'x) op" where
  "reply_or_wait env r timeout_ms =
     mbind (the_request r) (\<lambda>q.
     if gr_num_satisfied q = gr_num_objects_to_wait_for q \<or> timeout_ms = 0 then ReturnFromGet env r
     else if timeout_ms \<noteq> -1
     then mbind (add_timer env timeout_ms (CbReturnFromGet r)) (\<lambda>t.
          set_request r (\<lambda>q. q\<lparr>gr_timer := t\<rparr>))
     else mret ())"

definition ProcessGetRequest :: "'x env \<Rightarrow> int \<Rightarrow> UniqueID list \<Rightarrow> int \<Rightarrow> (unit, 'x) op" where
  "ProcessGetRequest env client object_ids timeout_ms s =
     (let r = next_request s;
          s = s\<lparr>get_heap := AList.update r (new_GetRequest client object_ids) (get_heap s),
                next_request := Suc r\<rparr>
      in mbind (mfold (get_one env r client) object_ids ([], [])) (\<lambda>(check_remote_ids, evicted_ids).
         mbind (check_remote env r check_remote_ids) (\<lambda>_.
         mbind (if evicted_ids \<noteq> [] then get_evicted env r evicted_ids else mret ()) (\<lambda>_.
         reply_or_wait env r timeout_ms))) s)"

end
