(* ===== verification/Store_Dispatch.thy ===== *)
theory Store_Dispatch
  imports Store_Get
begin

text \<open>
  Connections, subscriptions and the dispatch of messages, and the start-up of the process
  (src/arrow/cpp/src/plasma/store.cc). \<open>ProcessMessage\<close> gets the message that \<open>ReadMessage\<close>
  delivered; the event loop turns an event into one of the callbacks of \<open>store_event\<close>.
\<close>

section \<open>Connections\<close>

text \<open>\<open>ConnectClient\<close> does not check the descriptor \<open>AcceptClient\<close> returned.\<close>

definition ConnectClient :: "'x env \<Rightarrow> sock_env \<Rightarrow> (unit, 'x) op" where
  "ConnectClient env sock =
     (let client_fd = AcceptClient sock in
      mbind (\<lambda>s. Inr ((), s\<lparr>connected_clients := AList.update client_fd (new_Client client_fd) (connected_clients s)\<rparr>)) (\<lambda>_.
      mbind (add_file_event env client_fd kEventLoopRead (CbProcessMessage client_fd)) (\<lambda>_. mret ())))"

text \<open>The loop over the objects of a leaving client: sealed ones are collected.\<close>

definition leave_one :: "'x env \<Rightarrow> UniqueID \<Rightarrow> UniqueID list \<Rightarrow> (UniqueID list, 'x) op" where
  "leave_one env object_id sealed_objects =
     mbind (get_entry object_id) (\<lambda>entry.
     case entry of
       None \<Rightarrow> mret sealed_objects
     | Some entry \<Rightarrow>
         if e_state entry = PLASMA_SEALED then mret (sealed_objects @ [object_id])
         else mbind (EraseFromObjectTable env object_id) (\<lambda>_. mret sealed_objects))"

definition close_notification :: "Client \<Rightarrow> (unit, 'x) op" where
  "close_notification c =
     (if 0 < c_notification_fd c
      then mbind (on_loop (RemoveFileEvent (c_notification_fd c))) (\<lambda>_.
           mbind (close_fd (c_notification_fd c)) (\<lambda>_ s.
           Inr ((), s\<lparr>pending_notifications := AList.delete (c_notification_fd c) (pending_notifications s)\<rparr>)))
      else mret ())"

definition DisconnectClient :: "'x env \<Rightarrow> int \<Rightarrow> (unit, 'x) op" where
  "DisconnectClient env client_fd =
     mbind (mcheck (0 < client_fd) ''client_fd > 0'') (\<lambda>_.
     mbind (\<lambda>s. mcheck (map_of (connected_clients s) client_fd \<noteq> None) ''it != connected_clients_.end()'' s) (\<lambda>_.
     mbind (on_loop (RemoveFileEvent client_fd)) (\<lambda>_.
     mbind (close_fd client_fd) (\<lambda>_.
     mbind (\<lambda>s. on_policy (ClientDisconnected (objects s) client_fd) s) (\<lambda>_.
     mbind (the_client client_fd) (\<lambda>c.
     mbind (mfold (leave_one env) (c_object_ids c) []) (\<lambda>sealed_objects.
     mbind (RemoveGetRequestsForClient client_fd) (\<lambda>_.
     mbind (mfold (\<lambda>object_id _. mbind (RemoveFromClientObjectIds env object_id client_fd) (\<lambda>_. mret ()))
              sealed_objects ()) (\<lambda>_.
     mbind (close_notification c) (\<lambda>_ s.
     Inr ((), s\<lparr>connected_clients := AList.delete client_fd (connected_clients s)\<rparr>)))))))))))"

definition sealed_info :: "UniqueID \<Rightarrow> ObjectTableEntry \<Rightarrow> ObjectInfoT" where
  "sealed_info object_id e =
     zero_ObjectInfoT\<lparr>oi_object_id := id_binary object_id, oi_data_size := e_data_size e,
       oi_metadata_size := e_metadata_size e, oi_digest := take kDigestSize (e_digest e)\<rparr>"

definition receive_fd :: "'x env \<Rightarrow> (int, 'x) op" where
  "receive_fd env s = Inr (env_recv_fd env (tick s), s\<lparr>tick := Suc (tick s)\<rparr>)"

text \<open>\<open>pending_notifications_[fd]\<close> creates an empty queue.\<close>

definition touch_queue :: "int \<Rightarrow> (unit, 'x) op" where
  "touch_queue fd s = Inr ((), s\<lparr>pending_notifications :=
     (if map_of (pending_notifications s) fd = None then AList.update fd [] (pending_notifications s)
      else pending_notifications s)\<rparr>)"

definition push_existing :: "'x env \<Rightarrow> int \<Rightarrow> (unit, 'x) op" where
  "push_existing env fd s =
     mfold (\<lambda>(object_id, e) _. if e_state e = PLASMA_SEALED
                               then PushNotification_to env (sealed_info object_id e) fd else mret ())
       (objects s) () s"

definition SubscribeToUpdates :: "'x env \<Rightarrow> int \<Rightarrow> (unit, 'x) op" where
  "SubscribeToUpdates env client =
     mbind (the_client client) (\<lambda>c.
     if 0 < c_notification_fd c then mret ()
     else mbind (receive_fd env) (\<lambda>fd.
          if fd < 0 then mret ()
          else mbind (touch_queue fd) (\<lambda>_.
               mbind (set_client client (\<lambda>c. c\<lparr>c_notification_fd := fd\<rparr>)) (\<lambda>_.
               push_existing env fd))))"

section \<open>Messages\<close>

text \<open>\<open>HANDLE_SIGPIPE(m, fd)\<close> followed by \<open>k\<close>.\<close>

definition handle :: "(Status \<times> errno, 'x) op \<Rightarrow> (Status, 'x) op \<Rightarrow> (Status, 'x) op" where
  "handle m k = mbind m (\<lambda>(st, e). case HANDLE_SIGPIPE st e of Some s \<Rightarrow> mret s | None \<Rightarrow> k)"

definition mlift :: "'a res \<Rightarrow> ('a, 'x) op" where
  "mlift m s = rbind m (\<lambda>x. Inr (x, s))"

definition process_create :: "'x env \<Rightarrow> int \<Rightarrow> fb_table \<Rightarrow> (Status, 'x) op" where
  "process_create env client t =
     mbind (mlift (ReadCreateRequest t)) (\<lambda>(object_id, evict_if_full, ds, ms, dev).
     mbind (CreateObject env object_id evict_if_full ds ms dev client zero_PlasmaObject) (\<lambda>(error_code, object).
     mbind (if error_code = OK \<and> dev = 0
            then (\<lambda>s. mlift (GetMmapSize (o_store_fd object) (mmap_records (alloc s))) s) else mret 0) (\<lambda>mmap_size.
     mbind (mlift (SendCreateReply (send_to env client) object_id object error_code mmap_size)) (\<lambda>send.
     handle send
       (mbind (the_client client) (\<lambda>c.
        if error_code = OK \<and> dev = 0 \<and> o_store_fd object \<notin> set (c_used_fds c)
        then mbind (send_store_fd env client (o_store_fd object) ()) (\<lambda>_. mret Status_OK)
        else mret Status_OK))))))"

text \<open>Writing inlined data: \<open>memcpy\<close> to \<open>entry->pointer\<close>.\<close>

definition write_object :: "UniqueID \<Rightarrow> byte list \<Rightarrow> byte list \<Rightarrow> (unit, 'x) op" where
  "write_object object_id data metadata =
     mbind (get_entry object_id) (\<lambda>entry.
     case entry of
       None \<Rightarrow> mfault (CheckFailed ''entry != nullptr'')
     | Some e \<Rightarrow> (\<lambda>s.
         Inr ((), s\<lparr>memory := mem_write (e_pointer e + length data) metadata
                                (mem_write (e_pointer e) data (memory s))\<rparr>)))"

definition process_create_and_seal :: "'x env \<Rightarrow> int \<Rightarrow> fb_table \<Rightarrow> (Status, 'x) op" where
  "process_create_and_seal env client t =
     mbind (mlift (ReadCreateAndSealRequest t)) (\<lambda>(object_id, evict_if_full, data, metadata, digest).
     mbind (CreateObject env object_id evict_if_full (int (length data)) (int (length metadata)) 0 client
              zero_PlasmaObject) (\<lambda>(error_code, object).
     mbind (if error_code = OK
            then mbind (write_object object_id data metadata) (\<lambda>_.
                 mbind (SealObjects env [object_id] [digest]) (\<lambda>_.
                 mbind (RemoveFromClientObjectIds env object_id client) (\<lambda>r.
                 mcheck r ''RemoveFromClientObjectIds(object_id, entry, client) == 1'')))
            else mret ()) (\<lambda>_.
     handle (SendCreateAndSealReply (send_to env client) error_code) (mret Status_OK))))"

text \<open>The creation loop of a batch stops at the first error; \<open>i\<close> objects have been created.\<close>

fun batch_create ::
    "'x env \<Rightarrow> int \<Rightarrow> bool \<Rightarrow> UniqueID list \<Rightarrow> byte list list \<Rightarrow> byte list list \<Rightarrow> nat \<Rightarrow> (PlasmaError \<times> nat, 'x) op" where
  "batch_create env client ev [] data metadata i = mret (OK, i)"
| "batch_create env client ev (object_id # ids) data metadata i =
     mbind (mlift (vec_get data i)) (\<lambda>d.
     mbind (mlift (vec_get metadata i)) (\<lambda>m.
     mbind (CreateObject env object_id ev (int (length d)) (int (length m)) 0 client zero_PlasmaObject) (\<lambda>(error_code, _).
     if error_code \<noteq> OK then mret (error_code, i)
     else batch_create env client ev ids data metadata (Suc i))))"

definition process_batch :: "'x env \<Rightarrow> int \<Rightarrow> fb_table \<Rightarrow> (Status, 'x) op" where
  "process_batch env client t =
     mbind (mlift (ReadCreateAndSealBatchRequest t)) (\<lambda>(object_ids, evict_if_full, data, metadata, digests).
     mbind (batch_create env client evict_if_full object_ids data metadata 0) (\<lambda>(error_code, i).
     mbind (if error_code = OK
            then mbind (mfold (\<lambda>j _. write_object (object_ids ! j) (data ! j) (metadata ! j)) [0 ..< length object_ids] ()) (\<lambda>_.
                 mbind (SealObjects env object_ids digests) (\<lambda>_.
                 mfold (\<lambda>object_id _. mbind (RemoveFromClientObjectIds env object_id client) (\<lambda>r.
                          mcheck r ''RemoveFromClientObjectIds(object_ids[i], entry, client) == 1'')) object_ids ()))
            else mfold (\<lambda>object_id _. mbind (AbortObject env object_id client) (\<lambda>_. mret ())) (take i object_ids) ()) (\<lambda>_.
     handle (SendCreateAndSealBatchReply (send_to env client) error_code) (mret Status_OK))))"

definition process_delete :: "'x env \<Rightarrow> int \<Rightarrow> fb_table \<Rightarrow> (Status, 'x) op" where
  "process_delete env client t =
     mbind (mlift (ReadDeleteRequest t)) (\<lambda>object_ids.
     mbind (mfold (\<lambda>object_id errs. mbind (DeleteObject env object_id) (\<lambda>e. mret (errs @ [e]))) object_ids []) (\<lambda>error_codes.
     handle (SendDeleteReply (send_to env client) object_ids error_codes) (mret Status_OK)))"

text \<open>Make room for a number of bytes, whoever owns the objects.\<close>

definition evict_bytes :: "'x env \<Rightarrow> int \<Rightarrow> (int, 'x) op" where
  "evict_bytes env num_bytes s =
     rbind (ep_ChooseObjectsToEvict num_bytes [] (policy s)) (\<lambda>(num_bytes_evicted, objects_to_evict, p).
     mbind (EvictObjects env objects_to_evict) (\<lambda>_. mret num_bytes_evicted) (s\<lparr>policy := p\<rparr>))"

definition process_evict :: "'x env \<Rightarrow> int \<Rightarrow> fb_table \<Rightarrow> (Status, 'x) op" where
  "process_evict env client t =
     mbind (mlift (ReadEvictRequest t)) (\<lambda>num_bytes.
     mbind (evict_bytes env num_bytes) (\<lambda>num_bytes_evicted.
     handle (SendEvictReply (send_to env client) num_bytes_evicted) (mret Status_OK)))"

definition set_quota :: "int \<Rightarrow> string \<Rightarrow> int \<Rightarrow> (bool, 'x) op" where
  "set_quota client client_name output_memory_quota s =
     rbind (SetClientQuota client client_name output_memory_quota (policy s)) (\<lambda>(ok, p).
     Inr (ok, s\<lparr>policy := p\<rparr>))"

definition process_set_options :: "'x env \<Rightarrow> int \<Rightarrow> fb_table \<Rightarrow> (Status, 'x) op" where
  "process_set_options env client t =
     mbind (mlift (ReadSetOptionsRequest t)) (\<lambda>(client_name, output_memory_quota).
     mbind (set_client client (\<lambda>c. c\<lparr>c_name := client_name\<rparr>)) (\<lambda>_.
     mbind (set_quota client client_name output_memory_quota) (\<lambda>success.
     handle (SendSetOptionsReply (send_to env client) (if success then OK else OutOfMemory)) (mret Status_OK))))"

definition ProcessMessage :: "'x env \<Rightarrow> int \<Rightarrow> read_out \<Rightarrow> (Status, 'x) op" where
  "ProcessMessage env client msg =
     mbind (mcheck (st_ok (ro_status msg) \<or> IsIOError (ro_status msg)) ''s.ok() || s.IsIOError()'') (\<lambda>_.
     let t = env_root env (ro_buffer msg) in
     case message_of (ro_type msg) of
       Some PlasmaCreateRequest \<Rightarrow> process_create env client t
     | Some PlasmaCreateAndSealRequest \<Rightarrow> process_create_and_seal env client t
     | Some PlasmaCreateAndSealBatchRequest \<Rightarrow> process_batch env client t
     | Some PlasmaAbortRequest \<Rightarrow>
         mbind (mlift (ReadAbortRequest t)) (\<lambda>object_id.
         mbind (AbortObject env object_id client) (\<lambda>r.
         mbind (mcheck r ''To abort an object, the only client currently using it must be the creator.'') (\<lambda>_.
         handle (SendAbortReply (send_to env client) object_id) (mret Status_OK))))
     | Some PlasmaGetRequest \<Rightarrow>
         mbind (mlift (ReadGetRequest t)) (\<lambda>(object_ids_to_get, timeout_ms).
         mbind (ProcessGetRequest env client object_ids_to_get timeout_ms) (\<lambda>_. mret Status_OK))
     | Some PlasmaReleaseRequest \<Rightarrow>
         mbind (mlift (ReadReleaseRequest t)) (\<lambda>object_id.
         mbind (ReleaseObject env object_id client) (\<lambda>_. mret Status_OK))
     | Some PlasmaDeleteRequest \<Rightarrow> process_delete env client t
     | Some PlasmaContainsRequest \<Rightarrow>
         mbind (mlift (ReadContainsRequest t)) (\<lambda>object_id.
         mbind (ContainsObject env object_id) (\<lambda>r.
         handle (SendContainsReply (send_to env client) object_id (r = OBJECT_FOUND)) (mret Status_OK)))
     | Some PlasmaListRequest \<Rightarrow>
         mbind (mlift (ReadListRequest t)) (\<lambda>_.
         (\<lambda>s. handle (SendListReply (send_to env client) (objects s)) (mret Status_OK) s))
     | Some PlasmaSealRequest \<Rightarrow>
         mbind (mlift (ReadSealRequest t)) (\<lambda>(object_id, digest).
         mbind (SealObjects env [object_id] [digest]) (\<lambda>_.
         handle (SendSealReply (send_to env client) object_id OK) (mret Status_OK)))
     | Some PlasmaEvictRequest \<Rightarrow> process_evict env client t
     | Some PlasmaRefreshLRURequest \<Rightarrow>
         mbind (mlift (ReadRefreshLRURequest t)) (\<lambda>object_ids.
         mbind (on_policy (RefreshObjects object_ids)) (\<lambda>_.
         handle (SendRefreshLRUReply (send_to env client)) (mret Status_OK)))
     | Some PlasmaSubscribeRequest \<Rightarrow>
         mbind (SubscribeToUpdates env client) (\<lambda>_. mret Status_OK)
     | Some PlasmaConnectRequest \<Rightarrow>
         (\<lambda>s. handle (SendConnectReply (send_to env client) (GetFootprintLimit (alloc s))) (mret Status_OK) s)
     | Some PlasmaDisconnectClient \<Rightarrow>
         mbind (DisconnectClient env client) (\<lambda>_. mret Status_OK)
     | Some PlasmaSetOptionsRequest \<Rightarrow> process_set_options env client t
     | Some PlasmaGetDebugStringRequest \<Rightarrow>
         (\<lambda>s. handle (SendGetDebugStringReply (send_to env client) (policy_DebugString (env_fmt env) (alloc s) (policy s)))
                 (mret Status_OK) s)
     | _ \<Rightarrow> mfault (CheckFailed ''0''))"

section \<open>Events\<close>

text \<open>
  What the event loop can deliver: a message on a client's socket, a new connection, room on a
  notification socket, a timer that fires.
\<close>

datatype store_event =
    EvMessage int read_out
  | EvAccept sock_env
  | EvWritable int
  | EvTimer int

text \<open>
  A handler runs only if its callback is registered. A message handler whose status is not OK
  ends the process.
\<close>

definition store_event_step :: "'x env \<Rightarrow> store_event \<Rightarrow> (unit, 'x) op" where
  "store_event_step env ev s =
     (case ev of
        EvMessage fd msg \<Rightarrow>
          (case map_of (file_callbacks (evloop s)) fd of
             Some (_, CbProcessMessage c) \<Rightarrow>
               mbind (ProcessMessage env c msg) (\<lambda>st. mcheck (st_ok st) ''Failed to process file event'') s
           | _ \<Rightarrow> Inr ((), s))
      | EvAccept sock \<Rightarrow> ConnectClient env sock s
      | EvWritable fd \<Rightarrow>
          (case map_of (file_callbacks (evloop s)) fd of
             Some (_, CbSendNotifications c) \<Rightarrow> SendNotifications env c s
           | _ \<Rightarrow> Inr ((), s))
      | EvTimer t \<Rightarrow>
          (case map_of (timer_callbacks (evloop s)) t of
             Some (_, CbReturnFromGet r) \<Rightarrow> ReturnFromGet env r s
           | _ \<Rightarrow> Inr ((), s)))"

text \<open>The kernel gives \<open>accept\<close> a descriptor that is not open.\<close>

definition fresh_accept :: "'x store \<Rightarrow> store_event \<Rightarrow> bool" where
  "fresh_accept s ev = (case ev of EvAccept sock \<Rightarrow> map_of (connected_clients s) (AcceptClient sock) = None | _ \<Rightarrow> True)"

definition store_run :: "'x env \<Rightarrow> store_event list \<Rightarrow> (unit, 'x) op" where
  "store_run env evs = mfold (\<lambda>ev _. store_event_step env ev) evs ()"

section \<open>Start-up\<close>

text \<open>
  \<open>sscanf\<close> with \<open>%ld%c\<close>: one conversion exactly when the text is a number (blanks and a sign
  may come first) and nothing follows.
\<close>

definition is_digit :: "char \<Rightarrow> bool" where
  "is_digit c \<longleftrightarrow> c \<in> set ''0123456789''"

definition digit_value :: "char \<Rightarrow> int" where
  "digit_value c = int (length (takeWhile (\<lambda>d. d \<noteq> c) ''0123456789''))"

definition digits_value :: "string \<Rightarrow> int" where
  "digits_value ds = foldl (\<lambda>a d. 10 * a + digit_value d) 0 ds"

definition is_blank :: "char \<Rightarrow> bool" where
  "is_blank c \<longleftrightarrow> c \<in> {CHR '' '', CHR 0x09, CHR 0x0A, CHR 0x0B, CHR 0x0C, CHR 0x0D}"

definition scan_memory :: "string \<Rightarrow> int option" where
  "scan_memory str =
     (let str = dropWhile is_blank str;
          neg = (str \<noteq> [] \<and> hd str = CHR ''-'');
          ds = (if str \<noteq> [] \<and> (hd str = CHR ''-'' \<or> hd str = CHR ''+'') then tl str else str)
      in if ds \<noteq> [] \<and> list_all is_digit ds
         then Some (if neg then - digits_value ds else digits_value ds) else None)"

record flags =
  FLAGS_d :: string
  FLAGS_e :: string
  FLAGS_h :: bool
  FLAGS_s :: string
  FLAGS_m :: string
  FLAGS_v :: string

record main_env =
  m_open :: "string \<Rightarrow> int"
  m_mmap :: "int \<Rightarrow> int \<Rightarrow> nat"
  m_shm_avail :: "string \<Rightarrow> int"

datatype main_result = UsageError string | ServerStarted PlasmaAllocator "string option" int

text \<open>
  \<open>main\<close> up to \<open>StartServer\<close>: the result names the usage error it exits with, or the allocator,
  the external store and the memory limit the server starts with. \<open>stores\<close> is the registry of
  external stores with the status of their \<open>Connect\<close>.
\<close>

definition store_main :: "main_env \<Rightarrow> (string \<times> (string \<Rightarrow> Status)) list \<Rightarrow> flags \<Rightarrow> main_result res" where
  "store_main env stores f =
     (let scanned = (if FLAGS_m f = [] then Some (-1) else scan_memory (FLAGS_m f)) in
      case scanned of
        None \<Rightarrow> Inr (UsageError ''-m switch takes memory in bytes, with no letter suffix allowed'')
      | Some system_memory \<Rightarrow>
          let a = (if FLAGS_m f = [] then initial_PlasmaAllocator
                   else SetFootprintLimit (uint64_of system_memory) initial_PlasmaAllocator);
              fd = m_open env (FLAGS_v f)
          in rbind (Init fd (m_mmap env (GetFootprintLimit a) fd) a) (\<lambda>a.
             if FLAGS_s f = [] \<and> system_memory = -1
             then Inr (UsageError ''please specify socket for incoming connections with -s, and the amount of memory (in bytes) to use with -m'')
             else if FLAGS_s f = []
             then Inr (UsageError ''please specify socket for incoming connections with -s'')
             else if system_memory = -1
             then Inr (UsageError ''please specify the amount of memory (in bytes) to use with -m'')
             else if FLAGS_h f \<and> FLAGS_d f = []
             then Inr (UsageError ''if you want to use hugepages, please specify path to huge pages filesystem with -d'')
             else rbind (check (FLAGS_d f \<noteq> []) ''!plasma_directory.empty()'') (\<lambda>_.
               let avail = cdiv (9 * m_shm_avail env (FLAGS_d f)) 10;
                   system_memory = (if \<not> FLAGS_h f \<and> avail < system_memory then avail else system_memory)
               in if FLAGS_e f = [] then Inr (ServerStarted a None system_memory)
                  else case ExtractStoreName (FLAGS_e f) of
                    (st, name) \<Rightarrow>
                      rbind (check (st_ok st) ''ExtractStoreName'') (\<lambda>_.
                      case GetStore name stores of
                        None \<Rightarrow> Inr (UsageError (''no such external store '' @ [CHR 0x22] @ name @ [CHR 0x22]))
                      | Some connect \<Rightarrow>
                          rbind (check (st_ok (connect (FLAGS_e f))) ''external_store->Connect'') (\<lambda>_.
                          Inr (ServerStarted a (Some name) system_memory))))))"

end
