(* ===== verification/Store_Effects.thy ===== *)
theory Store_Effects
  imports Store_Dispatch
begin

text \<open>
  What the operations of the store may change. \<open>steps R m\<close>: every normal return of \<open>m\<close> relates
  the stores before and after by \<open>R\<close>. The rules for sequencing are proved once for every
  preorder \<open>R\<close> in the locale \<open>effect\<close> and used for three of them: \<open>same\<close> (nothing that counts is
  touched: sockets, notifications, requests and timers), \<open>shrinks\<close> (objects nobody uses are
  evicted, nothing else happens) and, for a predicate \<open>P\<close>, preservation of \<open>P\<close>.
\<close>

section \<open>Effects\<close>

definition steps :: "('x store \<Rightarrow> 'x store \<Rightarrow> bool) \<Rightarrow> ('a, 'x) op \<Rightarrow> bool" where
  "steps R m \<longleftrightarrow> (\<forall>s r s'. m s = Inr (r, s') \<longrightarrow> R s s')"

named_theorems steps_intros \<open>effects of operations\<close>

lemma stepsI: "(\<And>s r s'. m s = Inr (r, s') \<Longrightarrow> R s s') \<Longrightarrow> steps R m"
  by (simp add: steps_def)

lemma stepsD: "steps R m \<Longrightarrow> m s = Inr (r, s') \<Longrightarrow> R s s'"
  by (simp add: steps_def)

lemma steps_mono: "steps R m \<Longrightarrow> (\<And>s s'. R s s' \<Longrightarrow> Q s s') \<Longrightarrow> steps Q m"
  by (auto simp: steps_def)

lemma mbind_Inr: "mbind m f s = Inr (r, s') \<longleftrightarrow> (\<exists>x t. m s = Inr (x, t) \<and> f x t = Inr (r, s'))"
  by (auto simp: mbind_def rbind_eq_Inr)

lemma mbind_InrE:
  assumes "mbind m f s = Inr (r, s')"
  obtains x t where "m s = Inr (x, t)" and "f x t = Inr (r, s')"
  using assms by (auto simp: mbind_Inr)

lemma mret_Inr [simp]: "mret x s = Inr (r, s') \<longleftrightarrow> r = x \<and> s' = s"
  by (auto simp: mret_def)

lemma mcheck_Inr [simp]: "mcheck b msg s = Inr (r, s') \<longleftrightarrow> b \<and> s' = s"
  by (auto simp: mcheck_def rbind_eq_Inr)

lemma mfault_Inr [simp]: "mfault f s \<noteq> Inr x"
  by (simp add: mfault_def)

lemma mlift_Inr: "mlift m s = Inr (r, s') \<longleftrightarrow> m = Inr r \<and> s' = s"
  by (auto simp: mlift_def rbind_eq_Inr)

lemma get_entry_Inr [simp]: "get_entry i s = Inr (r, s') \<longleftrightarrow> r = map_of (objects s) i \<and> s' = s"
  by (auto simp: get_entry_def GetObjectTableEntry_def)

lemma deref_entry_Inr [simp]: "deref_entry i s = Inr (r, s') \<longleftrightarrow> map_of (objects s) i = Some r \<and> s' = s"
  by (auto simp: deref_entry_def GetObjectTableEntry_def split: option.splits)

lemma the_client_Inr [simp]: "the_client fd s = Inr (r, s') \<longleftrightarrow> map_of (connected_clients s) fd = Some r \<and> s' = s"
  by (auto simp: the_client_def split: option.splits)

lemma the_request_Inr [simp]: "the_request q s = Inr (r, s') \<longleftrightarrow> map_of (get_heap s) q = Some r \<and> s' = s"
  by (auto simp: the_request_def split: option.splits)

lemma set_entry_Inr:
  "set_entry i f s = Inr (r, s') \<longleftrightarrow>
     (\<exists>e. map_of (objects s) i = Some e \<and> s' = s\<lparr>objects := AList.update i (f e) (objects s)\<rparr>)"
  by (auto simp: set_entry_def GetObjectTableEntry_def split: option.splits)

lemma set_client_Inr:
  "set_client fd f s = Inr (r, s') \<longleftrightarrow>
     (\<exists>c. map_of (connected_clients s) fd = Some c \<and>
          s' = s\<lparr>connected_clients := AList.update fd (f c) (connected_clients s)\<rparr>)"
  by (auto simp: set_client_def mbind_Inr)

lemma set_request_Inr:
  "set_request q f s = Inr (r, s') \<longleftrightarrow>
     (\<exists>g. map_of (get_heap s) q = Some g \<and> s' = s\<lparr>get_heap := AList.update q (f g) (get_heap s)\<rparr>)"
  by (auto simp: set_request_def mbind_Inr)

lemma locked_Inr:
  "locked m s = Inr (r, s') \<longleftrightarrow>
     \<not> mutex s \<and> (\<exists>t. m (s\<lparr>mutex := True\<rparr>) = Inr (r, t) \<and> s' = t\<lparr>mutex := False\<rparr>)"
  by (auto simp: locked_def mbind_Inr lock_mutex_def unlock_mutex_def)

lemma on_policy_Inr:
  "on_policy f s = Inr (r, s') \<longleftrightarrow> (\<exists>p. f (policy s) = Inr p \<and> s' = s\<lparr>policy := p\<rparr>)"
  by (auto simp: on_policy_def rbind_eq_Inr)

lemma on_loop_Inr:
  "on_loop f s = Inr (r, s') \<longleftrightarrow> (\<exists>l. f (evloop s) = Inr (r, l) \<and> s' = s\<lparr>evloop := l\<rparr>)"
  by (auto simp: on_loop_def rbind_eq_Inr)

lemma now_Inr [simp]: "now env s = Inr (r, s') \<longleftrightarrow> r = env_time env (tick s) \<and> s' = s\<lparr>tick := Suc (tick s)\<rparr>"
  by (auto simp: now_def)

lemmas op_Inr = mbind_Inr mlift_Inr set_entry_Inr set_client_Inr set_request_Inr locked_Inr
  on_policy_Inr on_loop_Inr rbind_eq_Inr

text \<open>A fold keeps what each of its steps keeps, the accumulator included.\<close>

lemma mfold_invariant:
  assumes "mfold f xs a s = Inr (r, s')" and "P a s"
    and "\<And>x b t b' t'. x \<in> set xs \<Longrightarrow> P b t \<Longrightarrow> f x b t = Inr (b', t') \<Longrightarrow> P b' t'"
  shows "P r s'"
  using assms
proof (induction xs arbitrary: a s)
  case (Cons x xs)
  from Cons.prems(1) obtain b t where t: "f x a s = Inr (b, t)" "mfold f xs b t = Inr (r, s')"
    by (auto simp: mbind_Inr)
  show ?case
  proof (rule Cons.IH [OF t(2)])
    show "P b t" using Cons.prems(3) [OF _ Cons.prems(2) t(1)] by simp
    show "\<And>y b t b' t'. y \<in> set xs \<Longrightarrow> P b t \<Longrightarrow> f y b t = Inr (b', t') \<Longrightarrow> P b' t'"
      using Cons.prems(3) by (meson list.set_intros(2))
  qed
qed simp

lemma mbind_assoc: "mbind (mbind m f) g = mbind m (\<lambda>x. mbind (f x) g)"
  by (rule ext) (auto simp: mbind_def rbind_def split: sum.splits)

lemma mbind_ret [simp]: "mbind (mret x) f = f x"
  by (rule ext) (simp add: mbind_def mret_def)

lemma mfold_append: "mfold f (xs @ ys) a = mbind (mfold f xs a) (mfold f ys)"
proof (induction xs arbitrary: a)
  case (Cons x xs)
  then have "mfold f (xs @ ys) = (\<lambda>b. mbind (mfold f xs b) (mfold f ys))" by (rule ext)
  then show ?case by (simp add: mbind_assoc)
qed simp

text \<open>If every step makes \<open>Q\<close> true of its element and keeps it of all others, \<open>Q\<close> holds of all at the end.\<close>

lemma mfold_each:
  assumes "mfold f xs a s = Inr (r, s')" and "I s"
    and "\<And>x b t b' t'. x \<in> set xs \<Longrightarrow> I t \<Longrightarrow> f x b t = Inr (b', t') \<Longrightarrow> I t'"
    and "\<And>x b t b' t'. x \<in> set xs \<Longrightarrow> I t \<Longrightarrow> f x b t = Inr (b', t') \<Longrightarrow> Q x t'"
    and "\<And>x y b t b' t'. x \<in> set xs \<Longrightarrow> y \<in> set xs \<Longrightarrow> I t \<Longrightarrow> Q y t \<Longrightarrow> f x b t = Inr (b', t') \<Longrightarrow> Q y t'"
  shows "\<forall>x \<in> set xs. Q x s'"
  using assms
proof (induction xs arbitrary: a s)
  case Nil
  show ?case by simp
next
  case (Cons x xs)
  from Cons.prems(1) obtain b t where t: "f x a s = Inr (b, t)" "mfold f xs b t = Inr (r, s')"
    by (auto simp: mbind_Inr)
  have i: "I t" and q: "Q x t" using Cons.prems(3,4) [OF _ Cons.prems(2) t(1)] by simp_all
  have "\<forall>y \<in> set xs. Q y s'"
  proof (rule Cons.IH [OF t(2) i])
    show "\<And>y b t b' t'. y \<in> set xs \<Longrightarrow> I t \<Longrightarrow> f y b t = Inr (b', t') \<Longrightarrow> I t'"
      by (rule Cons.prems(3)) simp_all
    show "\<And>y b t b' t'. y \<in> set xs \<Longrightarrow> I t \<Longrightarrow> f y b t = Inr (b', t') \<Longrightarrow> Q y t'"
      by (rule Cons.prems(4)) simp_all
    show "\<And>y z b t b' t'. y \<in> set xs \<Longrightarrow> z \<in> set xs \<Longrightarrow> I t \<Longrightarrow> Q z t \<Longrightarrow>
            f y b t = Inr (b', t') \<Longrightarrow> Q z t'"
      by (rule Cons.prems(5)) simp_all
  qed
  moreover have "I s' \<and> Q x s'"
  proof (rule mfold_invariant [OF t(2), where P = "\<lambda>_ t. I t \<and> Q x t"])
    fix y b t b' t'
    assume "y \<in> set xs" and "I t \<and> Q x t" and "f y b t = Inr (b', t')"
    then show "I t' \<and> Q x t'"
      using Cons.prems(3) [of y t b b' t'] Cons.prems(5) [of y x t b b' t'] by simp
  qed (simp add: i q)
  ultimately show ?case by simp
qed

locale effect =
  fixes R :: "'x store \<Rightarrow> 'x store \<Rightarrow> bool"
  assumes refl: "R s s"
    and trans: "R s t \<Longrightarrow> R t u \<Longrightarrow> R s u"
begin

lemma ret: "steps R (mret x)"
  by (auto simp: steps_def intro: refl)

lemma fault: "steps R (mfault f)"
  by (simp add: steps_def)

lemma check_step: "steps R (mcheck b msg)"
  by (auto simp: steps_def intro: refl)

lemma reads: "steps R (get_entry i)" "steps R (deref_entry i)" "steps R (the_client fd)" "steps R (the_request q)"
  "steps R (mlift m)"
  by (auto simp: steps_def mlift_Inr intro: refl)

lemma bind:
  assumes "steps R m" and "\<And>x. steps R (f x)"
  shows "steps R (mbind m f)"
proof (rule stepsI)
  fix s r s' assume "mbind m f s = Inr (r, s')"
  then obtain x t where "m s = Inr (x, t)" and "f x t = Inr (r, s')" by (rule mbind_InrE)
  then have "R s t" and "R t s'" using assms by (auto dest: stepsD)
  then show "R s s'" by (rule trans)
qed

lemma fold: "(\<And>x a. x \<in> set xs \<Longrightarrow> steps R (f x a)) \<Longrightarrow> steps R (mfold f xs a)"
proof (induction xs arbitrary: a)
  case Nil
  then show ?case by (simp add: ret)
next
  case (Cons x xs)
  then show ?case by (auto intro!: bind)
qed

lemma hand:
  assumes "steps R m" and "steps R k"
  shows "steps R (handle m k)"
  unfolding handle_def
proof (rule bind [OF assms(1)])
  fix x
  show "steps R (case x of (st, e) \<Rightarrow> case HANDLE_SIGPIPE st e of None \<Rightarrow> k | Some s \<Rightarrow> mret s)"
    using assms(2) by (cases x) (simp add: ret split: option.splits)
qed

lemma lock: "(\<And>s b. R s (s\<lparr>mutex := b\<rparr>)) \<Longrightarrow> steps R m \<Longrightarrow> steps R (locked m)"
  unfolding locked_def
  by (intro bind ret) (auto simp: steps_def lock_mutex_def unlock_mutex_def)

lemmas rules = ret fault check_step reads bind fold

end

interpretation keep: effect "\<lambda>s s'. P s \<longrightarrow> P s'" for P
  by unfold_locales auto

section \<open>Operations that leave objects and their users alone\<close>

definition ids_of :: "'x store \<Rightarrow> int \<Rightarrow> UniqueID list option" where
  "ids_of s fd = map_option c_object_ids (map_of (connected_clients s) fd)"

lemma ids_of_update [simp]:
  "ids_of (t\<lparr>tick := n\<rparr>) = ids_of t" "ids_of (t\<lparr>outbox := ob\<rparr>) = ids_of t"
  "ids_of (t\<lparr>pending_notifications := pn\<rparr>) = ids_of t" "ids_of (t\<lparr>evloop := l\<rparr>) = ids_of t"
  "ids_of (t\<lparr>get_heap := h\<rparr>) = ids_of t" "ids_of (t\<lparr>object_get_requests := g\<rparr>) = ids_of t"
  "ids_of (t\<lparr>next_request := k\<rparr>) = ids_of t" "ids_of (t\<lparr>memory := m\<rparr>) = ids_of t"
  "ids_of (t\<lparr>ext_state := x\<rparr>) = ids_of t" "ids_of (t\<lparr>mutex := b\<rparr>) = ids_of t"
  "ids_of (t\<lparr>objects := os\<rparr>) = ids_of t" "ids_of (t\<lparr>policy := p\<rparr>) = ids_of t"
  "ids_of (t\<lparr>alloc := a\<rparr>) = ids_of t" "ids_of (t\<lparr>deletion_cache := d\<rparr>) = ids_of t"
  by (simp_all add: ids_of_def fun_eq_iff)

definition same :: "'x store \<Rightarrow> 'x store \<Rightarrow> bool" where
  "same s s' \<longleftrightarrow> objects s' = objects s \<and> policy s' = policy s \<and> alloc s' = alloc s \<and>
     deletion_cache s' = deletion_cache s \<and> ids_of s' = ids_of s \<and> loop_uses (evloop s) (evloop s')"

interpretation same: effect same
  by unfold_locales (auto simp: same_def intro: loop_uses.none loop_uses_trans)

lemma same_locked [steps_intros]: "steps same m \<Longrightarrow> steps same (locked m)"
  by (rule same.lock) (auto simp: same_def ids_of_def)

lemma same_now [steps_intros]: "steps same (now env)"
  by (auto simp: steps_def same_def ids_of_def)

lemma same_send [steps_intros]: "steps same (send_to env fd mt t)"
  by (auto simp: steps_def same_def ids_of_def send_to_def split: prod.splits)

lemma same_send_fd [steps_intros]: "steps same (send_fd_to env conn fd)"
  by (auto simp: steps_def same_def ids_of_def send_fd_to_def split: prod.splits)

lemma same_close [steps_intros]: "steps same (close_fd fd)"
  by (auto simp: steps_def same_def ids_of_def close_fd_def intro: loop_use)

lemma same_pending [steps_intros]: "steps same (\<lambda>s. Inr (r, s\<lparr>pending_notifications := f s\<rparr>))"
  by (auto simp: steps_def same_def ids_of_def)

lemma same_loop: "(\<And>l r l'. f l = Inr (r, l') \<Longrightarrow> loop_uses l l') \<Longrightarrow> steps same (on_loop f)"
  by (auto simp: steps_def same_def ids_of_def on_loop_Inr)

lemma same_loops [steps_intros]:
  "steps same (on_loop (RemoveFileEvent fd))" "steps same (on_loop (\<lambda>l. Inr (RemoveTimer i l)))"
  by (rule same_loop, auto intro: loop_use)+

lemma same_add_file_event [steps_intros]:
  "ev \<in> {kEventLoopRead, kEventLoopWrite} \<Longrightarrow> steps same (add_file_event env fd ev cb)"
  by (auto simp: steps_def same_def ids_of_def add_file_event_def on_loop_Inr intro: loop_use)

lemma same_add_timer [steps_intros]: "steps same (add_timer env ms cb)"
  by (auto simp: steps_def same_def ids_of_def add_timer_def on_loop_Inr intro: loop_use)

lemma same_set_request [steps_intros]: "steps same (set_request r f)"
  by (auto simp: steps_def same_def ids_of_def set_request_Inr)

lemma same_warn [steps_intros]: "steps same (warn n e)"
  by (auto simp: steps_def same_def ids_of_def warn_def rbind_eq_Inr)

lemma same_set_client [steps_intros]:
  "(\<And>c. c_object_ids (f c) = c_object_ids c) \<Longrightarrow> steps same (set_client fd f)"
  by (auto simp: steps_def same_def ids_of_def set_client_Inr update_conv')

lemma same_unwait [steps_intros]: "steps same (unwait r i u)"
  by (auto simp: steps_def same_def ids_of_def unwait_def Let_def split: option.splits if_splits)

text \<open>State components that \<open>same\<close> does not look at.\<close>

lemma same_update [simp]:
  "same s (t\<lparr>tick := n\<rparr>) \<longleftrightarrow> same s t" "same s (t\<lparr>outbox := ob\<rparr>) \<longleftrightarrow> same s t"
  "same s (t\<lparr>pending_notifications := pn\<rparr>) \<longleftrightarrow> same s t"
  "same s (t\<lparr>get_heap := h\<rparr>) \<longleftrightarrow> same s t" "same s (t\<lparr>object_get_requests := g\<rparr>) \<longleftrightarrow> same s t"
  "same s (t\<lparr>next_request := k\<rparr>) \<longleftrightarrow> same s t" "same s (t\<lparr>memory := m\<rparr>) \<longleftrightarrow> same s t"
  "same s (t\<lparr>ext_state := x\<rparr>) \<longleftrightarrow> same s t" "same s (t\<lparr>mutex := b\<rparr>) \<longleftrightarrow> same s t"
  by (simp_all add: same_def)

lemma same_refl [simp]: "same s s"
  by (rule same.refl)

lemma same_pre [simp]:
  "same (t\<lparr>tick := n\<rparr>) s \<longleftrightarrow> same t s" "same (t\<lparr>outbox := ob\<rparr>) s \<longleftrightarrow> same t s"
  "same (t\<lparr>pending_notifications := pn\<rparr>) s \<longleftrightarrow> same t s"
  "same (t\<lparr>get_heap := h\<rparr>) s \<longleftrightarrow> same t s" "same (t\<lparr>object_get_requests := g\<rparr>) s \<longleftrightarrow> same t s"
  "same (t\<lparr>next_request := k\<rparr>) s \<longleftrightarrow> same t s" "same (t\<lparr>memory := m\<rparr>) s \<longleftrightarrow> same t s"
  "same (t\<lparr>ext_state := x\<rparr>) s \<longleftrightarrow> same t s" "same (t\<lparr>mutex := b\<rparr>) s \<longleftrightarrow> same t s"
  by (simp_all add: same_def)

lemma same_notify_loop [steps_intros]: "steps same (notify_loop env fd ns n)"
proof (induction ns arbitrary: n)
  case Nil
  show ?case by (simp add: same.ret)
next
  case (Cons x ns)
  show ?case
  proof (rule stepsI)
    fix s r s'
    assume "notify_loop env fd (x # ns) n s = Inr (r, s')"
    then show "same s s'"
      by (auto simp: Let_def op_Inr split: notify_out.splits if_splits
          dest!: stepsD [OF Cons.IH] stepsD [OF same_add_file_event, rotated])
  qed
qed

lemma same_SendNotifications [steps_intros]: "steps same (SendNotifications env fd)"
proof (rule stepsI)
  fix s :: "'a store" and r s'
  assume run: "SendNotifications env fd s = Inr (r, s')"
  then obtain ns where ns: "map_of (pending_notifications s) fd = Some ns" by (auto simp: SendNotifications_def split: option.splits)
  have "steps same (mbind (notify_loop env fd ns 0) (\<lambda>(num_processed, closed).
     let rest = drop num_processed ns in
     mbind (\<lambda>s. Inr ((), s\<lparr>pending_notifications := AList.update fd rest (pending_notifications s)\<rparr>)) (\<lambda>_.
     mbind (if rest = [] then on_loop (RemoveFileEvent fd) else mret ()) (\<lambda>_.
     if closed
     then mbind (close_fd fd) (\<lambda>_ s. Inr ((), s\<lparr>pending_notifications := AList.delete fd (pending_notifications s)\<rparr>))
     else mret ()))))"
    by (auto intro!: same.rules steps_intros simp: Let_def split: prod.splits)
  from stepsD [OF this] run ns show "same s s'" by (simp add: SendNotifications_def)
qed

lemma same_push_to [steps_intros]: "steps same (push_to env infos fd)"
  unfolding steps_def push_to_def
  by (auto split: option.splits dest: stepsD [OF same_SendNotifications])

lemma same_PushNotifications [steps_intros]: "steps same (PushNotifications env infos)"
proof -
  have "steps same (mfold (\<lambda>fd _. push_to env infos fd) fds ())" for fds
    by (intro same.rules steps_intros)
  then show ?thesis by (auto simp: steps_def PushNotifications_def)
qed

lemma same_PushNotification [steps_intros]:
  "steps same (PushNotification env info)" "steps same (PushNotification_to env info fd)"
  unfolding PushNotification_def PushNotification_to_def by (rule steps_intros)+

lemma same_RemoveGetRequest [steps_intros]: "steps same (RemoveGetRequest r)"
  unfolding RemoveGetRequest_def
  by (auto intro!: same.rules steps_intros simp: steps_def [where m = "\<lambda>s. Inr (_ s)"])

lemma same_RemoveGetRequestsForClient [steps_intros]: "steps same (RemoveGetRequestsForClient fd)"
proof -
  have "steps same (mfold (\<lambda>r _. RemoveGetRequest r) rs u)" for rs u
    by (intro same.rules steps_intros)
  from stepsD [OF this] show ?thesis
    by (intro stepsI) (auto simp: RemoveGetRequestsForClient_def Let_def op_Inr split: if_splits)
qed

lemma same_send_store_fd [steps_intros]: "steps same (send_store_fd env client fd u)"
  unfolding send_store_fd_def
  by (auto intro!: same.rules steps_intros split: prod.splits)

lemma same_SendGetReply [steps_intros]:
  "steps same (SendGetReply (send_to env client) ids objs n fds sizes)"
  unfolding SendGetReply_def by (rule same_send)

lemma same_ReturnFromGet [steps_intros]: "steps same (ReturnFromGet env r)"
proof (rule stepsI)
  fix s :: "'a store" and u s'
  assume "ReturnFromGet env r s = Inr (u, s')"
  then obtain q objs fds sizes where
    run: "mbind (SendGetReply (send_to env (gr_client q)) (gr_object_ids q) objs (length (gr_object_ids q)) fds sizes)
       (\<lambda>(st, e). mbind (warn (if st_ok st then 0 else -1) e) (\<lambda>_.
          mbind (if st_ok st then mfold (send_store_fd env (gr_client q)) fds () else mret ()) (\<lambda>_.
          RemoveGetRequest r)))
       (s\<lparr>get_heap := AList.update r (q\<lparr>gr_objects := objs\<rparr>) (get_heap s)\<rparr>) = Inr (u, s')"
    unfolding ReturnFromGet_def by (elim mbind_InrE rbind_InrE) (auto split: prod.splits)
  have "steps same (mbind (SendGetReply (send_to env (gr_client q)) (gr_object_ids q) objs (length (gr_object_ids q)) fds sizes)
       (\<lambda>(st, e). mbind (warn (if st_ok st then 0 else -1) e) (\<lambda>_.
          mbind (if st_ok st then mfold (send_store_fd env (gr_client q)) fds () else mret ()) (\<lambda>_.
          RemoveGetRequest r))))"
    by (auto intro!: same.rules steps_intros split: prod.splits)
  from stepsD [OF this run] show "same s s'" by simp
qed

section \<open>Eviction\<close>

text \<open>What is left of an evicted object: nothing, or a placeholder if there is an external store.\<close>

definition evicted_entry :: "'x env \<Rightarrow> ObjectTableEntry \<Rightarrow> ObjectTableEntry option" where
  "evicted_entry env e =
     (if env_external env = None then None else Some (e\<lparr>e_pointer := 0, e_state := PLASMA_EVICTED\<rparr>))"

definition unused :: "'x store \<Rightarrow> UniqueID \<Rightarrow> ObjectTableEntry \<Rightarrow> bool" where
  "unused s i e \<longleftrightarrow> map_of (objects s) i = Some e \<and> e_state e = PLASMA_SEALED \<and> e_ref_count e = 0"

text \<open>Exactly the objects \<open>is\<close> are evicted, each of them sealed and unused before.\<close>

definition evicts :: "'x env \<Rightarrow> UniqueID set \<Rightarrow> 'x store \<Rightarrow> 'x store \<Rightarrow> bool" where
  "evicts env is s s' \<longleftrightarrow>
     ids_of s' = ids_of s \<and> policy s' = policy s \<and> deletion_cache s' = deletion_cache s \<and>
     (\<forall>i \<in> is. \<exists>e. unused s i e \<and> map_of (objects s') i = evicted_entry env e) \<and>
     (\<forall>i. i \<notin> is \<longrightarrow> map_of (objects s') i = map_of (objects s) i)"

lemma same_objects: "same s s' \<Longrightarrow> objects s' = objects s \<and> policy s' = policy s \<and> ids_of s' = ids_of s \<and>
    deletion_cache s' = deletion_cache s \<and> alloc s' = alloc s"
  by (simp add: same_def)

lemma EraseFromObjectTable_Inr:
  assumes "EraseFromObjectTable env i s = Inr (r, s')"
  shows "map_of (objects s) i \<noteq> None \<and> objects s' = AList.delete i (objects s) \<and> policy s' = policy s \<and>
    ids_of s' = ids_of s \<and> deletion_cache s' = deletion_cache s \<and> connected_clients s' = connected_clients s"
  using assms by (auto simp: EraseFromObjectTable_def op_Inr split: if_splits)

lemma evict_one_local:
  assumes "env_external env = None" and "evict_one env i ds s = Inr (r, s')"
  shows "evicts env {i} s s'"
proof -
  from assms obtain e t u where e: "unused s i e" and
    t: "EraseFromObjectTable env i s = Inr (u, t)" and
    n: "PushNotification env (deletion_info i) t = Inr (u, s')"
    by (fastforce simp: evict_one_def op_Inr unused_def split: option.splits)
  from stepsD [OF same_PushNotification(1) n] have "same t s'" .
  with EraseFromObjectTable_Inr [OF t] e assms(1) show ?thesis
    by (auto simp: evicts_def evicted_entry_def dest!: same_objects simp: delete_conv')
qed

lemma evicts_refl: "evicts env {} s s"
  by (simp add: evicts_def)

lemma evicts_trans:
  assumes "evicts env A s t" and "evicts env B t u"
  shows "evicts env (A \<union> B) s u"
proof -
  have nu: "\<not> unused t i e" if iA: "i \<in> A" for i e
  proof -
    obtain e' where "map_of (objects t) i = evicted_entry env e'"
      using assms(1) iA by (auto simp: evicts_def)
    then show ?thesis by (auto simp: unused_def evicted_entry_def split: if_splits)
  qed
  then have dis: "i \<notin> B" if "i \<in> A" for i
    using assms(2) that by (fastforce simp: evicts_def)
  show ?thesis
    using assms dis unfolding evicts_def unused_def by (metis Un_iff)
qed

lemma evict_fold_local:
  "env_external env = None \<Longrightarrow> mfold (evict_one env) ids ds s = Inr (r, s') \<Longrightarrow> evicts env (set ids) s s'"
proof (induction ids arbitrary: ds s)
  case Nil
  then show ?case by (simp add: evicts_refl)
next
  case (Cons i ids)
  from Cons.prems(2) obtain x t where "evict_one env i ds s = Inr (x, t)" and "mfold (evict_one env) ids x t = Inr (r, s')"
    by (auto simp: mbind_Inr)
  with Cons.IH Cons.prems(1) evict_one_local have "evicts env ({i} \<union> set ids) s s'"
    by (blast intro: evicts_trans)
  then show ?case by simp
qed

lemma evict_one_external:
  "env_external env \<noteq> None \<Longrightarrow> evict_one env i ds s = Inr (r, s') \<Longrightarrow> s' = s \<and> (\<exists>e. unused s i e)"
  by (auto simp: mbind_Inr evict_one_def unused_def split: option.splits)

lemma evict_fold_external:
  "env_external env \<noteq> None \<Longrightarrow> mfold (evict_one env) ids ds s = Inr (r, s') \<Longrightarrow>
     s' = s \<and> (\<forall>i \<in> set ids. \<exists>e. unused s i e)"
proof (induction ids arbitrary: ds)
  case (Cons i ids)
  from Cons.prems obtain x t where 1: "evict_one env i ds s = Inr (x, t)" and 2: "mfold (evict_one env) ids x t = Inr (r, s')"
    by (auto simp: mbind_Inr)
  from evict_one_external [OF Cons.prems(1) 1] have "t = s" and "\<exists>e. unused s i e" by auto
  with 2 Cons.IH Cons.prems(1) show ?case by auto
qed simp

lemma evict_free_Inr:
  assumes "evict_free env i u s = Inr (r, s')"
  obtains e where "map_of (objects s) i = Some e"
    and "map_of (objects s') = (map_of (objects s))(i \<mapsto> e\<lparr>e_pointer := 0, e_state := PLASMA_EVICTED\<rparr>)"
    and "ids_of s' = ids_of s" and "policy s' = policy s" and "deletion_cache s' = deletion_cache s"
  using assms by (auto simp: evict_free_def op_Inr update_conv')

lemma evict_free_fold:
  assumes "env_external env \<noteq> None" and "\<forall>i \<in> set ids. \<exists>e. unused s i e"
    and "mfold (evict_free env) ids u s = Inr (r, s')"
  shows "evicts env (set ids) s s'"
  using assms
proof (induction ids arbitrary: r s' rule: rev_induct)
  case Nil
  then show ?case by (simp add: evicts_refl)
next
  case (snoc i ids)
  from snoc.prems(3) obtain v t where t: "mfold (evict_free env) ids u s = Inr (v, t)"
    and i: "evict_free env i v t = Inr (r, s')"
    by (auto simp: mfold_append mbind_Inr)
  from snoc.IH [OF snoc.prems(1) _ t] snoc.prems(2) have ev: "evicts env (set ids) s t" by simp
  from i show ?case
  proof (rule evict_free_Inr)
    fix e
    assume e: "map_of (objects t) i = Some e" and *: "map_of (objects s') = (map_of (objects t))(i \<mapsto> e\<lparr>e_pointer := 0, e_state := PLASMA_EVICTED\<rparr>)"
      "ids_of s' = ids_of t" "policy s' = policy t" "deletion_cache s' = deletion_cache t"
    obtain e0 where e0: "unused s i e0" using snoc.prems(2) by auto
    have "map_of (objects t) i \<in> {Some e0, evicted_entry env e0}"
      using ev e0 unfolding evicts_def unused_def by (cases "i \<in> set ids") auto
    then have "e\<lparr>e_pointer := 0, e_state := PLASMA_EVICTED\<rparr> = e0\<lparr>e_pointer := 0, e_state := PLASMA_EVICTED\<rparr>"
      using e snoc.prems(1) by (auto simp: evicted_entry_def)
    then show ?case
      using ev * e0 snoc.prems(1) unfolding evicts_def evicted_entry_def by auto
  qed
qed

text \<open>\<open>EvictObjects\<close> evicts exactly the objects it is given, or aborts.\<close>

lemma EvictObjects_evicts:
  assumes "EvictObjects env ids s = Inr (r, s')"
  shows "evicts env (set ids) s s'"
proof (cases "ids = []")
  case True
  then show ?thesis using assms by (simp add: EvictObjects_def evicts_refl)
next
  case ne: False
  show ?thesis
  proof (cases "env_external env")
    case None
    then show ?thesis using assms ne by (auto simp: EvictObjects_def op_Inr intro: evict_fold_local)
  next
    case (Some ext)
    from assms ne Some obtain ds t x u where
      1: "mfold (evict_one env) ids [] s = Inr (ds, t)" and
      2: "mfold (evict_free env) ids () (t\<lparr>ext_state := x, mutex := True\<rparr>) = Inr ((), u)" and
      u: "s' = u\<lparr>mutex := False\<rparr>"
      by (auto simp: EvictObjects_def op_Inr)
    from evict_fold_external [OF _ 1] Some have t: "t = s" and un: "\<forall>i \<in> set ids. \<exists>e. unused s i e" by auto
    have "evicts env (set ids) (s\<lparr>ext_state := x, mutex := True\<rparr>) u"
      by (rule evict_free_fold [OF _ _ 2 [unfolded t]]) (use Some un in \<open>auto simp: unused_def\<close>)
    then show ?thesis by (simp add: evicts_def unused_def u)
  qed
qed

text \<open>
  Allocation only ever evicts unused objects. \<open>shrinks\<close> says no more than that, so that it is a
  preorder and covers the loops of \<open>AllocateMemory\<close>.
\<close>

definition shrinks :: "'x store \<Rightarrow> 'x store \<Rightarrow> bool" where
  "shrinks s s' \<longleftrightarrow> ids_of s' = ids_of s \<and> deletion_cache s' = deletion_cache s \<and>
     (\<forall>i. map_of (objects s') i = map_of (objects s) i \<or>
        (\<exists>e. unused s i e \<and>
           map_of (objects s') i \<in> {None, Some (e\<lparr>e_pointer := 0, e_state := PLASMA_EVICTED\<rparr>)}))"

lemma evicts_shrinks: "evicts env is s s' \<Longrightarrow> shrinks s s'"
  unfolding evicts_def shrinks_def evicted_entry_def by (metis insertCI)

interpretation shrinks: effect shrinks
proof
  fix s t u :: "'a store"
  show "shrinks s s" by (simp add: shrinks_def)
  assume 1: "shrinks s t" and 2: "shrinks t u"
  have "map_of (objects u) i = map_of (objects s) i \<or> (\<exists>e. unused s i e \<and>
      map_of (objects u) i \<in> {None, Some (e\<lparr>e_pointer := 0, e_state := PLASMA_EVICTED\<rparr>)})" for i
  proof (cases "map_of (objects u) i = map_of (objects t) i")
    case True
    then show ?thesis using 1 by (simp add: shrinks_def)
  next
    case False
    then obtain e where e: "unused t i e" and
      u: "map_of (objects u) i \<in> {None, Some (e\<lparr>e_pointer := 0, e_state := PLASMA_EVICTED\<rparr>)}"
      using 2 unfolding shrinks_def by meson
    from e have "map_of (objects t) i \<notin> {None, Some (e'\<lparr>e_pointer := 0, e_state := PLASMA_EVICTED\<rparr>)}" for e'
      by (auto simp: unused_def)
    then have "map_of (objects t) i = map_of (objects s) i"
      using 1 unfolding shrinks_def by meson
    with e u show ?thesis by (auto simp: unused_def)
  qed
  with 1 2 show "shrinks s u" by (simp add: shrinks_def)
qed

lemma shrinks_update [simp]:
  "shrinks (s\<lparr>alloc := a\<rparr>) t = shrinks s t" "shrinks (s\<lparr>policy := p\<rparr>) t = shrinks s t"
  "shrinks s (t\<lparr>alloc := a\<rparr>) = shrinks s t" "shrinks s (t\<lparr>policy := p\<rparr>) = shrinks s t"
  by (simp_all add: shrinks_def unused_def)

lemma shrinks_alloc_loop:
  "alloc_loop env n sz ev out s = Inr (r, s') \<Longrightarrow> shrinks s s'"
proof (induction n arbitrary: out s)
  case (Suc n)
  obtain ptr out1 a where m: "Memalign kBlockSize sz out (alloc s) = (ptr, out1, a)"
    by (cases "Memalign kBlockSize sz out (alloc s)") auto
  show ?case
  proof (cases "ptr \<noteq> 0 \<or> \<not> ev")
    case True
    with Suc.prems m show ?thesis by (auto simp: shrinks.refl)
  next
    case False
    with Suc.prems m obtain ok vs p t where
      ev: "EvictObjects env vs (s\<lparr>alloc := a, policy := p\<rparr>) = Inr ((), t)" and
      rest: "s' = t \<or> alloc_loop env n sz ev out1 t = Inr (r, s')"
      by (auto simp: rbind_eq_Inr split: if_splits)
    from evicts_shrinks [OF EvictObjects_evicts [OF ev]] have "shrinks s t" by simp
    with rest Suc.IH show ?thesis by (blast intro: shrinks.trans)
  qed
qed simp

lemma enforce_quota_Inr:
  assumes "enforce_quota env sz ev client cr s = Inr (go, s')"
  obtains "s' = s" and "go" | vs p where "ev"
    and "EnforcePerClientQuota client (int64_of (int sz)) cr [] (policy s) = Inr (go, vs, p)"
    and "\<not> go \<and> s' = s\<lparr>policy := p\<rparr> \<or> go \<and> EvictObjects env vs (s\<lparr>policy := p\<rparr>) = Inr ((), s')"
  using assms by (auto simp: enforce_quota_def rbind_eq_Inr split: if_splits)

lemma shrinks_enforce_quota: "enforce_quota env sz ev client cr s = Inr (go, s') \<Longrightarrow> shrinks s s'"
  by (elim enforce_quota_Inr) (auto simp: shrinks.refl dest!: EvictObjects_evicts evicts_shrinks)

lemma shrinks_AllocateMemory [steps_intros]: "steps shrinks (AllocateMemory env sz ev out client cr)"
proof (rule stepsI)
  fix s :: "'a store" and r s'
  assume "AllocateMemory env sz ev out client cr s = Inr (r, s')"
  then obtain go t where
    1: "enforce_quota env sz ev client cr s = Inr (go, t)" and
    2: "s' = t \<or> (\<exists>x. alloc_loop env (alloc_fuel t) sz ev out t = Inr (x, s'))"
    unfolding AllocateMemory_def by (elim rbind_InrE) (auto split: if_splits elim!: rbind_InrE)
  from 2 have "shrinks t s'" by (auto intro: shrinks_alloc_loop shrinks.refl)
  with shrinks_enforce_quota [OF 1] show "shrinks s s'" by (rule shrinks.trans)
qed

section \<open>Replies and subscriptions\<close>

lemma same_ObjectExists: "steps same (ObjectExists_store env i)"
  by (auto simp: steps_def ObjectExists_store_def op_Inr remote_status_def split: if_splits)

lemma same_ContainsObject [steps_intros]: "steps same (ContainsObject env i)"
  by (auto simp: steps_def ContainsObject_def op_Inr remote_status_def split: option.splits)

lemma same_close_notification [steps_intros]: "steps same (close_notification c)"
  unfolding close_notification_def by (auto intro!: same.rules steps_intros)

lemma same_push_existing [steps_intros]: "steps same (push_existing env fd)"
proof -
  have "steps same (mfold (\<lambda>(object_id, e) _. if e_state e = PLASMA_SEALED
          then PushNotification_to env (sealed_info object_id e) fd else mret ()) os ())" for os
    by (auto intro!: same.rules steps_intros split: prod.splits)
  then show ?thesis by (auto simp: steps_def push_existing_def)
qed

lemma same_SubscribeToUpdates [steps_intros]: "steps same (SubscribeToUpdates env fd)"
proof -
  have "steps same (receive_fd env)" and "steps same (touch_queue n)" for n
    by (auto simp: steps_def receive_fd_def touch_queue_def)
  then show ?thesis
    unfolding SubscribeToUpdates_def by (auto intro!: same.rules steps_intros)
qed

lemma same_replies [steps_intros]:
  "steps same (SendCreateAndSealReply (send_to env fd) pe)" "steps same (SendCreateAndSealBatchReply (send_to env fd) pe)"
  "steps same (SendAbortReply (send_to env fd) i)" "steps same (SendDeleteReply (send_to env fd) is pes)"
  "steps same (SendContainsReply (send_to env fd) i b)" "steps same (SendListReply (send_to env fd) os)"
  "steps same (SendSealReply (send_to env fd) i pe)" "steps same (SendEvictReply (send_to env fd) n)"
  "steps same (SendRefreshLRUReply (send_to env fd))" "steps same (SendConnectReply (send_to env fd) n)"
  "steps same (SendSetOptionsReply (send_to env fd) pe)" "steps same (SendGetDebugStringReply (send_to env fd) str)"
  by (simp_all add: SendCreateAndSealReply_def SendCreateAndSealBatchReply_def SendAbortReply_def SendDeleteReply_def
      SendContainsReply_def SendListReply_def SendSealReply_def SendEvictReply_def SendRefreshLRUReply_def
      SendConnectReply_def SendSetOptionsReply_def SendGetDebugStringReply_def same_send)

lemma same_SendCreateReply: "SendCreateReply (send_to env fd) i ob pe n = Inr send \<Longrightarrow> steps same send"
  by (auto simp: SendCreateReply_def rbind_check_eq_Inr intro!: same_send split: if_splits)

lemma same_write_object [steps_intros]: "steps same (write_object i d m)"
  by (auto simp: steps_def write_object_def op_Inr split: option.splits)

end
