(* ===== verification/Store_Server.thy ===== *)
theory Store_Server
  imports Store_Effects
begin

text \<open>
  From the operations on objects to the whole server. \<open>server_effect\<close> is the contract of an
  effect: it contains everything that leaves objects and users alone, and the nine operations
  that touch them have it. Then every message and every event has it, which is proved here once
  for all invariants and refinements of the store.

  \<open>sizes\<close> restricts the sizes of created objects, \<open>quotas\<close> whether clients may ask for a quota;
  both are trivial where the property does not need them. \<open>who\<close> are the clients whose requests
  have the effect.
\<close>

section \<open>Waking requests\<close>

context effect
begin

lemma update_loop:
  assumes "\<And>s s'. same s s' \<Longrightarrow> R s s'" and "\<And>fd. steps R (AddToClientObjectIds i fd)"
  shows "steps R (update_loop env i n k)"
proof (induction n arbitrary: k)
  case 0
  show ?case by (simp add: ret)
next
  case (Suc n)
  note frame = steps_mono [OF _ assms(1)]
  have body: "steps R
     (mbind (get_entry i) (\<lambda>entry.
         case entry of
           None \<Rightarrow> mfault (CheckFailed ''entry != nullptr'')
         | Some entry \<Rightarrow>
             mbind (set_request r (\<lambda>q. q\<lparr>gr_objects := AList.update i (PlasmaObject_init entry) (gr_objects q),
                                         gr_num_satisfied := gr_num_satisfied q + 1\<rparr>)) (\<lambda>_.
             mbind (the_request r) (\<lambda>q.
             mbind (AddToClientObjectIds i (gr_client q)) (\<lambda>_.
             if gr_num_satisfied q = gr_num_objects_to_wait_for q
             then mbind (ReturnFromGet env r) (\<lambda>_. update_loop env i n k)
             else update_loop env i n (Suc k))))))" for r
    using Suc frame [OF same_set_request] frame [OF same_ReturnFromGet]
    by (auto intro!: rules assms(2) split: option.splits)
  show ?case
    by (rule stepsI) (auto simp: rbind_eq_Inr split: option.splits dest: stepsD [OF body])
qed

lemma wake:
  assumes "\<And>s s'. same s s' \<Longrightarrow> R s s'" and "\<And>fd. steps R (AddToClientObjectIds i fd)"
  shows "steps R (UpdateObjectGetRequests env i)"
proof (rule stepsI)
  fix s r s'
  assume run: "UpdateObjectGetRequests env i s = Inr (r, s')"
  show "R s s'"
  proof (cases "map_of (object_get_requests s) i")
    case None
    with run show ?thesis by (simp add: UpdateObjectGetRequests_def refl)
  next
    case (Some rs)
    with run obtain t where "Store_Get.update_loop env i (length rs) 0 s = Inr ((), t)"
      and "s' = t\<lparr>object_get_requests := AList.delete i (object_get_requests t)\<rparr>"
      by (auto simp: UpdateObjectGetRequests_def op_Inr)
    then have "R s t" and "same t s'" using stepsD [OF update_loop [OF assms]] by auto
    then show ?thesis using assms(1) trans by blast
  qed
qed

end

section \<open>From operations to events\<close>

definition request_ok :: "(int \<Rightarrow> int \<Rightarrow> bool) \<Rightarrow> bool \<Rightarrow> MessageType \<Rightarrow> fb_table \<Rightarrow> bool" where
  "request_ok sizes quotas mt t =
     (case mt of
        PlasmaCreateRequest \<Rightarrow> (case ReadCreateRequest t of Inr (_, _, ds, ms, _) \<Rightarrow> sizes ds ms | Inl _ \<Rightarrow> True)
      | PlasmaCreateAndSealRequest \<Rightarrow>
          (case ReadCreateAndSealRequest t of
             Inr (_, _, d, m, _) \<Rightarrow> sizes (int (length d)) (int (length m)) | Inl _ \<Rightarrow> True)
      | PlasmaCreateAndSealBatchRequest \<Rightarrow>
          (case ReadCreateAndSealBatchRequest t of
             Inr (_, _, ds, ms, _) \<Rightarrow> (\<forall>d \<in> set ds. \<forall>m \<in> set ms. sizes (int (length d)) (int (length m)))
           | Inl _ \<Rightarrow> True)
      | PlasmaSetOptionsRequest \<Rightarrow> quotas
      | _ \<Rightarrow> True)"

definition event_ok :: "(int \<Rightarrow> int \<Rightarrow> bool) \<Rightarrow> bool \<Rightarrow> 'x env \<Rightarrow> store_event \<Rightarrow> bool" where
  "event_ok sizes quotas env ev =
     (case ev of
        EvMessage fd msg \<Rightarrow>
          (case message_of (ro_type msg) of
             Some mt \<Rightarrow> request_ok sizes quotas mt (env_root env (ro_buffer msg)) | None \<Rightarrow> True)
      | _ \<Rightarrow> True)"

text \<open>The client whose request an event is.\<close>

definition speaker :: "'x store \<Rightarrow> store_event \<Rightarrow> int option" where
  "speaker s ev =
     (case ev of
        EvMessage fd msg \<Rightarrow>
          (case map_of (file_callbacks (evloop s)) fd of Some (_, CbProcessMessage c) \<Rightarrow> Some c | _ \<Rightarrow> None)
      | _ \<Rightarrow> None)"

lemma request_ok_trivial [simp]: "request_ok (\<lambda>_ _. True) True mt t"
  by (auto simp: request_ok_def split: MessageType.splits sum.splits)

lemma event_ok_trivial [simp]: "event_ok (\<lambda>_ _. True) True env ev"
  by (auto simp: event_ok_def split: store_event.splits option.splits)

locale server_effect = effect R
  for R :: "'x store \<Rightarrow> 'x store \<Rightarrow> bool" +
  fixes env :: "'x env" and sizes :: "int \<Rightarrow> int \<Rightarrow> bool" and quotas :: bool and who :: "int \<Rightarrow> bool"
  assumes frame: "same s s' \<Longrightarrow> R s s'"
    and create: "sizes ds ms \<Longrightarrow> who fd \<Longrightarrow> steps R (CreateObject env i ev ds ms dev fd res)"
    and seal: "steps R (SealObjects env ids digests)"
    and unuse: "who fd \<Longrightarrow> steps R (RemoveFromClientObjectIds env i fd)"
    and abort: "who fd \<Longrightarrow> steps R (AbortObject env i fd)"
    and delete: "steps R (DeleteObject env i)"
    and get: "who fd \<Longrightarrow> steps R (ProcessGetRequest env fd ids timeout)"
    and make_room: "steps R (evict_bytes env n)"
    and refresh: "steps R (on_policy (RefreshObjects ids))"
    and quota: "quotas \<Longrightarrow> who fd \<Longrightarrow> steps R (set_quota fd name n)"
    and leave: "who fd \<Longrightarrow> steps R (DisconnectClient env fd)"
    and join: "map_of (connected_clients s) (AcceptClient sock) = None \<Longrightarrow> ConnectClient env sock s = Inr (u, s') \<Longrightarrow> R s s'"
begin

lemma of_same: "steps same m \<Longrightarrow> steps R m"
  by (erule steps_mono) (rule frame)

lemma hand_same: "steps same m \<Longrightarrow> steps R k \<Longrightarrow> steps R (handle m k)"
  by (rule hand) (rule of_same, assumption+)

lemma state: "(\<And>s. steps R (f s)) \<Longrightarrow> steps R (\<lambda>s. f s s)"
  by (simp add: steps_def)

lemma reply_state:
  "steps R (\<lambda>s. handle (SendListReply (send_to env fd) (objects s)) (mret st) s)"
  "steps R (\<lambda>s. handle (SendConnectReply (send_to env fd) (GetFootprintLimit (alloc s))) (mret st) s)"
  "steps R (\<lambda>s. handle (SendGetDebugStringReply (send_to env fd)
      (policy_DebugString (env_fmt env) (alloc s) (policy s))) (mret st) s)"
  "steps R (\<lambda>s. mlift (GetMmapSize n (mmap_records (alloc s))) s)"
  by (rule state, intro rules hand_same same_replies)+

lemmas frames = of_same [OF same_send_store_fd] of_same [OF same_ContainsObject]
  of_same [OF same_SubscribeToUpdates] of_same [OF same_write_object]

lemma release: "who fd \<Longrightarrow> steps R (ReleaseObject env i fd)"
  unfolding ReleaseObject_def by (intro rules unuse)

lemma after_read:
  "(\<And>x. m = Inr x \<Longrightarrow> steps R (f x)) \<Longrightarrow> steps R (mbind (mlift m) f)"
  by (rule stepsI) (auto simp: mbind_Inr mlift_Inr dest: stepsD)

lemma create_reply:
  assumes "steps R k"
  shows "steps R (mbind (mlift (SendCreateReply (send_to env fd) i ob pe n)) (\<lambda>send. handle send k))"
  by (intro after_read hand_same assms) (rule same_SendCreateReply)

lemma process_create:
  assumes "request_ok sizes quotas PlasmaCreateRequest t" and "who fd"
  shows "steps R (process_create env fd t)"
  unfolding process_create_def
proof (rule after_read)
  fix x assume x: "ReadCreateRequest t = Inr x"
  obtain i ev ds ms dev where [simp]: "x = (i, ev, ds, ms, dev)" by (cases x)
  have "steps R (CreateObject env i ev ds ms dev fd res)" for res
    using assms x by (intro create) (simp_all add: request_ok_def)
  then show "steps R (case x of (object_id, evict_if_full, ds, ms, dev) \<Rightarrow>
     mbind (CreateObject env object_id evict_if_full ds ms dev fd zero_PlasmaObject) (\<lambda>(error_code, object).
     mbind (if error_code = OK \<and> dev = 0
            then (\<lambda>s. mlift (GetMmapSize (o_store_fd object) (mmap_records (alloc s))) s) else mret 0) (\<lambda>mmap_size.
     mbind (mlift (SendCreateReply (send_to env fd) object_id object error_code mmap_size)) (\<lambda>send.
     handle send
       (mbind (the_client fd) (\<lambda>c.
        if error_code = OK \<and> dev = 0 \<and> o_store_fd object \<notin> set (c_used_fds c)
        then mbind (send_store_fd env fd (o_store_fd object) ()) (\<lambda>_. mret Status_OK)
        else mret Status_OK))))))"
    by (auto intro!: create_reply reply_state rules frames split: prod.splits)
qed

lemma process_create_and_seal:
  assumes "request_ok sizes quotas PlasmaCreateAndSealRequest t" and "who fd"
  shows "steps R (process_create_and_seal env fd t)"
  unfolding process_create_and_seal_def
proof (rule after_read)
  fix x assume x: "ReadCreateAndSealRequest t = Inr x"
  obtain i ev d m dg where [simp]: "x = (i, ev, d, m, dg)" by (cases x)
  have "steps R (CreateObject env i ev (int (length d)) (int (length m)) 0 fd res)" for res
    using assms x by (intro create) (simp_all add: request_ok_def)
  then show "steps R (case x of (object_id, evict_if_full, data, metadata, digest) \<Rightarrow>
     mbind (CreateObject env object_id evict_if_full (int (length data)) (int (length metadata)) 0 fd
              zero_PlasmaObject) (\<lambda>(error_code, object).
     mbind (if error_code = OK
            then mbind (write_object object_id data metadata) (\<lambda>_.
                 mbind (SealObjects env [object_id] [digest]) (\<lambda>_.
                 mbind (RemoveFromClientObjectIds env object_id fd) (\<lambda>r.
                 mcheck r ''RemoveFromClientObjectIds(object_id, entry, client) == 1'')))
            else mret ()) (\<lambda>_.
     handle (SendCreateAndSealReply (send_to env fd) error_code) (mret Status_OK))))"
    using assms(2) by (auto intro!: rules seal unuse frames hand_same same_replies split: prod.splits)
qed

lemma batch_create:
  "who fd \<Longrightarrow> (\<And>d m. d \<in> set data \<Longrightarrow> m \<in> set metadata \<Longrightarrow> sizes (int (length d)) (int (length m))) \<Longrightarrow>
     steps R (batch_create env fd ev ids data metadata i)"
proof (induction ids arbitrary: i)
  case (Cons j ids)
  have mem: "x \<in> set xs" if "vec_get xs k = Inr x" for xs :: "byte list list" and k x
    using that by (auto simp: vec_get_def split: if_splits)
  have "steps R (CreateObject env j ev (int (length d)) (int (length m)) 0 fd res)"
    if "vec_get data i = Inr d" "vec_get metadata i = Inr m" for d m res
    using that by (intro create Cons.prems mem)
  with Cons show ?case
    by (auto intro!: after_read rules split: prod.splits)
qed (simp add: ret)

lemma process_batch:
  assumes "request_ok sizes quotas PlasmaCreateAndSealBatchRequest t" and "who fd"
  shows "steps R (process_batch env fd t)"
  unfolding process_batch_def
proof (rule after_read)
  fix x assume x: "ReadCreateAndSealBatchRequest t = Inr x"
  obtain ids ev ds ms dgs where [simp]: "x = (ids, ev, ds, ms, dgs)" by (cases x)
  have "steps R (Store_Dispatch.batch_create env fd ev ids ds ms 0)"
    using assms x by (intro batch_create) (simp_all add: request_ok_def)
  then show "steps R (case x of (object_ids, evict_if_full, data, metadata, digests) \<Rightarrow>
     mbind (Store_Dispatch.batch_create env fd evict_if_full object_ids data metadata 0) (\<lambda>(error_code, i).
     mbind (if error_code = OK
            then mbind (mfold (\<lambda>j _. write_object (object_ids ! j) (data ! j) (metadata ! j)) [0 ..< length object_ids] ()) (\<lambda>_.
                 mbind (SealObjects env object_ids digests) (\<lambda>_.
                 mfold (\<lambda>object_id _. mbind (RemoveFromClientObjectIds env object_id fd) (\<lambda>r.
                          mcheck r ''RemoveFromClientObjectIds(object_ids[i], entry, client) == 1'')) object_ids ()))
            else mfold (\<lambda>object_id _. mbind (AbortObject env object_id fd) (\<lambda>_. mret ())) (take i object_ids) ()) (\<lambda>_.
     handle (SendCreateAndSealBatchReply (send_to env fd) error_code) (mret Status_OK))))"
    using assms(2) by (auto intro!: rules seal unuse abort frames hand_same same_replies split: prod.splits)
qed

lemma process_set_options: "quotas \<Longrightarrow> who fd \<Longrightarrow> steps R (process_set_options env fd t)"
proof -
  assume "quotas" and "who fd"
  moreover have "steps R (set_client fd (\<lambda>c. c\<lparr>c_name := nm\<rparr>))" for nm
    by (rule of_same) (simp add: same_set_client)
  ultimately show ?thesis
    unfolding process_set_options_def by (auto intro!: rules quota hand_same same_replies split: prod.splits)
qed

lemma message:
  assumes "\<And>mt. message_of (ro_type msg) = Some mt \<Longrightarrow> request_ok sizes quotas mt (env_root env (ro_buffer msg))"
    and "who fd"
  shows "steps R (ProcessMessage env fd msg)"
proof -
  note process = process_delete_def process_evict_def
  have "quotas" if "message_of (ro_type msg) = Some PlasmaSetOptionsRequest"
    using assms(1) [OF that] by (simp add: request_ok_def)
  with assms show ?thesis
    unfolding ProcessMessage_def Let_def process
    by (auto intro!: rules process_create process_create_and_seal process_batch process_set_options abort get release
        delete seal make_room refresh leave frames reply_state hand_same same_replies
        split: option.splits MessageType.splits prod.splits)
qed

lemma event:
  assumes "event_ok sizes quotas env ev" and "fresh_accept s ev" and "store_event_step env ev s = Inr (r, s')"
    and who: "\<And>c. speaker s ev = Some c \<Longrightarrow> who c"
  shows "R s s'"
proof (cases ev)
  case (EvMessage fd msg)
  have "steps R (mbind (ProcessMessage env c msg) (\<lambda>st. mcheck (st_ok st) ''Failed to process file event''))"
    if "who c" for c
    by (intro rules message that) (use assms(1) EvMessage in \<open>simp add: event_ok_def\<close>)
  with EvMessage assms(3) who show ?thesis
    by (auto simp: store_event_step_def speaker_def intro: refl split: option.splits prod.splits callback.splits
        dest: stepsD)
next
  case (EvAccept sock)
  with assms show ?thesis by (auto simp: store_event_step_def fresh_accept_def intro: join)
next
  case (EvWritable fd)
  with assms show ?thesis
    by (auto simp: store_event_step_def intro: refl frame split: option.splits prod.splits callback.splits
        dest!: stepsD [OF same_SendNotifications])
next
  case (EvTimer t)
  with assms show ?thesis
    by (auto simp: store_event_step_def intro: refl frame split: option.splits prod.splits callback.splits
        dest!: stepsD [OF same_ReturnFromGet])
qed

end

text \<open>
  The states the server can be in: the order of events and the content of messages are
  arbitrary as far as \<open>ok\<close> allows, only \<open>accept\<close> must give a descriptor that is not open. Between
  events the library of the event loop works on its own list of timers.
\<close>

inductive store_reach :: "(store_event \<Rightarrow> bool) \<Rightarrow> 'x env \<Rightarrow> 'x store \<Rightarrow> 'x store \<Rightarrow> bool" for ok env s0 where
  start: "store_reach ok env s0 s0"
| step: "store_reach ok env s0 s \<Longrightarrow> ok ev \<Longrightarrow> fresh_accept s ev \<Longrightarrow> store_event_step env ev s = Inr ((), s') \<Longrightarrow>
     store_reach ok env s0 s'"
| idle: "store_reach ok env s0 s \<Longrightarrow> loop_edit (el_loop (evloop s)) a \<Longrightarrow>
     store_reach ok env s0 (s\<lparr>evloop := (evloop s)\<lparr>el_loop := a\<rparr>\<rparr>)"

inductive_cases store_reachE: "store_reach ok env s0 s"

end
