(* ===== verification/Store_Turns.thy ===== *)
theory Store_Turns
  imports Store_Server
begin

text \<open>
  The store touches its event loop only through the methods of the class: whatever an operation or
  an event does to the loop is a sequence of \<open>AddFileEvent\<close>, \<open>RemoveFileEvent\<close>, \<open>AddTimer\<close>,
  \<open>RemoveTimer\<close> and closed descriptors.
\<close>

section \<open>The effect on the event loop\<close>

definition turns :: "'x store \<Rightarrow> 'x store \<Rightarrow> bool" where
  "turns s s' \<longleftrightarrow> loop_uses (evloop s) (evloop s')"

interpretation turns: effect turns
  by unfold_locales (auto simp: turns_def intro: loop_uses_trans)

named_theorems turns_intros \<open>effects on the event loop\<close>

lemma turns_start [simp]:
  "turns (s\<lparr>tick := n\<rparr>) t = turns s t" "turns (s\<lparr>get_heap := g\<rparr>) t = turns s t" "turns (s\<lparr>next_request := n\<rparr>) t = turns s t"
  by (simp_all add: turns_def)

lemma turns_same: "steps same m \<Longrightarrow> steps turns m"
  by (erule steps_mono) (simp add: same_def turns_def)

lemma turns_still: "(\<And>s r s'. m s = Inr (r, s') \<Longrightarrow> evloop s' = evloop s) \<Longrightarrow> steps turns m"
  by (rule stepsI) (simp add: turns_def)

lemma turns_pure [turns_intros]: "(\<And>s. evloop (f s) = evloop s) \<Longrightarrow> steps turns (\<lambda>s. Inr (g s, f s))"
  by (rule turns_still) auto

lemma turns_state: "(\<And>s. steps turns (f s)) \<Longrightarrow> steps turns (\<lambda>s. f s s)"
  by (simp add: steps_def)

lemma turns_locked [turns_intros]: "steps turns m \<Longrightarrow> steps turns (locked m)"
  by (rule turns.lock) (simp add: turns_def)

lemma turns_update [turns_intros]:
  "steps turns (set_entry i f)" "steps turns (set_client fd g)" "steps turns (on_policy p)" "steps turns (now env)"
  "steps turns (\<lambda>s. on_policy (q s) s)" "steps turns (EraseFromObjectTable env i)" "steps turns (remote_status env i)"
  "steps turns (set_request r k)"
  by (rule turns_still; auto simp: op_Inr EraseFromObjectTable_def remote_status_def split: if_splits)+

lemmas turns_rules = turns.rules turns_intros turns_same [OF same_PushNotification(1)] turns_same [OF same_PushNotifications]
  turns_same [OF same_ReturnFromGet] turns_same [OF same_RemoveGetRequestsForClient] turns_same [OF same_close_notification]
  turns_same [OF same_close] turns_same [OF same_loops(1)] turns_same [OF same_add_timer] turns_same [OF same_add_file_event]

section \<open>The operations of the store\<close>

lemma turns_evict_one [turns_intros]: "steps turns (evict_one env i ds)"
  unfolding evict_one_def by (auto intro!: turns_rules split: option.splits)

lemma turns_evict_free [turns_intros]: "steps turns (evict_free env i u)"
  by (rule turns_still) (auto simp: evict_free_def op_Inr)

lemma turns_EvictObjects [turns_intros]: "steps turns (EvictObjects env ids)"
proof (cases "env_external env")
  case None
  then show ?thesis unfolding EvictObjects_def by (auto intro!: turns_rules turns_evict_one)
next
  case (Some ext)
  have "steps turns (mbind (mcheck b msg) (\<lambda>_. locked (mfold (evict_free env) ids ())))" for b msg
    by (intro turns_rules turns_evict_free)
  then have "steps turns (\<lambda>s. rbind (es_Put ext ids ds (ext_state s)) (\<lambda>(st, x).
       mbind (mcheck (st_ok st) msg) (\<lambda>_. locked (mfold (evict_free env) ids ())) (s\<lparr>ext_state := x\<rparr>)))" for ds msg
    by (intro stepsI) (fastforce simp: rbind_eq_Inr turns_def dest: stepsD)
  with Some show ?thesis unfolding EvictObjects_def by (auto intro!: turns_rules turns_evict_one)
qed

lemma turns_alloc_loop: "alloc_loop env n sz ev out s = Inr (r, s') \<Longrightarrow> turns s s'"
proof (induction n arbitrary: out s)
  case (Suc n)
  obtain p o' a where m: "Memalign kBlockSize sz out (alloc s) = (p, o', a)" by (metis prod_cases3)
  show ?case
  proof (cases "p \<noteq> 0 \<or> \<not> ev")
    case True
    with Suc.prems m show ?thesis by (auto simp: turns_def)
  next
    case False
    with Suc.prems m obtain ids q t where
      e: "EvictObjects env ids (s\<lparr>alloc := a, policy := q\<rparr>) = Inr ((), t)" and
      rest: "s' = t \<or> alloc_loop env n sz ev o' t = Inr (r, s')"
      by (auto simp: rbind_eq_Inr split: if_splits)
    from stepsD [OF turns_EvictObjects e] have "turns s t" by (simp add: turns_def)
    with rest Suc.IH show ?thesis by (blast intro: turns.trans)
  qed
qed simp

lemma turns_AllocateMemory [turns_intros]: "steps turns (AllocateMemory env sz ev out client cr)"
proof (rule stepsI)
  fix s :: "'a store" and r s'
  assume "AllocateMemory env sz ev out client cr s = Inr (r, s')"
  then obtain go t where
    1: "enforce_quota env sz ev client cr s = Inr (go, t)" and
    2: "s' = t \<or> (\<exists>x. alloc_loop env (alloc_fuel t) sz ev out t = Inr (x, s'))"
    unfolding AllocateMemory_def by (elim rbind_InrE) (auto split: if_splits elim!: rbind_InrE)
  from 1 have "turns s t"
    by (elim enforce_quota_Inr) (auto simp: turns_def dest!: stepsD [OF turns_EvictObjects])
  moreover from 2 have "turns t s'" by (auto intro: turns_alloc_loop turns.refl)
  ultimately show "turns s s'" by (rule turns.trans)
qed

lemma turns_users [turns_intros]:
  "steps turns (AddToClientObjectIds i fd)" "steps turns (RemoveFromClientObjectIds env i fd)"
proof -
  show "steps turns (AddToClientObjectIds i fd)"
    unfolding AddToClientObjectIds_def by (auto intro!: turns_rules)
  have "steps turns (\<lambda>s. if i \<notin> set (deletion_cache s) then on_policy (EndObjectAccess (objects s) i) s
      else EvictObjects env [i] (s\<lparr>deletion_cache := removeAll i (deletion_cache s)\<rparr>))"
    by (rule stepsI) (auto simp: turns_def op_Inr split: if_splits dest!: stepsD [OF turns_EvictObjects])
  then show "steps turns (RemoveFromClientObjectIds env i fd)"
    unfolding RemoveFromClientObjectIds_def by (auto intro!: turns_rules)
qed

lemma turns_CreateObject [turns_intros]: "steps turns (CreateObject env i ev ds ms dev fd res)"
proof -
  have "steps turns (AddObjectTableEntry env i ds ms p out dev)" for p out
    by (rule turns_still) (auto simp: AddObjectTableEntry_def op_Inr)
  then show ?thesis
    unfolding CreateObject_def ObjectExists_store_def
    by (auto intro!: turns_rules turns_AllocateMemory turns_users split: prod.splits)
qed

lemma turns_AbortObject [turns_intros]: "steps turns (AbortObject env i fd)"
  unfolding AbortObject_def by (auto intro!: turns_rules split: option.splits)

lemma turns_DeleteObject [turns_intros]: "steps turns (DeleteObject env i)"
  unfolding DeleteObject_def by (auto intro!: turns_rules split: option.splits)

lemma turns_SealObjects [turns_intros]: "steps turns (SealObjects env ids digests)"
proof -
  have "steps turns (seal_one env digests ids k infos)" for k infos
    unfolding seal_one_def Let_def by (auto intro!: turns_rules split: option.splits)
  moreover have "steps turns (UpdateObjectGetRequests env i)" for i
    by (rule turns.wake) (auto simp: same_def turns_def intro: turns_users)
  ultimately show ?thesis unfolding SealObjects_def by (auto intro!: turns_rules)
qed

lemma turns_get_one: "steps turns (get_one env r fd i (rem, evs))"
  unfolding get_one_def
  by (auto intro!: turns_rules turns_AllocateMemory turns_users split: option.splits ObjectState.splits prod.splits)

lemma turns_check_remote: "steps turns (check_remote env r ids)"
proof -
  have "steps turns (get_remote r es ids k u)" for es k u
    by (rule turns_still) (auto simp: get_remote_def op_Inr Let_def split: if_splits)
  then have all: "steps turns (mfold (get_remote r es ids) ks ())" for es ks
    by (intro turns_rules)
  show ?thesis
    by (rule stepsI) (auto simp: check_remote_def Let_def turns.refl split: if_splits dest!: stepsD [OF all])
qed

lemma turns_get_evicted: "steps turns (get_evicted env r ids)"
proof -
  have 1: "steps turns (check_pointer i ns)" "steps turns (buffer_fill x u)" "steps turns (get_restored env r i v)" for i ns x u v
    by (rule turns_still; auto simp: check_pointer_def buffer_fill_def get_restored_def op_Inr split: option.splits prod.splits)+
  then have "steps turns (mbind (mfold buffer_fill cs ()) (\<lambda>_. if b then mfold (get_restored env r) ids ()
      else locked (mfold (\<lambda>object_id _. set_entry object_id (\<lambda>e. e\<lparr>e_state := PLASMA_EVICTED\<rparr>)) ids ())))" for cs b
    by (auto intro!: turns_rules)
  then have "steps turns (\<lambda>s. rbind (es_Get ext ids ns (ext_state s)) (\<lambda>(st, contents).
         mbind (mfold buffer_fill (zip ids contents) ()) (\<lambda>_.
         if st_ok st then mfold (get_restored env r) ids ()
         else locked (mfold (\<lambda>object_id _. set_entry object_id (\<lambda>e. e\<lparr>e_state := PLASMA_EVICTED\<rparr>)) ids ())) s))" for ext ns
    by (intro stepsI) (auto simp: rbind_eq_Inr dest: stepsD)
  with 1 show ?thesis unfolding get_evicted_def by (auto intro!: turns_rules split: option.splits)
qed

lemma turns_ProcessGetRequest [turns_intros]: "steps turns (ProcessGetRequest env fd ids timeout)"
proof -
  have "steps turns (reply_or_wait env r timeout)" for r
    unfolding reply_or_wait_def by (auto intro!: turns_rules)
  then have all: "steps turns (mbind (mfold (get_one env r fd) ids ([], [])) (\<lambda>(check_remote_ids, evicted_ids).
         mbind (check_remote env r check_remote_ids) (\<lambda>_.
         mbind (if evicted_ids \<noteq> [] then get_evicted env r evicted_ids else mret ()) (\<lambda>_.
         reply_or_wait env r timeout))))" for r
    by (auto intro!: turns_rules turns_get_one turns_check_remote turns_get_evicted split: prod.splits)
  show ?thesis
    by (rule stepsI) (auto simp: ProcessGetRequest_def Let_def dest!: stepsD [OF all])
qed

lemma turns_evict_bytes: "steps turns (evict_bytes env n)"
  by (rule stepsI) (auto simp: evict_bytes_def op_Inr turns_def dest!: stepsD [OF turns_EvictObjects])

lemma turns_DisconnectClient [turns_intros]: "steps turns (DisconnectClient env fd)"
proof -
  have "steps turns (leave_one env i js)" for i js
    unfolding leave_one_def by (auto intro!: turns_rules split: option.splits)
  moreover have "steps turns (\<lambda>s. mcheck (P s) msg s)" for P and msg :: string
    by (rule turns_still) simp
  moreover have "steps turns (\<lambda>s. Inr ((), s\<lparr>connected_clients := f s\<rparr>))" for f :: "'b store \<Rightarrow> (int \<times> Client) list"
    by (rule turns_still) auto
  ultimately show ?thesis
    unfolding DisconnectClient_def by (auto intro!: turns_rules turns_users)
qed

lemma turns_ConnectClient: "steps turns (ConnectClient env sock)"
  unfolding ConnectClient_def Let_def by (auto intro!: turns_rules)

interpretation turning: server_effect turns env "\<lambda>_ _. True" True "\<lambda>_. True"
  for env
proof unfold_locales
  show "steps turns (set_quota fd name n)" for fd name n
    by (rule turns_still) (auto simp: set_quota_def rbind_eq_Inr)
  show "turns s s'" if "ConnectClient env sock s = Inr (u, s')" for s sock u s'
    by (rule stepsD [OF turns_ConnectClient that])
qed (auto simp: same_def turns_def [abs_def] intro: turns_intros [unfolded turns_def [abs_def]] turns_evict_bytes [unfolded turns_def [abs_def]])

end
