(* ===== verification/Store_Loop.thy ===== *)
theory Store_Loop
  imports Ae_Host Store_Turns
begin

text \<open>
  The process: \<open>PlasmaStoreRunner\<close> (src/arrow/cpp/src/plasma/store.cc) runs the store inside the
  loop of the library. \<open>store_host\<close> supplies the callbacks; what clients and the kernel do comes
  from \<open>io\<close>, one step at a time. The contract \<open>loop_host\<close> holds for it, so every state of the
  process is a state of \<open>store_reach\<close>, and the process fails only where a handler fails or after
  the array of events has moved.
\<close>

section \<open>The process\<close>

text \<open>
  \<open>r_loop\<close> says whether the pointers of the runner are set; the event loop is in the store.
\<close>

record 'x runner =
  r_store :: "'x store"
  r_loop :: bool
  r_step :: nat

record io =
  io_msg :: "nat \<Rightarrow> read_out"
  io_accept :: "nat \<Rightarrow> int list \<Rightarrow> sock_env"
  io_clock :: "nat \<Rightarrow> int \<times> int"
  io_ready :: "nat \<Rightarrow> (int \<times> int) list option"
  io_sigterm :: "nat \<Rightarrow> bool"

definition on_store :: "('x store \<Rightarrow> (unit \<times> 'x store) res) \<Rightarrow> 'x runner \<Rightarrow> 'x runner res" where
  "on_store m r = rbind (m (r_store r)) (\<lambda>(_, s). Inr (r\<lparr>r_store := s, r_step := Suc (r_step r)\<rparr>))"

text \<open>
  The callbacks the store registers, as the lambdas in store.cc. A function of one kind is never
  stored as the other: that is what the types of the two tables say.
\<close>

definition run_file_callback :: "'x env \<Rightarrow> io \<Rightarrow> callback \<Rightarrow> 'x runner \<Rightarrow> 'x runner res" where
  "run_file_callback env io cb r =
     (case cb of
        CbProcessMessage client \<Rightarrow>
          on_store (mbind (ProcessMessage env client (io_msg io (r_step r)))
            (\<lambda>st. mcheck (st_ok st) ''Failed to process file event'')) r
      | CbConnectClient socket \<Rightarrow>
          on_store (ConnectClient env (io_accept io (r_step r) (map fst (connected_clients (r_store r))))) r
      | CbSendNotifications fd \<Rightarrow> on_store (SendNotifications env fd) r
      | CbReturnFromGet _ \<Rightarrow> Inr r)"

definition run_timer_callback :: "'x env \<Rightarrow> callback \<Rightarrow> 'x runner \<Rightarrow> (int \<times> 'x runner) res" where
  "run_timer_callback env cb r =
     (case cb of
        CbReturnFromGet get_req \<Rightarrow> rbind (on_store (ReturnFromGet env get_req) r) (\<lambda>r. Inr (kEventLoopTimerDone, r))
      | _ \<Rightarrow> Inr (kEventLoopTimerDone, r))"

definition Runner_Stop :: "'x runner \<Rightarrow> 'x runner res" where
  "Runner_Stop r = (if r_loop r then Inr (r\<lparr>r_store := (r_store r)\<lparr>evloop := Stop (evloop (r_store r))\<rparr>\<rparr>) else Inl NullDeref)"

definition Runner_Shutdown :: "'x runner \<Rightarrow> 'x runner" where
  "Runner_Shutdown r = r\<lparr>r_loop := False\<rparr>"

definition SIGTERM :: int where
  "SIGTERM = 15"

definition HandleSignal :: "int \<Rightarrow> 'x runner option \<Rightarrow> 'x runner option res" where
  "HandleSignal signal g_runner =
     (if signal = SIGTERM
      then case g_runner of None \<Rightarrow> Inr None | Some r \<Rightarrow> rbind (Runner_Stop r) (\<lambda>r. Inr (Some r))
      else Inr g_runner)"

text \<open>The host. A signal interrupts \<open>epoll_wait\<close>.\<close>

definition runner_wait :: "io \<Rightarrow> int \<Rightarrow> 'x runner \<Rightarrow> (int \<times> int) list option \<times> 'x runner" where
  "runner_wait io timeout r =
     (let n = r_step r; r = r\<lparr>r_step := Suc n\<rparr> in
      if io_sigterm io n
      then (None, case HandleSignal SIGTERM (Some r) of Inr (Some r) \<Rightarrow> r | _ \<Rightarrow> r)
      else (map_option (\<lambda>ready. epoll_wait ready (el_loop (evloop (r_store r)))) (io_ready io n), r))"

definition store_host :: "'x env \<Rightarrow> io \<Rightarrow> 'x runner host" where
  "store_host env io =
     \<lparr>h_loop = (\<lambda>r. el_loop (evloop (r_store r))),
      h_set = (\<lambda>a r. r\<lparr>r_store := (r_store r)\<lparr>evloop := (evloop (r_store r))\<lparr>el_loop := a\<rparr>\<rparr>\<rparr>),
      h_clock = (\<lambda>r. (io_clock io (r_step r), r\<lparr>r_step := Suc (r_step r)\<rparr>)),
      h_wait = runner_wait io,
      h_file = (\<lambda>pr fd p bits r.
        if pr = FileEventCallback
        then rbind (callback_at p (file_callbacks (evloop (r_store r)))) (\<lambda>cb. run_file_callback env io cb r)
        else Inl NullDeref),
      h_time = (\<lambda>pr i p r.
        if pr = TimerEventCallback
        then rbind (callback_at p (timer_callbacks (evloop (r_store r)))) (\<lambda>cb. run_timer_callback env cb r)
        else Inl NullDeref),
      h_final = (\<lambda>pr p r. Inl NullDeref),
      h_sleep = (\<lambda>pr r. Inl NullDeref)\<rparr>"

text \<open>
  \<open>Start\<close>: \<open>n\<close> passes of the loop. Whether the listening socket could be registered is not checked.
\<close>

definition Runner_Start ::
    "'x env \<Rightarrow> io \<Rightarrow> sock_env \<Rightarrow> string \<Rightarrow> bool \<Rightarrow> PlasmaAllocator \<Rightarrow> 'x \<Rightarrow> (nat \<Rightarrow> byte) \<Rightarrow> nat \<Rightarrow> (bool \<times> 'x runner) res" where
  "Runner_Start env io bind socket_name epoll_ok a x m n =
     (let s = PlasmaStore (new_EventLoop (fst (io_clock io 0))) a x m;
          socket = fst (BindIpcSock bind socket_name True)
      in rbind (check (0 \<le> socket) ''socket >= 0'') (\<lambda>_.
         rbind (on_loop (AddFileEvent epoll_ok socket kEventLoopRead (CbConnectClient socket)) s) (\<lambda>(_, s).
         aeMain (store_host env io) n \<lparr>r_store = s, r_loop = True, r_step = 1\<rparr>)))"

section \<open>The contract\<close>

text \<open>
  What \<open>ok\<close> must allow for the process to be an instance of it, and that \<open>accept\<close> gives a
  descriptor that is not open.
\<close>

definition inputs_ok :: "(store_event \<Rightarrow> bool) \<Rightarrow> io \<Rightarrow> bool" where
  "inputs_ok ok io \<longleftrightarrow> (\<forall>n fd. ok (EvMessage fd (io_msg io n))) \<and> (\<forall>n fds. ok (EvAccept (io_accept io n fds))) \<and>
     (\<forall>fd. ok (EvWritable fd)) \<and> (\<forall>t. ok (EvTimer t)) \<and> (\<forall>n fds. AcceptClient (io_accept io n fds) \<notin> set fds)"

definition serving :: "(store_event \<Rightarrow> bool) \<Rightarrow> 'x env \<Rightarrow> io \<Rightarrow> 'x store \<Rightarrow> 'x runner \<Rightarrow> bool" where
  "serving ok env io s0 r \<longleftrightarrow> inputs_ok ok io \<and> store_reach ok env s0 (r_store r) \<and> wired (evloop (r_store r)) \<and> r_loop r \<and>
     ae_beforesleep (el_loop (evloop (r_store r))) = 0 \<and> kInitialEventLoopSize \<le> ae_setsize (el_loop (evloop (r_store r)))"

text \<open>The faults the process may end with: a handler's, or any after the set was resized.\<close>

definition died :: "(store_event \<Rightarrow> bool) \<Rightarrow> 'x env \<Rightarrow> 'x store \<Rightarrow> fault \<Rightarrow> bool" where
  "died ok env s0 f \<longleftrightarrow> (\<exists>s. store_reach ok env s0 s \<and>
     ((\<exists>ev. ok ev \<and> fresh_accept s ev \<and> store_event_step env ev s = Inl f) \<or>
      kInitialEventLoopSize < ae_setsize (el_loop (evloop s))))"

lemma step_outcome:
  assumes "serving ok env io s0 r" and "ok ev" and "fresh_accept (r_store r) ev"
    and "\<And>s. s = r_store r \<Longrightarrow> m s = store_event_step env ev s"
  shows "outcome (\<lambda>r'. serving ok env io s0 r' \<and> grows (el_loop (evloop (r_store r))) (el_loop (evloop (r_store r'))))
      (died ok env s0) (on_store m r)"
proof (cases "store_event_step env ev (r_store r)")
  case (Inl f)
  with assms have "died ok env s0 f" by (auto simp: died_def serving_def)
  with Inl assms(4) show ?thesis by (simp add: on_store_def)
next
  case (Inr x)
  then obtain t where t: "store_event_step env ev (r_store r) = Inr ((), t)" by (cases x) auto
  have "turns (r_store r) t" by (rule turning.event [OF _ assms(3) t]) simp_all
  then have "wired (evloop t)" and g: "grows (el_loop (evloop (r_store r))) (el_loop (evloop t))"
    using loop_uses_wired assms(1) unfolding turns_def serving_def by blast+
  moreover have "store_reach ok env s0 t"
    using assms(1-3) t by (auto simp: serving_def intro: store_reach.step)
  ultimately have "serving ok env io s0 (r\<lparr>r_store := t, r_step := Suc (r_step r)\<rparr>)"
    using assms(1) by (auto simp: serving_def grows_def)
  with g t assms(4) show ?thesis by (simp add: on_store_def)
qed

text \<open>The registration of a descriptor whose event is reported.\<close>

lemma registered_file:
  assumes "wired l" and "fe = ae_events (el_loop l) fd"
    and "(pr = fe_rfileProc fe \<and> fe_mask fe AND bits AND AE_READABLE \<noteq> 0) \<or>
         (pr = fe_wfileProc fe \<and> fe_mask fe AND bits AND AE_WRITABLE \<noteq> 0)"
  obtains cb where "map_of (file_callbacks l) fd = Some (fe_clientData fe, cb)" and "pr = FileEventCallback"
    and "callback_at (fe_clientData fe) (file_callbacks l) = Inr cb"
proof -
  have w: "file_wired l fd" using assms(1) by (simp add: wired_def files_wired_def)
  have "fe_mask fe \<noteq> AE_NONE" using assms(3) by (auto simp: ae_consts)
  with w assms(2) obtain p cb where c: "map_of (file_callbacks l) fd = Some (p, cb)" and e: "file_entry fe (p, cb)"
    by (auto simp: file_wired_def split: option.splits)
  have "callback_at p (file_callbacks l) = Inr cb"
    using assms(1) c by (intro callback_at_live) (auto simp: wired_def)
  moreover have "x AND bits AND AE_READABLE \<noteq> 0 \<Longrightarrow> x = AE_WRITABLE \<Longrightarrow> False"
    "x AND bits AND AE_WRITABLE \<noteq> 0 \<Longrightarrow> x = AE_READABLE \<Longrightarrow> False" for x :: int
    using and.left_commute [of 2 bits 1] and.left_commute [of 1 bits 2] by (auto simp: ae_consts)
  with e assms(3) have "pr = FileEventCallback" by (auto simp: file_entry_def)
  moreover have "fe_clientData fe = p" using e by (simp add: file_entry_def)
  ultimately show thesis using c that by simp
qed

lemma serving_edit:
  assumes "serving ok env io s0 r" and "loop_edit (el_loop (evloop (r_store r))) a"
  shows "serving ok env io s0 (r\<lparr>r_store := (r_store r)\<lparr>evloop := (evloop (r_store r))\<lparr>el_loop := a\<rparr>\<rparr>\<rparr>)"
  using assms wired_edit [OF _ assms(2)] store_reach.idle [OF _ assms(2)]
  by (auto simp: serving_def loop_edit_def)

lemma serving_inputs: "serving ok env io s0 r \<Longrightarrow> inputs_ok ok io"
  by (simp add: serving_def)

lemma file_outcome:
  assumes "serving ok env io s0 r" and "map_of (file_callbacks (evloop (r_store r))) fd = Some (p, cb)"
  shows "outcome (\<lambda>r'. serving ok env io s0 r' \<and> grows (el_loop (evloop (r_store r))) (el_loop (evloop (r_store r'))))
      (died ok env s0) (run_file_callback env io cb r)"
proof (cases cb)
  note io = serving_inputs [OF assms(1)]
  case (CbProcessMessage c)
  with io assms(2) show ?thesis
    unfolding run_file_callback_def
    by (simp, intro step_outcome [OF assms(1), where ev = "EvMessage fd (io_msg io (r_step r))"])
       (auto simp: inputs_ok_def fresh_accept_def store_event_step_def)
next
  note io = serving_inputs [OF assms(1)]
  case (CbConnectClient socket)
  let ?sock = "io_accept io (r_step r) (map fst (connected_clients (r_store r)))"
  have "map_of (connected_clients (r_store r)) (AcceptClient ?sock) = None"
    using io by (auto simp: inputs_ok_def map_of_eq_None_iff simp flip: set_map)
  with CbConnectClient io show ?thesis
    unfolding run_file_callback_def
    by (simp, intro step_outcome [OF assms(1), where ev = "EvAccept ?sock"])
       (auto simp: inputs_ok_def fresh_accept_def store_event_step_def)
next
  note io = serving_inputs [OF assms(1)]
  case (CbSendNotifications c)
  with io assms(2) show ?thesis
    unfolding run_file_callback_def
    by (simp, intro step_outcome [OF assms(1), where ev = "EvWritable fd"])
       (auto simp: inputs_ok_def fresh_accept_def store_event_step_def)
next
  case (CbReturnFromGet q)
  with assms(1) show ?thesis by (simp add: run_file_callback_def)
qed

lemma timer_outcome:
  assumes "serving ok env io s0 r" and "map_of (timer_callbacks (evloop (r_store r))) i = Some (p, cb)"
  shows "outcome (\<lambda>x. serving ok env io s0 (snd x) \<and> grows (el_loop (evloop (r_store r))) (el_loop (evloop (r_store (snd x)))))
      (died ok env s0) (run_timer_callback env cb r)"
proof (cases cb)
  note io = serving_inputs [OF assms(1)]
  case (CbReturnFromGet q)
  have "outcome (\<lambda>r'. serving ok env io s0 r' \<and> grows (el_loop (evloop (r_store r))) (el_loop (evloop (r_store r'))))
      (died ok env s0) (on_store (ReturnFromGet env q) r)"
    using io assms(2) CbReturnFromGet
    by (intro step_outcome [OF assms(1), where ev = "EvTimer i"]) (auto simp: inputs_ok_def fresh_accept_def store_event_step_def)
  with CbReturnFromGet show ?thesis by (auto simp: run_timer_callback_def intro: outcome_bind)
qed (use assms(1) in \<open>simp_all add: run_timer_callback_def\<close>)

lemma serving_stop: "serving ok env io s0 r \<Longrightarrow> Runner_Stop r = Inr r' \<Longrightarrow> serving ok env io s0 r'"
  using serving_edit [OF _ loop_edit_stop, of ok env io s0 r True]
  by (auto simp: Runner_Stop_def Stop_def aeStop_def split: if_splits)

lemma epoll_wait_range:
  assumes "wired l" and "x \<in> set (epoll_wait ready (el_loop l))"
  shows "0 \<le> fst x \<and> fst x < ae_setsize (el_loop l)"
proof -
  from assms(2) have "map_of (ep_interest (el_loop l)) (fst x) \<noteq> None"
    by (auto simp: epoll_wait_def map_filter_def Let_def split: option.splits if_splits dest!: in_set_takeD)
  moreover have "file_wired l (fst x)" and "ae_maxfd (el_loop l) < ae_setsize (el_loop l)"
    using assms(1) by (simp_all add: wired_def files_wired_def)
  ultimately show ?thesis by (auto simp: file_wired_def split: option.splits)
qed

lemma timers_sound_wired: "wired l \<Longrightarrow> timers_sound (el_loop l)"
  by (auto simp: wired_def timers_wired_def timers_sound_def timer_entry_def ae_consts)

text \<open>The process is a host as the library needs it.\<close>

interpretation process: loop_host "store_host env io" "serving ok env io s0" "died ok env s0"
  for ok env io s0
proof unfold_locales
  fix r :: "'a runner" and n evs r'
  assume r: "serving ok env io s0 r" and w: "h_wait (store_host env io) n r = (evs, r')"
  let ?r = "r\<lparr>r_step := Suc (r_step r)\<rparr>"
  have r1: "serving ok env io s0 ?r" using r by (simp add: serving_def)
  show "serving ok env io s0 r' \<and> (\<forall>es. evs = Some es \<longrightarrow>
      (\<forall>x \<in> set es. 0 \<le> fst x \<and> fst x < ae_setsize (h_loop (store_host env io) r')))"
  proof (cases "io_sigterm io (r_step r)")
    case True
    have "Runner_Stop ?r = Inr r'"
      using w True r by (auto simp: store_host_def runner_wait_def Let_def HandleSignal_def Runner_Stop_def serving_def)
    with serving_stop [OF r1] w True show ?thesis by (simp add: store_host_def runner_wait_def Let_def)
  next
    case False
    with w have "r' = ?r" and "evs = map_option (\<lambda>ready. epoll_wait ready (el_loop (evloop (r_store r)))) (io_ready io (r_step r))"
      by (simp_all add: store_host_def runner_wait_def Let_def)
    with r r1 show ?thesis by (auto simp: store_host_def serving_def dest: epoll_wait_range)
  qed
next
  fix r :: "'a runner" and fe fd pr bits
  assume r: "serving ok env io s0 r" and fe: "fe = ae_events (h_loop (store_host env io) r) fd"
    and m: "pr = fe_rfileProc fe \<and> fe_mask fe AND bits AND AE_READABLE \<noteq> 0 \<or> pr = fe_wfileProc fe \<and> fe_mask fe AND bits AND AE_WRITABLE \<noteq> 0"
  have wi: "wired (evloop (r_store r))" and fe': "fe = ae_events (el_loop (evloop (r_store r))) fd"
    using r fe by (simp_all add: serving_def store_host_def)
  from registered_file [OF wi fe' m] obtain cb where "map_of (file_callbacks (evloop (r_store r))) fd = Some (fe_clientData fe, cb)"
    and "pr = FileEventCallback" and "callback_at (fe_clientData fe) (file_callbacks (evloop (r_store r))) = Inr cb" .
  with file_outcome [OF r]
  show "outcome (\<lambda>s'. serving ok env io s0 s' \<and> grows (h_loop (store_host env io) r) (h_loop (store_host env io) s')) (died ok env s0)
      (h_file (store_host env io) pr fd (fe_clientData fe) bits r)"
    by (simp add: store_host_def)
next
  fix r :: "'a runner" and te
  assume r: "serving ok env io s0 r" and te: "te \<in> set (ae_timeEventHead (h_loop (store_host env io) r))"
    and live: "te_id te \<noteq> AE_DELETED_EVENT_ID"
  let ?l = "evloop (r_store r)"
  have wi: "wired ?l" using r by (simp add: serving_def)
  with te live obtain cb where cb: "map_of (timer_callbacks ?l) (te_id te) = Some (te_clientData te, cb)"
    and pr: "te_timeProc te = TimerEventCallback"
    by (auto simp: store_host_def wired_def timers_wired_def timer_entry_def)
  have "callback_at (te_clientData te) (timer_callbacks ?l) = Inr cb"
    using wi cb by (intro callback_at_live) (auto simp: wired_def)
  with timer_outcome [OF r cb] pr
  show "outcome (\<lambda>x. serving ok env io s0 (snd x) \<and> grows (h_loop (store_host env io) r) (h_loop (store_host env io) (snd x)))
      (died ok env s0) (h_time (store_host env io) (te_timeProc te) (te_id te) (te_clientData te) r)"
    by (simp add: store_host_def)
next
  fix r r' :: "'a runner" and f
  assume "serving ok env io s0 r" and "serving ok env io s0 r'" and "grows (h_loop (store_host env io) r) (h_loop (store_host env io) r')"
    and "ae_events_addr (h_loop (store_host env io) r') \<noteq> ae_events_addr (h_loop (store_host env io) r)"
  then have "store_reach ok env s0 (r_store r')" and "kInitialEventLoopSize < ae_setsize (el_loop (evloop (r_store r')))"
    by (auto simp: serving_def store_host_def grows_def)
  then show "died ok env s0 f" by (auto simp: died_def)
next
  fix r :: "'a runner" and a
  assume "serving ok env io s0 r" and "loop_edit (h_loop (store_host env io) r) a"
  then show "serving ok env io s0 (h_set (store_host env io) a r)"
    using serving_edit [of ok env io s0 r a] by (simp add: store_host_def)
qed (auto simp: store_host_def serving_def intro: timers_sound_wired)

section \<open>The running process\<close>

lemma start_serving:
  assumes "inputs_ok ok io" and "0 \<le> socket"
    and "on_loop (AddFileEvent epoll_ok socket kEventLoopRead (CbConnectClient socket)) (PlasmaStore (new_EventLoop t) a x m) = Inr (b, s)"
  shows "\<exists>l. s = PlasmaStore l a x m \<and> serving ok env io s \<lparr>r_store = s, r_loop = True, r_step = n\<rparr>"
proof -
  from assms(3) obtain l where l: "AddFileEvent epoll_ok socket kEventLoopRead (CbConnectClient socket) (new_EventLoop t) = Inr (b, l)"
    and s: "s = PlasmaStore l a x m"
    by (auto simp: on_loop_Inr PlasmaStore_def)
  have "wired l \<and> grows (el_loop (new_EventLoop t)) (el_loop l)"
    by (rule wired_AddFileEvent [OF l wired_new]) (simp add: kEventLoopRead_def ae_consts)
  then show ?thesis
    using assms(1) s by (auto simp: serving_def grows_def new_EventLoop_def aeCreateEventLoop_def PlasmaStore_def intro: store_reach.start)
qed

lemma start_registers:
  assumes "0 \<le> socket"
  shows "\<exists>b l. AddFileEvent ok socket kEventLoopRead cb (new_EventLoop t) = Inr (b, l)"
  using assms
  by (auto simp: AddFileEvent_def new_EventLoop_def aeCreateEventLoop_def aeCreateFileEvent_def event_at_def aeApiAddEvent_def
      aeResizeSetSize_def aeGetSetSize_def Let_def split: prod.splits)

lemma start_outcome:
  assumes "inputs_ok ok io" and "0 \<le> fst (BindIpcSock bind socket_name True)"
  shows "\<exists>l. outcome (\<lambda>y. serving ok env io (PlasmaStore l a x m) (snd y)) (died ok env (PlasmaStore l a x m))
      (Runner_Start env io bind socket_name epoll_ok a x m n)"
proof -
  let ?socket = "fst (BindIpcSock bind socket_name True)" and ?s = "PlasmaStore (new_EventLoop (fst (io_clock io 0))) a x m"
  obtain b l0 where "AddFileEvent epoll_ok ?socket kEventLoopRead (CbConnectClient ?socket) (evloop ?s) = Inr (b, l0)"
    using start_registers [OF assms(2), of epoll_ok "CbConnectClient ?socket" "fst (io_clock io 0)"] by (auto simp: PlasmaStore_def)
  then obtain s where s: "on_loop (AddFileEvent epoll_ok ?socket kEventLoopRead (CbConnectClient ?socket)) ?s = Inr (b, s)"
    by (simp add: on_loop_def)
  from start_serving [OF assms s] obtain l where l: "s = PlasmaStore l a x m"
    and r: "serving ok env io s \<lparr>r_store = s, r_loop = True, r_step = 1\<rparr>" by blast
  have "Runner_Start env io bind socket_name epoll_ok a x m n = aeMain (store_host env io) n \<lparr>r_store = s, r_loop = True, r_step = 1\<rparr>"
    using assms(2) s by (simp add: Runner_Start_def Let_def)
  with process.main_outcome [OF r, of n] show ?thesis by (auto simp: l)
qed


end
