(* ===== verification/Demo.thy ===== *)
theory Demo
  imports Store_Dispatch
begin

text \<open>
  A small concrete set-up for the examples that show the hypotheses of the store's properties
  can hold: a pool of 1000 bytes, a kernel on which every send succeeds, another store that has
  no objects, and messages whose one-byte buffer selects a table.
\<close>

definition demo_alloc :: PlasmaAllocator where
  "demo_alloc = \<lparr>footprint_limit = 1000, allocated = 0, base_pointer = 4096, available_regions = [(1000, 0)],
     pa_fd = 3, mmap_records = [(4096, \<lparr>mr_fd = 3, mr_size = 1000\<rparr>)]\<rparr>"

definition demo_id :: "nat \<Rightarrow> UniqueID" where
  "demo_id n = UniqueID (replicate 20 (of_nat n))"

definition demo_stub :: rpc_stub where
  "demo_stub ids = map (\<lambda>_. \<lparr>d_status = RD_MISSING, d_object = zero_RpcObject\<rparr>) ids"

definition demo_env :: "fb_table list \<Rightarrow> 'x ExternalStore option \<Rightarrow> 'x env" where
  "demo_env tables ext =
     \<lparr>env_time = (\<lambda>_. 0), env_clock = (\<lambda>_. (0, 0)), env_epoll = (\<lambda>_. True), env_send = (\<lambda>_. (Status_OK, EAGAIN)), env_send_fd = (\<lambda>_. (1, EAGAIN)),
      env_notify = (\<lambda>_. NotifyErr EAGAIN), env_recv_fd = (\<lambda>_. -1), env_rpc = (\<lambda>_. demo_stub),
      env_external = ext, env_erase = Node_Survives, env_enc = (\<lambda>_. []),
      env_root = (\<lambda>bs. case bs of [b] \<Rightarrow> tables ! unat b | _ \<Rightarrow> []), env_fmt = (\<lambda>_ _. [])\<rparr>"

definition demo_sock :: "int \<Rightarrow> sock_env" where
  "demo_sock fd = \<lparr>sys_socket = 1, sys_setsockopt = 0, sys_bind = 0, sys_listen = 0, sys_connect = 0, sys_accept = fd\<rparr>"

definition demo_msg :: "int \<Rightarrow> MessageType \<Rightarrow> nat \<Rightarrow> store_event" where
  "demo_msg fd mt k = EvMessage fd \<lparr>ro_status = Status_OK, ro_type = message_code mt, ro_buffer = [of_nat k],
     ro_outs = [], ro_chan = []\<rparr>"

definition demo_store :: "'x \<Rightarrow> 'x store" where
  "demo_store x = PlasmaStore (new_EventLoop 0) demo_alloc x (\<lambda>_. 0)"

definition demo_create :: "nat \<Rightarrow> int \<Rightarrow> int \<Rightarrow> fb_table" where
  "demo_create n ds ms = [FbString (id_bytes (demo_id n)), FbScalar 1, FbScalar ds, FbScalar ms, FbScalar 0]"

definition demo_seal :: "nat \<Rightarrow> fb_table" where
  "demo_seal n = [FbString (id_bytes (demo_id n)), FbString (replicate 8 0)]"

definition demo_ids :: "nat list \<Rightarrow> fb_table" where
  "demo_ids ns = [FbScalar (int (length ns)), FbStrings (map (\<lambda>n. id_bytes (demo_id n)) ns)]"

definition demo_inline :: "nat \<Rightarrow> byte list \<Rightarrow> fb_table" where
  "demo_inline n d = [FbString (id_bytes (demo_id n)), FbScalar 1, FbString d, FbString [], FbString (replicate 8 0)]"

text \<open>A run in which every event is possible and handled without a fault.\<close>

fun checked_run :: "'x env \<Rightarrow> store_event list \<Rightarrow> 'x store \<Rightarrow> 'x store option" where
  "checked_run env [] s = Some s"
| "checked_run env (ev # evs) s =
     (if fresh_accept s ev
      then case store_event_step env ev s of Inr (_, s') \<Rightarrow> checked_run env evs s' | Inl _ \<Rightarrow> None
      else None)"

text \<open>Equations for evaluating runs by rewriting.\<close>

lemmas monad_eval = mbind_def mret_def mcheck_def mfault_def mlift_def locked_def lock_mutex_def unlock_mutex_def
  get_entry_def set_entry_def deref_entry_def the_client_def set_client_def the_request_def set_request_def now_def
  send_to_def send_fd_to_def close_fd_def on_loop_def add_file_event_def add_timer_def on_policy_def handle_def GetObjectTableEntry_def

lemmas demo_eval = demo_env_def demo_store_def demo_alloc_def demo_id_def demo_stub_def demo_sock_def demo_msg_def
  demo_create_def PlasmaStore_def new_QuotaAwarePolicy_def new_LRUCache_def new_EventLoop_def kInitialEventLoopSize_def aeCreateEventLoop_def no_file_event_def
  fresh_accept_def store_event_step_def ProcessMessage_def Let_def int64_of_def uint64_of_def sadd64_def ssub64_def

lemmas create_eval = ConnectClient_def AcceptClient_def AddFileEvent_def aeCreateFileEvent_def emplace_file_def event_at_def aeApiAddEvent_def
  epoll_ctl_def epoll_mask_def set_event_def ae_consts kEventLoopRead_def FileEventCallback_def
  new_Client_def process_create_def ReadCreateRequest_def
  fb_field_def id_field_def from_binary_def kUniqueIDSize_def CreateObject_def ObjectExists_store_def remote_status_def
  RpcClient_GetObject_def RpcClient_GetObjects_def vec_get_def AllocateMemory_def enforce_quota_def EnforcePerClientQuota_def
  HasQuota_def EvictObjects_def alloc_fuel_def Memalign_def FindRegion_def mm_lower_bound_def mm_emplace_def
  AddObjectTableEntry_def new_ObjectTableEntry_def ObjectCreated_def ep_ObjectCreated_def GetObjectSize_def lru_Add_def
  AddToClientObjectIds_def BeginObjectAccess_def ep_BeginObjectAccess_def lru_drop_def lru_Remove_def zero_PlasmaObject_def
  GetMmapSize_def SendCreateReply_def send_store_fd_def warn_def WarnIfSigpipe_def HANDLE_SIGPIPE_def

lemmas seal_eval = demo_seal_def ReadSealRequest_def kDigestSize_def SealObjects_def seal_one_def PushNotifications_def
  PushNotification_def UpdateObjectGetRequests_def SendSealReply_def

lemmas delete_eval = demo_ids_def ReadDeleteRequest_def ToVector_def nth_id_def process_delete_def DeleteObject_def
  SendDeleteReply_def ToFlatbuffer_ids_def

lemmas inline_eval = demo_inline_def process_create_and_seal_def ReadCreateAndSealRequest_def write_object_def mem_write_def
  RemoveFromClientObjectIds_def EndObjectAccess_def ep_EndObjectAccess_def SendCreateAndSealReply_def

end
