(* ===== verification/Store_Refs.thy ===== *)
theory Store_Refs
  imports Store_Server Demo
begin

text \<open>
  Reference counting in the store: the count in an object's table entry is the number of
  connected clients that use it, objects in use stay in the table, and an object that is not
  sealed has at most one user. Every event the store handles keeps this.
\<close>

section \<open>Users of an object\<close>

definition users :: "'x store \<Rightarrow> UniqueID \<Rightarrow> int set" where
  "users s i = {fd. \<exists>ids. ids_of s fd = Some ids \<and> i \<in> set ids}"

lemma finite_users [simp]: "finite (users s i)"
proof -
  have "users s i \<subseteq> fst ` set (connected_clients s)"
    by (auto simp: users_def ids_of_def dest!: map_of_SomeD intro: rev_image_eqI)
  then show ?thesis by (rule finite_subset) simp
qed

lemma users_cong: "ids_of s = ids_of t \<Longrightarrow> users s = users t"
  by (simp add: users_def fun_eq_iff)

lemma users_add:
  assumes "ids_of s' = (ids_of s)(fd \<mapsto> ids @ [i])" and "ids_of s fd = Some ids"
  shows "users s' j = (if j = i then insert fd (users s i) else users s j)"
  using assms by (auto simp: users_def split: if_splits)

lemma users_remove:
  assumes "ids_of s' = (ids_of s)(fd \<mapsto> removeAll i ids)" and "ids_of s fd = Some ids"
  shows "users s' j = (if j = i then users s i - {fd} else users s j)"
  using assms by (auto simp: users_def split: if_splits)

lemma users_drop:
  assumes "ids_of s' = (ids_of s)(fd := None)"
  shows "users s' j = users s j - {fd}"
  using assms by (auto simp: users_def split: if_splits)

text \<open>
  The invariant. \<open>X\<close> are clients that may still list objects that are gone: it is empty between
  events, and the leaving client while it is being disconnected.
\<close>

definition entry_ok :: "int set \<Rightarrow> ObjectTableEntry \<Rightarrow> bool" where
  "entry_ok U e \<longleftrightarrow> e_ref_count e = int (card U) \<and>
     (e_state e \<noteq> PLASMA_SEALED \<longrightarrow> card U \<le> 1) \<and>
     (e_state e = PLASMA_EVICTED \<and> e_pointer e = 0 \<longrightarrow> U = {})"

definition refs_ok :: "int set \<Rightarrow> 'x store \<Rightarrow> bool" where
  "refs_ok X s \<longleftrightarrow>
     (\<forall>i e. map_of (objects s) i = Some e \<longrightarrow> entry_ok (users s i) e) \<and>
     (\<forall>i. map_of (objects s) i = None \<longrightarrow> users s i \<subseteq> X)"

lemma refs_okD:
  "refs_ok X s \<Longrightarrow> map_of (objects s) i = Some e \<Longrightarrow> entry_ok (users s i) e"
  "refs_ok X s \<Longrightarrow> map_of (objects s) i = None \<Longrightarrow> users s i \<subseteq> X"
  by (simp_all add: refs_ok_def)

lemma refs_okI:
  assumes "\<And>i e. map_of (objects s) i = Some e \<Longrightarrow> entry_ok (users s i) e"
    and "\<And>i. map_of (objects s) i = None \<Longrightarrow> users s i \<subseteq> X"
  shows "refs_ok X s"
  using assms by (simp add: refs_ok_def)

lemma refs_same:
  assumes "same s s'"
  shows "refs_ok X s' \<longleftrightarrow> refs_ok X s"
proof -
  from assms have "users s' = users s" and "objects s' = objects s"
    by (auto simp: same_def intro: users_cong)
  then show ?thesis by (simp add: refs_ok_def)
qed

lemma unused_no_users: "refs_ok X s \<Longrightarrow> unused s i e \<Longrightarrow> users s i = {}"
  using refs_okD(1) [of X s i e] by (simp add: unused_def entry_ok_def)

lemma refs_shrinks:
  assumes "shrinks s s'" and "refs_ok X s"
  shows "refs_ok X s'"
proof (rule refs_okI)
  have u: "users s' = users s" using assms(1) by (auto simp: shrinks_def intro: users_cong)
  fix i
  have c: "map_of (objects s') i = map_of (objects s) i \<or> (\<exists>e. unused s i e \<and>
      map_of (objects s') i \<in> {None, Some (e\<lparr>e_pointer := 0, e_state := PLASMA_EVICTED\<rparr>)})"
    using assms(1) by (simp add: shrinks_def)
  show "users s' i \<subseteq> X" if "map_of (objects s') i = None"
    using c that refs_okD(2) [OF assms(2), of i] unused_no_users [OF assms(2)] by (auto simp: u)
  show "entry_ok (users s' i) e" if e: "map_of (objects s') i = Some e" for e
    using c
  proof
    assume "map_of (objects s') i = map_of (objects s) i"
    then show ?thesis using e refs_okD(1) [OF assms(2)] by (simp add: u)
  next
    assume "\<exists>e. unused s i e \<and> map_of (objects s') i \<in> {None, Some (e\<lparr>e_pointer := 0, e_state := PLASMA_EVICTED\<rparr>)}"
    then obtain e0 where "unused s i e0" and "e = e0\<lparr>e_pointer := 0, e_state := PLASMA_EVICTED\<rparr>"
      using e by auto
    then show ?thesis using unused_no_users [OF assms(2)] by (auto simp: u entry_ok_def unused_def)
  qed
qed

text \<open>An update of one entry and of the users of that object only.\<close>

lemma refs_update:
  assumes "refs_ok X s" and "map_of (objects s') = (map_of (objects s))(i \<mapsto> e)"
    and "\<And>j. j \<noteq> i \<Longrightarrow> users s' j = users s j" and "entry_ok (users s' i) e"
  shows "refs_ok X s'"
proof (rule refs_okI)
  fix j
  show "entry_ok (users s' j) e'" if "map_of (objects s') j = Some e'" for e'
    using that assms refs_okD(1) [OF assms(1), of j] by (cases "j = i") auto
  show "users s' j \<subseteq> X" if "map_of (objects s') j = None"
    using that assms refs_okD(2) [OF assms(1), of j] by (cases "j = i") auto
qed

lemma refs_erase:
  assumes "refs_ok X s" and "objects s' = AList.delete i (objects s)" and "ids_of s' = ids_of s"
    and "users s i \<subseteq> Y" and "X \<subseteq> Y"
  shows "refs_ok Y s'"
proof -
  have u: "users s' = users s" using assms(3) by (rule users_cong)
  show ?thesis
  proof (rule refs_okI)
    fix j
    show "entry_ok (users s' j) e" if "map_of (objects s') j = Some e" for e
      using that assms refs_okD(1) [OF assms(1), of j] by (cases "j = i") (auto simp: u delete_conv')
    show "users s' j \<subseteq> Y" if "map_of (objects s') j = None"
      using that assms refs_okD(2) [OF assms(1), of j] by (cases "j = i") (auto simp: u delete_conv')
  qed
qed

section \<open>Adding and removing a user\<close>

lemma AddToClientObjectIds_Inr:
  assumes "AddToClientObjectIds i fd s = Inr (r, s')"
  obtains (already) "s' = s" and "fd \<in> users s i"
  | (added) e ids where "map_of (objects s) i = Some e" and "ids_of s fd = Some ids" and "fd \<notin> users s i"
    and "map_of (objects s') = (map_of (objects s))(i \<mapsto> e\<lparr>e_ref_count := e_ref_count e + 1\<rparr>)"
    and "ids_of s' = (ids_of s)(fd \<mapsto> ids @ [i])" and "deletion_cache s' = deletion_cache s"
    and "if e_ref_count e = 0 then BeginObjectAccess (objects s) i (policy s) = Inr (policy s')
         else policy s' = policy s" and "alloc s' = alloc s"
proof -
  from assms obtain c where c: "map_of (connected_clients s) fd = Some c"
    by (auto simp: AddToClientObjectIds_def op_Inr)
  show thesis
  proof (cases "i \<in> set (c_object_ids c)")
    case True
    with assms c show thesis
      by (intro already) (auto simp: AddToClientObjectIds_def op_Inr users_def ids_of_def)
  next
    case False
    with assms c obtain e where e: "map_of (objects s) i = Some e"
      by (auto simp: AddToClientObjectIds_def op_Inr)
    have p: "if e_ref_count e = 0 then BeginObjectAccess (objects s) i (policy s) = Inr (policy s') else policy s' = policy s"
      and s': "objects s' = AList.update i (e\<lparr>e_ref_count := e_ref_count e + 1\<rparr>) (objects s)"
        "connected_clients s' = AList.update fd (c\<lparr>c_object_ids := c_object_ids c @ [i]\<rparr>) (connected_clients s)"
        "deletion_cache s' = deletion_cache s" "alloc s' = alloc s"
      by (cases "e_ref_count e = 0";
          use assms c e False in \<open>auto simp: AddToClientObjectIds_def op_Inr\<close>)+
    show thesis
      by (rule added [of e "c_object_ids c"])
         (use c False e p s' in \<open>auto simp: users_def ids_of_def update_conv' fun_eq_iff\<close>)
  qed
qed

lemma refs_AddTo:
  assumes "AddToClientObjectIds i fd s = Inr (r, s')" and "refs_ok X s"
    and "\<And>e. map_of (objects s) i = Some e \<Longrightarrow> e_state e = PLASMA_SEALED \<or> e_state e = PLASMA_CREATED \<and> users s i = {}"
  shows "refs_ok X s'"
  using assms(1)
proof (cases rule: AddToClientObjectIds_Inr)
  case already
  with assms(2) show ?thesis by simp
next
  case (added e ids)
  note u = users_add [OF added(5,2)]
  show ?thesis
    by (rule refs_update [OF assms(2) added(4)])
       (use added assms(3) refs_okD(1) [OF assms(2) added(1)] in \<open>auto simp: u entry_ok_def\<close>)
qed

lemma RemoveFromClientObjectIds_Inr:
  assumes "RemoveFromClientObjectIds env i fd s = Inr (r, s')"
  obtains (absent) "s' = s" and "fd \<notin> users s i" and "\<not> r"
  | (removed) e ids t where "map_of (objects s) i = Some e" and "ids_of s fd = Some ids" and "fd \<in> users s i" and "r"
    and "map_of (objects t) = (map_of (objects s))(i \<mapsto> e\<lparr>e_ref_count := e_ref_count e - 1\<rparr>)"
    and "ids_of t = (ids_of s)(fd \<mapsto> removeAll i ids)" and "policy t = policy s"
    and "if e_ref_count e \<noteq> 1 then s' = t
         else if i \<notin> set (deletion_cache s)
         then \<exists>p. EndObjectAccess (objects t) i (policy t) = Inr p \<and> s' = t\<lparr>policy := p\<rparr>
         else EvictObjects env [i] (t\<lparr>deletion_cache := removeAll i (deletion_cache s)\<rparr>) = Inr ((), s')"
    and "alloc t = alloc s"
proof -
  from assms obtain c where c: "map_of (connected_clients s) fd = Some c"
    by (auto simp: RemoveFromClientObjectIds_def op_Inr)
  show thesis
  proof (cases "i \<in> set (c_object_ids c)")
    case False
    with assms c show thesis
      by (intro absent) (auto simp: RemoveFromClientObjectIds_def op_Inr users_def ids_of_def)
  next
    case True
    with assms c obtain e where e: "map_of (objects s) i = Some e"
      by (auto simp: RemoveFromClientObjectIds_def op_Inr)
    define t where "t = s\<lparr>connected_clients := AList.update fd (c\<lparr>c_object_ids := removeAll i (c_object_ids c)\<rparr>) (connected_clients s),
           objects := AList.update i (e\<lparr>e_ref_count := e_ref_count e - 1\<rparr>) (objects s), mutex := False\<rparr>"
    have "RemoveFromClientObjectIds env i fd s =
      (if mutex s then Inl SelfDeadlock
       else rbind (if e_ref_count e \<noteq> 1 then Inr ((), t)
                   else if i \<notin> set (deletion_cache s) then on_policy (EndObjectAccess (objects t) i) t
                   else EvictObjects env [i] (t\<lparr>deletion_cache := removeAll i (deletion_cache s)\<rparr>))
              (\<lambda>(_, s). Inr (True, s)))"
      using True c e
      by (simp add: RemoveFromClientObjectIds_def mbind_def the_client_def set_client_def locked_def
          lock_mutex_def unlock_mutex_def set_entry_def deref_entry_def GetObjectTableEntry_def mret_def
          t_def update_conv')
    with assms have s': "if e_ref_count e \<noteq> 1 then s' = t
         else if i \<notin> set (deletion_cache s)
         then \<exists>p. EndObjectAccess (objects t) i (policy t) = Inr p \<and> s' = t\<lparr>policy := p\<rparr>
         else EvictObjects env [i] (t\<lparr>deletion_cache := removeAll i (deletion_cache s)\<rparr>) = Inr ((), s')"
      and r: "r"
      by (auto simp: rbind_eq_Inr on_policy_Inr split: if_splits)
    show thesis
      by (rule removed [of e "c_object_ids c" t])
         (use c True e s' r in \<open>auto simp: users_def ids_of_def update_conv' fun_eq_iff t_def\<close>)
  qed
qed

lemma refs_RemoveFrom:
  assumes "RemoveFromClientObjectIds env i fd s = Inr (r, s')" and "refs_ok X s"
  shows "refs_ok X s'"
  using assms(1)
proof (cases rule: RemoveFromClientObjectIds_Inr)
  case absent
  with assms(2) show ?thesis by simp
next
  case (removed e ids t)
  note u = users_remove [OF removed(6,2)]
  have t: "refs_ok X t"
  proof (rule refs_update [OF assms(2) removed(5)])
    have "card (users s i - {fd}) = card (users s i) - 1" and "0 < card (users s i)"
      using removed(3) by (auto simp: card_gt_0_iff)
    then show "entry_ok (users t i) (e\<lparr>e_ref_count := e_ref_count e - 1\<rparr>)"
      using refs_okD(1) [OF assms(2) removed(1)] by (auto simp: u entry_ok_def)
  qed (simp add: u)
  have "refs_ok X (t\<lparr>policy := p\<rparr>)" and "refs_ok X (t\<lparr>deletion_cache := d\<rparr>)" for p d
    using t by (simp_all add: refs_ok_def users_def)
  then show ?thesis
    using removed(8) t
    by (auto split: if_splits dest!: EvictObjects_evicts evicts_shrinks intro: refs_shrinks)
qed

section \<open>Operations on single objects\<close>

abbreviation keeps_refs :: "('a, 'x) op \<Rightarrow> bool" where
  "keeps_refs m \<equiv> steps (\<lambda>s s'. refs_ok {} s \<longrightarrow> refs_ok {} s') m"

named_theorems refs_intros \<open>operations that keep the reference counts\<close>

lemma keeps_same: "steps same m \<Longrightarrow> keeps_refs m"
  by (erule steps_mono) (simp add: refs_same)

lemma keeps_shrinks: "steps shrinks m \<Longrightarrow> keeps_refs m"
  by (erule steps_mono) (auto intro: refs_shrinks)

lemma refs_policy [simp]: "refs_ok X (s\<lparr>policy := p\<rparr>) = refs_ok X s"
  by (simp add: refs_ok_def users_def)

lemma keeps_policy [refs_intros]: "keeps_refs (on_policy f)"
  by (auto simp: steps_def on_policy_Inr)

lemma ObjectExists_False: "ObjectExists_store env i s = Inr (False, s') \<Longrightarrow> map_of (objects s) i = None"
  by (auto simp: ObjectExists_store_def op_Inr split: if_splits)

lemma AddObjectTableEntry_Inr:
  assumes "AddObjectTableEntry env i ds ms ptr out dev s = Inr (r, s')"
  obtains e where "map_of (objects s') = (map_of (objects s))(i \<mapsto> e)" and "e_ref_count e = 0"
    and "e_state e = PLASMA_CREATED" and "e_pointer e = ptr" and "ids_of s' = ids_of s" and "policy s' = policy s"
    and "deletion_cache s' = deletion_cache s" and "e_data_size e = ds" and "e_metadata_size e = ms"
    and "e_device_num e = dev" and "e_offset e = out_offset out" and "e_fd e = out_fd out"
    and "e_map_size e = out_map_size out" and "alloc s' = alloc s"
  using assms by (auto simp: AddObjectTableEntry_def op_Inr new_ObjectTableEntry_def update_conv')

lemma CreateObject_Inr:
  assumes "CreateObject env i ev ds ms dev fd res s = Inr (r, s')"
  obtains (none) pe where "r = (pe, res)" and "pe \<noteq> OK" and "shrinks s s'"
  | (created) t a out ptr u v where "map_of (objects s) i = None" and "dev = 0" and "ptr \<noteq> 0" and "same s t"
    and "AllocateMemory env (uint64_of (sadd64 ds ms)) ev \<lparr>out_fd = -1, out_map_size = 0, out_offset = 0\<rparr> fd True t
           = Inr ((ptr, out), a)"
    and "AddObjectTableEntry env i ds ms ptr out dev a = Inr ((), u)"
    and "on_policy (ObjectCreated (objects u) i fd True) u = Inr ((), v)"
    and "AddToClientObjectIds i fd v = Inr ((), s')"
    and "r = (OK, res\<lparr>o_store_fd := out_fd out, o_data_offset := out_offset out,
                       o_metadata_offset := sadd64 (out_offset out) ds, o_data_size := ds,
                       o_metadata_size := ms, o_device_num := dev\<rparr>)"
proof -
  from assms obtain ex t where t: "ObjectExists_store env i s = Inr (ex, t)"
    and rest: "(if ex then mret (ObjectExists, res) else if dev \<noteq> 0 then mret (OutOfMemory, res)
       else mbind (AllocateMemory env (uint64_of (sadd64 ds ms)) ev
                   \<lparr>out_fd = -1, out_map_size = 0, out_offset = 0\<rparr> fd True) (\<lambda>(pointer, out).
          if pointer = 0 then mret (OutOfMemory, res)
          else mbind (AddObjectTableEntry env i ds ms pointer out dev) (\<lambda>_.
               mbind (\<lambda>s. on_policy (ObjectCreated (objects s) i fd True) s) (\<lambda>_.
               mbind (AddToClientObjectIds i fd) (\<lambda>_.
               mret (OK, res\<lparr>o_store_fd := out_fd out, o_data_offset := out_offset out,
                                o_metadata_offset := sadd64 (out_offset out) ds, o_data_size := ds,
                                o_metadata_size := ms, o_device_num := dev\<rparr>)))))) t = Inr (r, s')"
    unfolding CreateObject_def by (elim mbind_InrE)
  from stepsD [OF same_ObjectExists t] have st: "same s t" .
  then have sh: "shrinks s t" by (simp add: same_def shrinks_def)
  show thesis
  proof (cases "ex \<or> dev \<noteq> 0")
    case True
    with rest sh show thesis by (auto split: if_splits intro: none)
  next
    case False
    with rest obtain ptr out a where al: "AllocateMemory env (uint64_of (sadd64 ds ms)) ev
        \<lparr>out_fd = -1, out_map_size = 0, out_offset = 0\<rparr> fd True t = Inr ((ptr, out), a)"
      and rest2: "(if ptr = 0 then mret (OutOfMemory, res)
          else mbind (AddObjectTableEntry env i ds ms ptr out dev) (\<lambda>_.
               mbind (\<lambda>s. on_policy (ObjectCreated (objects s) i fd True) s) (\<lambda>_.
               mbind (AddToClientObjectIds i fd) (\<lambda>_.
               mret (OK, res\<lparr>o_store_fd := out_fd out, o_data_offset := out_offset out,
                                o_metadata_offset := sadd64 (out_offset out) ds, o_data_size := ds,
                                o_metadata_size := ms, o_device_num := dev\<rparr>))))) a = Inr (r, s')"
      by (auto elim!: mbind_InrE)
    show thesis
    proof (cases "ptr = 0")
      case True
      with rest2 have "r = (OutOfMemory, res)" and "s' = a" by auto
      then show thesis
        using shrinks.trans [OF sh stepsD [OF shrinks_AllocateMemory al]] by (intro none) auto
    next
      case ptr: False
      with False t have "map_of (objects s) i = None" by (auto intro: ObjectExists_False)
      with ptr rest2 False al st show thesis by (auto simp: mbind_Inr intro: created)
    qed
  qed
qed

text \<open>Allocation does not touch an object that is not sealed, nor its users.\<close>

lemma shrinks_unsealed:
  "shrinks s s' \<Longrightarrow> (\<And>e. map_of (objects s) i = Some e \<Longrightarrow> e_state e \<noteq> PLASMA_SEALED) \<Longrightarrow>
     map_of (objects s') i = map_of (objects s) i \<and> users s' i = users s i"
  unfolding shrinks_def unused_def by (metis users_cong)

lemma refs_CreateObject [refs_intros]: "keeps_refs (CreateObject env i ev ds ms dev fd res)"
proof (rule stepsI, rule impI)
  fix s :: "'a store" and r s'
  assume run: "CreateObject env i ev ds ms dev fd res s = Inr (r, s')" and ok: "refs_ok {} s"
  from run show "refs_ok {} s'"
  proof (cases rule: CreateObject_Inr)
    case none
    with ok show ?thesis by (auto intro: refs_shrinks)
  next
    case (created t a out ptr u v)
    have t: "refs_ok {} t" and n: "map_of (objects t) i = None"
      using ok created(1,4) by (auto simp: refs_same dest: same_objects)
    note sh = stepsD [OF shrinks_AllocateMemory created(5)]
    note a = refs_shrinks [OF sh t]
    have ua: "users a i = {}" and na: "map_of (objects a) i = None"
      using shrinks_unsealed [OF sh, of i] n refs_okD(2) [OF t n] by auto
    from created(6) obtain e where e: "map_of (objects u) = (map_of (objects a))(i \<mapsto> e)" "e_ref_count e = 0"
      "e_state e = PLASMA_CREATED" "ids_of u = ids_of a"
      by (rule AddObjectTableEntry_Inr)
    from e(4) have uu: "users u = users a" by (rule users_cong)
    have "refs_ok {} u"
      by (rule refs_update [OF a e(1)]) (use e ua in \<open>simp_all add: uu entry_ok_def\<close>)
    then have v: "refs_ok {} v" and ov: "objects v = objects u" and uv: "users v = users u"
      using created(7) by (auto simp: on_policy_Inr intro: users_cong)
    show ?thesis
      by (rule refs_AddTo [OF created(8) v]) (use e ov uv uu ua in auto)
  qed
qed

lemma EvictObjects_keeps [refs_intros]: "keeps_refs (EvictObjects env ids)"
  by (rule keeps_shrinks) (auto simp: steps_def dest: EvictObjects_evicts evicts_shrinks)

lemma RemoveFrom_keeps [refs_intros]: "keeps_refs (RemoveFromClientObjectIds env i fd)"
  by (auto simp: steps_def intro: refs_RemoveFrom)

lemma ReleaseObject_keeps [refs_intros]: "keeps_refs (ReleaseObject env i fd)"
  unfolding ReleaseObject_def by (intro keep.rules refs_intros)

lemma DeleteObject_keeps [refs_intros]: "keeps_refs (DeleteObject env i)"
proof (rule stepsI, rule impI)
  fix s :: "'a store" and r s'
  assume run: "DeleteObject env i s = Inr (r, s')" and ok: "refs_ok {} s"
  obtain e where e: "map_of (objects s) i = Some e" if "s' \<noteq> s"
    using run by (cases "map_of (objects s) i") (auto simp: DeleteObject_def op_Inr)
  show "refs_ok {} s'"
  proof (cases "map_of (objects s) i = None \<or> (\<exists>e. map_of (objects s) i = Some e \<and> (e_state e \<noteq> PLASMA_SEALED \<or> e_ref_count e \<noteq> 0))")
    case True
    then show ?thesis
      using run ok by (auto simp: DeleteObject_def op_Inr refs_ok_def users_def split: option.splits if_splits)
  next
    case False
    then obtain e where e: "unused s i e" by (auto simp: unused_def)
    with run obtain p t where t: "EraseFromObjectTable env i (s\<lparr>policy := p\<rparr>) = Inr ((), t)"
      and n: "PushNotification env (deletion_info i) t = Inr ((), s')"
      by (auto simp: DeleteObject_def op_Inr unused_def split: if_splits)
    have "refs_ok {} t"
      using EraseFromObjectTable_Inr [OF t] unused_no_users [OF ok e] ok
      by (intro refs_erase [of "{}" s t i]) auto
    with stepsD [OF same_PushNotification(1) n] show ?thesis by (simp add: refs_same)
  qed
qed

lemma AbortObject_keeps [refs_intros]: "keeps_refs (AbortObject env i fd)"
proof (rule stepsI, rule impI)
  fix s :: "'a store" and r s'
  assume run: "AbortObject env i fd s = Inr (r, s')" and ok: "refs_ok {} s"
  show "refs_ok {} s'"
  proof (cases "s' = s")
    case False
    with run obtain e c c' t where e: "map_of (objects s) i = Some e" "e_state e \<noteq> PLASMA_SEALED"
      and c: "map_of (connected_clients s) fd = Some c" "i \<in> set (c_object_ids c)"
      and t: "EraseFromObjectTable env i s = Inr ((), t)" and c': "map_of (connected_clients t) fd = Some c'"
      and u': "s' = t\<lparr>connected_clients := AList.update fd (c'\<lparr>c_object_ids := removeAll i (c_object_ids c')\<rparr>) (connected_clients t)\<rparr>"
      by (auto simp: AbortObject_def op_Inr split: option.splits if_splits)
    from c' c EraseFromObjectTable_Inr [OF t]
    have s': "s' = t\<lparr>connected_clients := AList.update fd (c\<lparr>c_object_ids := removeAll i (c_object_ids c)\<rparr>) (connected_clients t)\<rparr>"
      unfolding u' by simp
    have fd: "fd \<in> users s i" using c by (auto simp: users_def ids_of_def)
    moreover have "card (users s i) \<le> 1" using refs_okD(1) [OF ok e(1)] e(2) by (simp add: entry_ok_def)
    ultimately have u: "users s i = {fd}" by (auto simp: card_le_Suc0_iff_eq)
    note E = EraseFromObjectTable_Inr [OF t]
    then have us: "users s' j = (if j = i then {} else users s j)" for j
      using users_remove [of s' s fd i "c_object_ids c" j] c u
      by (auto simp: s' ids_of_def update_conv' fun_eq_iff)
    have os: "map_of (objects s') j = (if j = i then None else map_of (objects s) j)" for j
      using E by (simp add: s' delete_conv')
    show ?thesis
    proof (rule refs_okI)
      fix j
      show "entry_ok (users s' j) e'" if "map_of (objects s') j = Some e'" for e'
        using that refs_okD(1) [OF ok, of j] by (simp add: us os split: if_splits)
      show "users s' j \<subseteq> {}" if "map_of (objects s') j = None"
        using that refs_okD(2) [OF ok, of j] by (simp add: us os split: if_splits)
    qed
  qed (simp add: ok)
qed

section \<open>Sealing\<close>

definition sealed :: "UniqueID \<Rightarrow> 'x store \<Rightarrow> bool" where
  "sealed i s \<longleftrightarrow> (\<exists>e. map_of (objects s) i = Some e \<and> e_state e = PLASMA_SEALED)"

text \<open>Reference counts are right and the objects \<open>S\<close> are sealed.\<close>

definition refs_sealed :: "UniqueID set \<Rightarrow> 'x store \<Rightarrow> bool" where
  "refs_sealed S s \<longleftrightarrow> refs_ok {} s \<and> (\<forall>j \<in> S. sealed j s)"

lemma refs_sealed_same: "steps same m \<Longrightarrow> steps (\<lambda>s s'. refs_sealed S s \<longrightarrow> refs_sealed S s') m"
  by (erule steps_mono) (auto simp: refs_sealed_def refs_same sealed_def dest: same_objects)

lemma refs_sealed_AddTo:
  "i \<in> S \<Longrightarrow> steps (\<lambda>s s'. refs_sealed S s \<longrightarrow> refs_sealed S s') (AddToClientObjectIds i fd)"
proof (rule stepsI, rule impI)
  fix s :: "'a store" and r s'
  assume i: "i \<in> S" and run: "AddToClientObjectIds i fd s = Inr (r, s')" and ok: "refs_sealed S s"
  have "refs_ok {} s'"
    by (rule refs_AddTo [OF run]) (use ok i in \<open>auto simp: refs_sealed_def sealed_def\<close>)
  moreover from run have "sealed j s'" if "j \<in> S" for j
    using ok that by (cases rule: AddToClientObjectIds_Inr) (auto simp: refs_sealed_def sealed_def)
  ultimately show "refs_sealed S s'" by (simp add: refs_sealed_def)
qed

lemma seal_one_Inr:
  assumes "seal_one env digests ids k infos s = Inr (r, s')"
  obtains e e' where "map_of (objects s) (ids ! k) = Some e" and "e_state e = PLASMA_CREATED"
    and "map_of (objects s') = (map_of (objects s))(ids ! k \<mapsto> e')" and "e_state e' = PLASMA_SEALED"
    and "e_ref_count e' = e_ref_count e" and "ids_of s' = ids_of s" and "policy s' = policy s"
    and "deletion_cache s' = deletion_cache s" and "PlasmaObject_init e' = PlasmaObject_init e"
    and "e_pointer e' = e_pointer e" and "alloc s' = alloc s"
  using assms
  by (auto simp: seal_one_def Let_def op_Inr update_conv' PlasmaObject_init_def split: option.splits if_splits)

lemma seal_one_refs:
  assumes "seal_one env digests ids k infos s = Inr (r, s')" and "refs_ok {} s"
  shows "refs_ok {} s' \<and> sealed (ids ! k) s' \<and> (\<forall>j. sealed j s \<longrightarrow> sealed j s')"
  using assms(1)
proof (cases rule: seal_one_Inr)
  case (1 e e')
  note u = users_cong [OF 1(6)]
  have "refs_ok {} s'"
    by (rule refs_update [OF assms(2) 1(3)]) (use 1 refs_okD(1) [OF assms(2) 1(1)] in \<open>auto simp: u entry_ok_def\<close>)
  with 1 show ?thesis by (auto simp: sealed_def)
qed

lemma seal_fold_refs:
  assumes "mfold (seal_one env digests ids) ks infos s = Inr (r, s')" and "refs_ok {} s"
  shows "refs_ok {} s'" and "\<forall>k \<in> set ks. sealed (ids ! k) s'"
proof -
  show "refs_ok {} s'"
    by (rule mfold_invariant [OF assms(1), where P = "\<lambda>_ t. refs_ok {} t"])
       (use assms(2) seal_one_refs in blast)+
  show "\<forall>k \<in> set ks. sealed (ids ! k) s'"
    by (rule mfold_each [OF assms(1), where I = "refs_ok {}" and Q = "\<lambda>k. sealed (ids ! k)"])
       (use assms(2) seal_one_refs in blast)+
qed

lemma UpdateObjectGetRequests_refs:
  assumes "i \<in> S"
  shows "steps (\<lambda>s s'. refs_sealed S s \<longrightarrow> refs_sealed S s') (UpdateObjectGetRequests env i)"
proof (rule keep.wake)
  fix s s' :: "'a store"
  assume "same s s'"
  then show "refs_sealed S s \<longrightarrow> refs_sealed S s'"
    by (auto simp: refs_sealed_def refs_same sealed_def dest: same_objects)
qed (rule refs_sealed_AddTo [OF assms])

lemma SealObjects_keeps [refs_intros]: "keeps_refs (SealObjects env ids digests)"
proof (rule stepsI, rule impI)
  fix s :: "'a store" and r s'
  assume run: "SealObjects env ids digests s = Inr (r, s')" and ok: "refs_ok {} s"
  then obtain infos t u where
    t: "mfold (seal_one env digests ids) [0 ..< length ids] [] s = Inr (infos, t)" and
    u: "PushNotifications env infos t = Inr ((), u)" and
    s': "mfold (\<lambda>object_id _. UpdateObjectGetRequests env object_id) ids () u = Inr ((), s')"
    by (auto simp: SealObjects_def mbind_Inr)
  from seal_fold_refs [OF t ok] have "refs_sealed (set ids) t"
    by (auto simp: refs_sealed_def in_set_conv_nth)
  with stepsD [OF refs_sealed_same [OF same_PushNotifications] u] have "refs_sealed (set ids) u" by simp
  moreover have "steps (\<lambda>s s'. refs_sealed (set ids) s \<longrightarrow> refs_sealed (set ids) s')
      (mfold (\<lambda>object_id _. UpdateObjectGetRequests env object_id) ids ())"
    by (intro keep.fold UpdateObjectGetRequests_refs)
  ultimately show "refs_ok {} s'"
    using stepsD s' by (fastforce simp: refs_sealed_def)
qed

section \<open>Get requests\<close>

text \<open>An object that is being brought back from the external store.\<close>

definition held :: "UniqueID \<Rightarrow> 'x store \<Rightarrow> bool" where
  "held i s \<longleftrightarrow> (\<exists>e. map_of (objects s) i = Some e \<and> e_state e \<noteq> PLASMA_SEALED \<and> e_pointer e \<noteq> 0)"

definition refs_held :: "UniqueID set \<Rightarrow> 'x store \<Rightarrow> bool" where
  "refs_held S s \<longleftrightarrow> refs_ok {} s \<and> (\<forall>j \<in> S. held j s)"

lemma refs_held_same: "steps same m \<Longrightarrow> steps (\<lambda>s s'. refs_held S s \<longrightarrow> refs_held S s') m"
  by (erule steps_mono) (auto simp: refs_held_def refs_same held_def dest: same_objects)

lemma refs_held_shrinks: "shrinks s s' \<Longrightarrow> refs_held S s \<Longrightarrow> refs_held S s'"
  using refs_shrinks [of s s' "{}"] shrinks_unsealed [of s s'] unfolding refs_held_def held_def by fastforce

lemma held_AddTo: "AddToClientObjectIds i fd s = Inr (r, s') \<Longrightarrow> held j s \<Longrightarrow> held j s'"
  by (erule AddToClientObjectIds_Inr) (auto simp: held_def split: if_splits)

text \<open>The branch of \<open>ProcessGetRequest\<close> for an evicted object.\<close>

definition placed :: "nat \<Rightarrow> AllocOut \<Rightarrow> ObjectTableEntry \<Rightarrow> ObjectTableEntry" where
  "placed ptr out e = e\<lparr>e_pointer := ptr, e_fd := out_fd out, e_map_size := out_map_size out, e_offset := out_offset out\<rparr>"

lemma get_one_evicted_Inr:
  assumes run: "get_one env r fd i (rem, evs) s = Inr ((rem', evs'), s')"
    and e: "map_of (objects s) i = Some e" "e_state e = PLASMA_EVICTED"
  obtains ptr out t where "e_pointer e = 0"
    and "AllocateMemory env (uint64_of (sadd64 (e_data_size e) (e_metadata_size e))) True
          \<lparr>out_fd = e_fd e, out_map_size = e_map_size e, out_offset = e_offset e\<rparr> fd False (s\<lparr>mutex := True\<rparr>) = Inr ((ptr, out), t)"
    and "map_of (objects t) i = Some e"
    and "if ptr = 0
         then evs' = evs \<and> ids_of s' = ids_of t \<and> policy s' = policy t \<and>
              alloc s' = alloc t \<and> map_of (objects s') = (map_of (objects t))(i \<mapsto> placed 0 out e)
         else evs' = evs @ [i] \<and> (\<exists>tm w. AddToClientObjectIds i fd w = Inr ((), s') \<and> ids_of w = ids_of t \<and> alloc w = alloc t \<and>
              map_of (objects w) = (map_of (objects t))(i \<mapsto> (placed ptr out e)\<lparr>e_state := PLASMA_CREATED, e_create_time := tm\<rparr>) \<and>
              ObjectCreated (objects w) i fd False (policy t) = Inr (policy w))"
proof -
  from run e obtain ptr out t where p0: "e_pointer e = 0"
    and al: "AllocateMemory env (uint64_of (sadd64 (e_data_size e) (e_metadata_size e))) True
          \<lparr>out_fd = e_fd e, out_map_size = e_map_size e, out_offset = e_offset e\<rparr> fd False (s\<lparr>mutex := True\<rparr>) = Inr ((ptr, out), t)"
    by (auto simp: get_one_def op_Inr)
  have et: "map_of (objects t) i = Some e"
    using shrinks_unsealed [OF stepsD [OF shrinks_AllocateMemory al], of i] e by auto
  show thesis
  proof (rule that [OF p0 al et], cases "ptr = 0")
    case True
    then show "if ptr = 0
         then evs' = evs \<and> ids_of s' = ids_of t \<and> policy s' = policy t \<and>
              alloc s' = alloc t \<and> map_of (objects s') = (map_of (objects t))(i \<mapsto> placed 0 out e)
         else evs' = evs @ [i] \<and> (\<exists>tm w. AddToClientObjectIds i fd w = Inr ((), s') \<and> ids_of w = ids_of t \<and> alloc w = alloc t \<and>
              map_of (objects w) = (map_of (objects t))(i \<mapsto> (placed ptr out e)\<lparr>e_state := PLASMA_CREATED, e_create_time := tm\<rparr>) \<and>
              ObjectCreated (objects w) i fd False (policy t) = Inr (policy w))"
      using run e p0 al et by (auto simp: get_one_def op_Inr placed_def update_conv' fun_eq_iff)
  next
    case False
    from False run e p0 al et obtain w tm where
      "AddToClientObjectIds i fd w = Inr ((), s')"
      "map_of (objects w) = (map_of (objects t))(i \<mapsto> (placed ptr out e)\<lparr>e_state := PLASMA_CREATED, e_create_time := tm\<rparr>)"
      "ids_of w = ids_of t" "alloc w = alloc t" "ObjectCreated (objects w) i fd False (policy t) = Inr (policy w)" "evs' = evs @ [i]"
      by (auto simp: get_one_def op_Inr placed_def update_conv' fun_eq_iff)
    then show "if ptr = 0
         then evs' = evs \<and> ids_of s' = ids_of t \<and> policy s' = policy t \<and>
              alloc s' = alloc t \<and> map_of (objects s') = (map_of (objects t))(i \<mapsto> placed 0 out e)
         else evs' = evs @ [i] \<and> (\<exists>tm w. AddToClientObjectIds i fd w = Inr ((), s') \<and> ids_of w = ids_of t \<and> alloc w = alloc t \<and>
              map_of (objects w) = (map_of (objects t))(i \<mapsto> (placed ptr out e)\<lparr>e_state := PLASMA_CREATED, e_create_time := tm\<rparr>) \<and>
              ObjectCreated (objects w) i fd False (policy t) = Inr (policy w))"
      using False by auto
  qed
qed

lemma get_one_evicted:
  assumes run: "get_one env r fd i (rem, evs) s = Inr ((rem', evs'), s')"
    and e: "map_of (objects s) i = Some e" "e_state e = PLASMA_EVICTED"
    and ok: "refs_held (set evs) s"
  shows "refs_held (set evs') s'"
  using run e
proof (cases rule: get_one_evicted_Inr)
  case (1 ptr out t)
  have s1: "refs_held (set evs) (s\<lparr>mutex := True\<rparr>)" using ok by (simp add: refs_held_def held_def refs_ok_def users_def)
  note sh = stepsD [OF shrinks_AllocateMemory 1(2)]
  note t = refs_held_shrinks [OF sh s1]
  have "users t i = users s i" using shrinks_unsealed [OF sh, of i] e by (auto simp: users_def)
  then have ut: "users t i = {}"
    using refs_okD(1) [of "{}" s i e] ok e 1(1) by (auto simp: refs_held_def entry_ok_def)
  have i: "i \<notin> set evs" using ok e 1(1) by (auto simp: refs_held_def held_def)
  note et = refs_okD(1) [OF _ 1(3), of "{}"]
  show ?thesis
  proof (cases "ptr = 0")
    case True
    with 1(4) have ob: "map_of (objects s') = (map_of (objects t))(i \<mapsto> placed 0 out e)" and evs: "evs' = evs"
      and u: "users s' = users t" by (auto intro: users_cong)
    have "refs_ok {} s'"
      by (rule refs_update [OF _ ob]) (use t ut et in \<open>auto simp: refs_held_def u entry_ok_def placed_def\<close>)
    with t i ob evs show ?thesis by (auto simp: refs_held_def held_def)
  next
    case False
    with 1(4) obtain w tm where w: "AddToClientObjectIds i fd w = Inr ((), s')" "ids_of w = ids_of t"
        "map_of (objects w) = (map_of (objects t))(i \<mapsto> (placed ptr out e)\<lparr>e_state := PLASMA_CREATED, e_create_time := tm\<rparr>)"
      and evs: "evs' = evs @ [i]" by auto
    have uw: "users w = users t" using w(2) by (rule users_cong)
    have "refs_ok {} w"
      by (rule refs_update [OF _ w(3)]) (use t ut et in \<open>auto simp: refs_held_def uw entry_ok_def placed_def\<close>)
    then have "refs_ok {} s'"
      by (rule refs_AddTo [OF w(1)]) (use w(3) ut uw in auto)
    moreover have "held j w" if "j \<in> set evs'" for j
      using that t w(3) False evs i by (auto simp: refs_held_def held_def placed_def)
    then have "held j s'" if "j \<in> set evs'" for j
      using held_AddTo [OF w(1)] that by blast
    ultimately show ?thesis by (simp add: refs_held_def)
  qed
qed

lemma get_one_refs:
  assumes "get_one env r fd i (rem, evs) s = Inr ((rem', evs'), s')" and "refs_held (set evs) s"
  shows "refs_held (set evs') s'"
proof (cases "map_of (objects s) i")
  case None
  with assms show ?thesis by (auto simp: get_one_def op_Inr)
next
  case (Some e)
  show ?thesis
  proof (cases "e_state e")
    case PLASMA_CREATED
    with assms Some show ?thesis by (auto simp: get_one_def op_Inr)
  next
    case PLASMA_SEALED
    with assms(1) Some obtain t where
      q: "set_request r (\<lambda>q. q\<lparr>gr_objects := AList.update i (PlasmaObject_init e) (gr_objects q),
                            gr_num_satisfied := gr_num_satisfied q + 1\<rparr>) s = Inr ((), t)" and
      a: "AddToClientObjectIds i fd t = Inr ((), s')" and evs: "evs' = evs"
      by (auto simp: get_one_def mbind_Inr)
    have "same s t" and t: "refs_held (set evs') t"
      using stepsD [OF refs_held_same [OF same_set_request] q] stepsD [OF same_set_request q] assms(2) evs by auto
    then have "map_of (objects t) i = Some e" using Some by (simp add: same_def)
    then have "refs_ok {} s'"
      using t PLASMA_SEALED by (intro refs_AddTo [OF a]) (auto simp: refs_held_def)
    with t held_AddTo [OF a] show ?thesis by (auto simp: refs_held_def)
  next
    case PLASMA_EVICTED
    show ?thesis by (rule get_one_evicted [OF assms(1) Some PLASMA_EVICTED assms(2)])
  qed
qed

lemma same_get_remote: "steps same (get_remote r es ids k u)"
  unfolding get_remote_def
  by (rule stepsI) (auto simp: Let_def op_Inr split: if_splits)

lemma same_buffer_fill: "steps same (buffer_fill x u)"
  by (cases x) (auto simp: steps_def buffer_fill_def op_Inr split: option.splits)

lemma same_check_pointer: "steps same (check_pointer i sizes)"
  by (auto simp: steps_def check_pointer_def op_Inr)

text \<open>Putting an object back into the table with another state.\<close>

lemma refs_set_entry:
  assumes "set_entry i f s = Inr (r, s')" and "refs_ok {} s"
    and "\<And>e. map_of (objects s) i = Some e \<Longrightarrow> e_ref_count (f e) = e_ref_count e \<and>
           (e_state (f e) = PLASMA_SEALED \<or> e_state e \<noteq> PLASMA_SEALED \<and> e_pointer (f e) \<noteq> 0)"
  shows "refs_ok {} s'"
proof -
  from assms(1) obtain e where e: "map_of (objects s) i = Some e" "s' = s\<lparr>objects := AList.update i (f e) (objects s)\<rparr>"
    by (auto simp: set_entry_Inr)
  then have u: "users s' = users s" by (auto intro: users_cong)
  show ?thesis
    by (rule refs_update [OF assms(2), of _ i "f e"])
       (use e u assms(3) [OF e(1)] refs_okD(1) [OF assms(2) e(1)] in \<open>auto simp: update_conv' entry_ok_def\<close>)
qed

lemma restored_keeps: "keeps_refs (get_restored env r i u)"
proof (rule stepsI, rule impI)
  fix s :: "'a store" and x s'
  assume run: "get_restored env r i u s = Inr (x, s')" and ok: "refs_ok {} s"
  then obtain v tm where
    v: "set_entry i (\<lambda>e. e\<lparr>e_state := PLASMA_SEALED, e_digest := replicate kDigestSize 0,
              e_construct_duration := tm - e_create_time e\<rparr>) (s\<lparr>tick := Suc (tick s)\<rparr>) = Inr ((), v)" and s': "same v s'"
    by (auto simp: get_restored_def mbind_Inr set_request_Inr)
  have "refs_ok {} v"
    by (rule refs_set_entry [OF v]) (use ok in \<open>auto simp: refs_ok_def users_def\<close>)
  with s' show "refs_ok {} s'" by (simp add: refs_same)
qed

lemma put_back_refs:
  assumes "mfold (\<lambda>i _. set_entry i (\<lambda>e. e\<lparr>e_state := PLASMA_EVICTED\<rparr>)) ids u s = Inr (r, s')"
    and "refs_held (set ids) s"
  shows "refs_held (set ids) s'"
proof (rule mfold_invariant [OF assms(1), where P = "\<lambda>_. refs_held (set ids)"])
  fix i b t b' t'
  assume i: "i \<in> set ids" and ok: "refs_held (set ids) t" and
    run: "set_entry i (\<lambda>e. e\<lparr>e_state := PLASMA_EVICTED\<rparr>) t = Inr (b', t')"
  have "refs_ok {} t'"
    by (rule refs_set_entry [OF run]) (use ok i in \<open>auto simp: refs_held_def held_def\<close>)
  moreover from i ok obtain e where "map_of (objects t) i = Some e" and "e_pointer e \<noteq> 0"
    by (auto simp: refs_held_def held_def)
  ultimately show "refs_held (set ids) t'"
    using ok run by (auto simp: refs_held_def held_def set_entry_Inr update_conv' split: if_splits)
qed (rule assms(2))

lemma get_evicted_refs:
  assumes "get_evicted env r evs s = Inr (x, s')" and "refs_held (set evs) s"
  shows "refs_ok {} s'"
proof -
  from assms(1) obtain sizes t ext st contents v where
    t: "mfold check_pointer evs [] s = Inr (sizes, t)" and
    v: "mfold buffer_fill (zip evs contents) () t = Inr ((), v)" and
    w: "(if st_ok st then mfold (get_restored env r) evs ()
         else locked (mfold (\<lambda>i _. set_entry i (\<lambda>e. e\<lparr>e_state := PLASMA_EVICTED\<rparr>)) evs ())) v = Inr (x, s')"
    by (auto simp: get_evicted_def mbind_Inr rbind_eq_Inr split: option.splits)
  have 1: "steps same (mfold check_pointer evs [])" and 2: "steps same (mfold buffer_fill (zip evs contents) ())"
    by (auto intro!: same.fold same_check_pointer same_buffer_fill)
  from stepsD [OF 1 t] stepsD [OF 2 v] have "same s t" and "same t v" by simp_all
  then have "refs_held (set evs) v"
    using assms(2) same_objects [of s t] same_objects [of t v] by (auto simp: refs_held_def refs_same held_def)
  then have v': "refs_held (set evs) (v\<lparr>mutex := b\<rparr>)" for b
    by (simp add: refs_held_def held_def refs_ok_def users_def)
  show ?thesis
  proof (cases "st_ok st")
    case True
    have "keeps_refs (mfold (get_restored env r) evs ())" by (intro keep.fold restored_keeps)
    with w True v' [of "mutex v"] show ?thesis
      using stepsD by (fastforce simp: refs_held_def)
  next
    case False
    with w obtain y where
      "mfold (\<lambda>i _. set_entry i (\<lambda>e. e\<lparr>e_state := PLASMA_EVICTED\<rparr>)) evs () (v\<lparr>mutex := True\<rparr>) = Inr (x, y)"
      and s': "s' = y\<lparr>mutex := False\<rparr>"
      by (auto simp: locked_Inr)
    from put_back_refs [OF this(1) v'] show ?thesis
      by (simp add: refs_held_def refs_ok_def users_def s')
  qed
qed

lemma same_reply_or_wait: "steps same (reply_or_wait env r timeout)"
  unfolding reply_or_wait_def by (auto intro!: same.rules steps_intros)

lemma same_check_remote: "steps same (check_remote env r rem)"
proof -
  have *: "steps same (mfold (get_remote r es rem) ks ())" for es ks
    by (intro same.fold same_get_remote)
  show ?thesis
    by (rule stepsI) (auto simp: check_remote_def Let_def split: if_splits dest!: stepsD [OF *])
qed

lemma get_fold_refs:
  assumes "mfold (get_one env r fd) ids ([], []) s = Inr ((rem, evs), t)" and "refs_ok {} s"
  shows "refs_held (set evs) t"
proof -
  have "refs_held (set (snd (rem, evs))) t"
  proof (rule mfold_invariant [OF assms(1), where P = "\<lambda>a. refs_held (set (snd a))"])
    fix i a u a' u'
    assume "refs_held (set (snd a)) u" and "get_one env r fd i a u = Inr (a', u')"
    then show "refs_held (set (snd a')) u'" by (cases a; cases a') (auto dest: get_one_refs)
  qed (simp add: refs_held_def assms(2))
  then show ?thesis by simp
qed

lemma ProcessGetRequest_Inr:
  assumes "ProcessGetRequest env fd ids timeout s = Inr (x, s')"
  obtains r s0 rem evs t u v where "r = next_request s"
    and "s0 = s\<lparr>get_heap := AList.update r (new_GetRequest fd ids) (get_heap s), next_request := Suc r\<rparr>"
    and "mfold (get_one env r fd) ids ([], []) s0 = Inr ((rem, evs), t)"
    and "check_remote env r rem t = Inr ((), u)"
    and "(if evs \<noteq> [] then get_evicted env r evs else mret ()) u = Inr ((), v)"
    and "reply_or_wait env r timeout v = Inr ((), s')"
  using assms by (auto simp: ProcessGetRequest_def Let_def mbind_Inr)

lemma ProcessGetRequest_keeps [refs_intros]: "keeps_refs (ProcessGetRequest env fd ids timeout)"
proof (rule stepsI, rule impI)
  fix s :: "'a store" and x s'
  assume run: "ProcessGetRequest env fd ids timeout s = Inr (x, s')" and ok: "refs_ok {} s"
  from run show "refs_ok {} s'"
  proof (rule ProcessGetRequest_Inr)
    fix r s0 rem evs t u v
    assume s0: "s0 = s\<lparr>get_heap := AList.update r (new_GetRequest fd ids) (get_heap s), next_request := Suc r\<rparr>"
      and t: "mfold (get_one env r fd) ids ([], []) s0 = Inr ((rem, evs), t)"
      and u: "check_remote env r rem t = Inr ((), u)"
      and v: "(if evs \<noteq> [] then get_evicted env r evs else mret ()) u = Inr ((), v)"
      and w: "reply_or_wait env r timeout v = Inr ((), s')"
    have "same s s0" by (simp add: s0)
    then have "refs_ok {} s0" using ok by (simp add: refs_same)
    from get_fold_refs [OF t this] stepsD [OF same_check_remote u]
    have u': "refs_held (set evs) u" by (auto simp: refs_held_def refs_same held_def dest: same_objects)
    have "refs_ok {} v"
      using v u' get_evicted_refs [of env r evs u "()" v] by (cases "evs = []") (auto simp: refs_held_def)
    with stepsD [OF same_reply_or_wait w] show "refs_ok {} s'" by (simp add: refs_same)
  qed
qed

section \<open>Connections\<close>

text \<open>While a client is being disconnected it may still list objects that are gone.\<close>

lemma refs_weaken: "refs_ok X s \<Longrightarrow> X \<subseteq> Y \<Longrightarrow> refs_ok Y s"
  unfolding refs_ok_def by blast

text \<open>What the loop over the objects of a leaving client establishes: unsealed ones are gone.\<close>

lemma leave_one_refs:
  assumes run: "leave_one env i acc s = Inr (acc', s')" and ok: "refs_ok {fd} s"
    and ids: "ids_of s fd = Some ids" and i: "i \<in> set ids"
  shows "refs_ok {fd} s' \<and> ids_of s' = ids_of s \<and> set acc \<subseteq> set acc' \<and>
    (map_of (objects s') i = None \<or> i \<in> set acc') \<and>
    (\<forall>j. map_of (objects s) j = None \<longrightarrow> map_of (objects s') j = None)"
proof (cases "map_of (objects s) i")
  case None
  with run ok show ?thesis by (auto simp: leave_one_def op_Inr)
next
  case (Some e)
  show ?thesis
  proof (cases "e_state e = PLASMA_SEALED")
    case True
    with run ok Some show ?thesis by (auto simp: leave_one_def op_Inr)
  next
    case False
    with run Some obtain t where t: "EraseFromObjectTable env i s = Inr ((), t)" and "acc' = acc" "s' = t"
      by (auto simp: leave_one_def op_Inr)
    have "fd \<in> users s i" using ids i by (auto simp: users_def)
    moreover have "card (users s i) \<le> 1"
      using refs_okD(1) [OF ok Some] False by (simp add: entry_ok_def)
    ultimately have "users s i \<subseteq> {fd}" by (auto simp: card_le_Suc0_iff_eq)
    then have "refs_ok {fd} t"
      using EraseFromObjectTable_Inr [OF t] by (intro refs_erase [OF ok, of t i]) auto
    with EraseFromObjectTable_Inr [OF t] \<open>acc' = acc\<close> \<open>s' = t\<close> show ?thesis
      by (auto simp: delete_conv')
  qed
qed

lemma leave_fold_refs:
  assumes "mfold (leave_one env) js acc s = Inr (acc', s')" and "refs_ok {fd} s"
    and "ids_of s fd = Some ids" and "set js \<subseteq> set ids"
  shows "refs_ok {fd} s' \<and> ids_of s' = ids_of s \<and> set acc \<subseteq> set acc' \<and>
    (\<forall>j \<in> set js. map_of (objects s') j = None \<or> j \<in> set acc') \<and>
    (\<forall>j. map_of (objects s) j = None \<longrightarrow> map_of (objects s') j = None)"
  using assms
proof (induction js arbitrary: acc s)
  case (Cons j js)
  from Cons.prems(1) obtain a t where a: "leave_one env j acc s = Inr (a, t)"
    and t: "mfold (leave_one env) js a t = Inr (acc', s')" by (auto simp: mbind_Inr)
  note 1 = leave_one_refs [OF a Cons.prems(2,3)]
  from Cons.IH [OF t] 1 Cons.prems show ?case by auto
qed auto

text \<open>The second loop takes the client out of the users of the sealed ones.\<close>

lemma leave_users_refs:
  assumes "mfold (\<lambda>i _. mbind (RemoveFromClientObjectIds env i fd) (\<lambda>_. mret ())) js u s = Inr (r, s')"
    and "refs_ok X s"
  shows "refs_ok X s' \<and> (\<forall>j \<in> set js. fd \<notin> users s' j) \<and> (\<forall>j. fd \<notin> users s j \<longrightarrow> fd \<notin> users s' j) \<and>
    (\<forall>j. map_of (objects s) j = None \<longrightarrow> map_of (objects s') j = None)"
  using assms
proof (induction js arbitrary: u s)
  case (Cons j js)
  from Cons.prems(1) obtain b t where b: "RemoveFromClientObjectIds env j fd s = Inr (b, t)"
    and t: "mfold (\<lambda>i _. mbind (RemoveFromClientObjectIds env i fd) (\<lambda>_. mret ())) js () t = Inr (r, s')"
    by (auto simp: mbind_Inr)
  have "fd \<notin> users t j \<and> (\<forall>k. fd \<notin> users s k \<longrightarrow> fd \<notin> users t k) \<and>
      (\<forall>k. map_of (objects s) k = None \<longrightarrow> map_of (objects t) k = None)"
    using b
  proof (cases rule: RemoveFromClientObjectIds_Inr)
    case absent
    then show ?thesis by simp
  next
    case (removed e ids v)
    note u = users_remove [OF removed(6,2)]
    have "shrinks v t \<or> shrinks (v\<lparr>deletion_cache := d\<rparr>) t" if "d = removeAll j (deletion_cache s)" for d
      using removed(8) that
      by (auto split: if_splits simp: shrinks.refl dest!: EvictObjects_evicts evicts_shrinks)
    then have "users t = users v \<and> (\<forall>k. map_of (objects v) k = None \<longrightarrow> map_of (objects t) k = None)"
      by (auto simp: shrinks_def unused_def intro!: users_cong) (metis option.distinct(1))+
    moreover have "map_of (objects v) k = None" if "map_of (objects s) k = None" for k
      using that removed(1,5) by auto
    ultimately show ?thesis using u by auto
  qed
  with Cons.IH [OF t refs_RemoveFrom [OF b Cons.prems(2)]] show ?case by auto
qed simp

lemma DisconnectClient_Inr:
  assumes "DisconnectClient env fd s = Inr (r, s')"
  obtains c t p js u v w x where "map_of (connected_clients s) fd = Some c"
    and "same s t" and "mfold (leave_one env) (c_object_ids c) [] (t\<lparr>policy := p\<rparr>) = Inr (js, u)"
    and "ClientDisconnected (objects s) fd (policy s) = Inr p"
    and "RemoveGetRequestsForClient fd u = Inr ((), v)"
    and "mfold (\<lambda>i _. mbind (RemoveFromClientObjectIds env i fd) (\<lambda>_. mret ())) js () v = Inr ((), w)"
    and "close_notification c w = Inr ((), x)"
    and "s' = x\<lparr>connected_clients := AList.delete fd (connected_clients x)\<rparr>"
proof -
  from assms obtain l where l: "RemoveFileEvent fd (evloop s) = Inr ((), l)" by (auto simp: DisconnectClient_def op_Inr)
  define t where "t = s\<lparr>outbox := outbox s @ [ClosedFd fd], evloop := closed_fd fd l\<rparr>"
  have "loop_uses (evloop s) (closed_fd fd l)" by (rule loop_uses.close [OF loop_use(2) [OF l]])
  then have "same s t" by (simp add: t_def same_def)
  moreover from assms obtain c p js u v w x where "map_of (connected_clients s) fd = Some c"
    and "mfold (leave_one env) (c_object_ids c) [] (t\<lparr>policy := p\<rparr>) = Inr (js, u)"
    and "ClientDisconnected (objects s) fd (policy s) = Inr p"
    and "RemoveGetRequestsForClient fd u = Inr ((), v)"
    and "mfold (\<lambda>i _. mbind (RemoveFromClientObjectIds env i fd) (\<lambda>_. mret ())) js () v = Inr ((), w)"
    and "close_notification c w = Inr ((), x)"
    and "s' = x\<lparr>connected_clients := AList.delete fd (connected_clients x)\<rparr>"
    by (auto simp: DisconnectClient_def op_Inr close_fd_def t_def l)
  ultimately show thesis by - (rule that, assumption+)
qed

lemma DisconnectClient_keeps [refs_intros]: "keeps_refs (DisconnectClient env fd)"
proof (rule stepsI, rule impI)
  fix s :: "'a store" and r s'
  assume run: "DisconnectClient env fd s = Inr (r, s')" and ok: "refs_ok {} s"
  from run show "refs_ok {} s'"
  proof (cases rule: DisconnectClient_Inr)
    case (1 c t p js u v w x)
    from 1(1,2) have ids: "ids_of (t\<lparr>policy := p\<rparr>) fd = Some (c_object_ids c)"
      by (simp add: same_def) (simp add: ids_of_def)
    have "refs_ok {fd} (t\<lparr>policy := p\<rparr>)"
      using ok 1(2) refs_weaken [of "{}" s "{fd}"] by (simp add: refs_same)
    note u = leave_fold_refs [OF 1(3) this ids subset_refl]
    from stepsD [OF same_RemoveGetRequestsForClient 1(5)] have uv: "same u v" .
    then have v: "refs_ok {fd} v" using u by (simp add: refs_same)
    note w = leave_users_refs [OF 1(6) v]
    note x = stepsD [OF same_close_notification 1(7)] and s' = 1(8)
    have ux: "users x = users w" and ox: "objects x = objects w"
      using same_objects [OF x] by (auto intro: users_cong)
    have us: "users s' j = users w j - {fd}" for j
      using users_drop [of s' x fd j] ux by (simp add: s' ids_of_def delete_conv' fun_eq_iff)
    have uvu: "users v = users u" and ovu: "objects v = objects u"
      using same_objects [OF uv] by (auto intro: users_cong)
    have gone: "fd \<notin> users w j" if "map_of (objects w) j \<noteq> None" for j
    proof (cases "j \<in> set (c_object_ids c)")
      case True
      then show ?thesis using u w ovu that by auto
    next
      case False
      then have "fd \<notin> users u j" using u ids by (auto simp: users_def)
      then show ?thesis using w uvu by auto
    qed
    show ?thesis
    proof (rule refs_okI)
      fix j
      show "entry_ok (users s' j) e" if "map_of (objects s') j = Some e" for e
        using that refs_okD(1) [of "{fd}" w j e] w gone [of j] unfolding us by (simp add: s' ox)
      show "users s' j \<subseteq> {}" if "map_of (objects s') j = None"
        using that refs_okD(2) [of "{fd}" w j] w unfolding us by (auto simp: s' ox)
    qed
  qed
qed

lemma ConnectClient_refs:
  assumes "ConnectClient env sock s = Inr (r, s')" and "refs_ok {} s"
    and "map_of (connected_clients s) (AcceptClient sock) = None"
  shows "refs_ok {} s'"
proof -
  from assms(1) have i: "ids_of s' = (ids_of s)(AcceptClient sock \<mapsto> [])" and o: "objects s' = objects s"
    by (auto simp: ConnectClient_def add_file_event_def Let_def op_Inr ids_of_def update_conv' fun_eq_iff new_Client_def)
  from i assms(3) have "users s' = users s"
    by (auto simp: users_def fun_eq_iff ids_of_def)
  with o assms(2) show ?thesis by (simp add: refs_ok_def)
qed

section \<open>Every event keeps the counts\<close>

lemma evict_bytes_Inr:
  assumes "evict_bytes env n s = Inr (k, s')"
  obtains ids p where "ep_ChooseObjectsToEvict n [] (policy s) = Inr (k, ids, p)"
    and "EvictObjects env ids (s\<lparr>policy := p\<rparr>) = Inr ((), s')"
  using assms by (auto simp: evict_bytes_def op_Inr)

lemma evict_bytes_keeps [refs_intros]: "keeps_refs (evict_bytes env n)"
proof (rule keeps_shrinks, rule stepsI)
  fix s :: "'a store" and k s'
  assume "evict_bytes env n s = Inr (k, s')"
  then show "shrinks s s'"
    by (rule evict_bytes_Inr) (auto dest!: EvictObjects_evicts evicts_shrinks)
qed

lemma set_quota_keeps [refs_intros]: "keeps_refs (set_quota fd name n)"
  by (auto simp: steps_def set_quota_def rbind_eq_Inr)

interpretation refs: server_effect "\<lambda>s s'. refs_ok {} s \<longrightarrow> refs_ok {} s'" env "\<lambda>_ _. True" True "\<lambda>_. True" for env
  by unfold_locales (auto simp: refs_same intro: refs_intros ConnectClient_refs)

lemma refs_initial: "refs_ok {} (PlasmaStore l a x m)"
  by (simp add: refs_ok_def users_def ids_of_def PlasmaStore_def)

lemma store_reach_refs:
  assumes "store_reach ok env (PlasmaStore l a x m) s"
  shows "refs_ok {} s"
  using assms
proof (induction rule: store_reach.induct)
  case (step s ev s')
  then show ?case using refs.event [of env ev s "()" s'] by simp
next
  case (idle s a)
  then show ?case by (simp add: refs_ok_def users_def)
qed (rule refs_initial)

lemma checked_run_reach:
  "checked_run env evs s = Some s' \<Longrightarrow> list_all ok evs \<Longrightarrow> store_reach ok env s0 s \<Longrightarrow> store_reach ok env s0 s'"
proof (induction evs arbitrary: s)
  case (Cons ev evs)
  then obtain t where "store_event_step env ev s = Inr ((), t)" and "fresh_accept s ev" and "checked_run env evs t = Some s'"
    by (auto split: if_splits sum.splits)
  with Cons show ?case by (auto intro: store_reach.step)
qed simp

lemma checked_reach:
  assumes "case checked_run env evs s0 of Some s \<Rightarrow> P s | None \<Rightarrow> False" and "list_all ok evs"
  shows "\<exists>s. store_reach ok env s0 s \<and> P s"
proof (cases "checked_run env evs s0")
  case (Some s)
  with assms checked_run_reach [OF Some assms(2) store_reach.start] show ?thesis by auto
qed (use assms in simp)

text \<open>
  C1. In every state the server can reach, the reference count of an object is the number of
  connected clients that use it, every object a client uses is in the table, and an object that
  is not sealed has at most one user.
\<close>
theorem reference_counts_exact:
  assumes "store_reach ok env (PlasmaStore l a x m) s"
  shows "(\<forall>i e. map_of (objects s) i = Some e \<longrightarrow>
       e_ref_count e = int (card {fd. \<exists>c. map_of (connected_clients s) fd = Some c \<and> i \<in> set (c_object_ids c)}) \<and>
       (e_state e \<noteq> PLASMA_SEALED \<longrightarrow> e_ref_count e \<le> 1)) \<and>
     (\<forall>fd c i. map_of (connected_clients s) fd = Some c \<and> i \<in> set (c_object_ids c) \<longrightarrow>
       map_of (objects s) i \<noteq> None)"
proof -
  have ok: "refs_ok {} s" by (rule store_reach_refs [OF assms])
  have u: "users s i = {fd. \<exists>c. map_of (connected_clients s) fd = Some c \<and> i \<in> set (c_object_ids c)}" for i
    by (auto simp: users_def ids_of_def)
  show ?thesis
  proof (intro conjI allI impI)
    fix i e
    assume "map_of (objects s) i = Some e"
    note e = refs_okD(1) [OF ok this]
    show "e_ref_count e = int (card {fd. \<exists>c. map_of (connected_clients s) fd = Some c \<and> i \<in> set (c_object_ids c)})"
      using e by (simp add: entry_ok_def u)
    show "e_ref_count e \<le> 1" if "e_state e \<noteq> PLASMA_SEALED" using e that by (simp add: entry_ok_def)
  next
    fix fd c i
    assume "map_of (connected_clients s) fd = Some c \<and> i \<in> set (c_object_ids c)"
    then show "map_of (objects s) i \<noteq> None" using refs_okD(2) [OF ok, of i] by (auto simp: u)
  qed
qed

lemma demo_created:
  "case checked_run (demo_env [demo_create 7 100 20] None) [EvAccept (demo_sock 5), demo_msg 5 PlasmaCreateRequest 0]
      (PlasmaStore (new_EventLoop 0) demo_alloc () (\<lambda>_. 0)) of
     Some s \<Rightarrow> map_option e_ref_count (map_of (objects s) (demo_id 7)) = Some 1 | None \<Rightarrow> False"
  by (simp add: monad_eval demo_eval create_eval)

theorem reference_counts_exact_witness:
  "\<exists>s. store_reach (\<lambda>_. True) (demo_env [demo_create 7 100 20] None) (PlasmaStore (new_EventLoop 0) demo_alloc () (\<lambda>_. 0)) s \<and>
     map_option e_ref_count (map_of (objects s) (demo_id 7)) = Some 1 \<and>
     card {fd. \<exists>c. map_of (connected_clients s) fd = Some c \<and> demo_id 7 \<in> set (c_object_ids c)} = 1"
proof -
  from checked_reach [OF demo_created, of "\<lambda>_. True"] obtain s where
    s: "store_reach (\<lambda>_. True) (demo_env [demo_create 7 100 20] None) (PlasmaStore (new_EventLoop 0) demo_alloc () (\<lambda>_. 0)) s"
    and 1: "map_option e_ref_count (map_of (objects s) (demo_id 7)) = Some 1"
    by auto
  with reference_counts_exact [OF s] show ?thesis by (intro exI [of _ s]) auto
qed

end
