(* ===== verification/Store_Lifecycle.thy ===== *)
theory Store_Lifecycle
  imports Store_Refs
begin

text \<open>
  What the store promises about one object, as a state machine on its table entry, and the
  proof that the store refines it: whatever event the server handles, the entry of every object
  moves along steps of this machine. In particular an object that is sealed and in use changes
  in nothing but its reference count.
\<close>

section \<open>The life of an object\<close>

inductive obj_step :: "ObjectTableEntry option \<Rightarrow> ObjectTableEntry option \<Rightarrow> bool" where
  create: "e_state e = PLASMA_CREATED \<Longrightarrow> e_ref_count e = 0 \<Longrightarrow> obj_step None (Some e)"
| acquire: "e_state e \<noteq> PLASMA_EVICTED \<Longrightarrow> obj_step (Some e) (Some (e\<lparr>e_ref_count := e_ref_count e + 1\<rparr>))"
| release: "0 < e_ref_count e \<Longrightarrow> obj_step (Some e) (Some (e\<lparr>e_ref_count := e_ref_count e - 1\<rparr>))"
| seal: "e_state e = PLASMA_CREATED \<Longrightarrow>
    obj_step (Some e) (Some (e\<lparr>e_state := PLASMA_SEALED, e_digest := d, e_construct_duration := n\<rparr>))"
| remove: "e_state e = PLASMA_SEALED \<Longrightarrow> e_ref_count e = 0 \<Longrightarrow> obj_step (Some e) None"
| spill: "e_state e = PLASMA_SEALED \<Longrightarrow> e_ref_count e = 0 \<Longrightarrow>
    obj_step (Some e) (Some (e\<lparr>e_pointer := 0, e_state := PLASMA_EVICTED\<rparr>))"
| discard: "e_state e \<noteq> PLASMA_SEALED \<Longrightarrow> obj_step (Some e) None"
| no_room: "e_state e = PLASMA_EVICTED \<Longrightarrow> e_ref_count e = 0 \<Longrightarrow> obj_step (Some e) (Some (placed 0 out e))"
| reload: "e_state e = PLASMA_EVICTED \<Longrightarrow> e_ref_count e = 0 \<Longrightarrow> p \<noteq> 0 \<Longrightarrow>
    obj_step (Some e) (Some ((placed p out e)\<lparr>e_state := PLASMA_CREATED, e_create_time := t\<rparr>))"
| give_up: "e_state e = PLASMA_CREATED \<Longrightarrow> obj_step (Some e) (Some (e\<lparr>e_state := PLASMA_EVICTED\<rparr>))"

inductive_cases obj_step_SomeE: "obj_step (Some e) x"

definition life :: "'x store \<Rightarrow> 'x store \<Rightarrow> bool" where
  "life s s' \<longleftrightarrow> (\<forall>i. obj_step\<^sup>*\<^sup>* (map_of (objects s) i) (map_of (objects s') i))"

interpretation life: effect life
proof
  fix s t u :: "'a store"
  show "life s s" by (simp add: life_def)
  show "life s u" if "life s t" and "life t u"
    using that unfolding life_def by (blast intro: rtranclp_trans)
qed

lemma life_objects: "objects s' = objects s \<Longrightarrow> life s s'"
  by (simp add: life_def)

lemma life_same: "same s s' \<Longrightarrow> life s s'"
  by (rule life_objects) (simp add: same_def)

text \<open>A change of one entry.\<close>

lemma life_update:
  assumes "map_of (objects s') = (map_of (objects s))(i := x)" and "obj_step (map_of (objects s) i) x"
  shows "life s s'"
  using assms by (auto simp: life_def)

lemma life_shrinks: "shrinks s s' \<Longrightarrow> life s s'"
  unfolding life_def
proof
  fix i
  assume "shrinks s s'"
  then consider "map_of (objects s') i = map_of (objects s) i" |
    e where "unused s i e" and "map_of (objects s') i \<in> {None, Some (e\<lparr>e_pointer := 0, e_state := PLASMA_EVICTED\<rparr>)}"
    unfolding shrinks_def by blast
  then show "obj_step\<^sup>*\<^sup>* (map_of (objects s) i) (map_of (objects s') i)"
    by cases (auto simp: unused_def intro!: r_into_rtranclp intro: remove spill)
qed

lemma life_AddTo:
  assumes "AddToClientObjectIds i fd s = Inr (r, s')"
    and "\<And>e. map_of (objects s) i = Some e \<Longrightarrow> e_state e \<noteq> PLASMA_EVICTED"
  shows "life s s'"
  using assms(1)
proof (cases rule: AddToClientObjectIds_Inr)
  case (added e ids)
  then show ?thesis using assms(2) by (intro life_update [OF added(4)]) (auto intro: acquire)
qed (simp add: life.refl)

lemma life_RemoveFrom:
  assumes "RemoveFromClientObjectIds env i fd s = Inr (r, s')" and "refs_ok X s"
  shows "life s s'"
  using assms(1)
proof (cases rule: RemoveFromClientObjectIds_Inr)
  case (removed e ids t)
  have "0 < card (users s i)" using removed(3) by (auto simp: card_gt_0_iff)
  then have "0 < e_ref_count e" using refs_okD(1) [OF assms(2) removed(1)] by (simp add: entry_ok_def)
  then have "life s t" using removed(1) by (intro life_update [OF removed(5)]) (auto intro: release)
  moreover have "life t s'"
    using removed(8)
    by (auto split: if_splits simp: life_def dest!: EvictObjects_evicts evicts_shrinks life_shrinks)
  ultimately show ?thesis by (rule life.trans)
qed (simp add: life.refl)

text \<open>The refinement holds where the reference counts are right, and keeps them right.\<close>

definition sound :: "'x store \<Rightarrow> 'x store \<Rightarrow> bool" where
  "sound s s' \<longleftrightarrow> (refs_ok {} s \<longrightarrow> refs_ok {} s' \<and> life s s')"

interpretation sound: effect sound
  by unfold_locales (auto simp: sound_def intro: life.refl life.trans)

lemma soundI:
  assumes "keeps_refs m" and "\<And>s r s'. m s = Inr (r, s') \<Longrightarrow> refs_ok {} s \<Longrightarrow> life s s'"
  shows "steps sound m"
  using assms by (auto simp: steps_def sound_def)

section \<open>Every operation refines it\<close>

lemma CreateObject_sound: "steps sound (CreateObject env i ev ds ms dev fd res)"
proof (rule soundI [OF refs_CreateObject])
  fix s :: "'a store" and r s'
  assume "CreateObject env i ev ds ms dev fd res s = Inr (r, s')" and ok: "refs_ok {} s"
  then show "life s s'"
  proof (cases rule: CreateObject_Inr)
    case none
    then show ?thesis by (auto intro: life_shrinks)
  next
    case (created t a out ptr u v)
    note sh = stepsD [OF shrinks_AllocateMemory created(5)]
    have "map_of (objects a) i = None"
      using shrinks_unsealed [OF sh, of i] created(1,4) by (auto simp: same_def)
    with created(6) have "life a u" and c: "\<exists>e. map_of (objects u) i = Some e \<and> e_state e = PLASMA_CREATED"
      by (auto elim!: AddObjectTableEntry_Inr intro!: life_update create)
    moreover have "life u v" and "objects v = objects u"
      using created(7) by (auto simp: on_policy_Inr intro: life_objects)
    moreover have "life v s'"
      by (rule life_AddTo [OF created(8)]) (use c \<open>objects v = objects u\<close> in auto)
    ultimately show ?thesis
      using life_same [OF created(4)] life_shrinks [OF sh] by (blast intro: life.trans)
  qed
qed

lemma RemoveFrom_sound: "steps sound (RemoveFromClientObjectIds env i fd)"
  by (rule soundI [OF RemoveFrom_keeps]) (rule life_RemoveFrom)

lemma DeleteObject_sound: "steps sound (DeleteObject env i)"
proof (rule soundI [OF DeleteObject_keeps])
  fix s :: "'a store" and r s'
  assume run: "DeleteObject env i s = Inr (r, s')"
  show "life s s'"
  proof (cases "\<exists>e. unused s i e")
    case True
    with run obtain e p t where e: "unused s i e" and
      t: "EraseFromObjectTable env i (s\<lparr>policy := p\<rparr>) = Inr ((), t)" and
      n: "PushNotification env (deletion_info i) t = Inr ((), s')"
      by (auto simp: DeleteObject_def op_Inr unused_def split: if_splits)
    have "life s t"
      by (rule life_update [of _ _ i None])
         (use EraseFromObjectTable_Inr [OF t] e in \<open>auto simp: delete_conv' unused_def intro: remove\<close>)
    then show ?thesis
      using life_same [OF stepsD [OF same_PushNotification(1) n]] by (rule life.trans)
  next
    case False
    with run show ?thesis
      by (auto simp: DeleteObject_def op_Inr unused_def life_def split: option.splits if_splits)
  qed
qed

lemma AbortObject_sound: "steps sound (AbortObject env i fd)"
proof (rule soundI [OF AbortObject_keeps])
  fix s :: "'a store" and r s'
  assume run: "AbortObject env i fd s = Inr (r, s')"
  show "life s s'"
  proof (cases "s' = s")
    case False
    with run obtain e t where e: "map_of (objects s) i = Some e" "e_state e \<noteq> PLASMA_SEALED"
      and t: "EraseFromObjectTable env i s = Inr ((), t)" and s': "objects s' = objects t"
      by (auto simp: AbortObject_def op_Inr split: option.splits if_splits)
    show ?thesis
      by (rule life_update [of _ _ i None])
         (use EraseFromObjectTable_Inr [OF t] s' e in \<open>auto simp: delete_conv' intro: discard\<close>)
  qed (simp add: life.refl)
qed

lemma seal_one_life: "seal_one env digests ids k infos s = Inr (r, s') \<Longrightarrow> life s s'"
  by (auto simp: seal_one_def Let_def op_Inr split: option.splits if_splits
      intro!: life_update [where i = "ids ! k"] seal simp: update_conv')

text \<open>While requests are woken the objects just sealed stay sealed.\<close>

definition wakes :: "UniqueID set \<Rightarrow> 'x store \<Rightarrow> 'x store \<Rightarrow> bool" where
  "wakes S s s' \<longleftrightarrow> (refs_sealed S s \<longrightarrow> refs_sealed S s' \<and> life s s')"

interpretation wakes: effect "wakes S" for S
  by unfold_locales (auto simp: wakes_def intro: life.refl life.trans)

lemma wakes_same: "steps same m \<Longrightarrow> steps (wakes S) m"
  using refs_sealed_same [of m S] by (auto simp: steps_def wakes_def intro: life_same)

lemma wakes_AddTo: "i \<in> S \<Longrightarrow> steps (wakes S) (AddToClientObjectIds i fd)"
  using refs_sealed_AddTo [of i S fd]
  by (auto simp: steps_def wakes_def refs_sealed_def sealed_def intro!: life_AddTo)

lemma UpdateObjectGetRequests_wakes: "i \<in> S \<Longrightarrow> steps (wakes S) (UpdateObjectGetRequests env i)"
proof (rule wakes.wake)
  fix s s' :: "'a store"
  assume "same s s'"
  then show "wakes S s s'"
    using wakes_same [of "\<lambda>_. Inr ((), s')" S]
    by (auto simp: wakes_def refs_sealed_def refs_same sealed_def dest: same_objects intro: life_same)
qed (rule wakes_AddTo)

lemma SealObjects_sound: "steps sound (SealObjects env ids digests)"
proof (rule soundI [OF SealObjects_keeps])
  fix s :: "'a store" and r s'
  assume run: "SealObjects env ids digests s = Inr (r, s')" and ok: "refs_ok {} s"
  then obtain infos t u where
    t: "mfold (seal_one env digests ids) [0 ..< length ids] [] s = Inr (infos, t)" and
    u: "PushNotifications env infos t = Inr ((), u)" and
    s': "mfold (\<lambda>object_id _. UpdateObjectGetRequests env object_id) ids () u = Inr ((), s')"
    by (auto simp: SealObjects_def mbind_Inr)
  have "steps life (mfold (seal_one env digests ids) [0 ..< length ids] [])"
    by (rule life.fold) (auto intro: stepsI seal_one_life)
  note 1 = stepsD [OF this t]
  from seal_fold_refs [OF t ok] have "refs_sealed (set ids) t"
    by (auto simp: refs_sealed_def in_set_conv_nth)
  moreover note tu = stepsD [OF same_PushNotifications u]
  ultimately have "refs_sealed (set ids) u"
    by (auto simp: refs_sealed_def refs_same sealed_def dest: same_objects)
  moreover have "steps (wakes (set ids)) (mfold (\<lambda>object_id _. UpdateObjectGetRequests env object_id) ids ())"
    by (intro wakes.fold UpdateObjectGetRequests_wakes)
  ultimately have "life u s'" using stepsD s' by (fastforce simp: wakes_def)
  with 1 life_same [OF tu] show "life s s'" by (blast intro: life.trans)
qed

section \<open>Get requests\<close>

text \<open>Objects that are being brought back are in state \<open>PLASMA_CREATED\<close> until the external store answers.\<close>

definition made :: "UniqueID \<Rightarrow> 'x store \<Rightarrow> bool" where
  "made i s \<longleftrightarrow> (\<exists>e. map_of (objects s) i = Some e \<and> e_state e = PLASMA_CREATED)"

lemma made_shrinks: "shrinks s s' \<Longrightarrow> made i s \<Longrightarrow> made i s'"
  using shrinks_unsealed [of s s' i] by (auto simp: made_def)

lemma made_AddTo: "AddToClientObjectIds i fd s = Inr (r, s') \<Longrightarrow> made j s \<Longrightarrow> made j s'"
  by (erule AddToClientObjectIds_Inr) (auto simp: made_def split: if_splits)

definition fetching :: "UniqueID list \<Rightarrow> 'x store \<Rightarrow> bool" where
  "fetching evs s \<longleftrightarrow> refs_held (set evs) s \<and> distinct evs \<and> (\<forall>j \<in> set evs. made j s)"

lemma fetching_same: "same s s' \<Longrightarrow> fetching evs s \<Longrightarrow> fetching evs s'"
  by (auto simp: fetching_def refs_held_def held_def made_def refs_same dest: same_objects)

lemma get_one_evicted_life:
  assumes run: "get_one env r fd i (rem, evs) s = Inr ((rem', evs'), s')" and ok: "fetching evs s"
    and e: "map_of (objects s) i = Some e" "e_state e = PLASMA_EVICTED"
  shows "life s s' \<and> distinct evs' \<and> (\<forall>j \<in> set evs'. made j s')"
  using run e
proof (cases rule: get_one_evicted_Inr)
  case (1 ptr out t)
  have i: "i \<notin> set evs" using e ok by (auto simp: fetching_def made_def)
  have "refs_ok {} s" using ok by (simp add: fetching_def refs_held_def)
  then have rc: "e_ref_count e = 0" using refs_okD(1) [of "{}" s i e] e 1(1) by (simp add: entry_ok_def)
  have "shrinks s t" using stepsD [OF shrinks_AllocateMemory 1(2)] by (simp add: shrinks_def unused_def)
  note st = life_shrinks [OF this]
  have mt: "made j t" if "j \<in> set evs" for j
    using made_shrinks [OF \<open>shrinks s t\<close>] that ok by (simp add: fetching_def)
  show ?thesis
  proof (cases "ptr = 0")
    case True
    with 1(4) have ob: "map_of (objects s') = (map_of (objects t))(i \<mapsto> placed 0 out e)" and "evs' = evs" by auto
    moreover have "life t s'" using 1(3) e rc by (intro life_update [OF ob]) (auto intro: no_room)
    ultimately show ?thesis using st mt i ok by (auto simp: fetching_def made_def intro: life.trans)
  next
    case False
    with 1(4) obtain w tm where w: "AddToClientObjectIds i fd w = Inr ((), s')"
      "map_of (objects w) = (map_of (objects t))(i \<mapsto> (placed ptr out e)\<lparr>e_state := PLASMA_CREATED, e_create_time := tm\<rparr>)"
      and evs: "evs' = evs @ [i]" by auto
    have "life t w" using 1(3) e rc False by (intro life_update [OF w(2)]) (auto intro: reload)
    moreover have "life w s'" by (rule life_AddTo [OF w(1)]) (use w(2) in auto)
    moreover have "made j w" if "j \<in> set evs'" for j
      using that mt w(2) evs by (auto simp: made_def)
    then have "made j s'" if "j \<in> set evs'" for j using made_AddTo [OF w(1)] that by blast
    ultimately show ?thesis using st evs i ok by (auto simp: fetching_def intro: life.trans)
  qed
qed

lemma get_one_life:
  assumes run: "get_one env r fd i (rem, evs) s = Inr ((rem', evs'), s')" and ok: "fetching evs s"
  shows "life s s' \<and> fetching evs' s'"
proof (cases "\<exists>e. map_of (objects s) i = Some e \<and> e_state e = PLASMA_EVICTED")
  case True
  then show ?thesis using get_one_evicted_life [OF run ok] get_one_refs [OF run] ok by (auto simp: fetching_def)
next
  case False
  show ?thesis
  proof (cases "\<exists>e. map_of (objects s) i = Some e \<and> e_state e = PLASMA_SEALED")
    case True
    with run obtain e q t where e: "map_of (objects s) i = Some e" "e_state e = PLASMA_SEALED" and
      q: "set_request r (\<lambda>q. q\<lparr>gr_objects := AList.update i (PlasmaObject_init e) (gr_objects q),
                            gr_num_satisfied := gr_num_satisfied q + 1\<rparr>) s = Inr ((), t)" and
      a: "AddToClientObjectIds i fd t = Inr ((), s')" and evs: "evs' = evs"
      by (auto simp: get_one_def mbind_Inr)
    have "same s t" by (rule stepsD [OF same_set_request q])
    with e have "map_of (objects t) i = Some e" by (simp add: same_def)
    then have "life t s'" using e by (intro life_AddTo [OF a]) auto
    then have "life s s'" using life_same [OF \<open>same s t\<close>] by (blast intro: life.trans)
    moreover have "made j s'" if "j \<in> set evs'" for j
      using made_AddTo [OF a, of j] that ok \<open>same s t\<close> evs by (auto simp: fetching_def made_def same_def)
    ultimately show ?thesis using get_one_refs [OF run] ok evs by (simp add: fetching_def)
  next
    case F: False
    have "s' = s \<and> evs' = evs"
      using run False F by (auto simp: get_one_def mbind_Inr split: option.splits ObjectState.splits)
    then show ?thesis using ok by (simp add: life.refl)
  qed
qed

text \<open>A loop that moves each of several different objects out of state \<open>PLASMA_CREATED\<close>.\<close>

lemma made_fold_life:
  assumes "mfold f js u s = Inr (r, s')" and "distinct js" and "\<forall>j \<in> set js. made j s"
    and step: "\<And>j a s b s'. f j a s = Inr (b, s') \<Longrightarrow> made j s \<Longrightarrow>
      life s s' \<and> (\<forall>k. k \<noteq> j \<longrightarrow> map_of (objects s') k = map_of (objects s) k)"
  shows "life s s'"
  using assms(1-3)
proof (induction js arbitrary: u s)
  case (Cons j js)
  then obtain b t where t: "f j u s = Inr (b, t)" and rest: "mfold f js b t = Inr (r, s')"
    by (auto simp: mbind_Inr)
  from step [OF t] Cons.prems(3) have "life s t" and o: "\<And>k. k \<noteq> j \<Longrightarrow> map_of (objects t) k = map_of (objects s) k"
    by auto
  moreover have "made k t" if "k \<in> set js" for k
    using o [of k] that Cons.prems(2,3) by (cases "k = j") (auto simp: made_def)
  ultimately show ?case using Cons.IH [OF rest] Cons.prems(2) by (auto intro: life.trans)
qed (simp add: life.refl)

lemma restored_life:
  assumes "get_restored env r j u s = Inr (x, s')" and "made j s"
  shows "life s s' \<and> (\<forall>k. k \<noteq> j \<longrightarrow> map_of (objects s') k = map_of (objects s) k)"
proof -
  from assms obtain e n where e: "map_of (objects s) j = Some e" "e_state e = PLASMA_CREATED"
    and o: "map_of (objects s') = (map_of (objects s))(j \<mapsto> e\<lparr>e_state := PLASMA_SEALED,
       e_digest := replicate kDigestSize 0, e_construct_duration := n\<rparr>)"
    by (auto simp: get_restored_def op_Inr made_def update_conv' fun_eq_iff)
  then show ?thesis by (auto intro!: life_update [OF o] seal)
qed

lemma put_back_life:
  assumes "set_entry j (\<lambda>e. e\<lparr>e_state := PLASMA_EVICTED\<rparr>) s = Inr (x, s')" and "made j s"
  shows "life s s' \<and> (\<forall>k. k \<noteq> j \<longrightarrow> map_of (objects s') k = map_of (objects s) k)"
proof -
  from assms obtain e where e: "map_of (objects s) j = Some e" "e_state e = PLASMA_CREATED"
    and o: "map_of (objects s') = (map_of (objects s))(j \<mapsto> e\<lparr>e_state := PLASMA_EVICTED\<rparr>)"
    by (auto simp: op_Inr made_def update_conv')
  then show ?thesis by (auto intro!: life_update [OF o] give_up)
qed

lemma get_evicted_life:
  assumes "get_evicted env r evs s = Inr (x, s')" and "fetching evs s"
  shows "life s s'"
proof -
  from assms(1) obtain sizes t ext st contents v where
    t: "mfold check_pointer evs [] s = Inr (sizes, t)" and
    v: "mfold buffer_fill (zip evs contents) () t = Inr ((), v)" and
    w: "(if st_ok st then mfold (get_restored env r) evs ()
         else locked (mfold (\<lambda>i _. set_entry i (\<lambda>e. e\<lparr>e_state := PLASMA_EVICTED\<rparr>)) evs ())) v = Inr (x, s')"
    by (auto simp: get_evicted_def mbind_Inr rbind_eq_Inr split: option.splits)
  have 1: "steps same (mfold check_pointer evs [])" and 2: "steps same (mfold buffer_fill (zip evs contents) ())"
    by (auto intro!: same.fold same_check_pointer same_buffer_fill)
  from stepsD [OF 1 t] stepsD [OF 2 v] have sv: "same s v" by (rule same.trans)
  from fetching_same [OF this assms(2)] have d: "distinct evs" and m: "\<forall>j \<in> set evs. made j v"
    by (simp_all add: fetching_def)
  have "life v s'"
  proof (cases "st_ok st")
    case True
    with w show ?thesis by (intro made_fold_life [OF _ d m restored_life]) auto
  next
    case False
    with w obtain y where
      y: "mfold (\<lambda>i _. set_entry i (\<lambda>e. e\<lparr>e_state := PLASMA_EVICTED\<rparr>)) evs () (v\<lparr>mutex := True\<rparr>) = Inr (x, y)"
      and s': "s' = y\<lparr>mutex := False\<rparr>"
      by (auto simp: locked_Inr)
    have "life (v\<lparr>mutex := True\<rparr>) y"
      by (rule made_fold_life [OF y d _ put_back_life]) (use m in \<open>auto simp: made_def\<close>)
    then show ?thesis by (simp add: life_def s')
  qed
  with life_same [OF sv] show ?thesis by (rule life.trans)
qed

lemma get_fold_life:
  assumes "mfold (get_one env r fd) ids ([], []) s = Inr ((rem, evs), t)" and "refs_ok {} s"
  shows "life s t \<and> fetching evs t"
proof -
  have "life s t \<and> fetching (snd (rem, evs)) t"
  proof (rule mfold_invariant [OF assms(1), where P = "\<lambda>a u. life s u \<and> fetching (snd a) u"])
    fix i a u a' u'
    assume "life s u \<and> fetching (snd a) u" and "get_one env r fd i a u = Inr (a', u')"
    then show "life s u' \<and> fetching (snd a') u'"
      using get_one_life [of env r fd i "fst a" "snd a" u "fst a'" "snd a'" u'] by (auto intro: life.trans)
  qed (simp add: fetching_def refs_held_def assms(2) life.refl)
  then show ?thesis by simp
qed

lemma ProcessGetRequest_sound: "steps sound (ProcessGetRequest env fd ids timeout)"
proof (rule soundI [OF ProcessGetRequest_keeps])
  fix s :: "'a store" and x s'
  assume run: "ProcessGetRequest env fd ids timeout s = Inr (x, s')" and ok: "refs_ok {} s"
  from run show "life s s'"
  proof (rule ProcessGetRequest_Inr)
    fix r s0 rem evs t u v
    assume s0: "s0 = s\<lparr>get_heap := AList.update r (new_GetRequest fd ids) (get_heap s), next_request := Suc r\<rparr>"
      and t: "mfold (get_one env r fd) ids ([], []) s0 = Inr ((rem, evs), t)"
      and u: "check_remote env r rem t = Inr ((), u)"
      and v: "(if evs \<noteq> [] then get_evicted env r evs else mret ()) u = Inr ((), v)"
      and w: "reply_or_wait env r timeout v = Inr ((), s')"
    have "same s s0" by (simp add: s0)
    then have "refs_ok {} s0" using ok by (simp add: refs_same)
    from get_fold_life [OF t this] have 1: "life s0 t" and f: "fetching evs t" by auto
    note tu = stepsD [OF same_check_remote u]
    have "life u v"
      using v get_evicted_life [OF _ fetching_same [OF tu f]] by (auto simp: life.refl split: if_splits)
    with 1 life_same [OF \<open>same s s0\<close>] life_same [OF tu] life_same [OF stepsD [OF same_reply_or_wait w]]
    show "life s s'" by (blast intro: life.trans)
  qed
qed

section \<open>Connections and the server\<close>

lemma leave_one_life: "leave_one env i acc s = Inr (acc', s') \<Longrightarrow> life s s'"
proof -
  assume run: "leave_one env i acc s = Inr (acc', s')"
  show ?thesis
  proof (cases "s' = s")
    case False
    with run obtain e where e: "map_of (objects s) i = Some e" "e_state e \<noteq> PLASMA_SEALED"
      and t: "EraseFromObjectTable env i s = Inr ((), s')"
      by (auto simp: leave_one_def op_Inr split: option.splits if_splits)
    show ?thesis
      by (rule life_update [of _ _ i None])
         (use EraseFromObjectTable_Inr [OF t] e in \<open>auto simp: delete_conv' intro: discard\<close>)
  qed (simp add: life.refl)
qed

lemma DisconnectClient_sound: "steps sound (DisconnectClient env fd)"
proof (rule soundI [OF DisconnectClient_keeps])
  fix s :: "'a store" and r s'
  assume run: "DisconnectClient env fd s = Inr (r, s')" and ok: "refs_ok {} s"
  from run show "life s s'"
  proof (cases rule: DisconnectClient_Inr)
    case (1 c t p js u v w x)
    from 1(1,2) have ids: "ids_of (t\<lparr>policy := p\<rparr>) fd = Some (c_object_ids c)"
      by (simp add: same_def) (simp add: ids_of_def)
    have "refs_ok {fd} (t\<lparr>policy := p\<rparr>)"
      using ok 1(2) refs_weaken [of "{}" s "{fd}"] by (simp add: refs_same)
    note u = leave_fold_refs [OF 1(3) this ids subset_refl]
    note uv = stepsD [OF same_RemoveGetRequestsForClient 1(5)]
    then have v: "refs_ok {fd} v" using u by (simp add: refs_same)
    have a: "life s (t\<lparr>policy := p\<rparr>)" using 1(2) by (simp add: life_def same_def)
    have "steps life (mfold (leave_one env) (c_object_ids c) [])"
      by (rule life.fold) (auto intro: stepsI leave_one_life)
    from stepsD [OF this 1(3)] have b: "life (t\<lparr>policy := p\<rparr>) u" .
    have "refs_ok {fd} w \<and> life v w"
    proof (rule mfold_invariant [OF 1(6), where P = "\<lambda>_ y. refs_ok {fd} y \<and> life v y"])
      fix i b y b' y'
      assume "refs_ok {fd} y \<and> life v y" and "mbind (RemoveFromClientObjectIds env i fd) (\<lambda>_. mret ()) y = Inr (b', y')"
      then show "refs_ok {fd} y' \<and> life v y'"
        by (auto simp: op_Inr intro: refs_RemoveFrom life.trans [OF _ life_RemoveFrom])
    qed (simp add: v life.refl)
    moreover have "life w s'" using stepsD [OF same_close_notification 1(7)] 1(8) by (simp add: life_def same_def)
    ultimately show ?thesis using a b life_same [OF uv] by (blast intro: life.trans)
  qed
qed

lemma evict_bytes_sound: "steps sound (evict_bytes env n)"
proof (rule soundI [OF evict_bytes_keeps])
  fix s :: "'a store" and k s'
  assume "evict_bytes env n s = Inr (k, s')"
  then show "life s s'"
    by (rule evict_bytes_Inr) (auto dest!: EvictObjects_evicts evicts_shrinks intro: life_shrinks)
qed

lemma policy_sound: "steps sound (on_policy f)"
  by (rule soundI [OF keeps_policy]) (auto simp: on_policy_Inr life_def)

lemma set_quota_sound: "steps sound (set_quota fd name n)"
  by (rule soundI [OF set_quota_keeps]) (auto simp: set_quota_def rbind_eq_Inr life_def)

lemma ConnectClient_sound:
  "map_of (connected_clients s) (AcceptClient sock) = None \<Longrightarrow> ConnectClient env sock s = Inr (u, s') \<Longrightarrow> sound s s'"
  using ConnectClient_refs [of env sock s u s']
  by (auto simp: sound_def life_def ConnectClient_def add_file_event_def Let_def op_Inr)

lemma same_sound: "same s s' \<Longrightarrow> sound s s'"
  by (auto simp: sound_def refs_same intro: life_same)

interpretation lifecycle: server_effect sound env "\<lambda>_ _. True" True "\<lambda>_. True" for env
  by unfold_locales
     (auto intro: same_sound CreateObject_sound SealObjects_sound
       RemoveFrom_sound AbortObject_sound DeleteObject_sound ProcessGetRequest_sound evict_bytes_sound policy_sound
       set_quota_sound DisconnectClient_sound ConnectClient_sound)


lemma demo_lifecycle:
  "case checked_run (demo_env [demo_create 7 100 20] None) [EvAccept (demo_sock 5)] (PlasmaStore (new_EventLoop 0) demo_alloc () (\<lambda>_. 0)) of
     Some s \<Rightarrow> fresh_accept s (demo_msg 5 PlasmaCreateRequest 0) \<and> GetObjectTableEntry (objects s) (demo_id 7) = None \<and>
       (case store_event_step (demo_env [demo_create 7 100 20] None) (demo_msg 5 PlasmaCreateRequest 0) s of
          Inr (_, s') \<Rightarrow> map_option e_state (GetObjectTableEntry (objects s') (demo_id 7)) = Some PLASMA_CREATED
        | Inl _ \<Rightarrow> False)
   | None \<Rightarrow> False"
  by (simp add: monad_eval demo_eval create_eval)


end
