(* ===== verification/Store_Policy.thy ===== *)
theory Store_Policy
  imports Store_Lifecycle
begin

text \<open>
  The eviction policy and the object table agree. As long as no client sets a quota and the sizes
  of objects are not negative, the policy's cache holds exactly the objects of the table that no
  client uses and whose memory has not been given back. So the policy stays consistent, and
  whatever it names as a victim is in the table and unused.
\<close>

section \<open>The cache of a store without quotas\<close>

definition cached :: "QuotaAwarePolicy \<Rightarrow> UniqueID set" where
  "cached p = set (lru_keys (cache p))"

definition plain :: "QuotaAwarePolicy \<Rightarrow> bool" where
  "plain p \<longleftrightarrow> policy_inv p \<and> per_client_cache p = []"

lemma plain_owned: "plain p \<Longrightarrow> map_of (owned_by_client p) i = None"
  using policy_invD(5) [of p i] by (cases "map_of (owned_by_client p) i") (auto simp: plain_def)

lemma plain_cached: "plain p \<Longrightarrow> i \<in> cached p \<longleftrightarrow> evictable p i" "plain p \<Longrightarrow> i \<in> cached p \<longleftrightarrow> tracked p i"
  using plain_owned by (simp_all add: cached_def evictable_def tracked_def)

lemma plain_set: "plain p' \<Longrightarrow> plain p \<Longrightarrow> (\<And>x. evictable p' x \<longleftrightarrow> P x) \<Longrightarrow> cached p' = {x. P x}"
  using plain_cached by auto

lemma Begin_plain:
  assumes "plain p" and "BeginObjectAccess objs i p = Inr p'"
  shows "plain p' \<and> cached p' = cached p - {i}"
proof -
  have "plain p'"
    using BeginObjectAccess_spec(1) [of p objs i p'] assms plain_owned [OF assms(1)]
    by (auto simp: plain_def BeginObjectAccess_def ep_BeginObjectAccess_def elim!: rbind_InrE)
  then show ?thesis
    using BeginObjectAccess_spec(2) [of p objs i p'] assms plain_cached(1) [OF assms(1)] plain_cached(1) [of p']
    by (auto simp: plain_def)
qed

lemma End_plain:
  assumes "plain p" and "size_ok objs" and "EndObjectAccess objs i p = Inr p'"
  shows "plain p' \<and> cached p' = insert i (cached p)"
proof -
  have "plain p'"
    using EndObjectAccess_spec(1) [of p objs i p'] assms plain_owned [OF assms(1)]
    by (auto simp: plain_def EndObjectAccess_def ep_EndObjectAccess_def elim!: rbind_InrE)
  then show ?thesis
    using EndObjectAccess_spec(2) [of p objs i p'] assms plain_cached(1) [OF assms(1)] plain_cached(1) [of p']
    by (auto simp: plain_def)
qed

lemma Created_plain:
  assumes "plain p" and "size_ok objs" and "i \<notin> cached p" and "ObjectCreated objs i fd cr p = Inr p'"
  shows "plain p' \<and> cached p' = insert i (cached p)"
proof -
  have un: "\<not> tracked p i" using assms(1,3) plain_cached(2) by blast
  note spec = ObjectCreated_spec [OF _ assms(2) un assms(4)]
  have "\<not> HasQuota fd cr p" using assms(1) by (simp add: HasQuota_def plain_def)
  then have "per_client_cache p' = []"
    using assms(1,4) by (auto simp: plain_def ObjectCreated_def ep_ObjectCreated_def elim!: rbind_InrE)
  then have "plain p'" using spec assms(1) by (auto simp: plain_def)
  then show ?thesis
    using spec assms(1) plain_cached(1) [OF assms(1)] plain_cached(1) [of p'] by (auto simp: plain_def)
qed

lemma Remove_plain:
  assumes "plain p" and "RemoveObject i p = Inr p'"
  shows "plain p' \<and> cached p' = cached p - {i}"
proof -
  note spec = RemoveObject_spec [of p i]
  have "plain p'"
    using spec assms plain_owned [OF assms(1)]
    by (auto simp: plain_def RemoveObject_def ep_RemoveObject_def elim!: rbind_InrE)
  then show ?thesis
    using spec assms plain_cached(1) [OF assms(1)] plain_cached(1) [of p'] by (auto simp: plain_def)
qed

lemma quota_refresh_plain: "plain p \<Longrightarrow> rfold quota_refresh ids p = Inr p"
  by (induction ids) (simp_all add: quota_refresh_def plain_owned)

lemma Refresh_plain:
  assumes "plain p" and "RefreshObjects ids p = Inr p'"
  shows "plain p' \<and> cached p' = cached p"
proof -
  note spec = RefreshObjects_spec [of p ids]
  have "plain p'"
    using spec assms quota_refresh_plain [OF assms(1)]
    by (auto simp: plain_def RefreshObjects_def ep_RefreshObjects_def elim!: rbind_InrE)
  then show ?thesis
    using spec assms plain_cached(1) [OF assms(1)] plain_cached(1) [of p'] by (auto simp: plain_def)
qed

lemma Choose_plain:
  assumes "plain p" and "ep_ChooseObjectsToEvict n [] p = Inr (k, vs, p')"
  shows "plain p' \<and> cached p' = cached p - set vs"
proof -
  from assms(1) have "policy_inv p" by (simp add: plain_def)
  then show ?thesis
    by (rule ep_ChooseObjectsToEvict_spec [of p n "[]"]) (use assms in \<open>auto simp: plain_def cached_def\<close>)
qed

lemma RequireSpace_plain:
  assumes "plain p" and "RequireSpace a sz [] p = Inr (ok, vs, p')"
  shows "plain p' \<and> cached p' = cached p - set vs"
  using assms Choose_plain [OF assms(1)] by (auto simp: RequireSpace_def Let_def elim!: rbind_InrE)

section \<open>Agreement with the table\<close>

text \<open>An entry whose memory the policy may take: unused, and not already given back.\<close>

definition idle :: "ObjectTableEntry \<Rightarrow> bool" where
  "idle e \<longleftrightarrow> e_ref_count e = 0 \<and> \<not> (e_state e = PLASMA_EVICTED \<and> e_pointer e = 0)"

definition idles :: "'x store \<Rightarrow> UniqueID set" where
  "idles s = {i. \<exists>e. map_of (objects s) i = Some e \<and> idle e}"

definition entry_size :: "ObjectTableEntry \<Rightarrow> int" where
  "entry_size e = sadd64 (e_data_size e) (e_metadata_size e)"

definition counted :: "'x store \<Rightarrow> bool" where
  "counted s \<longleftrightarrow> plain (policy s) \<and>
     (\<forall>i e. map_of (objects s) i = Some e \<longrightarrow> 0 \<le> e_ref_count e \<and> 0 \<le> entry_size e)"

definition synced :: "'x store \<Rightarrow> bool" where
  "synced s \<longleftrightarrow> counted s \<and> cached (policy s) = idles s"

lemma counted_size: "counted s \<Longrightarrow> size_ok (objects s)"
  by (auto simp: counted_def size_ok_def GetObjectSize_def GetObjectTableEntry_def entry_size_def split: option.splits)

lemma synced_same: "same s s' \<Longrightarrow> synced s \<Longrightarrow> synced s'"
  by (simp add: synced_def counted_def idles_def same_def)

text \<open>One entry changes.\<close>

lemma counted_update:
  assumes "counted s" and "map_of (objects s') = (map_of (objects s))(i \<mapsto> e)" and "plain (policy s')"
    and "0 \<le> e_ref_count e" and "0 \<le> entry_size e"
  shows "counted s'" and "idles s' = (if idle e then insert i (idles s) else idles s - {i})"
  using assms by (auto simp: counted_def idles_def)

lemma synced_AddTo:
  assumes "AddToClientObjectIds i fd s = Inr (r, s')" and "synced s"
  shows "synced s'"
  using assms(1)
proof (cases rule: AddToClientObjectIds_Inr)
  case (added e ids)
  let ?e = "e\<lparr>e_ref_count := e_ref_count e + 1\<rparr>"
  have c: "counted s" "plain (policy s)" "cached (policy s) = idles s" and e: "0 \<le> e_ref_count e" "0 \<le> entry_size e"
    using assms(2) added(1) by (auto simp: synced_def counted_def)
  have p: "plain (policy s') \<and> cached (policy s') = cached (policy s) - {i}"
  proof (cases "e_ref_count e = 0")
    case True
    with added(7) Begin_plain [OF c(2)] show ?thesis by simp
  next
    case False
    then have "i \<notin> idles s" using added(1) by (simp add: idles_def idle_def)
    with added(7) False c show ?thesis by auto
  qed
  with counted_update [OF c(1) added(4)] e c(3) show ?thesis
    by (simp add: synced_def idle_def entry_size_def)
qed (use assms(2) in simp)

text \<open>Victims that have left the cache are evicted.\<close>

lemma synced_evicts:
  assumes "evicts env V t s'" and "counted t" and "cached (policy t) = idles t - V"
  shows "synced s'"
proof -
  have p: "policy s' = policy t" and o: "\<And>i. i \<notin> V \<Longrightarrow> map_of (objects s') i = map_of (objects t) i"
    and v: "\<And>i. i \<in> V \<Longrightarrow> \<exists>e. unused t i e \<and> map_of (objects s') i = evicted_entry env e"
    using assms(1) by (auto simp: evicts_def)
  have entry: "(\<exists>d. map_of (objects t) i = Some d \<and> e_ref_count d = e_ref_count e \<and> entry_size d = entry_size e) \<and>
      (i \<in> V \<longrightarrow> \<not> idle e)" if "map_of (objects s') i = Some e" for i e
  proof (cases "i \<in> V")
    case True
    with v [of i] that show ?thesis
      by (auto simp: evicted_entry_def unused_def idle_def entry_size_def split: if_splits)
  next
    case False
    with o [OF this] that have "map_of (objects t) i = Some e" by simp
    with False show ?thesis by simp
  qed
  have "counted s'" unfolding counted_def
    using assms(2) entry by (fastforce simp: counted_def p)
  moreover have "idles s' = idles t - V"
    using o entry by (fastforce simp: idles_def)
  ultimately show ?thesis using assms(3) by (simp add: synced_def p)
qed

lemma synced_victims:
  assumes "synced s" and "plain p" and "cached p = cached (policy s) - set vs"
    and "EvictObjects env vs (s\<lparr>alloc := a, policy := p\<rparr>) = Inr (r, s')"
  shows "synced s'"
  by (rule synced_evicts [OF EvictObjects_evicts [OF assms(4)]])
     (use assms(1-3) in \<open>auto simp: synced_def counted_def idles_def\<close>)

lemma synced_alloc_loop: "alloc_loop env n sz ev out s = Inr (r, s') \<Longrightarrow> synced s \<Longrightarrow> synced s'"
proof (induction n arbitrary: out s)
  case (Suc n)
  obtain ptr out1 a where m: "Memalign kBlockSize sz out (alloc s) = (ptr, out1, a)"
    by (cases "Memalign kBlockSize sz out (alloc s)") auto
  show ?case
  proof (cases "ptr \<noteq> 0 \<or> \<not> ev")
    case True
    with Suc.prems m show ?thesis by (auto simp: synced_def counted_def idles_def)
  next
    case False
    with Suc.prems m obtain ok vs p t where
      rs: "RequireSpace a (int64_of (int sz)) [] (policy s) = Inr (ok, vs, p)" and
      ev: "EvictObjects env vs (s\<lparr>alloc := a, policy := p\<rparr>) = Inr ((), t)" and
      rest: "s' = t \<or> alloc_loop env n sz ev out1 t = Inr (r, s')"
      by (auto simp: rbind_eq_Inr split: if_splits)
    have "plain (policy s)" using Suc.prems(2) by (simp add: synced_def counted_def)
    from RequireSpace_plain [OF this rs] have "synced t"
      using synced_victims [OF Suc.prems(2) _ _ ev] by simp
    with rest Suc.IH show ?thesis by blast
  qed
qed simp

lemma synced_AllocateMemory:
  assumes "AllocateMemory env sz ev out client cr s = Inr (r, s')" and "synced s"
  shows "synced s'"
proof -
  from assms(1) obtain go t where
    1: "enforce_quota env sz ev client cr s = Inr (go, t)" and
    2: "s' = t \<or> (\<exists>x. alloc_loop env (alloc_fuel t) sz ev out t = Inr (x, s'))"
    unfolding AllocateMemory_def by (elim rbind_InrE) (auto split: if_splits elim!: rbind_InrE)
  have "per_client_cache (policy s) = []" using assms(2) by (simp add: synced_def counted_def plain_def)
  then have "EnforcePerClientQuota client n cr vs (policy s) = Inr (True, vs, policy s)" for n vs
    by (simp add: EnforcePerClientQuota_def HasQuota_def)
  with 1 have "t = s" by (elim enforce_quota_Inr) (auto simp: EvictObjects_def)
  with 2 assms(2) show ?thesis by (auto intro: synced_alloc_loop)
qed

lemma synced_policy:
  "counted s \<Longrightarrow> plain p \<Longrightarrow> cached p = idles s \<Longrightarrow> synced (s\<lparr>policy := p\<rparr>)"
  by (simp add: synced_def counted_def idles_def)

text \<open>An entry leaves the table.\<close>

lemma synced_drop:
  assumes "counted s" and "map_of (objects s') = (map_of (objects s))(i := None)"
    and "plain (policy s')" and "cached (policy s') = idles s - {i}"
  shows "synced s'"
  using assms by (auto simp: synced_def counted_def idles_def)

lemma used_not_idle:
  assumes "refs_ok X s" and "fd \<in> users s i"
  shows "i \<notin> idles s"
proof
  assume "i \<in> idles s"
  then obtain e where e: "map_of (objects s) i = Some e" "e_ref_count e = 0" by (auto simp: idles_def idle_def)
  then have "users s i = {}" using refs_okD(1) [OF assms(1) e(1)] by (simp add: entry_ok_def)
  with assms(2) show False by simp
qed

lemma synced_erase:
  assumes "EraseFromObjectTable env i s = Inr (r, t)" and "synced s" and "refs_ok X s" and "fd \<in> users s i"
  shows "synced t"
  by (rule synced_drop [of s _ i])
     (use EraseFromObjectTable_Inr [OF assms(1)] assms(2) used_not_idle [OF assms(3,4)]
      in \<open>auto simp: synced_def counted_def delete_conv'\<close>)

section \<open>Every operation keeps the agreement\<close>

lemma synced_RemoveFrom:
  assumes "RemoveFromClientObjectIds env i fd s = Inr (r, s')" and "refs_ok X s" and "synced s"
  shows "synced s'"
  using assms(1)
proof (cases rule: RemoveFromClientObjectIds_Inr)
  case (removed e ids t)
  let ?e = "e\<lparr>e_ref_count := e_ref_count e - 1\<rparr>"
  have c: "counted s" "plain (policy s)" "cached (policy s) = idles s" and e: "0 \<le> e_ref_count e" "0 \<le> entry_size e"
    using assms(3) removed(1) by (auto simp: synced_def counted_def)
  have "0 < card (users s i)" using removed(3) by (auto simp: card_gt_0_iff)
  then have pos: "0 < e_ref_count e" and live: "\<not> (e_state e = PLASMA_EVICTED \<and> e_pointer e = 0)"
    using refs_okD(1) [OF assms(2) removed(1)] removed(3) by (auto simp: entry_ok_def)
  then have "idle ?e \<longleftrightarrow> e_ref_count e = 1" by (auto simp: idle_def)
  with counted_update [OF c(1) removed(5)] removed(7) c(2) e pos
  have t: "counted t" and id: "idles t = (if e_ref_count e = 1 then insert i (idles s) else idles s - {i})"
    by (auto simp: entry_size_def)
  have i: "i \<notin> idles s" by (rule used_not_idle [OF assms(2) removed(3)])
  show ?thesis
  proof (cases "e_ref_count e = 1")
    case False
    with removed(7,8) t id i c show ?thesis by (simp add: synced_def)
  next
    case one: True
    show ?thesis
    proof (cases "i \<in> set (deletion_cache s)")
      case False
      with removed(8) one obtain p where p: "EndObjectAccess (objects t) i (policy t) = Inr p" and s': "s' = t\<lparr>policy := p\<rparr>"
        by auto
      from End_plain [OF _ counted_size [OF t] p] removed(7) c id one show ?thesis
        unfolding s' by (intro synced_policy [OF t]) auto
    next
      case True
      with removed(8) one have ev: "EvictObjects env [i] (t\<lparr>deletion_cache := removeAll i (deletion_cache s)\<rparr>) = Inr ((), s')"
        by simp
      show ?thesis
        by (rule synced_evicts [OF EvictObjects_evicts [OF ev]])
           (use t id one i c removed(7) in \<open>auto simp: counted_def idles_def\<close>)
    qed
  qed
qed (use assms(3) in simp)

definition agrees :: "'x store \<Rightarrow> bool" where
  "agrees s \<longleftrightarrow> refs_ok {} s \<and> synced s"

lemma agreesI:
  assumes "keeps_refs m" and "\<And>s r s'. m s = Inr (r, s') \<Longrightarrow> refs_ok {} s \<Longrightarrow> synced s \<Longrightarrow> synced s'"
  shows "steps (\<lambda>s s'. agrees s \<longrightarrow> agrees s') m"
  using assms by (auto simp: steps_def agrees_def)

lemma agrees_RemoveFrom: "steps (\<lambda>s s'. agrees s \<longrightarrow> agrees s') (RemoveFromClientObjectIds env i fd)"
  by (rule agreesI [OF RemoveFrom_keeps]) (rule synced_RemoveFrom)

lemma agrees_AbortObject: "steps (\<lambda>s s'. agrees s \<longrightarrow> agrees s') (AbortObject env i fd)"
proof (rule agreesI [OF AbortObject_keeps])
  fix s :: "'a store" and r s'
  assume run: "AbortObject env i fd s = Inr (r, s')" and ok: "refs_ok {} s" and sy: "synced s"
  show "synced s'"
  proof (cases "s' = s")
    case False
    with run obtain c t where c: "map_of (connected_clients s) fd = Some c" "i \<in> set (c_object_ids c)"
      and t: "EraseFromObjectTable env i s = Inr ((), t)" and s': "objects s' = objects t" "policy s' = policy t"
      by (auto simp: AbortObject_def op_Inr split: option.splits if_splits)
    have "fd \<in> users s i" using c by (auto simp: users_def ids_of_def)
    from synced_erase [OF t sy ok this] show ?thesis by (simp add: synced_def counted_def idles_def s')
  qed (simp add: sy)
qed

lemma agrees_DeleteObject: "steps (\<lambda>s s'. agrees s \<longrightarrow> agrees s') (DeleteObject env i)"
proof (rule agreesI [OF DeleteObject_keeps])
  fix s :: "'a store" and r s'
  assume run: "DeleteObject env i s = Inr (r, s')" and sy: "synced s"
  show "synced s'"
  proof (cases "\<exists>e. unused s i e")
    case True
    with run obtain p t where p: "RemoveObject i (policy s) = Inr p" and
      t: "EraseFromObjectTable env i (s\<lparr>policy := p\<rparr>) = Inr ((), t)" and
      n: "PushNotification env (deletion_info i) t = Inr ((), s')"
      by (auto simp: DeleteObject_def op_Inr unused_def split: if_splits)
    have "plain (policy s)" using sy by (simp add: synced_def counted_def)
    note Remove_plain [OF this p]
    then have "synced t"
      by (intro synced_drop [of s t i])
         (use EraseFromObjectTable_Inr [OF t] sy in \<open>auto simp: synced_def delete_conv'\<close>)
    then show ?thesis by (rule synced_same [OF stepsD [OF same_PushNotification(1) n]])
  next
    case False
    with run sy show ?thesis
      by (auto simp: DeleteObject_def op_Inr unused_def synced_def counted_def idles_def split: option.splits if_splits)
  qed
qed

text \<open>A new entry is idle, and the policy is told about it.\<close>

lemma synced_Created:
  assumes "synced s" and "map_of (objects s') = (map_of (objects s))(i \<mapsto> e)" and "idle e" and "0 \<le> entry_size e"
    and "i \<notin> idles s" and "ObjectCreated (objects s') i fd cr (policy s) = Inr (policy s')"
  shows "synced s'"
proof -
  have c: "counted s" "plain (policy s)" "cached (policy s) = idles s" using assms(1) by (auto simp: synced_def counted_def)
  have "counted (s'\<lparr>policy := policy s\<rparr>)"
    using counted_update [OF c(1), of "s'\<lparr>policy := policy s\<rparr>" i e] assms(2-4) c(2) by (simp add: idle_def)
  note Created_plain [OF c(2) _ _ assms(6)] counted_size [OF this]
  with assms(5) c(3) have "plain (policy s') \<and> cached (policy s') = insert i (idles s)" by simp
  with counted_update [OF c(1) assms(2)] assms(3,4) show ?thesis by (simp add: synced_def idle_def)
qed

lemma agrees_CreateObject:
  assumes "0 \<le> sadd64 ds ms"
  shows "steps (\<lambda>s s'. agrees s \<longrightarrow> agrees s') (CreateObject env i ev ds ms dev fd res)"
proof (rule agreesI [OF refs_CreateObject])
  fix s :: "'a store" and r s'
  assume run: "CreateObject env i ev ds ms dev fd res s = Inr (r, s')" and sy: "synced s"
  show "synced s'"
  proof (cases "fst r = OK")
    case False
    with run obtain ex t where t: "ObjectExists_store env i s = Inr (ex, t)" and
      "s' = t \<or> (\<exists>x. AllocateMemory env (uint64_of (sadd64 ds ms)) ev
         \<lparr>out_fd = -1, out_map_size = 0, out_offset = 0\<rparr> fd True t = Inr (x, s'))"
      by (auto simp: CreateObject_def mbind_Inr split: if_splits)
    moreover have "synced t" by (rule synced_same [OF stepsD [OF same_ObjectExists t] sy])
    ultimately show ?thesis by (auto intro: synced_AllocateMemory)
  next
    case True
    from run show ?thesis
    proof (cases rule: CreateObject_Inr)
      case none
      with True show ?thesis by simp
    next
      case (created t a out ptr u v)
      have a: "synced a" by (rule synced_AllocateMemory [OF created(5) synced_same [OF created(4) sy]])
      have "map_of (objects a) i = None"
        using shrinks_unsealed [OF stepsD [OF shrinks_AllocateMemory created(5)], of i] created(1,4) by (auto simp: same_def)
      then have i: "i \<notin> idles a" by (simp add: idles_def)
      from created(6) obtain e where e: "map_of (objects u) = (map_of (objects a))(i \<mapsto> e)" "idle e" "0 \<le> entry_size e"
          and pu: "policy u = policy a"
        using assms by (elim AddObjectTableEntry_Inr) (auto simp: idle_def entry_size_def)
      from created(7) have v: "objects v = objects u" "ObjectCreated (objects v) i fd True (policy a) = Inr (policy v)"
        by (auto simp: on_policy_Inr pu)
      have "synced v" by (rule synced_Created [OF a _ e(2,3) i v(2)]) (simp add: v(1) e(1))
      then show ?thesis by (rule synced_AddTo [OF created(8)])
    qed
  qed
qed

text \<open>An entry changes in what does not matter to the policy.\<close>

lemma synced_rewrite:
  assumes "synced s" and "map_of (objects s) i = Some e" and "map_of (objects s') = (map_of (objects s))(i \<mapsto> e')"
    and "idle e' = idle e" and "e_ref_count e' = e_ref_count e" and "entry_size e' = entry_size e"
    and "policy s' = policy s"
  shows "synced s'"
proof -
  have c: "counted s" "plain (policy s)" "cached (policy s) = idles s" and e: "0 \<le> e_ref_count e" "0 \<le> entry_size e"
    using assms(1,2) by (auto simp: synced_def counted_def)
  have "i \<in> idles s \<longleftrightarrow> idle e" using assms(2) by (simp add: idles_def)
  then have "(if idle e' then insert i (idles s) else idles s - {i}) = idles s" using assms(4) by auto
  with counted_update [OF c(1) assms(3)] assms c e show ?thesis by (simp add: synced_def)
qed

lemma seal_one_synced:
  assumes "seal_one env digests ids k infos s = Inr (r, s')" and "synced s"
  shows "synced s'"
  using assms(1)
proof (cases rule: seal_one_Inr)
  case (1 e e')
  from 1(9) have "entry_size e' = entry_size e" by (simp add: PlasmaObject_init_def entry_size_def)
  with 1 show ?thesis by (intro synced_rewrite [OF assms(2) 1(1,3)]) (auto simp: idle_def)
qed

lemma agrees_SealObjects: "steps (\<lambda>s s'. agrees s \<longrightarrow> agrees s') (SealObjects env ids digests)"
proof (rule agreesI [OF SealObjects_keeps])
  fix s :: "'a store" and r s'
  assume run: "SealObjects env ids digests s = Inr (r, s')" and sy: "synced s"
  have "steps (\<lambda>s s'. synced s \<longrightarrow> synced s') (SealObjects env ids digests)"
    unfolding SealObjects_def
    by (intro keep.rules keep.wake; (rule stepsI)?)
       (auto intro: seal_one_synced synced_same synced_AddTo dest: stepsD [OF same_PushNotifications])
  from stepsD [OF this run] sy show "synced s'" by simp
qed

section \<open>Get requests\<close>

lemma get_one_synced:
  assumes run: "get_one env r fd i (rem, evs) s = Inr ((rem', evs'), s')" and ok: "refs_ok {} s" and sy: "synced s"
  shows "synced s'"
proof (cases "map_of (objects s) i")
  case (Some d)
  show ?thesis
  proof (cases "e_state d")
    case PLASMA_CREATED
    with run sy Some show ?thesis by (auto simp: get_one_def op_Inr)
  next
    case PLASMA_SEALED
    with run Some obtain t where
      q: "set_request r (\<lambda>q. q\<lparr>gr_objects := AList.update i (PlasmaObject_init d) (gr_objects q),
                            gr_num_satisfied := gr_num_satisfied q + 1\<rparr>) s = Inr ((), t)" and
      a: "AddToClientObjectIds i fd t = Inr ((), s')"
      by (auto simp: get_one_def mbind_Inr)
    show ?thesis by (rule synced_AddTo [OF a synced_same [OF stepsD [OF same_set_request q] sy]])
  next
    case PLASMA_EVICTED
    from run Some PLASMA_EVICTED show ?thesis
    proof (cases rule: get_one_evicted_Inr)
      case (1 ptr out t)
      have t: "synced t"
        by (rule synced_AllocateMemory [OF 1(2)]) (use sy in \<open>simp add: synced_def counted_def idles_def\<close>)
      have d: "\<not> idle d" "0 \<le> entry_size d" "e_ref_count d = 0"
        using t 1(1,3) PLASMA_EVICTED refs_okD(1) [OF ok Some] by (auto simp: idle_def synced_def counted_def entry_ok_def)
      show ?thesis
      proof (cases "ptr = 0")
        case True
        with 1(4) have o: "map_of (objects s') = (map_of (objects t))(i \<mapsto> placed 0 out d)" and "policy s' = policy t"
          by auto
        then show ?thesis
          by (intro synced_rewrite [OF t 1(3) o]) (use PLASMA_EVICTED 1(1) in \<open>auto simp: idle_def placed_def entry_size_def\<close>)
      next
        case False
        with 1(4) obtain w tm where w: "AddToClientObjectIds i fd w = Inr ((), s')"
          "map_of (objects w) = (map_of (objects t))(i \<mapsto> (placed ptr out d)\<lparr>e_state := PLASMA_CREATED, e_create_time := tm\<rparr>)"
          "ObjectCreated (objects w) i fd False (policy t) = Inr (policy w)"
          by auto
        have "synced w"
          by (rule synced_Created [OF t w(2) _ _ _ w(3)])
             (use d 1(3) in \<open>auto simp: idle_def placed_def entry_size_def idles_def\<close>)
        then show ?thesis by (rule synced_AddTo [OF w(1)])
      qed
    qed
  qed
qed (use run sy in \<open>auto simp: get_one_def op_Inr\<close>)

lemma get_fold_synced:
  assumes "mfold (get_one env r c) ids ([], []) s = Inr ((rem, evs), t)" and "refs_ok {} s" and "synced s"
  shows "synced t"
proof -
  have "refs_held (set (snd (rem, evs))) t \<and> synced t"
  proof (rule mfold_invariant [OF assms(1), where P = "\<lambda>a u. refs_held (set (snd a)) u \<and> synced u"])
    fix j a u a' u'
    assume "refs_held (set (snd a)) u \<and> synced u" and "get_one env r c j a u = Inr (a', u')"
    then show "refs_held (set (snd a')) u' \<and> synced u'"
      using get_one_synced [of env r c j "fst a" "snd a" u "fst a'" "snd a'" u']
        get_one_refs [of env r c j "fst a" "snd a" u "fst a'" "snd a'" u'] by (auto simp: refs_held_def)
  qed (use assms in \<open>simp add: refs_held_def\<close>)
  then show ?thesis by simp
qed

text \<open>An object with memory changes its state.\<close>

definition placed_at :: "'x store \<Rightarrow> UniqueID \<Rightarrow> bool" where
  "placed_at s i \<longleftrightarrow> (\<exists>e. map_of (objects s) i = Some e \<and> e_pointer e \<noteq> 0)"

definition placed_synced :: "UniqueID set \<Rightarrow> 'x store \<Rightarrow> bool" where
  "placed_synced S s \<longleftrightarrow> synced s \<and> (\<forall>j \<in> S. placed_at s j)"

lemma placed_same: "same s s' \<Longrightarrow> placed_synced S s \<Longrightarrow> placed_synced S s'"
  using synced_same [of s s'] by (auto simp: placed_synced_def placed_at_def dest: same_objects)

lemma placed_set_entry:
  assumes "set_entry i f s = Inr (r, s')" and "placed_synced S s" and "i \<in> S"
    and "\<And>e. e_pointer (f e) = e_pointer e \<and> e_ref_count (f e) = e_ref_count e \<and> entry_size (f e) = entry_size e"
  shows "placed_synced S s'"
proof -
  from assms(2,3) obtain e where e: "map_of (objects s) i = Some e" "e_pointer e \<noteq> 0"
    by (auto simp: placed_synced_def placed_at_def)
  with assms(1) have o: "map_of (objects s') = (map_of (objects s))(i \<mapsto> f e)" and p: "policy s' = policy s"
    by (auto simp: set_entry_Inr update_conv')
  have "synced s'"
    by (rule synced_rewrite [OF _ e(1) o _ _ _ p]) (use assms(2,4) e in \<open>auto simp: placed_synced_def idle_def\<close>)
  then show ?thesis using assms(2,4) e o by (auto simp: placed_synced_def placed_at_def)
qed

lemma placed_restored:
  assumes "get_restored env r i u s = Inr (x, s')" and "placed_synced S s" and "i \<in> S"
  shows "placed_synced S s'"
proof -
  from assms(1) obtain v tm where
    v: "set_entry i (\<lambda>e. e\<lparr>e_state := PLASMA_SEALED, e_digest := replicate kDigestSize 0,
              e_construct_duration := tm - e_create_time e\<rparr>) (s\<lparr>tick := Suc (tick s)\<rparr>) = Inr ((), v)" and s': "same v s'"
    by (auto simp: get_restored_def mbind_Inr set_request_Inr)
  have "placed_synced S (s\<lparr>tick := Suc (tick s)\<rparr>)" by (rule placed_same [OF _ assms(2)]) simp
  from placed_set_entry [OF v this assms(3)] show ?thesis
    by (intro placed_same [OF s']) (simp add: entry_size_def)
qed

lemma get_evicted_synced:
  assumes "get_evicted env r evs s = Inr (x, s')" and "placed_synced (set evs) s"
  shows "synced s'"
proof -
  from assms(1) obtain sizes t ext st contents v where
    t: "mfold check_pointer evs [] s = Inr (sizes, t)" and
    v: "mfold buffer_fill (zip evs contents) () t = Inr ((), v)" and
    w: "(if st_ok st then mfold (get_restored env r) evs ()
         else locked (mfold (\<lambda>i _. set_entry i (\<lambda>e. e\<lparr>e_state := PLASMA_EVICTED\<rparr>)) evs ())) v = Inr (x, s')"
    by (auto simp: get_evicted_def mbind_Inr rbind_eq_Inr split: option.splits)
  have 1: "steps same (mfold check_pointer evs [])" and 2: "steps same (mfold buffer_fill (zip evs contents) ())"
    by (auto intro!: same.fold same_check_pointer same_buffer_fill)
  from stepsD [OF 1 t] stepsD [OF 2 v] have "same s v" by (rule same.trans)
  then have pv: "placed_synced (set evs) v" by (rule placed_same) (rule assms(2))
  have put_back: "steps (\<lambda>s s'. placed_synced (set evs) s \<longrightarrow> placed_synced (set evs) s')
      (mfold (\<lambda>i _. set_entry i (\<lambda>e. e\<lparr>e_state := PLASMA_EVICTED\<rparr>)) evs ())"
    by (intro keep.fold stepsI impI) (erule placed_set_entry, simp_all add: entry_size_def)
  have restore: "steps (\<lambda>s s'. placed_synced (set evs) s \<longrightarrow> placed_synced (set evs) s') (mfold (get_restored env r) evs ())"
    by (intro keep.fold stepsI impI) (rule placed_restored)
  show ?thesis
  proof (cases "st_ok st")
    case True
    with w stepsD [OF restore, of v x s'] pv show ?thesis by (simp add: placed_synced_def)
  next
    case False
    with w obtain y where
      y: "mfold (\<lambda>i _. set_entry i (\<lambda>e. e\<lparr>e_state := PLASMA_EVICTED\<rparr>)) evs () (v\<lparr>mutex := True\<rparr>) = Inr (x, y)"
      and s': "s' = y\<lparr>mutex := False\<rparr>"
      by (auto simp: locked_Inr)
    have "placed_synced (set evs) (v\<lparr>mutex := True\<rparr>)" by (rule placed_same [OF _ pv]) simp
    with stepsD [OF put_back y] have "synced y" by (simp add: placed_synced_def)
    then show ?thesis by (simp add: s' synced_def counted_def idles_def)
  qed
qed

lemma agrees_ProcessGetRequest: "steps (\<lambda>s s'. agrees s \<longrightarrow> agrees s') (ProcessGetRequest env c ids timeout)"
proof (rule agreesI [OF ProcessGetRequest_keeps])
  fix s :: "'a store" and x s'
  assume run: "ProcessGetRequest env c ids timeout s = Inr (x, s')" and ok: "refs_ok {} s" and sy: "synced s"
  from run show "synced s'"
  proof (rule ProcessGetRequest_Inr)
    fix r s0 rem evs t u v
    assume s0: "s0 = s\<lparr>get_heap := AList.update r (new_GetRequest c ids) (get_heap s), next_request := Suc r\<rparr>"
      and t: "mfold (get_one env r c) ids ([], []) s0 = Inr ((rem, evs), t)"
      and u: "check_remote env r rem t = Inr ((), u)"
      and v: "(if evs \<noteq> [] then get_evicted env r evs else mret ()) u = Inr ((), v)"
      and w: "reply_or_wait env r timeout v = Inr ((), s')"
    have "same s s0" by (simp add: s0)
    then have ok0: "refs_ok {} s0" and "synced s0" using ok sy by (auto simp: refs_same intro: synced_same)
    from get_fold_synced [OF t this] have "synced t" .
    moreover have "placed_at t j" if "j \<in> set evs" for j
      using get_fold_refs [OF t ok0] that by (auto simp: refs_held_def held_def placed_at_def)
    ultimately have "placed_synced (set evs) t" by (simp add: placed_synced_def)
    note pu = placed_same [OF stepsD [OF same_check_remote u] this]
    have "synced v"
      using v get_evicted_synced [OF _ pu] pu by (auto simp: placed_synced_def split: if_splits)
    then show "synced s'" by (rule synced_same [OF stepsD [OF same_reply_or_wait w]])
  qed
qed

section \<open>Connections and the server\<close>

lemma leave_fold_synced:
  assumes "mfold (leave_one env) js acc s = Inr (acc', s')" and "refs_ok {fd} s"
    and "ids_of s fd = Some ids" and "set js \<subseteq> set ids" and "synced s"
  shows "synced s'"
  using assms
proof (induction js arbitrary: acc s)
  case (Cons j js)
  from Cons.prems(1) obtain a t where a: "leave_one env j acc s = Inr (a, t)"
    and t: "mfold (leave_one env) js a t = Inr (acc', s')" by (auto simp: mbind_Inr)
  have "fd \<in> users s j" using Cons.prems(3,4) by (auto simp: users_def)
  moreover have "t = s \<or> EraseFromObjectTable env j s = Inr ((), t)"
    using a by (auto simp: leave_one_def op_Inr split: option.splits if_splits)
  ultimately have "synced t" using synced_erase [OF _ Cons.prems(5,2)] Cons.prems(5) by blast
  with Cons.IH [OF t] leave_one_refs [OF a Cons.prems(2,3)] Cons.prems show ?case by auto
qed simp

lemma agrees_DisconnectClient: "steps (\<lambda>s s'. agrees s \<longrightarrow> agrees s') (DisconnectClient env fd)"
proof (rule agreesI [OF DisconnectClient_keeps])
  fix s :: "'a store" and r s'
  assume run: "DisconnectClient env fd s = Inr (r, s')" and ok: "refs_ok {} s" and sy: "synced s"
  from run show "synced s'"
  proof (cases rule: DisconnectClient_Inr)
    case (1 c t p js u v w x)
    from 1(1,2) have ids: "ids_of (t\<lparr>policy := p\<rparr>) fd = Some (c_object_ids c)"
      by (simp add: same_def) (simp add: ids_of_def)
    have ok1: "refs_ok {fd} (t\<lparr>policy := p\<rparr>)"
      using ok 1(2) refs_weaken [of "{}" s "{fd}"] by (simp add: refs_same)
    have "p = policy s" using 1(4) sy by (simp add: synced_def counted_def plain_def ClientDisconnected_def)
    then have "synced (t\<lparr>policy := p\<rparr>)"
      using synced_same [OF 1(2) sy] 1(2) by (simp add: synced_def counted_def idles_def same_def)
    from leave_fold_synced [OF 1(3) ok1 ids subset_refl this] have u: "synced u" .
    note uv = stepsD [OF same_RemoveGetRequestsForClient 1(5)]
    have v: "refs_ok {fd} v" using leave_fold_refs [OF 1(3) ok1 ids subset_refl] uv by (simp add: refs_same)
    have "refs_ok {fd} w \<and> synced w"
    proof (rule mfold_invariant [OF 1(6), where P = "\<lambda>_ y. refs_ok {fd} y \<and> synced y"])
      fix j b y b' y'
      assume "refs_ok {fd} y \<and> synced y" and "mbind (RemoveFromClientObjectIds env j fd) (\<lambda>_. mret ()) y = Inr (b', y')"
      then show "refs_ok {fd} y' \<and> synced y'" by (auto simp: op_Inr intro: refs_RemoveFrom synced_RemoveFrom)
    qed (simp add: v synced_same [OF uv u])
    then have "synced x" using synced_same [OF stepsD [OF same_close_notification 1(7)]] by blast
    then show ?thesis by (simp add: 1(8) synced_def counted_def idles_def)
  qed
qed

lemma agrees_evict_bytes: "steps (\<lambda>s s'. agrees s \<longrightarrow> agrees s') (evict_bytes env n)"
proof (rule agreesI [OF evict_bytes_keeps])
  fix s :: "'a store" and k s'
  assume run: "evict_bytes env n s = Inr (k, s')" and sy: "synced s"
  from run obtain ids p where p: "ep_ChooseObjectsToEvict n [] (policy s) = Inr (k, ids, p)"
    and ev: "EvictObjects env ids (s\<lparr>alloc := alloc s, policy := p\<rparr>) = Inr ((), s')"
    by (rule evict_bytes_Inr) simp
  have "plain (policy s)" using sy by (simp add: synced_def counted_def)
  from Choose_plain [OF this p] synced_victims [OF sy _ _ ev] show "synced s'" by simp
qed

lemma agrees_RefreshObjects: "steps (\<lambda>s s'. agrees s \<longrightarrow> agrees s') (on_policy (RefreshObjects ids))"
proof (rule agreesI [OF keeps_policy])
  fix s :: "'a store" and r s'
  assume "on_policy (RefreshObjects ids) s = Inr (r, s')" and sy: "synced s"
  then obtain p where p: "RefreshObjects ids (policy s) = Inr p" and s': "s' = s\<lparr>policy := p\<rparr>" by (auto simp: on_policy_Inr)
  have "plain (policy s)" using sy by (simp add: synced_def counted_def)
  from Refresh_plain [OF this p] show "synced s'"
    using sy unfolding s' by (intro synced_policy) (auto simp: synced_def)
qed

lemma agrees_ConnectClient:
  assumes "map_of (connected_clients s) (AcceptClient sock) = None" and "ConnectClient env sock s = Inr (u, s')" and "agrees s"
  shows "agrees s'"
  using ConnectClient_refs [OF assms(2) _ assms(1)] assms
  by (auto simp: agrees_def synced_def counted_def idles_def ConnectClient_def add_file_event_def Let_def op_Inr)

lemma agrees_same: "same s s' \<Longrightarrow> agrees s \<Longrightarrow> agrees s'"
  by (auto simp: agrees_def refs_same intro: synced_same)

interpretation agreement: server_effect "\<lambda>s s'. agrees s \<longrightarrow> agrees s'" env "\<lambda>ds ms. 0 \<le> sadd64 ds ms" False "\<lambda>_. True"
  for env
  by unfold_locales
     (auto intro: agrees_same agrees_CreateObject agrees_SealObjects agrees_RemoveFrom agrees_AbortObject
       agrees_DeleteObject agrees_ProcessGetRequest agrees_evict_bytes agrees_RefreshObjects
       agrees_DisconnectClient agrees_ConnectClient)

lemma agrees_initial: "agrees (PlasmaStore l a x m)"
proof -
  have "synced (PlasmaStore l a x m)"
    by (simp add: synced_def counted_def idles_def plain_def cached_def policy_inv_new PlasmaStore_def)
       (simp add: new_QuotaAwarePolicy_def lru_keys_def)
  then show ?thesis by (simp add: agrees_def refs_initial)
qed

lemma store_reach_agrees:
  assumes "store_reach (event_ok (\<lambda>ds ms. 0 \<le> sadd64 ds ms) False env) env (PlasmaStore l a x m) s"
  shows "agrees s"
  using assms
proof (induction rule: store_reach.induct)
  case (step s ev s')
  then show ?case using agreement.event [of env ev s "()" s'] by simp
next
  case (idle s a)
  then show ?case by (simp add: agrees_def refs_ok_def users_def synced_def counted_def idles_def)
qed (rule agrees_initial)

text \<open>
  C11. The eviction policy and the object table agree: when no client asks for a quota and no
  object of negative total size is created, then in every state the server can reach the policy
  is consistent and its cache lists exactly the objects of the table that no client uses and
  whose memory has not been given back already.
\<close>
theorem policy_tracks_table:
  assumes "store_reach (event_ok (\<lambda>ds ms. 0 \<le> sadd64 ds ms) False env) env (PlasmaStore l a x m) s"
  shows "policy_inv (policy s) \<and>
    set (lru_keys (cache (policy s))) =
      {i. \<exists>e. map_of (objects s) i = Some e \<and> e_ref_count e = 0 \<and> \<not> (e_state e = PLASMA_EVICTED \<and> e_pointer e = 0)}"
  using store_reach_agrees [OF assms]
  by (simp add: agrees_def synced_def counted_def plain_def cached_def idles_def idle_def)

definition demo_put :: "unit env" where
  "demo_put = demo_env [demo_inline 7 [1, 2, 3]] None"

definition demo_put_events :: "store_event list" where
  "demo_put_events = [EvAccept (demo_sock 5), demo_msg 5 PlasmaCreateAndSealRequest 0]"

lemma demo_put_run:
  "case checked_run demo_put demo_put_events (PlasmaStore (new_EventLoop 0) demo_alloc () (\<lambda>_. 0)) of
     Some s \<Rightarrow> (case map_of (objects s) (demo_id 7) of Some e \<Rightarrow> e_state e = PLASMA_SEALED \<and> e_ref_count e = 0 | None \<Rightarrow> False)
   | None \<Rightarrow> False"
  by (simp add: demo_put_def demo_put_events_def monad_eval demo_eval create_eval seal_eval inline_eval)

lemma demo_put_ok: "list_all (event_ok (\<lambda>ds ms. 0 \<le> sadd64 ds ms) False demo_put) demo_put_events"
  by (simp add: demo_put_def demo_put_events_def event_ok_def request_ok_def demo_eval create_eval seal_eval inline_eval monad_eval)

theorem policy_tracks_table_witness:
  "\<exists>s. store_reach (event_ok (\<lambda>ds ms. 0 \<le> sadd64 ds ms) False demo_put) demo_put (PlasmaStore (new_EventLoop 0) demo_alloc () (\<lambda>_. 0)) s \<and>
     demo_id 7 \<in> set (lru_keys (cache (policy s)))"
proof -
  from checked_reach [OF demo_put_run demo_put_ok] obtain s where
    s: "store_reach (event_ok (\<lambda>ds ms. 0 \<le> sadd64 ds ms) False demo_put) demo_put (PlasmaStore (new_EventLoop 0) demo_alloc () (\<lambda>_. 0)) s"
    and e: "case map_of (objects s) (demo_id 7) of Some e \<Rightarrow> e_state e = PLASMA_SEALED \<and> e_ref_count e = 0 | None \<Rightarrow> False"
    by blast
  have "demo_id 7 \<in> set (lru_keys (cache (policy s)))"
    using policy_tracks_table [OF s] e by (auto split: option.splits)
  with s show ?thesis by blast
qed

end
