(* ===== verification/Store_Loop_Hazards.thy ===== *)
theory Store_Loop_Hazards
  imports Store_Loop Store_Policy
begin

text \<open>
  What the process does at the edges of the event loop: the timers of a pass, more descriptors than
  the set has room for, a subscriber that is gone, and a termination signal during the start.
\<close>

section \<open>The timers of a pass\<close>

text \<open>
  C34. Processing the timers of the process, with pointers to the current and the previous node
  that survive whatever the callbacks do to the list, has the effect of visiting once, in order,
  each timer that was in the list at the start: a removed one is taken out, a live one runs if it
  is due. Timers that callbacks add are not visited in the same pass.
\<close>
theorem process_timers_equivalent:
  assumes "serving ok env io s0 r"
  shows "processTimeEvents (store_host env io) r = visit_timers (store_host env io) (timed (store_host env io) r)"
  using assms by (rule process.timers_visited(1))

section \<open>Too many descriptors\<close>

lemma create_total: "0 \<le> fd \<Longrightarrow> \<exists>x. aeCreateFileEvent ok fd ev pr p a = Inr x"
  by (auto simp: aeCreateFileEvent_def event_at_def aeApiAddEvent_def Let_def split: prod.splits)

text \<open>A descriptor beyond the set moves the array of events, registered or not.\<close>

lemma AddFileEvent_moves:
  assumes "map_of (file_callbacks l) fd = None" and "ae_maxfd (el_loop l) < ae_setsize (el_loop l)"
    and "1 < ae_setsize (el_loop l)" and "ae_setsize (el_loop l) \<le> fd"
  shows "\<exists>b l'. AddFileEvent ok fd ev cb l = Inr (b, l') \<and> ae_events_addr (el_loop l') = Suc (ae_events_addr (el_loop l))"
proof -
  let ?a = "el_loop l" and ?n = "cdiv (3 * ae_setsize (el_loop l)) 2"
  have n: "?n \<noteq> ae_setsize ?a" "ae_maxfd ?a < ?n" using assms(2,3) by (simp_all add: cdiv_nonneg)
  obtain a0 where a0: "aeResizeSetSize ?n ?a = (AE_OK, a0)" "ae_events_addr a0 = Suc (ae_events_addr ?a)"
    using n by (simp add: aeResizeSetSize_def)
  obtain err er a where c: "aeCreateFileEvent ok fd ev FileEventCallback (el_next l) a0 = Inr (err, er, a)"
    using create_total [of fd ok ev FileEventCallback "el_next l" a0] assms(3,4) by auto
  have "ae_events_addr a = ae_events_addr a0" by (rule aeCreateFileEvent_Inr [OF c]) simp_all
  moreover have "aeCreateFileEvent ok fd ev FileEventCallback (el_next l) ?a = Inr (AE_ERR, True, ?a)"
    using assms(4) by (simp add: aeCreateFileEvent_def)
  ultimately show ?thesis
    using assms(1) a0 c by (auto simp: AddFileEvent_def Let_def aeGetSetSize_def emplace_file_def)
qed

text \<open>
  C37. Use after free. When the listening socket is ready and \<open>accept\<close> returns a descriptor that
  does not fit in the array of events, the callback enlarges the array, which moves it, and
  \<open>aeProcessEvents\<close> then reads the event of the listening socket through its old address.
\<close>
theorem accept_resize_use_after_free:
  assumes "wired (evloop (r_store r))" and "map_of (file_callbacks (evloop (r_store r))) socket = Some (p, CbConnectClient socket)"
    and "fe_mask (ae_events (el_loop (evloop (r_store r))) socket) = AE_READABLE"
    and "AcceptClient (io_accept io (r_step r) (map fst (connected_clients (r_store r)))) = fd"
    and "1 < ae_setsize (el_loop (evloop (r_store r)))" and "ae_setsize (el_loop (evloop (r_store r))) \<le> fd"
  shows "process_fired (store_host env io) (socket, AE_READABLE) r = Inl DanglingRef"
proof -
  let ?s = "r_store r"
  let ?l = "evloop ?s" and ?sock = "io_accept io (r_step r) (map fst (connected_clients ?s))"
  let ?fe = "ae_events (el_loop ?l) socket"
  have fw: "file_wired ?l socket" and m: "ae_maxfd (el_loop ?l) < ae_setsize (el_loop ?l)"
    using assms(1) by (simp_all add: wired_def files_wired_def)
  then have range: "0 \<le> socket" "socket < ae_setsize (el_loop ?l)" and e: "file_entry ?fe (p, CbConnectClient socket)"
    using assms(2) by (auto simp: file_wired_def)
  have "file_wired ?l fd" using assms(1) by (simp add: wired_def files_wired_def)
  then have new: "map_of (file_callbacks ?l) fd = None"
    using m assms(6) by (auto simp: file_wired_def split: option.splits)
  from AddFileEvent_moves [OF new m assms(5,6), of "env_epoll env (tick ?s)" kEventLoopRead "CbProcessMessage fd"]
  obtain b l' where l': "AddFileEvent (env_epoll env (tick ?s)) fd kEventLoopRead (CbProcessMessage fd) ?l = Inr (b, l')"
    and moved: "ae_events_addr (el_loop l') = Suc (ae_events_addr (el_loop ?l))" by blast
  let ?t = "?s\<lparr>connected_clients := AList.update fd (new_Client fd) (connected_clients ?s), tick := Suc (tick ?s), evloop := l'\<rparr>"
  have "ConnectClient env ?sock ?s = Inr ((), ?t)"
    using l' by (simp add: ConnectClient_def assms(4) Let_def mbind_def mret_def add_file_event_def on_loop_def)
  then have "run_file_callback env io (CbConnectClient socket) r = Inr (r\<lparr>r_store := ?t, r_step := Suc (r_step r)\<rparr>)"
    by (simp add: run_file_callback_def on_store_def)
  moreover have "callback_at p (file_callbacks ?l) = Inr (CbConnectClient socket)"
    using assms(1,2) by (intro callback_at_live) (auto simp: wired_def)
  moreover have "fe_clientData ?fe = p" "fe_rfileProc ?fe = FileEventCallback" "fe_mask ?fe AND AE_READABLE AND AE_READABLE \<noteq> 0"
    using e assms(3) by (auto simp: file_entry_def ae_consts)
  ultimately show ?thesis
    using range moved by (simp add: process_fired_def store_host_def deref_event_def event_at_def)
qed

section \<open>A subscriber that is gone\<close>

text \<open>
  C38. A dead subscriber takes its descriptor with it. If the socket of a subscriber that waits for
  room turns out to be closed by the peer, the store closes it, but its registration stays. The
  next client that gets the same descriptor is accepted, but never registered: its messages are
  ignored for ever.
\<close>
theorem dead_subscriber_starves_client:
  assumes "map_of (file_callbacks (evloop s)) fd = Some (p, CbSendNotifications fd)"
    and "map_of (pending_notifications s) fd = Some (n # ns)" and "env_notify env (tick s) = NotifyErr EPIPE"
  shows "\<exists>t. store_event_step env (EvWritable fd) s = Inr ((), t) \<and> ClosedFd fd \<in> set (outbox t) \<and>
     map_of (pending_notifications t) fd = None \<and>
     (\<forall>sock. AcceptClient sock = fd \<longrightarrow>
        (\<exists>u. store_event_step env (EvAccept sock) t = Inr ((), u) \<and> map_of (connected_clients u) fd \<noteq> None \<and>
           (\<forall>msg. store_event_step env (EvMessage fd msg) u = Inr ((), u))))"
proof -
  define t where "t = s\<lparr>tick := Suc (tick s), outbox := outbox s @ [ClosedFd fd], evloop := closed_fd fd (evloop s),
     pending_notifications := AList.delete fd (AList.update fd (n # ns) (pending_notifications s))\<rparr>"
  have 1: "store_event_step env (EvWritable fd) s = Inr ((), t)"
    using assms by (simp add: store_event_step_def SendNotifications_def Let_def mbind_def mret_def errno_retry_def close_fd_def t_def)
  have reg: "map_of (file_callbacks (evloop t)) fd = Some (p, CbSendNotifications fd)"
    using assms(1) by (simp add: t_def closed_fd_def)
  have "\<exists>u. store_event_step env (EvAccept sock) t = Inr ((), u) \<and> map_of (connected_clients u) fd \<noteq> None \<and>
       (\<forall>msg. store_event_step env (EvMessage fd msg) u = Inr ((), u))" if "AcceptClient sock = fd" for sock
    using reg that
    by (simp add: store_event_step_def ConnectClient_def Let_def mbind_def mret_def add_file_event_def on_loop_def AddFileEvent_def update_conv')
  with 1 show ?thesis by (intro exI [of _ t]) (auto simp: t_def delete_conv')
qed

section \<open>A signal during the start\<close>

text \<open>
  A termination signal between the installation of the handler and the loop is lost or fatal:
  before the loop exists the handler dereferences a null pointer, and once it exists the signal has
  no effect, because \<open>aeMain\<close> clears the flag the handler sets. During the loop the signal is
  honoured: the loop ends with the pass.
\<close>
theorem sigterm_during_start:
  "(\<not> r_loop r \<longrightarrow> HandleSignal SIGTERM (Some r) = Inl NullDeref) \<and>
   (\<forall>r'. HandleSignal SIGTERM (Some r) = Inr (Some r') \<longrightarrow>
      aeMain (store_host env io) n r' = aeMain (store_host env io) n r \<and>
      main_loop (store_host env io) n r' = Inr (True, r'))"
  by (cases n) (auto simp: HandleSignal_def Runner_Stop_def Stop_def aeStop_def aeMain_def h_upd_def store_host_def)

section \<open>Examples\<close>

text \<open>A process that accepts a client on descriptor 5 and gets a message from it.\<close>

definition demo_io :: io where
  "demo_io =
     \<lparr>io_msg = (\<lambda>_. \<lparr>ro_status = Status_OK, ro_type = message_code PlasmaCreateAndSealRequest, ro_buffer = [0],
                  ro_outs = [], ro_chan = []\<rparr>),
      io_accept = (\<lambda>_ fds. demo_sock (fold max fds 4 + 1)), io_clock = (\<lambda>_. (0, 0)),
      io_ready = (\<lambda>n. Some (if n = 1 then [(1, 1)] else if n = 4 then [(5, 1)] else [])), io_sigterm = (\<lambda>_. False)\<rparr>"

lemma fold_max_ge: "a \<le> fold max xs a \<and> (\<forall>x \<in> set xs. x \<le> fold max xs a)" for a :: int
proof (induction xs arbitrary: a)
  case (Cons x xs)
  from Cons.IH [of "max x a"] show ?case by auto
qed simp

lemma demo_inputs: "inputs_ok (\<lambda>_. True) demo_io"
proof -
  have "fold max fds 4 + 1 \<notin> set fds \<and> 4 \<le> fold max fds 4" for fds :: "int list" using fold_max_ge [of 4 fds] by force
  then show ?thesis by (auto simp: inputs_ok_def demo_io_def AcceptClient_def demo_sock_def) (smt (verit))
qed

lemmas loop_eval = Runner_Start_def BindIpcSock_def sun_path_size_def aeMain_def aeProcessEvents_def poll_timeout_def
  aeSearchNearestTimer_def aeApiPoll_def int32_of_def store_host_def runner_wait_def epoll_wait_def map_filter_def h_upd_def
  process_fired_def deref_event_def fired_mask_def run_file_callback_def on_store_def callback_at_def processTimeEvents_def
  head_node_def aeResizeSetSize_def EPOLLIN_def EPOLLOUT_def EPOLLERR_def EPOLLHUP_def AddFileEvent_def aeCreateFileEvent_def
  emplace_file_def event_at_def aeApiAddEvent_def epoll_ctl_def epoll_mask_def set_event_def ae_consts kEventLoopRead_def
  FileEventCallback_def

lemma demo_process:
  "case Runner_Start demo_put demo_io (demo_sock 0) ''s'' True demo_alloc () (\<lambda>_. 0) 2 of
     Inr (stopped, r) \<Rightarrow> \<not> stopped \<and> map_of (connected_clients (r_store r)) 5 \<noteq> None \<and>
        map_of (objects (r_store r)) (demo_id 7) \<noteq> None
   | Inl _ \<Rightarrow> False"
  by (simp add: demo_io_def loop_eval demo_put_def numeral_2_eq_2 monad_eval demo_eval create_eval seal_eval inline_eval)


text \<open>The client asks for an object that is not there and waits for at most 100 milliseconds.\<close>

definition demo_wait_env :: "unit env" where
  "demo_wait_env = demo_env [[FbStrings [id_bytes (demo_id 7)], FbScalar 100]] None"

definition demo_wait_io :: io where
  "demo_wait_io = demo_io\<lparr>io_msg := (\<lambda>_. \<lparr>ro_status = Status_OK, ro_type = message_code PlasmaGetRequest, ro_buffer = [0],
     ro_outs = [], ro_chan = []\<rparr>)\<rparr>"

lemmas wait_eval = ReadGetRequest_def ConvertToVector_def ProcessGetRequest_def new_GetRequest_def
  get_one_def check_remote_def get_remote_def reply_or_wait_def AddTimer_def aeCreateTimeEvent_def aeAddMillisecondsToNow_def
  aeGetTime_def crem_def cdiv_def object_at_def TimerEventCallback_def
  node_at_def behind_def due_def

lemma demo_waits:
  "case Runner_Start demo_wait_env demo_wait_io (demo_sock 0) ''s'' True demo_alloc () (\<lambda>_. 0) 2 of
     Inr (stopped, r) \<Rightarrow> map te_when_ms (ae_timeEventHead (el_loop (evloop (r_store r)))) = [100]
   | Inl _ \<Rightarrow> False"
  by (simp add: demo_wait_io_def demo_io_def loop_eval wait_eval demo_wait_env_def numeral_2_eq_2 monad_eval demo_eval create_eval)

theorem process_timers_equivalent_witness:
  "\<exists>r. ae_timeEventHead (el_loop (evloop (r_store r))) \<noteq> [] \<and>
     processTimeEvents (store_host demo_wait_env demo_wait_io) r =
       visit_timers (store_host demo_wait_env demo_wait_io) (timed (store_host demo_wait_env demo_wait_io) r)"
proof -
  let ?run = "Runner_Start demo_wait_env demo_wait_io (demo_sock 0) ''s'' True demo_alloc () (\<lambda>_. 0) 2"
  from demo_waits obtain b r where run: "?run = Inr (b, r)" and "ae_timeEventHead (el_loop (evloop (r_store r))) \<noteq> []"
    by (cases ?run) auto
  have "inputs_ok (\<lambda>_. True) demo_wait_io" using demo_inputs by (simp add: inputs_ok_def demo_wait_io_def)
  moreover have "0 \<le> fst (BindIpcSock (demo_sock 0) ''s'' True)" by (simp add: BindIpcSock_def sun_path_size_def demo_sock_def)
  ultimately obtain l where "serving (\<lambda>_. True) demo_wait_env demo_wait_io (PlasmaStore l demo_alloc () (\<lambda>_. 0)) r"
    using start_outcome [where env = demo_wait_env and epoll_ok = True and n = 2] run
    by (metis outcome_simps(2) snd_conv)
  from process_timers_equivalent [OF this] \<open>_ \<noteq> []\<close> show ?thesis by blast
qed

theorem accept_resize_use_after_free_witness:
  "\<exists>l. AddFileEvent True 1 kEventLoopRead (CbConnectClient 1) (new_EventLoop 0) = Inr (True, l) \<and>
     process_fired (store_host demo_put (demo_io\<lparr>io_accept := \<lambda>_ _. demo_sock 2000\<rparr>)) (1, AE_READABLE)
       \<lparr>r_store = PlasmaStore l demo_alloc () (\<lambda>_. 0), r_loop = True, r_step = 0\<rparr> = Inl DanglingRef"
proof -
  obtain b l where l: "AddFileEvent True 1 kEventLoopRead (CbConnectClient 1) (new_EventLoop 0) = Inr (b, l)"
    using start_registers [of 1 True "CbConnectClient 1" 0] by auto
  then have b: "b" and c: "map_of (file_callbacks l) 1 = Some (0, CbConnectClient 1)"
    "fe_mask (ae_events (el_loop l) 1) = AE_READABLE" "ae_setsize (el_loop l) = 1024"
    by (auto simp: create_eval demo_eval)
  have w: "wired l" using wired_AddFileEvent [OF l wired_new] by (simp add: kEventLoopRead_def ae_consts)
  show ?thesis
    by (intro exI [of _ l] conjI accept_resize_use_after_free [where fd = 2000])
       (use l b c w in \<open>simp_all add: PlasmaStore_def demo_sock_def AcceptClient_def\<close>)
qed

theorem dead_subscriber_starves_client_witness:
  "\<exists>t. store_event_step (demo_put\<lparr>env_notify := \<lambda>_. NotifyErr EPIPE\<rparr>) (EvWritable 9)
         ((demo_store ())\<lparr>evloop := (new_EventLoop 0)\<lparr>file_callbacks := [(9, (0, CbSendNotifications 9))]\<rparr>,
            pending_notifications := [(9, [[1]])]\<rparr>) = Inr ((), t) \<and>
       (\<exists>u. store_event_step (demo_put\<lparr>env_notify := \<lambda>_. NotifyErr EPIPE\<rparr>) (EvAccept (demo_sock 9)) t = Inr ((), u) \<and>
          map_of (connected_clients u) 9 \<noteq> None)"
proof -
  let ?env = "demo_put\<lparr>env_notify := \<lambda>_. NotifyErr EPIPE\<rparr>"
    and ?s = "(demo_store ())\<lparr>evloop := (new_EventLoop 0)\<lparr>file_callbacks := [(9, (0, CbSendNotifications 9))]\<rparr>,
      pending_notifications := [(9, [[1]])]\<rparr>"
  have "AcceptClient (demo_sock 9) = 9" by (simp add: AcceptClient_def demo_sock_def)
  moreover have "map_of (file_callbacks (evloop ?s)) 9 = Some (0, CbSendNotifications 9)"
    "map_of (pending_notifications ?s) 9 = Some [[1]]" "env_notify ?env (tick ?s) = NotifyErr EPIPE" by simp_all
  ultimately show ?thesis using dead_subscriber_starves_client [of ?s 9 0 "[1]" "[]" ?env] by blast
qed

end
