(* ===== verification/Store_Isolation.thy ===== *)
theory Store_Isolation
  imports Store_Lifecycle
begin

text \<open>
  No client can take an object away from another: a sealed object that a client uses stays
  where it is, with its content and its place in memory, whatever the other clients ask for and
  whatever the store has to evict.
\<close>

definition in_use :: "int \<Rightarrow> UniqueID \<Rightarrow> ObjectTableEntry \<Rightarrow> 'x store \<Rightarrow> bool" where
  "in_use fd i e s \<longleftrightarrow> e_state e = PLASMA_SEALED \<and> fd \<in> users s i \<and>
     (\<exists>n. map_of (objects s) i = Some (e\<lparr>e_ref_count := n\<rparr>))"

lemma in_useI: "in_use fd i e s \<Longrightarrow> map_of (objects s') i = map_of (objects s) i \<Longrightarrow> fd \<in> users s' i \<Longrightarrow> in_use fd i e s'"
  by (simp add: in_use_def)

lemma in_use_state:
  "in_use fd i e s \<Longrightarrow> map_of (objects s) j = Some d \<Longrightarrow> e_state d \<noteq> PLASMA_SEALED \<Longrightarrow> j \<noteq> i"
  by (auto simp: in_use_def)

lemma in_use_same: "same s s' \<Longrightarrow> in_use fd i e s \<Longrightarrow> in_use fd i e s'"
  using users_cong [of s' s] by (auto simp: in_use_def same_def)

lemma in_use_shrinks:
  assumes "shrinks s s'" and "refs_ok X s" and "in_use fd i e s"
  shows "in_use fd i e s'"
proof -
  have "\<not> unused s i d" for d
    using unused_no_users [OF assms(2)] assms(3) by (auto simp: in_use_def)
  with assms(1) have "map_of (objects s') i = map_of (objects s) i" and "users s' = users s"
    by (auto simp: shrinks_def intro: users_cong)
  with assms(3) show ?thesis by (simp add: in_use_def)
qed

lemma in_use_AddTo:
  assumes "AddToClientObjectIds j c s = Inr (r, s')" and "in_use fd i e s"
  shows "in_use fd i e s'"
  using assms(1)
proof (cases rule: AddToClientObjectIds_Inr)
  case (added d ids)
  from users_add [OF added(5,2), of i] assms(2) have "fd \<in> users s' i" by (auto simp: in_use_def)
  then show ?thesis using assms(2) added(1,4) by (cases "i = j") (auto simp: in_use_def)
qed (use assms(2) in simp)

lemma in_use_RemoveFrom:
  assumes "RemoveFromClientObjectIds env j c s = Inr (r, s')" and "refs_ok X s" and "in_use fd i e s" and "c \<noteq> fd"
  shows "in_use fd i e s'"
  using assms(1)
proof (cases rule: RemoveFromClientObjectIds_Inr)
  case (removed d ids t)
  from users_remove [OF removed(6,2), of i] assms(3,4) have u: "fd \<in> users t i" by (auto simp: in_use_def)
  show ?thesis
  proof (cases "i = j")
    case True
    have "{c, fd} \<subseteq> users s j" using removed(3) assms(3) True by (auto simp: in_use_def)
    then have "card {c, fd} \<le> card (users s j)" by (rule card_mono [OF finite_users])
    then have "e_ref_count d \<noteq> 1"
      using refs_okD(1) [OF assms(2) removed(1)] assms(4) by (simp add: entry_ok_def)
    with removed(8) have "s' = t" by simp
    then show ?thesis using u removed(1,5) assms(3) True by (auto simp: in_use_def)
  next
    case False
    have t: "in_use fd i e t" by (rule in_useI [OF assms(3) _ u]) (use False removed(5) in simp)
    show ?thesis
    proof (cases "\<exists>d. EvictObjects env [j] (t\<lparr>deletion_cache := d\<rparr>) = Inr ((), s')")
      case True
      then have "map_of (objects s') i = map_of (objects t) i" and "users s' = users t"
        using False by (auto dest!: EvictObjects_evicts simp: evicts_def intro: users_cong)
      with t show ?thesis by (simp add: in_use_def)
    next
      case no: False
      with removed(8) have "\<exists>p. s' = t\<lparr>policy := p\<rparr> \<or> s' = t" by (auto split: if_splits)
      with t show ?thesis by (auto simp: in_use_def users_def)
    qed
  qed
qed (use assms(3) in simp)

text \<open>An entry of another object changes.\<close>

lemma in_use_other:
  assumes "in_use fd i e s" and "map_of (objects s') = (map_of (objects s))(j := x)" and "j \<noteq> i" and "ids_of s' = ids_of s"
  shows "in_use fd i e s'"
  using assms users_cong [OF assms(4)] by (simp add: in_use_def)

lemma in_use_erase:
  assumes "in_use fd i e s" and "EraseFromObjectTable env j s = Inr (r, s')" and "j \<noteq> i"
  shows "in_use fd i e s'"
  by (rule in_use_other [OF assms(1) _ assms(3), of _ None])
     (use EraseFromObjectTable_Inr [OF assms(2)] in \<open>auto simp: delete_conv'\<close>)

definition guarded :: "int \<Rightarrow> UniqueID \<Rightarrow> ObjectTableEntry \<Rightarrow> 'x store \<Rightarrow> bool" where
  "guarded fd i e s \<longleftrightarrow> refs_ok {} s \<and> in_use fd i e s"

lemma guardedI:
  assumes "keeps_refs m" and "\<And>s r s'. m s = Inr (r, s') \<Longrightarrow> refs_ok {} s \<Longrightarrow> in_use fd i e s \<Longrightarrow> in_use fd i e s'"
  shows "steps (\<lambda>s s'. guarded fd i e s \<longrightarrow> guarded fd i e s') m"
  using assms by (auto simp: steps_def guarded_def)

lemma guarded_shrinks: "steps shrinks m \<Longrightarrow> steps (\<lambda>s s'. guarded fd i e s \<longrightarrow> guarded fd i e s') m"
  by (erule steps_mono) (auto simp: guarded_def intro: refs_shrinks in_use_shrinks)

lemma guarded_CreateObject:
  "steps (\<lambda>s s'. guarded fd i e s \<longrightarrow> guarded fd i e s') (CreateObject env j ev ds ms dev c res)"
proof (rule guardedI [OF refs_CreateObject])
  fix s :: "'a store" and r s'
  assume run: "CreateObject env j ev ds ms dev c res s = Inr (r, s')" and ok: "refs_ok {} s" and u: "in_use fd i e s"
  from run show "in_use fd i e s'"
  proof (cases rule: CreateObject_Inr)
    case none
    with u ok show ?thesis by (auto intro: in_use_shrinks)
  next
    case (created t a out ptr b v)
    have j: "j \<noteq> i" using created(1) u by (auto simp: in_use_def)
    have "in_use fd i e a"
      by (rule in_use_shrinks [OF stepsD [OF shrinks_AllocateMemory created(5)] _ in_use_same [OF created(4) u]])
         (use ok created(4) in \<open>simp add: refs_same\<close>)
    then have "in_use fd i e b"
      using created(6) j by (auto elim!: AddObjectTableEntry_Inr intro: in_use_other)
    then have "in_use fd i e v" using created(7) by (auto simp: on_policy_Inr in_use_def users_def)
    then show ?thesis by (rule in_use_AddTo [OF created(8)])
  qed
qed

lemma guarded_RemoveFrom:
  "c \<noteq> fd \<Longrightarrow> steps (\<lambda>s s'. guarded fd i e s \<longrightarrow> guarded fd i e s') (RemoveFromClientObjectIds env j c)"
  by (rule guardedI [OF RemoveFrom_keeps]) (rule in_use_RemoveFrom)

lemma guarded_AbortObject: "c \<noteq> fd \<Longrightarrow> steps (\<lambda>s s'. guarded fd i e s \<longrightarrow> guarded fd i e s') (AbortObject env j c)"
proof (rule guardedI [OF AbortObject_keeps])
  fix s :: "'a store" and r s'
  assume c: "c \<noteq> fd" and run: "AbortObject env j c s = Inr (r, s')" and u: "in_use fd i e s"
  show "in_use fd i e s'"
  proof (cases "s' = s")
    case False
    with run obtain d b t where d: "map_of (objects s) j = Some d" "e_state d \<noteq> PLASMA_SEALED"
      and t: "EraseFromObjectTable env j s = Inr ((), t)" and b: "map_of (connected_clients t) c = Some b"
      and s': "s' = t\<lparr>connected_clients := AList.update c (b\<lparr>c_object_ids := removeAll j (c_object_ids b)\<rparr>) (connected_clients t)\<rparr>"
      by (auto simp: AbortObject_def op_Inr split: option.splits if_splits)
    have "in_use fd i e t" by (rule in_use_erase [OF u t in_use_state [OF u d]])
    then show ?thesis
      using c by (auto simp: s' in_use_def users_def ids_of_def update_conv')
  qed (use u in simp)
qed

lemma guarded_DeleteObject: "steps (\<lambda>s s'. guarded fd i e s \<longrightarrow> guarded fd i e s') (DeleteObject env j)"
proof (rule guardedI [OF DeleteObject_keeps])
  fix s :: "'a store" and r s'
  assume run: "DeleteObject env j s = Inr (r, s')" and ok: "refs_ok {} s" and u: "in_use fd i e s"
  show "in_use fd i e s'"
  proof (cases "\<exists>d. unused s j d")
    case True
    with run obtain p t where
      t: "EraseFromObjectTable env j (s\<lparr>policy := p\<rparr>) = Inr ((), t)" and
      n: "PushNotification env (deletion_info j) t = Inr ((), s')"
      by (auto simp: DeleteObject_def op_Inr unused_def split: if_splits)
    from True have "j \<noteq> i" using unused_no_users [OF ok] u by (auto simp: in_use_def)
    moreover have "in_use fd i e (s\<lparr>policy := p\<rparr>)" using u by (simp add: in_use_def users_def)
    ultimately have "in_use fd i e t" using t by (blast intro: in_use_erase)
    then show ?thesis by (rule in_use_same [OF stepsD [OF same_PushNotification(1) n]])
  next
    case False
    with run u show ?thesis
      by (auto simp: DeleteObject_def op_Inr unused_def in_use_def users_def split: option.splits if_splits)
  qed
qed

lemma seal_one_in_use: "seal_one env dgs ids k infos s = Inr (r, s') \<Longrightarrow> in_use fd i e s \<Longrightarrow> in_use fd i e s'"
  by (elim seal_one_Inr) (rule in_use_other [OF _ _ in_use_state [where d = d for d]], auto)

lemma guarded_SealObjects: "steps (\<lambda>s s'. guarded fd i e s \<longrightarrow> guarded fd i e s') (SealObjects env ids digests)"
proof (rule guardedI [OF SealObjects_keeps])
  fix s :: "'a store" and r s'
  assume run: "SealObjects env ids digests s = Inr (r, s')" and u: "in_use fd i e s"
  have "steps (\<lambda>s s'. in_use fd i e s \<longrightarrow> in_use fd i e s') (SealObjects env ids digests)"
    unfolding SealObjects_def
    by (intro keep.rules keep.wake; (rule stepsI)?)
       (auto intro: seal_one_in_use in_use_same in_use_AddTo dest: stepsD [OF same_PushNotifications])
  from stepsD [OF this run] u show "in_use fd i e s'" by simp
qed

section \<open>Get requests\<close>

lemma in_use_made: "in_use fd i e s \<Longrightarrow> made j s \<Longrightarrow> j \<noteq> i"
  by (auto simp: made_def in_use_def)

lemma restored_in_use:
  assumes "get_restored env r j u s = Inr (x, s')" and "in_use fd i e s" and "j \<noteq> i"
  shows "in_use fd i e s'"
  using assms by (auto simp: get_restored_def op_Inr in_use_def users_def ids_of_def update_conv')

lemma put_back_in_use:
  assumes "set_entry j f s = Inr (x, s')" and "in_use fd i e s" and "j \<noteq> i"
  shows "in_use fd i e s'"
  using assms by (auto simp: op_Inr in_use_def users_def ids_of_def update_conv')

lemma in_use_fold:
  assumes "mfold f js u s = Inr (r, s')" and "in_use fd i e s" and "i \<notin> set js"
    and "\<And>j a s b s'. f j a s = Inr (b, s') \<Longrightarrow> in_use fd i e s \<Longrightarrow> j \<noteq> i \<Longrightarrow> in_use fd i e s'"
  shows "in_use fd i e s'"
  by (rule mfold_invariant [OF assms(1), where P = "\<lambda>_. in_use fd i e"]) (use assms in blast)+

lemma get_one_in_use:
  assumes run: "get_one env r c j (rem, evs) s = Inr ((rem', evs'), s')" and ok: "refs_ok {} s" and u: "in_use fd i e s"
  shows "in_use fd i e s'"
proof (cases "map_of (objects s) j")
  case (Some d)
  show ?thesis
  proof (cases "e_state d")
    case PLASMA_CREATED
    with run u Some show ?thesis by (auto simp: get_one_def op_Inr)
  next
    case PLASMA_SEALED
    with run Some obtain t where
      q: "set_request r (\<lambda>q. q\<lparr>gr_objects := AList.update j (PlasmaObject_init d) (gr_objects q),
                            gr_num_satisfied := gr_num_satisfied q + 1\<rparr>) s = Inr ((), t)" and
      a: "AddToClientObjectIds j c t = Inr ((), s')"
      by (auto simp: get_one_def mbind_Inr)
    show ?thesis by (rule in_use_AddTo [OF a in_use_same [OF stepsD [OF same_set_request q] u]])
  next
    case PLASMA_EVICTED
    from run Some PLASMA_EVICTED show ?thesis
    proof (cases rule: get_one_evicted_Inr)
      case (1 ptr out t)
      have j: "j \<noteq> i" by (rule in_use_state [OF u Some]) (simp add: PLASMA_EVICTED)
      have t: "in_use fd i e t"
        by (rule in_use_shrinks [OF stepsD [OF shrinks_AllocateMemory 1(2)], of "{}"])
           (use ok u in \<open>simp_all add: refs_ok_def users_def in_use_def\<close>)
      show ?thesis
      proof (cases "ptr = 0")
        case True
        with 1(4) t j show ?thesis by (auto intro: in_use_other)
      next
        case False
        with 1(4) obtain w tm where w: "AddToClientObjectIds j c w = Inr ((), s')" "ids_of w = ids_of t"
          "map_of (objects w) = (map_of (objects t))(j \<mapsto> (placed ptr out d)\<lparr>e_state := PLASMA_CREATED, e_create_time := tm\<rparr>)"
          by auto
        show ?thesis by (rule in_use_AddTo [OF w(1) in_use_other [OF t w(3) j w(2)]])
      qed
    qed
  qed
qed (use run u in \<open>auto simp: get_one_def op_Inr\<close>)

lemma get_fold_in_use:
  assumes "mfold (get_one env r c) ids ([], []) s = Inr ((rem, evs), t)" and "refs_ok {} s" and "in_use fd i e s"
  shows "in_use fd i e t"
proof -
  have "refs_held (set (snd (rem, evs))) t \<and> in_use fd i e t"
  proof (rule mfold_invariant [OF assms(1), where P = "\<lambda>a u. refs_held (set (snd a)) u \<and> in_use fd i e u"])
    fix j a u a' u'
    assume "refs_held (set (snd a)) u \<and> in_use fd i e u" and "get_one env r c j a u = Inr (a', u')"
    then show "refs_held (set (snd a')) u' \<and> in_use fd i e u'"
      using get_one_in_use [of env r c j "fst a" "snd a" u "fst a'" "snd a'" u']
        get_one_refs [of env r c j "fst a" "snd a" u "fst a'" "snd a'" u'] by (auto simp: refs_held_def)
  qed (use assms in \<open>simp add: refs_held_def\<close>)
  then show ?thesis by simp
qed

lemma get_evicted_in_use:
  assumes "get_evicted env r evs s = Inr (x, s')" and "fetching evs s" and "in_use fd i e s"
  shows "in_use fd i e s'"
proof -
  from assms(1) obtain sizes t ext st contents v where
    t: "mfold check_pointer evs [] s = Inr (sizes, t)" and
    v: "mfold buffer_fill (zip evs contents) () t = Inr ((), v)" and
    w: "(if st_ok st then mfold (get_restored env r) evs ()
         else locked (mfold (\<lambda>i _. set_entry i (\<lambda>e. e\<lparr>e_state := PLASMA_EVICTED\<rparr>)) evs ())) v = Inr (x, s')"
    by (auto simp: get_evicted_def mbind_Inr rbind_eq_Inr split: option.splits)
  have 1: "steps same (mfold check_pointer evs [])" and 2: "steps same (mfold buffer_fill (zip evs contents) ())"
    by (auto intro!: same.fold same_check_pointer same_buffer_fill)
  from stepsD [OF 1 t] stepsD [OF 2 v] have "same s v" by (rule same.trans)
  then have u: "in_use fd i e v" by (rule in_use_same) (rule assms(3))
  have i: "i \<notin> set evs" using assms(2) in_use_made [OF assms(3), of i] by (auto simp: fetching_def)
  show ?thesis
  proof (cases "st_ok st")
    case True
    with w have y: "mfold (get_restored env r) evs () v = Inr (x, s')" by simp
    show ?thesis by (rule in_use_fold [OF y u i restored_in_use])
  next
    case False
    with w obtain y where
      y: "mfold (\<lambda>i _. set_entry i (\<lambda>e. e\<lparr>e_state := PLASMA_EVICTED\<rparr>)) evs () (v\<lparr>mutex := True\<rparr>) = Inr (x, y)"
      and s': "s' = y\<lparr>mutex := False\<rparr>"
      by (auto simp: locked_Inr)
    have v': "in_use fd i e (v\<lparr>mutex := True\<rparr>)" using u by (simp add: in_use_def users_def)
    have "in_use fd i e y" by (rule in_use_fold [OF y v' i put_back_in_use])
    then show ?thesis by (simp add: s' in_use_def users_def)
  qed
qed

lemma guarded_ProcessGetRequest:
  "steps (\<lambda>s s'. guarded fd i e s \<longrightarrow> guarded fd i e s') (ProcessGetRequest env c ids timeout)"
proof (rule guardedI [OF ProcessGetRequest_keeps])
  fix s :: "'a store" and x s'
  assume run: "ProcessGetRequest env c ids timeout s = Inr (x, s')" and ok: "refs_ok {} s" and use: "in_use fd i e s"
  from run show "in_use fd i e s'"
  proof (rule ProcessGetRequest_Inr)
    fix r s0 rem evs t u v
    assume s0: "s0 = s\<lparr>get_heap := AList.update r (new_GetRequest c ids) (get_heap s), next_request := Suc r\<rparr>"
      and t: "mfold (get_one env r c) ids ([], []) s0 = Inr ((rem, evs), t)"
      and u: "check_remote env r rem t = Inr ((), u)"
      and v: "(if evs \<noteq> [] then get_evicted env r evs else mret ()) u = Inr ((), v)"
      and w: "reply_or_wait env r timeout v = Inr ((), s')"
    have "same s s0" by (simp add: s0)
    then have ok0: "refs_ok {} s0" and "in_use fd i e s0" using ok use by (simp_all add: refs_same in_use_same)
    from get_fold_in_use [OF t this] have 1: "in_use fd i e t" .
    note tu = stepsD [OF same_check_remote u]
    have "fetching evs u" using get_fold_life [OF t ok0] fetching_same [OF tu] by blast
    then have "in_use fd i e v"
      using v get_evicted_in_use [of env r evs u "()" v fd i e] in_use_same [OF tu 1] by (auto split: if_splits)
    then show "in_use fd i e s'" by (rule in_use_same [OF stepsD [OF same_reply_or_wait w]])
  qed
qed

section \<open>Connections and the server\<close>

lemma leave_one_in_use:
  assumes run: "leave_one env j acc s = Inr (acc', s')" and u: "in_use fd i e s"
  shows "in_use fd i e s'"
proof (cases "s' = s")
  case False
  with run obtain d where d: "map_of (objects s) j = Some d" "e_state d \<noteq> PLASMA_SEALED"
    and t: "EraseFromObjectTable env j s = Inr ((), s')"
    by (auto simp: leave_one_def op_Inr split: option.splits if_splits)
  show ?thesis by (rule in_use_erase [OF u t in_use_state [OF u d]])
qed (use u in simp)

lemma guarded_DisconnectClient:
  "c \<noteq> fd \<Longrightarrow> steps (\<lambda>s s'. guarded fd i e s \<longrightarrow> guarded fd i e s') (DisconnectClient env c)"
proof (rule guardedI [OF DisconnectClient_keeps])
  fix s :: "'a store" and r s'
  assume other: "c \<noteq> fd" and run: "DisconnectClient env c s = Inr (r, s')" and ok: "refs_ok {} s" and use: "in_use fd i e s"
  from run show "in_use fd i e s'"
  proof (cases rule: DisconnectClient_Inr)
    case (1 b t p js u v w x)
    from 1(1,2) have ids: "ids_of (t\<lparr>policy := p\<rparr>) c = Some (c_object_ids b)"
      by (simp add: same_def) (simp add: ids_of_def)
    have "refs_ok {c} (t\<lparr>policy := p\<rparr>)"
      using ok 1(2) refs_weaken [of "{}" s "{c}"] by (simp add: refs_same)
    note u = leave_fold_refs [OF 1(3) this ids subset_refl]
    note uv = stepsD [OF same_RemoveGetRequestsForClient 1(5)]
    then have v: "refs_ok {c} v" using u by (simp add: refs_same)
    have "in_use fd i e (t\<lparr>policy := p\<rparr>)"
      using in_use_same [OF 1(2) use] by (simp add: in_use_def users_def)
    then have "in_use fd i e u"
      by (intro mfold_invariant [OF 1(3), where P = "\<lambda>_. in_use fd i e"]) (auto intro: leave_one_in_use)
    then have uv': "in_use fd i e v" by (rule in_use_same [OF uv])
    have "refs_ok {c} w \<and> in_use fd i e w"
    proof (rule mfold_invariant [OF 1(6), where P = "\<lambda>_ y. refs_ok {c} y \<and> in_use fd i e y"])
      fix j b y b' y'
      assume "refs_ok {c} y \<and> in_use fd i e y" and "mbind (RemoveFromClientObjectIds env j c) (\<lambda>_. mret ()) y = Inr (b', y')"
      then show "refs_ok {c} y' \<and> in_use fd i e y'"
        using other by (auto simp: op_Inr intro: refs_RemoveFrom in_use_RemoveFrom)
    qed (simp add: v uv')
    then have "in_use fd i e x" using in_use_same [OF stepsD [OF same_close_notification 1(7)]] by blast
    then show ?thesis using other by (auto simp: 1(8) in_use_def users_def ids_of_def delete_conv')
  qed
qed

lemma guarded_evict_bytes: "steps (\<lambda>s s'. guarded fd i e s \<longrightarrow> guarded fd i e s') (evict_bytes env n)"
  by (rule guarded_shrinks, rule stepsI) (auto elim!: evict_bytes_Inr dest!: EvictObjects_evicts evicts_shrinks)

lemma guarded_policy: "steps (\<lambda>s s'. guarded fd i e s \<longrightarrow> guarded fd i e s') (on_policy f)"
  by (rule guardedI [OF keeps_policy]) (auto simp: on_policy_Inr in_use_def users_def)

lemma guarded_set_quota: "steps (\<lambda>s s'. guarded fd i e s \<longrightarrow> guarded fd i e s') (set_quota c name n)"
  by (rule guardedI [OF set_quota_keeps]) (auto simp: set_quota_def rbind_eq_Inr in_use_def users_def)

lemma guarded_ConnectClient:
  assumes "map_of (connected_clients s) (AcceptClient sock) = None" and "ConnectClient env sock s = Inr (u, s')"
    and "guarded fd i e s"
  shows "guarded fd i e s'"
  using ConnectClient_refs [OF assms(2) _ assms(1)] assms
  by (auto simp: guarded_def in_use_def users_def ids_of_def ConnectClient_def add_file_event_def Let_def op_Inr update_conv')

lemma guarded_same: "same s s' \<Longrightarrow> guarded fd i e s \<Longrightarrow> guarded fd i e s'"
  by (simp add: guarded_def refs_same in_use_same)

interpretation isolation: server_effect "\<lambda>s s'. guarded fd i e s \<longrightarrow> guarded fd i e s'" env "\<lambda>_ _. True" True "\<lambda>c. c \<noteq> fd"
  for fd i e env
  by unfold_locales
     (auto intro: guarded_same guarded_CreateObject guarded_SealObjects guarded_RemoveFrom guarded_AbortObject
       guarded_DeleteObject guarded_ProcessGetRequest guarded_evict_bytes guarded_policy guarded_set_quota
       guarded_DisconnectClient guarded_ConnectClient)

text \<open>
  C4. An object in use is not taken away: when a client uses a sealed object and the store
  handles an event that is not a request of this client (another client's request, including
  deletions and creations that evict, a disconnection, a time-out), the client still uses the
  object afterwards and the entry is the same but for the number of references.
\<close>
theorem objects_in_use_are_kept:
  assumes "store_reach ok env (PlasmaStore l a x m) s"
    and "map_of (connected_clients s) fd = Some c" and "i \<in> set (c_object_ids c)"
    and "map_of (objects s) i = Some e" and "e_state e = PLASMA_SEALED"
    and "fresh_accept s ev" and "store_event_step env ev s = Inr ((), s')" and "speaker s ev \<noteq> Some fd"
  shows "\<exists>c' n. map_of (connected_clients s') fd = Some c' \<and> i \<in> set (c_object_ids c') \<and>
    map_of (objects s') i = Some (e\<lparr>e_ref_count := n\<rparr>)"
proof -
  have "\<exists>n. e = e\<lparr>e_ref_count := n\<rparr>" by (rule exI [of _ "e_ref_count e"]) simp
  then have "guarded fd i e s"
    using store_reach_refs [OF assms(1)] assms(2-5) by (auto simp: guarded_def in_use_def users_def ids_of_def)
  then have "guarded fd i e s'"
    using isolation.event [of env ev s "()" s' fd i e] assms(6-8) by auto
  then show ?thesis by (auto simp: guarded_def in_use_def users_def ids_of_def)
qed

text \<open>Two clients; the first has created and sealed object 7 and still uses it.\<close>

definition demo_shared :: "fb_table \<Rightarrow> unit store option" where
  "demo_shared t = checked_run (demo_env [demo_create 7 100 20, demo_seal 7, t] None)
     [EvAccept (demo_sock 5), EvAccept (demo_sock 6), demo_msg 5 PlasmaCreateRequest 0, demo_msg 5 PlasmaSealRequest 1]
     (PlasmaStore (new_EventLoop 0) demo_alloc () (\<lambda>_. 0))"

lemma demo_shared_reach:
  assumes "case demo_shared t of Some s \<Rightarrow> P s | None \<Rightarrow> False"
  shows "\<exists>s. store_reach (\<lambda>_. True) (demo_env [demo_create 7 100 20, demo_seal 7, t] None)
    (PlasmaStore (new_EventLoop 0) demo_alloc () (\<lambda>_. 0)) s \<and> P s"
  using assms unfolding demo_shared_def by (rule checked_reach) simp

definition demo_uses :: "'x store \<Rightarrow> bool" where
  "demo_uses s \<longleftrightarrow> (case (map_of (connected_clients s) 5, map_of (objects s) (demo_id 7)) of
     (Some c, Some e) \<Rightarrow> demo_id 7 \<in> set (c_object_ids c) \<and> e_state e = PLASMA_SEALED | _ \<Rightarrow> False)"

lemma demo_shared_delete:
  "case demo_shared (demo_ids [7]) of
     Some s \<Rightarrow> demo_uses s \<and> fresh_accept s (demo_msg 6 PlasmaDeleteRequest 2) \<and>
       speaker s (demo_msg 6 PlasmaDeleteRequest 2) = Some 6 \<and>
       (case store_event_step (demo_env [demo_create 7 100 20, demo_seal 7, demo_ids [7]] None) (demo_msg 6 PlasmaDeleteRequest 2) s of
          Inr _ \<Rightarrow> True | Inl _ \<Rightarrow> False)
   | None \<Rightarrow> False"
  by (simp add: monad_eval demo_eval create_eval seal_eval delete_eval demo_shared_def speaker_def demo_uses_def)

theorem objects_in_use_are_kept_witness:
  "\<exists>(s :: unit store) s' e n. demo_uses s \<and> map_of (objects s) (demo_id 7) = Some e \<and>
     store_event_step (demo_env [demo_create 7 100 20, demo_seal 7, demo_ids [7]] None) (demo_msg 6 PlasmaDeleteRequest 2) s
       = Inr ((), s') \<and>
     map_of (objects s') (demo_id 7) = Some (e\<lparr>e_ref_count := n\<rparr>)"
proof -
  let ?env = "demo_env [demo_create 7 100 20, demo_seal 7, demo_ids [7]] None :: unit env"
  let ?ev = "demo_msg 6 PlasmaDeleteRequest 2"
  from demo_shared_reach [OF demo_shared_delete] obtain s where
    s: "store_reach (\<lambda>_. True) ?env (PlasmaStore (new_EventLoop 0) demo_alloc () (\<lambda>_. 0)) s" and u: "demo_uses s"
    and f: "fresh_accept s ?ev" and sp: "speaker s ?ev = Some 6"
    and r: "case store_event_step ?env ?ev s of Inr _ \<Rightarrow> True | Inl _ \<Rightarrow> False"
    by auto
  from u obtain c e where c: "map_of (connected_clients s) 5 = Some c" "demo_id 7 \<in> set (c_object_ids c)"
    and e: "map_of (objects s) (demo_id 7) = Some e" "e_state e = PLASMA_SEALED"
    by (auto simp: demo_uses_def split: option.splits)
  from r obtain s' where s': "store_event_step ?env ?ev s = Inr ((), s')" by (auto split: sum.splits)
  from objects_in_use_are_kept [OF s c e f s'] sp u e s' show ?thesis by auto
qed

text \<open>
  C32. The place of an object in use is safe, its content is not: \<open>CreateAndSeal\<close> copies the inlined
  data to \<open>entry->pointer\<close>, which is the start of the pool for every object, and not to
  \<open>entry->pointer + entry->offset\<close>. There is a run in which a request of one client to create
  and seal object 8 overwrites the first byte of the sealed object 7 that another client uses,
  whose place (in the descriptor and offset both clients are given) is that of the pool's start
  while object 8 lies behind it.
\<close>
theorem create_and_seal_overwrites:
  "\<exists>(s :: unit store) s' e d. let env = demo_env [demo_create 7 100 20, demo_seal 7, demo_inline 8 [1]] None in
     store_reach (\<lambda>_. True) env (PlasmaStore (new_EventLoop 0) demo_alloc () (\<lambda>_. 0)) s \<and> demo_uses s \<and>
     store_event_step env (demo_msg 6 PlasmaCreateAndSealRequest 2) s = Inr ((), s') \<and>
     map_of (objects s) (demo_id 7) = Some e \<and> map_of (objects s') (demo_id 7) = Some e \<and>
     map_of (objects s') (demo_id 8) = Some d \<and> e_offset d \<ge> e_offset e + e_data_size e + e_metadata_size e \<and>
     memory s (nat (int (base_pointer (alloc s)) + e_offset e)) = 0 \<and>
     memory s' (nat (int (base_pointer (alloc s)) + e_offset e)) = 1"
proof -
  let ?env = "demo_env [demo_create 7 100 20, demo_seal 7, demo_inline 8 [1]] None :: unit env"
  let ?P = "\<lambda>s s'. \<exists>e d. map_of (objects s) (demo_id 7) = Some e \<and> map_of (objects s') (demo_id 7) = Some e \<and>
     map_of (objects s') (demo_id 8) = Some d \<and> e_offset d \<ge> e_offset e + e_data_size e + e_metadata_size e \<and>
     memory s (nat (int (base_pointer (alloc s)) + e_offset e)) = 0 \<and>
     memory s' (nat (int (base_pointer (alloc s)) + e_offset e)) = 1"
  have "case demo_shared (demo_inline 8 [1]) of
     Some s \<Rightarrow> demo_uses s \<and>
       (case store_event_step ?env (demo_msg 6 PlasmaCreateAndSealRequest 2) s of Inr (_, s') \<Rightarrow> ?P s s' | Inl _ \<Rightarrow> False)
   | None \<Rightarrow> False"
    by (simp add: monad_eval demo_eval create_eval seal_eval inline_eval demo_shared_def demo_uses_def)
  from demo_shared_reach [OF this] show ?thesis by (fastforce simp: Let_def split: sum.splits)
qed

end
