(* ===== verification/Store_Alloc.thy ===== *)
theory Store_Alloc
  imports Store_Refs
begin

text \<open>
  The loop of \<open>PlasmaStore::AllocateMemory\<close> ends (src/arrow/cpp/src/plasma/store.cc): each pass
  that does not leave it takes at least one object out of the global cache, and eviction itself
  never adds to the cache. So the fuel of the model, one more than the number of cached objects,
  is never used up, and more fuel never changes the result.
\<close>

section \<open>Operations without a bounded loop\<close>

definition no_fuel :: "('a, 'x) op \<Rightarrow> bool" where
  "no_fuel m \<longleftrightarrow> (\<forall>s. m s \<noteq> Inl OutOfFuel)"

named_theorems no_fuel_intros \<open>operations that never run out of fuel\<close>

lemma rbind_OutOfFuel: "m \<noteq> Inl OutOfFuel \<Longrightarrow> (\<And>x. m = Inr x \<Longrightarrow> f x \<noteq> Inl OutOfFuel) \<Longrightarrow> rbind m f \<noteq> Inl OutOfFuel"
  by (cases m) auto

lemma rbind_eq_Inl: "rbind m f = Inl e \<longleftrightarrow> m = Inl e \<or> (\<exists>x. m = Inr x \<and> f x = Inl e)"
  by (cases m) auto

lemma check_OutOfFuel [simp]: "check b msg \<noteq> Inl OutOfFuel"
  by (simp add: check_def)

lemma no_fuel_bind [no_fuel_intros]:
  assumes "no_fuel m" and "\<And>x. no_fuel (f x)"
  shows "no_fuel (mbind m f)"
  unfolding no_fuel_def mbind_def
  by (intro allI rbind_OutOfFuel) (use assms in \<open>auto simp: no_fuel_def\<close>)

lemma no_fuel_basic [no_fuel_intros]:
  "no_fuel (mret x)" "no_fuel (mcheck b msg)" "no_fuel (get_entry i)" "no_fuel (deref_entry i)"
  "no_fuel (set_entry i f)" "no_fuel (close_fd fd)" "no_fuel lock_mutex" "no_fuel unlock_mutex"
  "no_fuel (mfault (CheckFailed msg))"
  by (auto simp: no_fuel_def mret_def mcheck_def check_def get_entry_def deref_entry_def set_entry_def
      close_fd_def lock_mutex_def unlock_mutex_def mfault_def split: option.splits)

lemma no_fuel_fold [no_fuel_intros]: "(\<And>x a. no_fuel (f x a)) \<Longrightarrow> no_fuel (mfold f xs a)"
  by (induction xs arbitrary: a) (auto intro!: no_fuel_intros)

lemma no_fuel_locked [no_fuel_intros]: "no_fuel m \<Longrightarrow> no_fuel (locked m)"
  unfolding locked_def by (intro no_fuel_intros)

lemma aeCreateFileEvent_fuel: "aeCreateFileEvent ok fd ev pr p a \<noteq> Inl OutOfFuel"
  by (auto simp: aeCreateFileEvent_def aeApiAddEvent_def event_at_def Let_def split: prod.splits)

lemma AddFileEvent_fuel: "AddFileEvent ok fd ev cb l \<noteq> Inl OutOfFuel"
  by (auto simp: AddFileEvent_def Let_def rbind_eq_Inl aeCreateFileEvent_fuel split: prod.splits)

lemma RemoveFileEvent_fuel: "RemoveFileEvent fd l \<noteq> Inl OutOfFuel"
  by (auto simp: RemoveFileEvent_def aeDeleteFileEvent_def aeApiDelEvent_def event_at_def Let_def)

lemma no_fuel_loop [no_fuel_intros]:
  "no_fuel (add_file_event env fd ev cb)" "no_fuel (on_loop (RemoveFileEvent fd))"
  unfolding no_fuel_def add_file_event_def on_loop_def
  by (intro allI rbind_OutOfFuel AddFileEvent_fuel RemoveFileEvent_fuel; auto)+

lemma Free_loop_fuel: "Free_loop sem b e rs kept off sz \<noteq> Inl OutOfFuel"
  by (induction sem b e rs kept off sz rule: Free_loop.induct) (auto simp: Let_def split: erase_sem.splits)

lemma Free_fuel: "Free sem mem n a \<noteq> Inl OutOfFuel"
  unfolding Free_def Let_def by (rule rbind_OutOfFuel [OF Free_loop_fuel]) auto

lemma no_fuel_notify [no_fuel_intros]: "no_fuel (notify_loop env fd ns n)"
proof (induction ns arbitrary: n)
  case (Cons x ns)
  then show ?case
    using no_fuel_loop(1) [of env fd kEventLoopWrite "CbSendNotifications fd"]
    by (auto simp: no_fuel_def Let_def mret_def mbind_def mcheck_def rbind_eq_Inl split: notify_out.splits)
qed (simp add: no_fuel_def mret_def)

lemma no_fuel_SendNotifications [no_fuel_intros]: "no_fuel (SendNotifications env fd)"
  using no_fuel_notify [of env fd] no_fuel_loop(2) [of fd]
  by (auto simp: no_fuel_def SendNotifications_def mbind_def rbind_eq_Inl Let_def close_fd_def mret_def split: option.splits)

lemma no_fuel_PushNotification [no_fuel_intros]: "no_fuel (PushNotification env info)"
proof -
  have "no_fuel (push_to env infos fd)" for infos fd
    using no_fuel_SendNotifications [of env fd] by (auto simp: no_fuel_def push_to_def split: option.splits)
  then have "no_fuel (mfold (\<lambda>fd _. push_to env infos fd) fds ())" for infos fds
    by (intro no_fuel_intros)
  then show ?thesis by (simp add: no_fuel_def PushNotification_def PushNotifications_def)
qed

lemma no_fuel_Erase [no_fuel_intros]: "no_fuel (EraseFromObjectTable env i)"
proof -
  have "no_fuel (\<lambda>s. rbind (if b then Free sem p n (alloc s) else Inr (alloc s)) (\<lambda>a. Inr ((), g a s)))"
    for b sem p n and g :: "PlasmaAllocator \<Rightarrow> 'a store \<Rightarrow> 'a store"
    by (simp add: no_fuel_def rbind_eq_Inl Free_fuel)
  then show ?thesis unfolding EraseFromObjectTable_def by (intro no_fuel_intros)
qed

lemma no_fuel_evict_one [no_fuel_intros]: "no_fuel (evict_one env i ds)"
proof -
  have "no_fuel (\<lambda>s. Inr (f s, s))" for f :: "'a store \<Rightarrow> byte list list" by (simp add: no_fuel_def)
  then show ?thesis
    unfolding evict_one_def by (auto intro!: no_fuel_intros split: option.splits)
qed

lemma no_fuel_evict_free [no_fuel_intros]: "no_fuel (evict_free env i u)"
proof -
  have "no_fuel (\<lambda>s. rbind (Free sem p n (alloc s)) (\<lambda>a. Inr ((), s\<lparr>alloc := a\<rparr>)))" for sem p n
    by (simp add: no_fuel_def rbind_eq_Inl Free_fuel)
  then show ?thesis unfolding evict_free_def by (intro no_fuel_intros)
qed

text \<open>The external store is code outside the model: it must itself return or fail.\<close>

definition put_returns :: "'x env \<Rightarrow> bool" where
  "put_returns env \<longleftrightarrow>
     (\<forall>ext ids ds x. env_external env = Some ext \<longrightarrow> es_Put ext ids ds x \<noteq> Inl OutOfFuel)"

lemma no_fuel_EvictObjects: "put_returns env \<Longrightarrow> no_fuel (EvictObjects env ids)"
proof (cases "env_external env")
  case None
  then show ?thesis unfolding EvictObjects_def by (auto intro!: no_fuel_intros)
next
  case (Some ext)
  assume put: "put_returns env"
  have "no_fuel (mbind (mcheck b msg) (\<lambda>_. locked (mfold (evict_free env) ids ())))" for b msg
    by (intro no_fuel_intros)
  then have "no_fuel (\<lambda>s. rbind (es_Put ext ids ds (ext_state s)) (\<lambda>(st, x).
       mbind (mcheck (st_ok st) msg) (\<lambda>_. locked (mfold (evict_free env) ids ())) (s\<lparr>ext_state := x\<rparr>)))" for ds msg
    using put Some by (auto simp: no_fuel_def put_returns_def rbind_eq_Inl)
  then show ?thesis unfolding EvictObjects_def using Some by (auto intro!: no_fuel_intros)
qed

section \<open>The allocation loop\<close>

text \<open>One pass of the loop that goes on leaves fewer objects in the global cache.\<close>

lemma alloc_pass:
  assumes "policy_inv (policy s)" and "RequireSpace a sz [] (policy s) = Inr (ok, vs, p)" and "ok"
    and "EvictObjects env vs (s\<lparr>alloc := a, policy := p\<rparr>) = Inr (u, t)"
  shows "policy_inv (policy t)" and "length (lru_keys (cache (policy t))) < length (lru_keys (cache (policy s)))"
proof -
  have t: "policy t = p" using EvictObjects_evicts [OF assms(4)] by (simp add: evicts_def)
  from RequireSpace_spec [OF assms(1), of a sz "[]"] assms(2,3) obtain ws where
    "policy_inv p" and ws: "set ws \<subseteq> set (lru_keys (cache (policy s)))" "ws \<noteq> []"
    and k: "lru_keys (cache p) = filter (\<lambda>x. x \<notin> set ws) (lru_keys (cache (policy s)))"
    by (metis Pair_inject append_self_conv2 sum.inject(2))
  then show "policy_inv (policy t)" by (simp add: t)
  obtain w where "w \<in> set (lru_keys (cache (policy s)))" and "w \<in> set ws"
    using ws by (cases ws) auto
  then show "length (lru_keys (cache (policy t))) < length (lru_keys (cache (policy s)))"
    unfolding t k by (intro length_filter_less) auto
qed

lemma RequireSpace_total: "policy_inv p \<Longrightarrow> \<exists>r. RequireSpace a sz out p = Inr r"
  by (erule RequireSpace_spec [of _ a sz out]) blast

lemma alloc_loop_fuel:
  assumes "put_returns env"
  shows "policy_inv (policy s) \<Longrightarrow> length (lru_keys (cache (policy s))) < n \<Longrightarrow>
     alloc_loop env n sz ev out s \<noteq> Inl OutOfFuel \<and>
     (\<forall>k \<ge> n. alloc_loop env k sz ev out s = alloc_loop env n sz ev out s)"
proof (induction n arbitrary: s out)
  case (Suc n)
  obtain ptr out1 a where m: "Memalign kBlockSize sz out (alloc s) = (ptr, out1, a)"
    by (cases "Memalign kBlockSize sz out (alloc s)") auto
  have suc: "\<exists>k'. k = Suc k' \<and> n \<le> k'" if "Suc n \<le> k" for k using that by (cases k) auto
  show ?case
  proof (cases "ptr \<noteq> 0 \<or> \<not> ev")
    case True
    then show ?thesis using m by (auto dest!: suc)
  next
    case False
    obtain ok vs p where r: "RequireSpace a (int64_of (int sz)) [] (policy s) = Inr (ok, vs, p)"
      using RequireSpace_total [OF Suc.prems(1)] by (metis prod_cases3)
    show ?thesis
    proof (cases "EvictObjects env vs (s\<lparr>alloc := a, policy := p\<rparr>)")
      case (Inl f)
      have "f \<noteq> OutOfFuel" using no_fuel_EvictObjects [OF assms, of vs] Inl by (auto simp: no_fuel_def)
      then show ?thesis using m False r Inl by (auto dest!: suc)
    next
      case (Inr ut)
      obtain t where t: "EvictObjects env vs (s\<lparr>alloc := a, policy := p\<rparr>) = Inr ((), t)"
        using Inr by (cases ut) auto
      show ?thesis
      proof (cases ok)
        case True
        note pass = alloc_pass [OF Suc.prems(1) r True t]
        from pass(2) Suc.prems(2) have "length (lru_keys (cache (policy t))) < n" by simp
        note ih = Suc.IH [OF pass(1) this, of out1]
        show ?thesis
        proof (intro conjI allI impI)
          show "alloc_loop env (Suc n) sz ev out s \<noteq> Inl OutOfFuel" using m False r t True conjunct1 [OF ih] by simp
          fix k assume "Suc n \<le> k"
          then obtain k' where "k = Suc k'" and k': "n \<le> k'" using suc by blast
          with m False r t True ih [THEN conjunct2, rule_format, OF k']
          show "alloc_loop env k sz ev out s = alloc_loop env (Suc n) sz ev out s" by simp
        qed
      next
        case nok: False
        then show ?thesis using m False r t by (auto dest!: suc)
      qed
    qed
  qed
qed simp

lemma enforce_quota_fuel:
  assumes "put_returns env" and "policy_inv (policy s)"
  shows "enforce_quota env sz ev client cr s \<noteq> Inl OutOfFuel"
    and "enforce_quota env sz ev client cr s = Inr (go, t) \<Longrightarrow> policy_inv (policy t)"
proof -
  obtain ok vs p where
    "EnforcePerClientQuota client (int64_of (int sz)) cr [] (policy s) = Inr (ok, [] @ vs, p)" and p: "policy_inv p"
    by (rule EnforcePerClientQuota_spec [OF assms(2), of client "int64_of (int sz)" cr "[]"]) (rule that)
  then have q: "EnforcePerClientQuota client (int64_of (int sz)) cr [] (policy s) = Inr (ok, vs, p)" by simp
  show "enforce_quota env sz ev client cr s \<noteq> Inl OutOfFuel"
    using q no_fuel_EvictObjects [OF assms(1), of vs]
    by (auto simp: enforce_quota_def no_fuel_def rbind_eq_Inl)
  show "policy_inv (policy t)" if "enforce_quota env sz ev client cr s = Inr (go, t)"
    using that
  proof (cases rule: enforce_quota_Inr)
    case (2 vs' p')
    then show ?thesis using q p by (auto dest!: EvictObjects_evicts simp: evicts_def)
  qed (use assms(2) in simp)
qed

text \<open>
  C15. \<open>AllocateMemory\<close> terminates: from every state whose eviction policy is consistent, the
  number of passes of its loop is at most one more than the number of cached objects, so the
  bound of the model is never reached and no larger bound gives another result.
\<close>
theorem allocate_memory_terminates:
  assumes "policy_inv (policy s)" and "put_returns env"
  shows "AllocateMemory env sz ev out client cr s \<noteq> Inl OutOfFuel \<and>
     (\<forall>k \<ge> alloc_fuel s. alloc_loop env k sz ev out s = alloc_loop env (alloc_fuel s) sz ev out s)"
proof
  show "AllocateMemory env sz ev out client cr s \<noteq> Inl OutOfFuel"
    unfolding AllocateMemory_def
  proof (rule rbind_OutOfFuel)
    show "enforce_quota env sz ev client cr s \<noteq> Inl OutOfFuel"
      by (rule enforce_quota_fuel [OF assms(2,1)])
    fix x assume "enforce_quota env sz ev client cr s = Inr x"
    then obtain go t where x: "x = (go, t)" and "policy_inv (policy t)"
      using enforce_quota_fuel(2) [OF assms(2,1)] by (cases x) auto
    then show "(case x of (go, s) \<Rightarrow> if \<not> go then Inr ((0, out), s)
       else rbind (alloc_loop env (alloc_fuel s) sz ev out s) (\<lambda>((pointer, out), s).
          rbind (check (pointer = 0 \<or> out_fd out \<noteq> - 1) ''*fd != -1'') (\<lambda>_. Inr ((pointer, out), s)))) \<noteq> Inl OutOfFuel"
      using alloc_loop_fuel [OF assms(2), of t "alloc_fuel t" sz ev out, THEN conjunct1]
      by (auto simp: alloc_fuel_def rbind_eq_Inl simp del: alloc_loop.simps)
  qed
  show "\<forall>k \<ge> alloc_fuel s. alloc_loop env k sz ev out s = alloc_loop env (alloc_fuel s) sz ev out s"
    by (rule alloc_loop_fuel [OF assms(2,1), THEN conjunct2]) (simp add: alloc_fuel_def)
qed

theorem allocate_memory_terminates_witness:
  "policy_inv (policy (demo_store ([] :: HashTable))) \<and>
   AllocateMemory (demo_env [] (Some HashTableStore)) 120 True \<lparr>out_fd = -1, out_map_size = 0, out_offset = 0\<rparr> 5 True
     (demo_store ([] :: HashTable)) \<noteq> Inl OutOfFuel"
proof -
  have "policy_inv (policy (demo_store ([] :: HashTable)))"
    using policy_inv_new by (simp add: demo_store_def PlasmaStore_def)
  moreover have "hts_put_loop ids ds t \<noteq> Inl OutOfFuel" for ids ds t
    by (induction ids ds t rule: hts_put_loop.induct) auto
  then have "put_returns (demo_env [] (Some HashTableStore))"
    by (auto simp: put_returns_def demo_env_def HashTableStore_def hts_Put_def rbind_eq_Inl)
  ultimately show ?thesis using allocate_memory_terminates by blast
qed

end
