(* ===== verification/Store_Memory.thy ===== *)
theory Store_Memory
  imports Store_Policy "HOL-Library.Multiset"
begin

text \<open>
  The memory of the store. As long as no client sets a quota and the sizes of objects are sane,
  the blocks of the objects in the table are exactly the live blocks of the allocator, whatever
  the clients do: objects never overlap, lie in the pool, and no block leaks.
\<close>

section \<open>Blocks\<close>

text \<open>The blocks of the objects that have memory, one for each object.\<close>

definition block :: "ObjectTableEntry \<Rightarrow> nat \<times> nat" where
  "block e = (nat (e_data_size e + e_metadata_size e), nat (e_offset e))"

definition owners :: "(UniqueID \<rightharpoonup> ObjectTableEntry) \<Rightarrow> UniqueID set" where
  "owners f = {i. \<exists>e. f i = Some e \<and> e_pointer e \<noteq> 0}"

definition blocks :: "(UniqueID \<rightharpoonup> ObjectTableEntry) \<Rightarrow> (nat \<times> nat) multiset" where
  "blocks f = image_mset (\<lambda>i. block (the (f i))) (mset_set (owners f))"

lemma finite_owners: "finite (dom f) \<Longrightarrow> finite (owners f)"
  by (rule finite_subset [of _ "dom f"]) (auto simp: owners_def)

lemma blocks_cong: "owners f = owners g \<Longrightarrow> (\<And>i. i \<in> owners f \<Longrightarrow> block (the (f i)) = block (the (g i))) \<Longrightarrow> blocks f = blocks g"
  by (cases "finite (owners f)") (auto simp: blocks_def intro!: image_mset_cong)

lemma blocks_insert:
  assumes "finite (dom f)" and "i \<notin> owners f" and "e_pointer e \<noteq> 0"
  shows "blocks (f(i \<mapsto> e)) = add_mset (block e) (blocks f)"
proof -
  have "owners (f(i \<mapsto> e)) = insert i (owners f)" using assms(3) by (auto simp: owners_def)
  moreover have "image_mset (\<lambda>j. block (the ((f(i \<mapsto> e)) j))) (mset_set (owners f)) = blocks f"
    unfolding blocks_def by (rule image_mset_cong) (use assms(2) finite_owners [OF assms(1)] in auto)
  ultimately show ?thesis using assms(2) finite_owners [OF assms(1)] by (simp add: blocks_def)
qed

lemma blocks_remove:
  assumes "finite (dom f)" and "f i = Some e" and "e_pointer e \<noteq> 0"
    and "g = f(i := None) \<or> (\<exists>d. e_pointer d = 0 \<and> g = f(i \<mapsto> d))"
  shows "blocks f = add_mset (block e) (blocks g)"
proof -
  have "i \<notin> owners g" "finite (dom g)" "g(i \<mapsto> e) = f" using assms by (auto simp: owners_def)
  with blocks_insert [of g i e] assms(3) show ?thesis by simp
qed

lemma blocks_keep:
  assumes "f i = Some e" and "e_pointer d = 0 \<longleftrightarrow> e_pointer e = 0" and "e_pointer e \<noteq> 0 \<Longrightarrow> block d = block e"
  shows "blocks (f(i \<mapsto> d)) = blocks f"
  by (rule blocks_cong) (use assms in \<open>auto simp: owners_def split: if_splits\<close>)

section \<open>The table and the allocator\<close>

definition entry_laid :: "PlasmaAllocator \<Rightarrow> ObjectTableEntry \<Rightarrow> bool" where
  "entry_laid a e \<longleftrightarrow> e_device_num e = 0 \<and> 0 \<le> e_data_size e \<and> 0 \<le> e_metadata_size e \<and> e_data_size e + e_metadata_size e < 2 ^ 63 \<and>
     (e_state e \<noteq> PLASMA_EVICTED \<longrightarrow> e_pointer e \<noteq> 0) \<and>
     (e_pointer e \<noteq> 0 \<longrightarrow> e_pointer e = base_pointer a \<and> e_fd e = pa_fd a \<and> 0 \<le> e_offset e)"

definition pooled :: "PlasmaAllocator \<Rightarrow> (nat \<times> nat) multiset \<Rightarrow> bool" where
  "pooled a M \<longleftrightarrow> (\<exists>L. mset L = M \<and> pool_inv a L)"

definition laid :: "'x store \<Rightarrow> bool" where
  "laid s \<longleftrightarrow> pooled (alloc s) (blocks (map_of (objects s))) \<and>
     (\<forall>i e. map_of (objects s) i = Some e \<longrightarrow> entry_laid (alloc s) e)"

lemma pooled_Cons: "pooled a (add_mset b M) \<longleftrightarrow> (\<exists>L. mset L = M \<and> pool_inv a (b # L))"
proof
  assume "pooled a (add_mset b M)"
  then obtain L where L: "mset L = add_mset b M" "pool_inv a L" by (auto simp: pooled_def)
  then have m: "mset (b # remove1 b L) = mset L" by simp
  have "pool_inv a (b # remove1 b L)"
    using L(2) tsize_mset [OF m] pool_partition_mset [of "b # remove1 b L @ available_regions a" "L @ available_regions a"] m
    by (simp add: pool_inv_def)
  moreover have "mset (remove1 b L) = M" using L(1) by simp
  ultimately show "\<exists>L. mset L = M \<and> pool_inv a (b # L)" by blast
next
  assume "\<exists>L. mset L = M \<and> pool_inv a (b # L)"
  then obtain L where "mset (b # L) = add_mset b M" "pool_inv a (b # L)" by auto
  then show "pooled a (add_mset b M)" unfolding pooled_def by blast
qed

text \<open>One entry changes and keeps its block.\<close>

definition relaid :: "ObjectTableEntry \<Rightarrow> ObjectTableEntry \<Rightarrow> bool" where
  "relaid e d \<longleftrightarrow> e_pointer d = e_pointer e \<and> e_data_size d = e_data_size e \<and> e_metadata_size d = e_metadata_size e \<and>
     e_device_num d = e_device_num e \<and> (e_pointer e \<noteq> 0 \<longrightarrow> e_fd d = e_fd e \<and> e_offset d = e_offset e) \<and>
     (e_pointer e = 0 \<longrightarrow> e_state d = e_state e)"

lemma laid_rewrite:
  assumes "laid s" and "map_of (objects s) i = Some e" and "map_of (objects s') = (map_of (objects s))(i \<mapsto> d)" and "relaid e d"
    and "alloc s' = alloc s"
  shows "laid s'"
proof -
  have "blocks (map_of (objects s')) = blocks (map_of (objects s))"
    unfolding assms(3) by (rule blocks_keep [of _ _ e]) (use assms(2,4) in \<open>auto simp: relaid_def block_def\<close>)
  moreover have "entry_laid (alloc s) d"
    using assms(1,2,4) by (fastforce simp: laid_def entry_laid_def relaid_def)
  ultimately show ?thesis using assms by (auto simp: laid_def split: if_splits)
qed

lemma laid_cong: "laid s \<Longrightarrow> map_of (objects s') = map_of (objects s) \<Longrightarrow> alloc s' = alloc s \<Longrightarrow> laid s'"
  by (simp add: laid_def)

lemma laid_same: "same s s' \<Longrightarrow> laid s \<Longrightarrow> laid s'"
  by (erule laid_cong) (auto dest: same_objects)

text \<open>A block is freed: its entry leaves the table or becomes a placeholder.\<close>

lemma laid_Free:
  assumes "laid s" and e: "map_of (objects s) i = Some e" "e_pointer e \<noteq> 0"
    and f: "Free sem (nat (int (e_pointer e) + e_offset e)) (uint64_of (e_data_size e + e_metadata_size e)) (alloc s) = Inr (alloc s')"
    and g: "map_of (objects s') = (map_of (objects s))(i := None) \<or>
      map_of (objects s') = (map_of (objects s))(i \<mapsto> e\<lparr>e_pointer := 0, e_state := PLASMA_EVICTED\<rparr>)"
  shows "laid s'"
proof -
  have el: "entry_laid (alloc s) e" using assms(1) e by (auto simp: laid_def)
  then have at: "nat (int (e_pointer e) + e_offset e) = base_pointer (alloc s) + nat (e_offset e)"
    "uint64_of (e_data_size e + e_metadata_size e) = nat (e_data_size e + e_metadata_size e)"
    using e(2) by (auto simp: entry_laid_def uint64_of_small nat_add_distrib)
  have "blocks (map_of (objects s)) = add_mset (block e) (blocks (map_of (objects s')))"
    by (rule blocks_remove [OF finite_dom_map_of e]) (use g in \<open>auto intro: exI [of _ "e\<lparr>e_pointer := 0, e_state := PLASMA_EVICTED\<rparr>"]\<close>)
  with assms(1) obtain L where L: "mset L = blocks (map_of (objects s'))" "pool_inv (alloc s) (block e # L)"
    by (auto simp: laid_def pooled_Cons)
  note F = Free_pool [OF L(2) [unfolded block_def] f [unfolded at]]
  have "base_pointer (alloc s') = base_pointer (alloc s)" "pa_fd (alloc s') = pa_fd (alloc s)"
    by (subst F(2), simp)+
  then have "entry_laid (alloc s') = entry_laid (alloc s)" by (simp add: entry_laid_def fun_eq_iff)
  moreover have "entry_laid (alloc s) (e\<lparr>e_pointer := 0, e_state := PLASMA_EVICTED\<rparr>)" using el by (simp add: entry_laid_def)
  ultimately show ?thesis
    using assms(1) F(1) L(1) g by (auto simp: laid_def pooled_def split: if_splits)
qed

section \<open>Freeing\<close>

lemma laid_erase:
  assumes "EraseFromObjectTable env i s = Inr (r, s')" and "laid s"
    and "\<And>e. map_of (objects s) i = Some e \<Longrightarrow> e_pointer e \<noteq> 0"
  shows "laid s'"
proof -
  from assms(1) obtain e a where e: "map_of (objects s) i = Some e"
    and f: "(if e_device_num e = 0 then Free (env_erase env) (nat (int (e_pointer e) + e_offset e))
        (uint64_of (e_data_size e + e_metadata_size e)) (alloc s) else Inr (alloc s)) = Inr a"
    and s': "objects s' = AList.delete i (objects s)" "alloc s' = a"
    by (fastforce simp: EraseFromObjectTable_def op_Inr split: if_splits)
  have "e_device_num e = 0" using assms(2) e by (auto simp: laid_def entry_laid_def)
  with laid_Free [OF assms(2) e assms(3) [OF e], of "env_erase env" s'] f s' show ?thesis by (simp add: delete_conv')
qed

lemma evict_fold_laid:
  "env_external env = None \<Longrightarrow> mfold (evict_one env) ids ds s = Inr (r, s') \<Longrightarrow> laid s \<Longrightarrow> laid s'"
proof (induction ids arbitrary: ds s)
  case (Cons i ids)
  from Cons.prems(2) obtain x t where t: "evict_one env i ds s = Inr (x, t)" "mfold (evict_one env) ids x t = Inr (r, s')"
    by (auto simp: mbind_Inr)
  from t(1) Cons.prems(1) obtain e u where e: "map_of (objects s) i = Some e" "e_state e = PLASMA_SEALED"
    and u: "EraseFromObjectTable env i s = Inr ((), u)" "PushNotification env (deletion_info i) u = Inr ((), t)"
    by (fastforce simp: evict_one_def op_Inr split: option.splits)
  have "laid u" by (rule laid_erase [OF u(1) Cons.prems(3)]) (use e Cons.prems(3) in \<open>auto simp: laid_def entry_laid_def\<close>)
  then have "laid t" by (rule laid_same [OF stepsD [OF same_PushNotification(1) u(2)]])
  with Cons.IH [OF Cons.prems(1) t(2)] show ?case by simp
qed simp

lemma evict_free_laid:
  assumes "mfold (evict_free env) ids u s = Inr (r, s')" and "distinct ids" and "laid s"
    and "\<forall>i \<in> set ids. \<exists>e. map_of (objects s) i = Some e \<and> e_pointer e \<noteq> 0"
  shows "laid s'"
  using assms
proof (induction ids arbitrary: u s)
  case (Cons i ids)
  from Cons.prems(1) obtain x t where t: "evict_free env i u s = Inr (x, t)" "mfold (evict_free env) ids x t = Inr (r, s')"
    by (auto simp: mbind_Inr)
  from Cons.prems(4) obtain e where e: "map_of (objects s) i = Some e" "e_pointer e \<noteq> 0" by auto
  with t(1) have "Free (env_erase env) (nat (int (e_pointer e) + e_offset e)) (uint64_of (e_data_size e + e_metadata_size e)) (alloc s) =
      Inr (alloc t)" and o: "map_of (objects t) = (map_of (objects s))(i \<mapsto> e\<lparr>e_pointer := 0, e_state := PLASMA_EVICTED\<rparr>)"
    by (auto simp: evict_free_def op_Inr update_conv')
  then have "laid t" using laid_Free [OF Cons.prems(3) e] by blast
  moreover have "\<forall>j \<in> set ids. \<exists>e. map_of (objects t) j = Some e \<and> e_pointer e \<noteq> 0"
    using Cons.prems(2,4) by (auto simp: o)
  ultimately show ?case using Cons.IH [OF t(2)] Cons.prems(2) by simp
qed simp

lemma laid_EvictObjects:
  assumes "EvictObjects env ids s = Inr (r, s')" and "distinct ids" and "laid s"
  shows "laid s'"
proof (cases "ids = []")
  case True
  then show ?thesis using assms by (simp add: EvictObjects_def)
next
  case ne: False
  show ?thesis
  proof (cases "env_external env")
    case None
    then show ?thesis using assms ne by (auto simp: EvictObjects_def op_Inr intro: evict_fold_laid)
  next
    case (Some ext)
    from assms(1) ne Some obtain ds t x u where
      1: "mfold (evict_one env) ids [] s = Inr (ds, t)" and
      2: "mfold (evict_free env) ids () (t\<lparr>ext_state := x, mutex := True\<rparr>) = Inr ((), u)" and
      u: "s' = u\<lparr>mutex := False\<rparr>"
      by (auto simp: EvictObjects_def op_Inr)
    from evict_fold_external [OF _ 1] Some have t: "t = s" and un: "\<forall>i \<in> set ids. \<exists>e. unused s i e" by auto
    have "laid u"
      by (rule evict_free_laid [OF 2 assms(2)]) (use un assms(3) in \<open>auto simp: t laid_def unused_def entry_laid_def\<close>)
    then show ?thesis by (rule laid_cong) (simp_all add: u)
  qed
qed

section \<open>Allocating\<close>

text \<open>A block of \<open>n\<close> bytes at the offset of \<open>out\<close> has been allocated and belongs to no object yet.\<close>

definition reserved :: "nat \<Rightarrow> AllocOut \<Rightarrow> 'x store \<Rightarrow> bool" where
  "reserved n out s \<longleftrightarrow> pooled (alloc s) (add_mset (n, nat (out_offset out)) (blocks (map_of (objects s)))) \<and>
     (\<forall>i e. map_of (objects s) i = Some e \<longrightarrow> entry_laid (alloc s) e) \<and> out_fd out = pa_fd (alloc s) \<and> 0 \<le> out_offset out"

definition room :: "nat \<Rightarrow> nat \<times> AllocOut \<Rightarrow> 'x store \<Rightarrow> bool" where
  "room n r s \<longleftrightarrow> (if fst r = 0 then laid s else reserved n (snd r) s \<and> fst r = base_pointer (alloc s))"

lemma laid_Memalign:
  assumes "laid s" and "n < 2 ^ 63" and "Memalign kBlockSize n out (alloc s) = (p, out', a)"
  shows "room n (p, out') (s\<lparr>alloc := a\<rparr>)" and "p = 0 \<Longrightarrow> a = alloc s"
proof -
  from assms(1) obtain L where L: "mset L = blocks (map_of (objects s))" "pool_inv (alloc s) L" by (auto simp: laid_def pooled_def)
  show "p = 0 \<Longrightarrow> a = alloc s" by (rule Memalign_None [OF L(2) assms(3)])
  show "room n (p, out') (s\<lparr>alloc := a\<rparr>)"
  proof (cases "p = 0")
    case True
    with Memalign_None [OF L(2) assms(3)] assms(1) show ?thesis by (simp add: room_def laid_def)
  next
    case False
    note M = Memalign_Some [OF L(2) assms(2,3) False]
    have "base_pointer a = base_pointer (alloc s)" "pa_fd a = pa_fd (alloc s)" by (subst M(6), simp)+
    moreover from this have "entry_laid a = entry_laid (alloc s)" by (simp add: entry_laid_def fun_eq_iff)
    ultimately show ?thesis
      using False M(1-3,5) L(1) assms(1) by (auto simp: room_def reserved_def laid_def pooled_Cons)
  qed
qed

lemma choose_distinct:
  assumes "plain p" and "ep_ChooseObjectsToEvict n [] p = Inr (k, vs, p')"
  shows "distinct vs"
proof -
  from assms(1) have inv: "policy_inv p" by (simp add: plain_def)
  then have "distinct (lru_keys (cache p))" using policy_invD(1) by (auto simp: lru_inv_def)
  moreover obtain j where "vs = take j (rev (lru_keys (cache p)))"
    by (rule ep_ChooseObjectsToEvict_spec [OF inv, of n "[]"]) (use assms(2) in auto)
  ultimately show ?thesis by simp
qed

lemma victims_distinct:
  assumes "plain p" and "RequireSpace a sz [] p = Inr (ok, vs, p')"
  shows "distinct vs"
  using assms choose_distinct [OF assms(1)] by (auto simp: RequireSpace_def Let_def elim!: rbind_InrE)

lemma laid_alloc_loop:
  "alloc_loop env k n ev out s = Inr (r, s') \<Longrightarrow> n < 2 ^ 63 \<Longrightarrow> synced s \<Longrightarrow> laid s \<Longrightarrow> room n r s'"
proof (induction k arbitrary: out s)
  case (Suc k)
  obtain p out1 a where m: "Memalign kBlockSize n out (alloc s) = (p, out1, a)"
    by (cases "Memalign kBlockSize n out (alloc s)") auto
  note M = laid_Memalign [OF Suc.prems(4,2) m]
  show ?case
  proof (cases "p \<noteq> 0 \<or> \<not> ev")
    case True
    with Suc.prems m M(1) show ?thesis by auto
  next
    case False
    with Suc.prems m obtain ok vs q t where
      rs: "RequireSpace a (int64_of (int n)) [] (policy s) = Inr (ok, vs, q)" and
      ev: "EvictObjects env vs (s\<lparr>alloc := a, policy := q\<rparr>) = Inr ((), t)" and
      rest: "r = (0, out1) \<and> s' = t \<or> alloc_loop env k n ev out1 t = Inr (r, s')"
      by (auto simp: rbind_eq_Inr split: if_splits)
    have pl: "plain (policy s)" using Suc.prems(3) by (simp add: synced_def counted_def)
    from RequireSpace_plain [OF pl rs] have sy: "synced t"
      using synced_victims [OF Suc.prems(3) _ _ ev] by simp
    have "laid (s\<lparr>alloc := a, policy := q\<rparr>)" using M(2) False Suc.prems(4) by (simp add: laid_def)
    from laid_EvictObjects [OF ev victims_distinct [OF pl rs] this] have "laid t" .
    with rest sy Suc.IH Suc.prems(2) show ?thesis by (auto simp: room_def)
  qed
qed simp

lemma laid_AllocateMemory:
  assumes "AllocateMemory env n ev out client cr s = Inr (r, s')" and "n < 2 ^ 63" and "synced s" and "laid s"
  shows "room n r s'"
proof -
  from assms(1) obtain go t where
    1: "enforce_quota env n ev client cr s = Inr (go, t)" and
    2: "r = (0, out) \<and> s' = t \<or> alloc_loop env (alloc_fuel t) n ev out t = Inr (r, s')"
    unfolding AllocateMemory_def by (elim rbind_InrE) (auto split: if_splits elim!: rbind_InrE)
  have "per_client_cache (policy s) = []" using assms(3) by (simp add: synced_def counted_def plain_def)
  then have "EnforcePerClientQuota client k cr vs (policy s) = Inr (True, vs, policy s)" for k vs
    by (simp add: EnforcePerClientQuota_def HasQuota_def)
  with 1 have "t = s" by (elim enforce_quota_Inr) (auto simp: EvictObjects_def)
  from 2 show ?thesis
  proof
    assume "alloc_loop env (alloc_fuel t) n ev out t = Inr (r, s')"
    then show ?thesis using laid_alloc_loop [of env _ n ev out s r s'] assms(2-4) \<open>t = s\<close> by blast
  qed (simp add: room_def \<open>t = s\<close> assms(4))
qed

text \<open>The reserved block becomes the block of an object that has none.\<close>

lemma laid_place:
  assumes "reserved n out s" and "map_of (objects s') = (map_of (objects s))(i \<mapsto> e)" and "alloc s' = alloc s"
    and "\<And>d. map_of (objects s) i = Some d \<Longrightarrow> e_pointer d = 0"
    and "entry_laid (alloc s) e" and "e_pointer e \<noteq> 0" and "block e = (n, nat (out_offset out))"
  shows "laid s'"
proof -
  have "blocks (map_of (objects s')) = add_mset (n, nat (out_offset out)) (blocks (map_of (objects s)))"
    unfolding assms(2) using blocks_insert [OF finite_dom_map_of, of i "objects s" e] assms(4,6,7) by (auto simp: owners_def)
  then show ?thesis using assms(1-3,5) by (auto simp: laid_def reserved_def split: if_splits)
qed

section \<open>The operations\<close>

lemma laid_AddTo:
  assumes "AddToClientObjectIds i fd s = Inr (r, s')" and "laid s"
  shows "laid s'"
  using assms(1)
proof (cases rule: AddToClientObjectIds_Inr)
  case (added e ids)
  show ?thesis
    by (rule laid_rewrite [OF assms(2) added(1,4) _ added(8)]) (simp add: relaid_def)
qed (use assms(2) in simp)

lemma laid_RemoveFrom:
  assumes "RemoveFromClientObjectIds env i fd s = Inr (r, s')" and "laid s"
  shows "laid s'"
  using assms(1)
proof (cases rule: RemoveFromClientObjectIds_Inr)
  case (removed e ids t)
  have t: "laid t"
    by (rule laid_rewrite [OF assms(2) removed(1,5) _ removed(9)]) (simp add: relaid_def)
  then have "laid (t\<lparr>policy := p\<rparr>)" "laid (t\<lparr>deletion_cache := d\<rparr>)" for p d by (simp_all add: laid_def)
  with t removed(8) show ?thesis
    by (auto split: if_splits dest!: laid_EvictObjects)
qed (use assms(2) in simp)

definition sane :: "int \<Rightarrow> int \<Rightarrow> bool" where
  "sane ds ms \<longleftrightarrow> 0 \<le> ds \<and> 0 \<le> ms \<and> ds + ms < 2 ^ 63"

lemma sane_sum: "sane ds ms \<Longrightarrow> sadd64 ds ms = ds + ms" "sane ds ms \<Longrightarrow> uint64_of (sadd64 ds ms) = nat (ds + ms)"
  by (simp_all add: sane_def sadd64_def int64_of_small uint64_of_small)

lemma entry_sane: "entry_laid a e \<Longrightarrow> sane (e_data_size e) (e_metadata_size e)"
  by (simp add: entry_laid_def sane_def)

lemma laid_CreateObject:
  assumes run: "CreateObject env i ev ds ms dev fd res s = Inr (r, s')" and "sane ds ms" and sy: "synced s" and la: "laid s"
  shows "laid s'"
proof (cases "fst r = OK")
  case False
  with run obtain ex t where t: "ObjectExists_store env i s = Inr (ex, t)" and
    "s' = t \<or> (\<exists>out. AllocateMemory env (uint64_of (sadd64 ds ms)) ev
       \<lparr>out_fd = -1, out_map_size = 0, out_offset = 0\<rparr> fd True t = Inr ((0, out), s'))"
    by (auto simp: CreateObject_def mbind_Inr split: if_splits)
  moreover note st = stepsD [OF same_ObjectExists t]
  have "synced t" "laid t" using synced_same [OF st sy] laid_same [OF st la] by simp_all
  moreover have "uint64_of (sadd64 ds ms) < 2 ^ 63" using assms(2) sane_sum(2) by (simp add: sane_def nat_less_iff)
  ultimately show ?thesis by (auto simp: room_def dest: laid_AllocateMemory)
next
  case True
  from run show ?thesis
  proof (cases rule: CreateObject_Inr)
    case none
    with True show ?thesis by simp
  next
    case (created t a out ptr u v)
    have n: "uint64_of (sadd64 ds ms) = nat (ds + ms)" "nat (ds + ms) < 2 ^ 63"
      using assms(2) sane_sum(2) by (auto simp: sane_def nat_less_iff)
    have "synced t" "laid t" using synced_same [OF created(4) sy] laid_same [OF created(4) la] by simp_all
    with laid_AllocateMemory [OF created(5)] n created(3)
    have a: "reserved (nat (ds + ms)) out a" "ptr = base_pointer (alloc a)" by (auto simp: room_def)
    have "map_of (objects a) i = None"
      using shrinks_unsealed [OF stepsD [OF shrinks_AllocateMemory created(5)], of i] created(1,4) by (auto simp: same_def)
    moreover from created(6) obtain e where e: "map_of (objects u) = (map_of (objects a))(i \<mapsto> e)" "alloc u = alloc a"
       "e_state e = PLASMA_CREATED" "e_pointer e = ptr" "e_data_size e = ds" "e_metadata_size e = ms" "e_device_num e = dev"
       "e_offset e = out_offset out" "e_fd e = out_fd out"
      by (elim AddObjectTableEntry_Inr) auto
    moreover have "entry_laid (alloc a) e" "block e = (nat (ds + ms), nat (out_offset out))"
      using a created(2,3) assms(2) e by (auto simp: entry_laid_def sane_def reserved_def block_def)
    ultimately have "laid u" using laid_place [OF a(1) e(1,2)] created(3) by auto
    moreover have "objects v = objects u" "alloc v = alloc u" using created(7) by (auto simp: on_policy_Inr)
    ultimately have "laid v" by (simp add: laid_def)
    then show ?thesis by (rule laid_AddTo [OF created(8)])
  qed
qed

lemma laid_sealed: "laid s \<Longrightarrow> map_of (objects s) i = Some e \<Longrightarrow> e_state e \<noteq> PLASMA_EVICTED \<Longrightarrow> e_pointer e \<noteq> 0"
  by (auto simp: laid_def entry_laid_def)

lemma laid_used:
  assumes "laid s" and "refs_ok X s" and "fd \<in> users s i" and "map_of (objects s) i = Some e"
  shows "e_pointer e \<noteq> 0"
  using laid_sealed [OF assms(1,4)] refs_okD(1) [OF assms(2,4)] assms(3)
  by (cases "e_state e = PLASMA_EVICTED") (auto simp: entry_ok_def)

lemma seal_one_laid:
  assumes "seal_one env digests ids k infos s = Inr (r, s')" and "laid s"
  shows "laid s'"
  using assms(1)
proof (cases rule: seal_one_Inr)
  case (1 e e')
  have "relaid e e'"
    using laid_sealed [OF assms(2) 1(1)] 1(2,9,10) by (simp add: relaid_def PlasmaObject_init_def)
  then show ?thesis by (rule laid_rewrite [OF assms(2) 1(1,3) _ 1(11)])
qed

lemma laid_SealObjects: "SealObjects env ids digests s = Inr (r, s') \<Longrightarrow> laid s \<Longrightarrow> laid s'"
proof -
  have "steps (\<lambda>s s'. laid s \<longrightarrow> laid s') (SealObjects env ids digests)"
    unfolding SealObjects_def
    by (intro keep.rules keep.wake; (rule stepsI)?)
       (auto intro: seal_one_laid laid_same laid_AddTo dest: stepsD [OF same_PushNotifications])
  then show "SealObjects env ids digests s = Inr (r, s') \<Longrightarrow> laid s \<Longrightarrow> laid s'" by (auto dest: stepsD)
qed

lemma laid_AbortObject:
  assumes run: "AbortObject env i fd s = Inr (r, s')" and "refs_ok {} s" and "laid s"
  shows "laid s'"
proof (cases "s' = s")
  case False
  with run obtain c t where c: "map_of (connected_clients s) fd = Some c" "i \<in> set (c_object_ids c)"
    and t: "EraseFromObjectTable env i s = Inr ((), t)" and s': "objects s' = objects t" "alloc s' = alloc t"
    by (auto simp: AbortObject_def op_Inr split: option.splits if_splits)
  have "fd \<in> users s i" using c by (auto simp: users_def ids_of_def)
  from laid_erase [OF t assms(3) laid_used [OF assms(3,2) this]] show ?thesis by (simp add: laid_def s')
qed (simp add: assms(3))

lemma laid_DeleteObject:
  assumes run: "DeleteObject env i s = Inr (r, s')" and "laid s"
  shows "laid s'"
proof (cases "\<exists>e. unused s i e")
  case True
  with run obtain p t where t: "EraseFromObjectTable env i (s\<lparr>policy := p\<rparr>) = Inr ((), t)" and
    n: "PushNotification env (deletion_info i) t = Inr ((), s')"
    by (auto simp: DeleteObject_def op_Inr unused_def split: if_splits)
  have "laid t"
    by (rule laid_erase [OF t]) (use assms(2) True laid_sealed [OF assms(2)] in \<open>auto simp: laid_def unused_def\<close>)
  then show ?thesis by (rule laid_same [OF stepsD [OF same_PushNotification(1) n]])
next
  case False
  with run assms(2) show ?thesis
    by (auto simp: DeleteObject_def op_Inr unused_def laid_def split: option.splits if_splits)
qed

section \<open>Get requests\<close>

lemma get_one_evicted_laid:
  assumes run: "get_one env r fd i (rem, evs) s = Inr ((rem', evs'), s')" and sy: "synced s" and la: "laid s"
    and ev: "map_of (objects s) i = Some d" "e_state d = PLASMA_EVICTED"
  shows "laid s'"
  using run ev
proof (cases rule: get_one_evicted_Inr)
  case (1 ptr out t)
  have d: "entry_laid (alloc s) d" using la ev(1) by (auto simp: laid_def)
  then have n: "uint64_of (sadd64 (e_data_size d) (e_metadata_size d)) = nat (e_data_size d + e_metadata_size d)"
    "nat (e_data_size d + e_metadata_size d) < 2 ^ 63"
    using sane_sum(2) [OF entry_sane] by (auto simp: entry_laid_def nat_less_iff)
  have "synced (s\<lparr>mutex := True\<rparr>)" "laid (s\<lparr>mutex := True\<rparr>)"
    using sy la by (simp_all add: synced_def counted_def idles_def laid_def)
  from laid_AllocateMemory [OF 1(2) _ this] n have room: "room (nat (e_data_size d + e_metadata_size d)) (ptr, out) t" by simp
  show ?thesis
  proof (cases "ptr = 0")
    case True
    with 1(4) have o: "map_of (objects s') = (map_of (objects t))(i \<mapsto> placed 0 out d)" "alloc s' = alloc t" by auto
    show ?thesis
      by (rule laid_rewrite [OF _ 1(3) o(1) _ o(2)]) (use room True 1(1) in \<open>simp_all add: room_def relaid_def placed_def\<close>)
  next
    case False
    with 1(4) obtain w tm where w: "AddToClientObjectIds i fd w = Inr ((), s')" "alloc w = alloc t"
      "map_of (objects w) = (map_of (objects t))(i \<mapsto> (placed ptr out d)\<lparr>e_state := PLASMA_CREATED, e_create_time := tm\<rparr>)"
      by auto
    from room False have r: "reserved (nat (e_data_size d + e_metadata_size d)) out t" "ptr = base_pointer (alloc t)"
      by (simp_all add: room_def)
    have "laid w"
      by (rule laid_place [OF r(1) w(3,2)])
         (use 1(1,3) False r d in \<open>auto simp: entry_laid_def placed_def reserved_def block_def\<close>)
    then show ?thesis by (rule laid_AddTo [OF w(1)])
  qed
qed

lemma get_one_laid:
  assumes run: "get_one env r fd i (rem, evs) s = Inr ((rem', evs'), s')" and sy: "synced s" and la: "laid s"
  shows "laid s'"
proof (cases "map_of (objects s) i")
  case (Some d)
  show ?thesis
  proof (cases "e_state d")
    case PLASMA_CREATED
    with run la Some show ?thesis by (auto simp: get_one_def op_Inr)
  next
    case PLASMA_SEALED
    with run Some obtain t where
      q: "set_request r (\<lambda>q. q\<lparr>gr_objects := AList.update i (PlasmaObject_init d) (gr_objects q),
                            gr_num_satisfied := gr_num_satisfied q + 1\<rparr>) s = Inr ((), t)" and
      a: "AddToClientObjectIds i fd t = Inr ((), s')"
      by (auto simp: get_one_def mbind_Inr)
    show ?thesis by (rule laid_AddTo [OF a laid_same [OF stepsD [OF same_set_request q] la]])
  next
    case PLASMA_EVICTED
    show ?thesis by (rule get_one_evicted_laid [OF run sy la Some PLASMA_EVICTED])
  qed
qed (use run la in \<open>auto simp: get_one_def op_Inr\<close>)

lemma get_fold_laid:
  assumes "mfold (get_one env r c) ids ([], []) s = Inr ((rem, evs), t)" and "refs_ok {} s" and "synced s" and "laid s"
  shows "laid t"
proof -
  have "refs_held (set (snd (rem, evs))) t \<and> synced t \<and> laid t"
  proof (rule mfold_invariant [OF assms(1), where P = "\<lambda>a u. refs_held (set (snd a)) u \<and> synced u \<and> laid u"])
    fix j a u a' u'
    assume "refs_held (set (snd a)) u \<and> synced u \<and> laid u" and "get_one env r c j a u = Inr (a', u')"
    then show "refs_held (set (snd a')) u' \<and> synced u' \<and> laid u'"
      using get_one_synced [of env r c j "fst a" "snd a" u "fst a'" "snd a'" u']
        get_one_refs [of env r c j "fst a" "snd a" u "fst a'" "snd a'" u']
        get_one_laid [of env r c j "fst a" "snd a" u "fst a'" "snd a'" u'] by (auto simp: refs_held_def)
  qed (use assms in \<open>simp add: refs_held_def\<close>)
  then show ?thesis by simp
qed

definition placed_laid :: "UniqueID set \<Rightarrow> 'x store \<Rightarrow> bool" where
  "placed_laid S s \<longleftrightarrow> laid s \<and> (\<forall>j \<in> S. placed_at s j)"

lemma placed_laid_same: "same s s' \<Longrightarrow> placed_laid S s \<Longrightarrow> placed_laid S s'"
  using laid_same [of s s'] by (auto simp: placed_laid_def placed_at_def dest: same_objects)

lemma placed_laid_set:
  assumes "set_entry i f s = Inr (r, s')" and "placed_laid S s" and "i \<in> S" and "\<And>e. e_pointer e \<noteq> 0 \<Longrightarrow> relaid e (f e)"
  shows "placed_laid S s'"
proof -
  from assms(2,3) obtain e where e: "map_of (objects s) i = Some e" "e_pointer e \<noteq> 0"
    by (auto simp: placed_laid_def placed_at_def)
  with assms(1) have o: "map_of (objects s') = (map_of (objects s))(i \<mapsto> f e)" "alloc s' = alloc s"
    by (auto simp: set_entry_Inr update_conv')
  have "laid s" using assms(2) by (simp add: placed_laid_def)
  from laid_rewrite [OF this e(1) o(1) assms(4) [OF e(2)] o(2)] have "laid s'" .
  moreover have "e_pointer (f e) \<noteq> 0" using assms(4) [OF e(2)] e(2) by (simp add: relaid_def)
  ultimately show ?thesis using assms(2) o(1) by (auto simp: placed_laid_def placed_at_def)
qed

lemma placed_laid_restored:
  assumes "get_restored env r i u s = Inr (x, s')" and "placed_laid S s" and "i \<in> S"
  shows "placed_laid S s'"
proof -
  from assms(1) obtain v tm where
    v: "set_entry i (\<lambda>e. e\<lparr>e_state := PLASMA_SEALED, e_digest := replicate kDigestSize 0,
              e_construct_duration := tm - e_create_time e\<rparr>) (s\<lparr>tick := Suc (tick s)\<rparr>) = Inr ((), v)" and s': "same v s'"
    by (auto simp: get_restored_def mbind_Inr set_request_Inr)
  have "placed_laid S (s\<lparr>tick := Suc (tick s)\<rparr>)" by (rule placed_laid_same [OF _ assms(2)]) simp
  from placed_laid_set [OF v this assms(3)] show ?thesis
    by (intro placed_laid_same [OF s']) (simp add: relaid_def)
qed

lemma get_evicted_laid:
  assumes "get_evicted env r evs s = Inr (x, s')" and "placed_laid (set evs) s"
  shows "laid s'"
proof -
  let ?K = "\<lambda>s s'. placed_laid (set evs) s \<longrightarrow> placed_laid (set evs) s'"
  from assms(1) obtain sizes t st contents v where
    t: "mfold check_pointer evs [] s = Inr (sizes, t)" and
    v: "mfold buffer_fill (zip evs contents) () t = Inr ((), v)" and
    w: "(if st_ok st then mfold (get_restored env r) evs ()
         else locked (mfold (\<lambda>i _. set_entry i (\<lambda>e. e\<lparr>e_state := PLASMA_EVICTED\<rparr>)) evs ())) v = Inr (x, s')"
    by (auto simp: get_evicted_def mbind_Inr rbind_eq_Inr split: option.splits)
  have 1: "steps same (mfold check_pointer evs [])" and 2: "steps same (mfold buffer_fill (zip evs contents) ())"
    by (auto intro!: same.fold same_check_pointer same_buffer_fill)
  from stepsD [OF 1 t] stepsD [OF 2 v] have "same s v" by (rule same.trans)
  then have pv: "placed_laid (set evs) v" by (rule placed_laid_same) (rule assms(2))
  have "steps ?K (mfold (\<lambda>i _. set_entry i (\<lambda>e. e\<lparr>e_state := PLASMA_EVICTED\<rparr>)) evs ())"
    by (intro keep.fold stepsI impI) (erule placed_laid_set, simp_all add: relaid_def)
  then have put_back: "steps ?K (locked (mfold (\<lambda>i _. set_entry i (\<lambda>e. e\<lparr>e_state := PLASMA_EVICTED\<rparr>)) evs ()))"
    by (intro keep.lock) (auto intro: placed_laid_same [rotated])
  have restore: "steps ?K (mfold (get_restored env r) evs ())"
    by (intro keep.fold stepsI impI) (rule placed_laid_restored)
  show ?thesis
    using w stepsD [OF restore, of v x s'] stepsD [OF put_back, of v x s'] pv by (auto simp: placed_laid_def split: if_splits)
qed

lemma laid_ProcessGetRequest:
  assumes run: "ProcessGetRequest env c ids timeout s = Inr (x, s')" and ok: "refs_ok {} s" and sy: "synced s" and la: "laid s"
  shows "laid s'"
  using run
proof (rule ProcessGetRequest_Inr)
  fix r s0 rem evs t u v
  assume s0: "s0 = s\<lparr>get_heap := AList.update r (new_GetRequest c ids) (get_heap s), next_request := Suc r\<rparr>"
    and t: "mfold (get_one env r c) ids ([], []) s0 = Inr ((rem, evs), t)"
    and u: "check_remote env r rem t = Inr ((), u)"
    and v: "(if evs \<noteq> [] then get_evicted env r evs else mret ()) u = Inr ((), v)"
    and w: "reply_or_wait env r timeout v = Inr ((), s')"
  have "same s s0" by (simp add: s0)
  then have ok0: "refs_ok {} s0" and "synced s0" "laid s0" using ok sy la by (auto simp: refs_same intro: synced_same laid_same)
  from get_fold_laid [OF t this] have "laid t" .
  moreover have "placed_at t j" if "j \<in> set evs" for j
    using get_fold_refs [OF t ok0] that by (auto simp: refs_held_def held_def placed_at_def)
  ultimately have "placed_laid (set evs) t" by (simp add: placed_laid_def)
  note pu = placed_laid_same [OF stepsD [OF same_check_remote u] this]
  have "laid v"
    using v get_evicted_laid [OF _ pu] pu by (auto simp: placed_laid_def split: if_splits)
  then show "laid s'" by (rule laid_same [OF stepsD [OF same_reply_or_wait w]])
qed

section \<open>Connections and the server\<close>

lemma leave_fold_laid:
  assumes "mfold (leave_one env) js acc s = Inr (acc', s')" and "refs_ok {fd} s"
    and "ids_of s fd = Some ids" and "set js \<subseteq> set ids" and "laid s"
  shows "laid s'"
  using assms
proof (induction js arbitrary: acc s)
  case (Cons j js)
  from Cons.prems(1) obtain a t where a: "leave_one env j acc s = Inr (a, t)"
    and t: "mfold (leave_one env) js a t = Inr (acc', s')" by (auto simp: mbind_Inr)
  have "fd \<in> users s j" using Cons.prems(3,4) by (auto simp: users_def)
  moreover have "t = s \<or> EraseFromObjectTable env j s = Inr ((), t)"
    using a by (auto simp: leave_one_def op_Inr split: option.splits if_splits)
  ultimately have "laid t" using laid_erase [OF _ Cons.prems(5)] laid_used [OF Cons.prems(5,2)] Cons.prems(5) by blast
  with Cons.IH [OF t] leave_one_refs [OF a Cons.prems(2,3)] Cons.prems show ?case by auto
qed simp

lemma laid_DisconnectClient:
  assumes run: "DisconnectClient env fd s = Inr (r, s')" and ok: "refs_ok {} s" and la: "laid s"
  shows "laid s'"
  using run
proof (cases rule: DisconnectClient_Inr)
  case (1 c t p js u v w x)
  from 1(1,2) have ids: "ids_of (t\<lparr>policy := p\<rparr>) fd = Some (c_object_ids c)"
    by (simp add: same_def) (simp add: ids_of_def)
  have ok1: "refs_ok {fd} (t\<lparr>policy := p\<rparr>)"
    using ok 1(2) refs_weaken [of "{}" s "{fd}"] by (simp add: refs_same)
  have "laid (t\<lparr>policy := p\<rparr>)" using laid_same [OF 1(2) la] by (simp add: laid_def)
  from leave_fold_laid [OF 1(3) ok1 ids subset_refl this] have u: "laid u" .
  have "laid v" by (rule laid_same [OF stepsD [OF same_RemoveGetRequestsForClient 1(5)] u])
  then have "laid w"
    by (rule mfold_invariant [OF 1(6), where P = "\<lambda>_ y. laid y"]) (auto simp: op_Inr intro: laid_RemoveFrom)
  then have "laid x" by (rule laid_same [OF stepsD [OF same_close_notification 1(7)]])
  then show ?thesis by (simp add: 1(8) laid_def)
qed

lemma laid_evict_bytes:
  assumes run: "evict_bytes env n s = Inr (k, s')" and sy: "synced s" and la: "laid s"
  shows "laid s'"
proof -
  from run obtain ids p where p: "ep_ChooseObjectsToEvict n [] (policy s) = Inr (k, ids, p)"
    and ev: "EvictObjects env ids (s\<lparr>policy := p\<rparr>) = Inr ((), s')"
    by (rule evict_bytes_Inr)
  have "plain (policy s)" using sy by (simp add: synced_def counted_def)
  from laid_EvictObjects [OF ev choose_distinct [OF this p]] la show ?thesis by (simp add: laid_def)
qed

text \<open>Everything that holds between the events of a server without quotas.\<close>

definition tidy :: "'x store \<Rightarrow> bool" where
  "tidy s \<longleftrightarrow> agrees s \<and> laid s"

lemma tidyI:
  assumes "steps (\<lambda>s s'. agrees s \<longrightarrow> agrees s') m"
    and "\<And>s r s'. m s = Inr (r, s') \<Longrightarrow> refs_ok {} s \<Longrightarrow> synced s \<Longrightarrow> laid s \<Longrightarrow> laid s'"
  shows "steps (\<lambda>s s'. tidy s \<longrightarrow> tidy s') m"
proof (intro stepsI impI)
  fix s r s'
  assume run: "m s = Inr (r, s')" and t: "tidy s"
  then have "agrees s'" using stepsD [OF assms(1) run] by (simp add: tidy_def)
  moreover have "laid s'" by (rule assms(2) [OF run]) (use t in \<open>simp_all add: tidy_def agrees_def\<close>)
  ultimately show "tidy s'" by (simp add: tidy_def)
qed

lemma tidy_ConnectClient:
  assumes "map_of (connected_clients s) (AcceptClient sock) = None" and "ConnectClient env sock s = Inr (u, s')" and "tidy s"
  shows "tidy s'"
  using agrees_ConnectClient [OF assms(1,2)] assms
  by (auto simp: tidy_def laid_def ConnectClient_def add_file_event_def Let_def op_Inr)

lemma laid_policy: "on_policy f s = Inr (r, s') \<Longrightarrow> laid s \<Longrightarrow> laid s'"
  by (auto simp: on_policy_Inr laid_def)

lemma tidy_same: "same s s' \<Longrightarrow> tidy s \<Longrightarrow> tidy s'"
  by (auto simp: tidy_def intro: agrees_same laid_same)

lemma sane_nonneg: "sane ds ms \<Longrightarrow> 0 \<le> sadd64 ds ms"
  using sane_sum(1) [of ds ms] by (simp add: sane_def)

interpretation memory: server_effect "\<lambda>s s'. tidy s \<longrightarrow> tidy s'" env sane False "\<lambda>_. True"
  for env
proof unfold_locales
  show "steps (\<lambda>s s'. tidy s \<longrightarrow> tidy s') (CreateObject env i ev ds ms dev fd res)" if "sane ds ms" for ds ms fd i ev dev res
    by (rule tidyI [OF agrees_CreateObject [OF sane_nonneg [OF that]]]) (rule laid_CreateObject [OF _ that])
qed (auto intro: tidy_same tidy_ConnectClient tidyI [OF agrees_SealObjects] laid_SealObjects
   tidyI [OF agrees_RemoveFrom] laid_RemoveFrom tidyI [OF agrees_AbortObject] laid_AbortObject
   tidyI [OF agrees_DeleteObject] laid_DeleteObject tidyI [OF agrees_ProcessGetRequest] laid_ProcessGetRequest
   tidyI [OF agrees_evict_bytes] laid_evict_bytes tidyI [OF agrees_RefreshObjects] laid_policy
   tidyI [OF agrees_DisconnectClient] laid_DisconnectClient)

section \<open>Memory safety\<close>

lemma tidy_initial:
  assumes "pool_inv a []"
  shows "tidy (PlasmaStore l a x m)"
proof -
  have "blocks Map.empty = {#}" by (simp add: blocks_def owners_def)
  then have "laid (PlasmaStore l a x m)" using assms by (auto simp: laid_def PlasmaStore_def pooled_def)
  then show ?thesis by (simp add: tidy_def agrees_initial)
qed

lemma store_reach_tidy:
  assumes "store_reach (event_ok sane False env) env (PlasmaStore l a x m) s" and "pool_inv a []"
  shows "tidy s"
  using assms(1)
proof (induction rule: store_reach.induct)
  case (step s ev s')
  then show ?case using memory.event [of env ev s "()" s'] by simp
next
  case (idle s a)
  then show ?case
    by (simp add: tidy_def agrees_def refs_ok_def users_def synced_def counted_def idles_def laid_def)
qed (rule tidy_initial [OF assms(2)])

lemma laid_disjoint:
  assumes "laid s" and "map_of (objects s) i = Some e" and "map_of (objects s) j = Some d" and "i \<noteq> j"
    and "e_pointer e \<noteq> 0" and "e_pointer d \<noteq> 0"
  shows "span (block e) \<inter> span (block d) = {}"
proof -
  let ?f = "map_of (objects s)" and ?g = "(map_of (objects s))(i := None)"
  have "blocks ?f = add_mset (block e) (blocks ?g)"
    by (rule blocks_remove [OF finite_dom_map_of assms(2,5)]) simp
  moreover have "blocks ?g = add_mset (block d) (blocks (?g(j := None)))"
    by (rule blocks_remove [of _ j d]) (use assms in \<open>simp_all add: finite_dom_map_of\<close>)
  ultimately obtain L where L: "pool_inv (alloc s) (block e # L)" "block d \<in> set L"
    using assms(1) by (auto simp: laid_def pooled_Cons) (metis union_single_eq_member set_mset_mset)
  then obtain k where "k < length L" "L ! k = block d" by (auto simp: in_set_conv_nth)
  with tight_nth_disjoint [OF pool.inv_tight [OF L(1)], of 0 "Suc k"] show ?thesis by simp
qed

lemma laid_spans:
  assumes "laid s"
  shows "spans (available_regions (alloc s)) = {0 ..< nat (footprint_limit (alloc s))} -
      (\<Union>i \<in> owners (map_of (objects s)). span (block (the (map_of (objects s) i))))"
    and "i \<in> owners (map_of (objects s)) \<Longrightarrow>
      snd (block (the (map_of (objects s) i))) + fst (block (the (map_of (objects s) i))) \<le> nat (footprint_limit (alloc s))"
proof -
  from assms obtain L where L: "mset L = blocks (map_of (objects s))" "pool_inv (alloc s) L" by (auto simp: laid_def pooled_def)
  from arg_cong [OF L(1), of set_mset] have set: "set L = (\<lambda>i. block (the (map_of (objects s) i))) ` owners (map_of (objects s))"
    by (simp add: blocks_def finite_owners [OF finite_dom_map_of])
  show "spans (available_regions (alloc s)) = {0 ..< nat (footprint_limit (alloc s))} -
      (\<Union>i \<in> owners (map_of (objects s)). span (block (the (map_of (objects s) i))))"
    using pool_free_spans [OF L(2)] by (simp add: spans_def set)
  show "i \<in> owners (map_of (objects s)) \<Longrightarrow>
      snd (block (the (map_of (objects s) i))) + fst (block (the (map_of (objects s) i))) \<le> nat (footprint_limit (alloc s))"
    using L(2) set by (auto simp: pool_inv_def pool_partition_def)
qed

text \<open>
  C10. Objects never overlap, and no memory leaks. Start a store on a freshly initialised pool of
  less than two gigabytes; clients send whatever they like, in any order, but ask for no quotas
  and for sizes that are not negative and whose sum fits an \<open>int64_t\<close>. In every state the server can reach: an object that is
  created or sealed has memory, starting at its offset in the pool file and inside of it; the
  blocks of two objects are disjoint; and the free regions of the allocator are exactly the bytes
  that belong to no object.
\<close>
theorem objects_never_overlap:
  assumes "pool_start limit fd base = Inr a" and "limit < 2 ^ 31"
    and "store_reach (event_ok sane False env) env (PlasmaStore l a x m) s"
  shows "(\<forall>i e. map_of (objects s) i = Some e \<longrightarrow> e_state e \<noteq> PLASMA_EVICTED \<longrightarrow>
        e_pointer e = base_pointer (alloc s) \<and> e_fd e = pa_fd (alloc s) \<and> 0 \<le> e_offset e \<and>
        e_offset e + e_data_size e + e_metadata_size e \<le> footprint_limit (alloc s)) \<and>
     (\<forall>i j e d. i \<noteq> j \<longrightarrow> map_of (objects s) i = Some e \<longrightarrow> map_of (objects s) j = Some d \<longrightarrow>
        e_pointer e \<noteq> 0 \<longrightarrow> e_pointer d \<noteq> 0 \<longrightarrow> span (block e) \<inter> span (block d) = {}) \<and>
     spans (available_regions (alloc s)) = {0 ..< nat (footprint_limit (alloc s))} -
        (\<Union>i \<in> owners (map_of (objects s)). span (block (the (map_of (objects s) i))))"
proof -
  have "laid s"
    using store_reach_tidy [OF assms(3) pool_start_inv [OF assms(1,2)]] by (simp add: tidy_def)
  have "e_pointer e = base_pointer (alloc s) \<and> e_fd e = pa_fd (alloc s) \<and> 0 \<le> e_offset e \<and>
        e_offset e + e_data_size e + e_metadata_size e \<le> footprint_limit (alloc s)"
    if "map_of (objects s) i = Some e" and "e_state e \<noteq> PLASMA_EVICTED" for i e
  proof -
    have "entry_laid (alloc s) e" "0 \<le> footprint_limit (alloc s)" using \<open>laid s\<close> that(1) by (auto simp: laid_def pooled_def pool_inv_def)
    moreover have "e_pointer e \<noteq> 0" by (rule laid_sealed [OF \<open>laid s\<close> that])
    moreover have "snd (block e) + fst (block e) \<le> nat (footprint_limit (alloc s))"
      using laid_spans(2) [OF \<open>laid s\<close>, of i] that(1) \<open>e_pointer e \<noteq> 0\<close> by (simp add: owners_def)
    ultimately show ?thesis by (auto simp: entry_laid_def block_def)
  qed
  with laid_disjoint [OF \<open>laid s\<close>] laid_spans(1) [OF \<open>laid s\<close>] show ?thesis by (intro conjI allI impI) simp_all
qed

definition demo_two :: "unit env" where
  "demo_two = demo_env [demo_inline 7 [1, 2, 3], demo_inline 8 [4, 5]] None"

definition demo_two_events :: "store_event list" where
  "demo_two_events = [EvAccept (demo_sock 5), demo_msg 5 PlasmaCreateAndSealRequest 0, demo_msg 5 PlasmaCreateAndSealRequest 1]"

definition demo_at :: "nat \<Rightarrow> int \<Rightarrow> unit store \<Rightarrow> bool" where
  "demo_at n k s = (case map_of (objects s) (demo_id n) of
     Some e \<Rightarrow> e_state e = PLASMA_SEALED \<and> e_pointer e \<noteq> 0 \<and> e_data_size e = k | None \<Rightarrow> False)"

lemma demo_two_run:
  "case checked_run demo_two demo_two_events (PlasmaStore (new_EventLoop 0) demo_alloc () (\<lambda>_. 0)) of
     Some s \<Rightarrow> demo_at 7 3 s \<and> demo_at 8 2 s | None \<Rightarrow> False"
  by (simp add: demo_two_def demo_two_events_def demo_at_def monad_eval demo_eval create_eval seal_eval inline_eval)

lemma demo_two_ok: "list_all (event_ok sane False demo_two) demo_two_events"
  by (simp add: demo_two_def demo_two_events_def event_ok_def request_ok_def sane_def demo_eval create_eval seal_eval inline_eval monad_eval)

theorem objects_never_overlap_witness:
  "pool_start 1000 3 4096 = Inr demo_alloc \<and>
   (\<exists>s d e. store_reach (event_ok sane False demo_two) demo_two (PlasmaStore (new_EventLoop 0) demo_alloc () (\<lambda>_. 0)) s \<and>
     map_of (objects s) (demo_id 7) = Some d \<and> map_of (objects s) (demo_id 8) = Some e \<and>
     e_data_size d = 3 \<and> e_data_size e = 2 \<and> e_offset d + e_data_size d + e_metadata_size d \<le> footprint_limit (alloc s) \<and>
     span (block d) \<inter> span (block e) = {})"
proof -
  let ?s0 = "PlasmaStore (new_EventLoop 0) demo_alloc () (\<lambda>_. 0)"
  have a: "pool_start 1000 3 4096 = Inr demo_alloc"
    by (simp add: pool_start_def Init_def SetFootprintLimit_def initial_PlasmaAllocator_def demo_alloc_def mm_emplace_def int64_of_def uint64_of_def)
  from checked_reach [OF demo_two_run demo_two_ok] obtain s where
    s: "store_reach (event_ok sane False demo_two) demo_two ?s0 s" and "demo_at 7 3 s" "demo_at 8 2 s"
    by blast
  then obtain d e where d: "map_of (objects s) (demo_id 7) = Some d" "e_state d = PLASMA_SEALED" "e_pointer d \<noteq> 0" "e_data_size d = 3"
    and e: "map_of (objects s) (demo_id 8) = Some e" "e_pointer e \<noteq> 0" "e_data_size e = 2"
    by (auto simp: demo_at_def split: option.splits)
  have ne: "demo_id 7 \<noteq> demo_id 8" by (simp add: demo_id_def)
  note safe = objects_never_overlap [OF a _ s]
  have "span (block d) \<inter> span (block e) = {}" using safe ne d(1,3) e(1,2) by simp
  moreover have "e_offset d + e_data_size d + e_metadata_size d \<le> footprint_limit (alloc s)" using safe d(1,2) by simp
  ultimately show ?thesis using a s d e by auto
qed

end
