(* ===== verification/Store_Liveness.thy ===== *)
theory Store_Liveness
  imports Store_Refs
begin

text \<open>
  A request for objects that are here is answered at once: the store does not fault, does not
  wait for a timer, and the reply says where each object is.
\<close>

section \<open>Adding a user\<close>

text \<open>What the bookkeeping of a reference leaves alone: everything but the counts and the users.\<close>

definition uncounted :: "'x store \<Rightarrow> UniqueID \<Rightarrow> ObjectTableEntry option" where
  "uncounted s i = map_option (\<lambda>e. e\<lparr>e_ref_count := 0\<rparr>) (map_of (objects s) i)"

definition serves :: "'x store \<Rightarrow> 'x store \<Rightarrow> bool" where
  "serves s s' \<longleftrightarrow> alloc s' = alloc s \<and> object_get_requests s' = object_get_requests s \<and>
     outbox s' = outbox s \<and> mutex s' = mutex s \<and> memory s' = memory s \<and> evloop s' = evloop s \<and> uncounted s' = uncounted s \<and>
     (\<forall>i. users s i \<subseteq> users s' i) \<and>
     (\<forall>fd. map_option c_used_fds (map_of (connected_clients s') fd) = map_option c_used_fds (map_of (connected_clients s) fd))"

lemma serves_clients: "serves s s' \<Longrightarrow> dom (map_of (connected_clients s)) \<subseteq> dom (map_of (connected_clients s'))"
proof
  fix fd
  assume "serves s s'" and "fd \<in> dom (map_of (connected_clients s))"
  then have "map_option c_used_fds (map_of (connected_clients s') fd) \<noteq> None" by (auto simp: serves_def)
  then show "fd \<in> dom (map_of (connected_clients s'))" by auto
qed

lemma users_frame [simp]:
  "users (s\<lparr>get_heap := h\<rparr>) = users s" "users (s\<lparr>tick := n\<rparr>) = users s" "users (s\<lparr>outbox := b\<rparr>) = users s"
  "users (s\<lparr>object_get_requests := rs\<rparr>) = users s" "users (s\<lparr>next_request := n\<rparr>) = users s"
  by (simp_all add: users_def fun_eq_iff)

lemma serves_refl: "serves s s"
  by (simp add: serves_def)

lemma serves_trans: "serves s t \<Longrightarrow> serves t u \<Longrightarrow> serves s u"
  unfolding serves_def by (simp, blast)

lemma AddTo_total:
  assumes "policy_inv (policy s)" and "\<not> mutex s" and "map_of (connected_clients s) fd = Some c"
    and "map_of (objects s) i = Some e"
  shows "\<exists>s'. AddToClientObjectIds i fd s = Inr ((), s') \<and> serves s s' \<and> get_heap s' = get_heap s \<and> policy_inv (policy s') \<and> fd \<in> users s' i"
proof (cases "i \<in> set (c_object_ids c)")
  case True
  then have "AddToClientObjectIds i fd s = Inr ((), s)" and "fd \<in> users s i"
    using assms(3) by (simp_all add: AddToClientObjectIds_def the_client_def mbind_def mret_def users_def ids_of_def)
  then show ?thesis using serves_refl assms(1) by blast
next
  case False
  obtain p where p: "BeginObjectAccess (objects s) i (policy s) = Inr p"
    using BeginObjectAccess_total [OF assms(1), of "objects s" i e] assms(4) by (auto simp: GetObjectTableEntry_def)
  define p' where "p' = (if e_ref_count e = 0 then p else policy s)"
  define s' where "s' = s\<lparr>policy := p', mutex := False, objects := AList.update i (e\<lparr>e_ref_count := e_ref_count e + 1\<rparr>) (objects s),
    connected_clients := AList.update fd (c\<lparr>c_object_ids := c_object_ids c @ [i]\<rparr>) (connected_clients s)\<rparr>"
  have "AddToClientObjectIds i fd s = Inr ((), s')"
    using assms False p
    by (simp add: AddToClientObjectIds_def mbind_def the_client_def deref_entry_def set_entry_def set_client_def mret_def
        GetObjectTableEntry_def on_policy_def locked_def lock_mutex_def unlock_mutex_def s'_def p'_def)
  moreover have "policy_inv p'"
    using BeginObjectAccess_spec(1) [OF assms(1) p] assms(1) by (simp add: p'_def)
  moreover have "serves s s'"
    using assms by (auto simp: serves_def uncounted_def s'_def update_conv' users_def ids_of_def fun_eq_iff)
  moreover have "fd \<in> users s' i" by (simp add: s'_def users_def ids_of_def update_conv')
  ultimately show ?thesis by (auto simp: s'_def)
qed

section \<open>The loop over the requested objects\<close>

text \<open>A local object a reply can describe: sealed, and in a file the store knows the size of.\<close>

definition served :: "'x store \<Rightarrow> UniqueID \<Rightarrow> bool" where
  "served s i \<longleftrightarrow> (\<exists>e m. map_of (objects s) i = Some e \<and> e_state e = PLASMA_SEALED \<and>
     GetMmapSize (e_fd e) (mmap_records (alloc s)) = Inr m)"

definition place_of :: "'x store \<Rightarrow> UniqueID \<Rightarrow> PlasmaObject" where
  "place_of s i = (case map_of (objects s) i of Some e \<Rightarrow> PlasmaObject_init e | None \<Rightarrow> zero_PlasmaObject)"

lemma PlasmaObject_init_ref [simp]: "PlasmaObject_init (e\<lparr>e_ref_count := n\<rparr>) = PlasmaObject_init e"
  by (simp add: PlasmaObject_init_def)

lemma served_uncounted:
  "served s i \<longleftrightarrow> (\<exists>e m. uncounted s i = Some e \<and> e_state e = PLASMA_SEALED \<and>
     GetMmapSize (e_fd e) (mmap_records (alloc s)) = Inr m)"
  by (auto simp: served_def uncounted_def)

lemma place_of_uncounted:
  "place_of s i = (case uncounted s i of Some e \<Rightarrow> PlasmaObject_init e | None \<Rightarrow> zero_PlasmaObject)"
  by (simp add: place_of_def uncounted_def option.case_eq_if option.map_sel)

lemma serves_served:
  "serves s s' \<Longrightarrow> served s' i \<longleftrightarrow> served s i"
  "serves s s' \<Longrightarrow> place_of s' i = place_of s i"
  by (simp_all add: serves_def served_uncounted place_of_uncounted)

text \<open>The state of the loop: the request has an entry for every object that was processed.\<close>

definition answering :: "nat \<Rightarrow> int \<Rightarrow> UniqueID list \<Rightarrow> UniqueID list \<Rightarrow> 'x store \<Rightarrow> 'x store \<Rightarrow> bool" where
  "answering r fd ids seen s t \<longleftrightarrow> serves s t \<and> policy_inv (policy t) \<and>
     (\<exists>q. map_of (get_heap t) r = Some q \<and> gr_client q = fd \<and> gr_timer q = -1 \<and> gr_object_ids q = ids \<and>
        gr_num_satisfied q = int (length seen) \<and> gr_num_objects_to_wait_for q = int (length (remdups ids)) \<and>
        (\<forall>i \<in> set seen. map_of (gr_objects q) i = Some (place_of s i) \<and> fd \<in> users t i))"

text \<open>A sealed object is entered in the request, and the client becomes its user.\<close>

definition satisfied :: "UniqueID \<Rightarrow> ObjectTableEntry \<Rightarrow> GetRequest \<Rightarrow> GetRequest" where
  "satisfied i e q = q\<lparr>gr_objects := AList.update i (PlasmaObject_init e) (gr_objects q), gr_num_satisfied := gr_num_satisfied q + 1\<rparr>"

lemma satisfy_one:
  assumes "answering r fd ids seen s t" and "served s i" and "\<not> mutex s" and "fd \<in> dom (map_of (connected_clients s))"
  obtains q e u where "map_of (get_heap t) r = Some q" and "map_of (objects t) i = Some e" and "e_state e = PLASMA_SEALED"
    and "AddToClientObjectIds i fd (t\<lparr>get_heap := AList.update r (satisfied i e q) (get_heap t)\<rparr>) = Inr ((), u)"
    and "answering r fd ids (seen @ [i]) s u" and "get_heap u = AList.update r (satisfied i e q) (get_heap t)"
proof -
  from assms(1) obtain q where st: "serves s t" and pol: "policy_inv (policy t)" and q: "map_of (get_heap t) r = Some q"
    "gr_client q = fd" "gr_timer q = -1" "gr_object_ids q = ids" "gr_num_satisfied q = int (length seen)"
    "gr_num_objects_to_wait_for q = int (length (remdups ids))"
    and d: "\<forall>i \<in> set seen. map_of (gr_objects q) i = Some (place_of s i) \<and> fd \<in> users t i"
    by (auto simp: answering_def)
  from serves_served(1) [OF st] assms(2) have "served t i" by simp
  then obtain e where e: "map_of (objects t) i = Some e" "e_state e = PLASMA_SEALED" by (auto simp: served_def)
  have place: "PlasmaObject_init e = place_of s i"
    using serves_served(2) [OF st, of i] e by (simp add: place_of_def)
  define t' where "t' = t\<lparr>get_heap := AList.update r (satisfied i e q) (get_heap t)\<rparr>"
  have tt: "serves t t'" by (simp add: t'_def serves_def uncounted_def users_def fun_eq_iff)
  from serves_clients [OF serves_trans [OF st tt]] assms(4) obtain c where "map_of (connected_clients t') fd = Some c" by auto
  with AddTo_total [of t' fd c i e] pol st assms(3) e obtain u where
    u: "AddToClientObjectIds i fd t' = Inr ((), u)" "serves t' u" "get_heap u = get_heap t'" "policy_inv (policy u)" "fd \<in> users u i"
    by (auto simp: t'_def serves_def)
  have "serves s u" using serves_trans [OF st serves_trans [OF tt u(2)]] .
  moreover have "users t j \<subseteq> users u j" for j using serves_trans [OF tt u(2)] by (simp add: serves_def)
  ultimately have "answering r fd ids (seen @ [i]) s u"
    using u q d place by (auto simp: answering_def t'_def satisfied_def update_conv')
  with that [OF q(1) e u(1) [unfolded t'_def]] u(3) show thesis by (simp add: t'_def)
qed

lemma get_one_served:
  assumes "answering r fd ids seen s t" and "served s i" and "\<not> mutex s" and "fd \<in> dom (map_of (connected_clients s))"
  shows "\<exists>u. get_one env r fd i (rem, evs) t = Inr ((rem, evs), u) \<and> answering r fd ids (seen @ [i]) s u"
proof -
  from satisfy_one [OF assms] obtain q e u where "map_of (get_heap t) r = Some q" "map_of (objects t) i = Some e" "e_state e = PLASMA_SEALED"
    "AddToClientObjectIds i fd (t\<lparr>get_heap := AList.update r (satisfied i e q) (get_heap t)\<rparr>) = Inr ((), u)"
    "answering r fd ids (seen @ [i]) s u" .
  then show ?thesis
    by (auto simp: get_one_def mbind_def get_entry_def GetObjectTableEntry_def set_request_def the_request_def mret_def satisfied_def)
qed

lemma get_fold_served:
  assumes "answering r fd ids seen s t" and "\<forall>i \<in> set js. served s i" and "\<not> mutex s"
    and "fd \<in> dom (map_of (connected_clients s))"
  shows "\<exists>u. mfold (get_one env r fd) js ([], []) t = Inr (([], []), u) \<and> answering r fd ids (seen @ js) s u"
  using assms(1,2)
proof (induction js arbitrary: seen t)
  case Nil
  then show ?case by (simp add: mret_def)
next
  case (Cons j js)
  from get_one_served [OF Cons.prems(1) _ assms(3,4), of j env "[]" "[]"] Cons.prems(2)
  obtain u where u: "get_one env r fd j ([], []) t = Inr (([], []), u)" "answering r fd ids (seen @ [j]) s u" by auto
  with Cons.IH [OF u(2)] Cons.prems(2) show ?case by (simp add: mbind_def)
qed

section \<open>The reply\<close>

text \<open>The descriptors of the reply.\<close>

lemma fds_total:
  assumes "\<forall>i \<in> set ids. \<exists>ob m. map_of objs i = Some ob \<and> GetMmapSize (o_store_fd ob) recs = Inr m"
  shows "\<exists>fds' szs'. rfold (fds_step recs) ids (objs, fds, szs) = Inr (objs, fds', szs')"
  using assms
proof (induction ids arbitrary: fds szs)
  case (Cons i ids)
  then obtain ob m where "map_of objs i = Some ob" "GetMmapSize (o_store_fd ob) recs = Inr m" by auto
  then have "\<exists>fds1 szs1. fds_step recs i (objs, fds, szs) = Inr (objs, fds1, szs1)"
    by (simp add: fds_step_def object_at_def Let_def)
  with Cons show ?case by auto
qed simp

lemma send_fds_total:
  assumes "\<forall>n. 0 \<le> fst (env_send_fd env n)" and "fd \<in> dom (map_of (connected_clients s))"
  shows "\<exists>s' more. mfold (send_store_fd env fd) fds () s = Inr ((), s') \<and> outbox s' = outbox s @ more \<and>
    get_heap s' = get_heap s \<and> users s' = users s \<and> object_get_requests s' = object_get_requests s"
  using assms(2)
proof (induction fds arbitrary: s)
  case (Cons k fds)
  then obtain c where c: "map_of (connected_clients s) fd = Some c" by auto
  obtain r e where re: "env_send_fd env (tick s) = (r, e)" by fastforce
  with assms(1) have "0 \<le> r" by (metis fst_conv)
  define t where "t = (if k \<in> set (c_used_fds c) then s
    else s\<lparr>tick := Suc (tick s), outbox := (if 0 < r then outbox s @ [SentFd fd k] else outbox s),
      connected_clients := AList.update fd (c\<lparr>c_used_fds := List.insert k (c_used_fds c)\<rparr>) (connected_clients s)\<rparr>)"
  have "send_store_fd env fd k () s = Inr ((), t)"
    using c re \<open>0 \<le> r\<close>
    by (simp add: send_store_fd_def mbind_def the_client_def mret_def send_fd_to_def warn_def WarnIfSigpipe_def
        set_client_def t_def)
  moreover have "users t = users s" "get_heap t = get_heap s" "object_get_requests t = object_get_requests s"
    "\<exists>more. outbox t = outbox s @ more" "fd \<in> dom (map_of (connected_clients t))"
    using c by (auto simp: t_def users_def ids_of_def update_conv' fun_eq_iff)
  ultimately show ?case using Cons.IH [of t] by (auto simp: mbind_def)
qed (auto simp: mret_def)

text \<open>The lists of waiting requests after \<open>r\<close> has been taken out of the list of one object.\<close>

definition unwaited :: "nat \<Rightarrow> UniqueID \<Rightarrow> (UniqueID \<times> nat list) list \<Rightarrow> (UniqueID \<times> nat list) list" where
  "unwaited r i reqs =
     (case map_of reqs i of
        Some rs \<Rightarrow> if r \<in> set rs then (if remove1 r rs = [] then AList.delete i reqs else AList.update i (remove1 r rs) reqs) else reqs
      | None \<Rightarrow> reqs)"

lemma unwait_total: "mfold (unwait r) ids () s = Inr ((), s\<lparr>object_get_requests := fold (unwaited r) ids (object_get_requests s)\<rparr>)"
proof (induction ids arbitrary: s)
  case (Cons i ids)
  have "unwait r i () s = Inr ((), s\<lparr>object_get_requests := unwaited r i (object_get_requests s)\<rparr>)"
    by (simp add: unwait_def unwaited_def Let_def split: option.split)
  with Cons show ?case by (simp add: mbind_def)
qed (simp add: mret_def)

lemma RemoveGetRequest_total:
  assumes "map_of (get_heap s) r = Some q" and "gr_timer q = -1"
  shows "RemoveGetRequest r s = Inr ((), s\<lparr>object_get_requests := fold (unwaited r) (gr_object_ids q) (object_get_requests s),
     get_heap := AList.delete r (get_heap s)\<rparr>)"
  using assms by (simp add: RemoveGetRequest_def mbind_def the_request_def mret_def unwait_total)

text \<open>The reply goes out, then the descriptors (\<open>w\<close> is the store after them), then the request is dropped.\<close>

lemma ReturnFromGet_run:
  assumes q: "map_of (get_heap t) r = Some q" "gr_client q = fd" "gr_timer q = -1" "gr_object_ids q = ids"
    and f: "rfold (fds_step (mmap_records (alloc t))) ids (gr_objects q, [], []) = Inr (gr_objects q, fds, sizes)"
    and "st_ok (fst (env_send env (tick t)))"
    and w: "mfold (send_store_fd env fd) fds () (t\<lparr>get_heap := AList.update r q (get_heap t), tick := Suc (tick t),
        outbox := outbox t @ [SendGetReply (SentMessage fd) ids (gr_objects q) (length ids) fds sizes]\<rparr>) = Inr ((), w)"
      "get_heap w = AList.update r q (get_heap t)"
  shows "ReturnFromGet env r t = Inr ((), w\<lparr>object_get_requests := fold (unwaited r) ids (object_get_requests w),
     get_heap := AList.delete r (get_heap w)\<rparr>)"
proof -
  obtain k e where ke: "env_send env (tick t) = (k, e)" "st_ok k" using assms(6) by (metis fst_conv surj_pair)
  have "map_of (get_heap w) r = Some q" by (simp add: w(2) update_conv')
  from RemoveGetRequest_total [OF this q(3)] show ?thesis
    using q f ke w(1)
    by (simp add: ReturnFromGet_def mbind_def the_request_def warn_def WarnIfSigpipe_def send_to_def SendGetReply_def)
qed

lemma reply_places:
  assumes "\<forall>i \<in> set ids. map_of objs i = Some (f i)"
  shows "SendGetReply send ids objs (length ids) fds sizes = SendGetReply send ids (map (\<lambda>i. (i, f i)) ids) (length ids) fds sizes"
  using assms by (auto simp: SendGetReply_def object_at_def map_of_map_restrict restrict_map_def intro!: arg_cong [of _ _ "send _"])

lemma ReturnFromGet_total:
  assumes a: "answering r fd ids ids s t" and "\<forall>i \<in> set ids. served s i"
    and "fd \<in> dom (map_of (connected_clients s))"
    and "\<forall>n. st_ok (fst (env_send env n))" and "\<forall>n. 0 \<le> fst (env_send_fd env n)"
  shows "\<exists>u fds sizes more. ReturnFromGet env r t = Inr ((), u) \<and> map_of (get_heap u) r = None \<and>
     (\<forall>i \<in> set ids. fd \<in> users u i) \<and>
     outbox u = outbox s @ SendGetReply (SentMessage fd) ids (map (\<lambda>i. (i, place_of s i)) ids) (length ids) fds sizes # more"
proof -
  from a obtain q where st: "serves s t" and q: "map_of (get_heap t) r = Some q" "gr_client q = fd" "gr_timer q = -1"
    "gr_object_ids q = ids" and d: "\<forall>i \<in> set ids. map_of (gr_objects q) i = Some (place_of s i) \<and> fd \<in> users t i"
    by (auto simp: answering_def)
  have "\<exists>m. GetMmapSize (o_store_fd (place_of s i)) (mmap_records (alloc t)) = Inr m" if "i \<in> set ids" for i
    using assms(2) that st by (auto simp: served_def place_of_def PlasmaObject_init_def serves_def)
  with d obtain fds sizes where
    f: "rfold (fds_step (mmap_records (alloc t))) ids (gr_objects q, [], []) = Inr (gr_objects q, fds, sizes)"
    using fds_total [of ids "gr_objects q" "mmap_records (alloc t)" "[]" "[]"] by blast
  define m where "m = SendGetReply (SentMessage fd) ids (gr_objects q) (length ids) fds sizes"
  define v where "v = t\<lparr>get_heap := AList.update r q (get_heap t), tick := Suc (tick t), outbox := outbox t @ [m]\<rparr>"
  have "fd \<in> dom (map_of (connected_clients v))" using assms(3) serves_clients [OF st] by (auto simp: v_def)
  from send_fds_total [OF assms(5) this, of fds] obtain w more where
    w: "mfold (send_store_fd env fd) fds () v = Inr ((), w)" "outbox w = outbox v @ more" "get_heap w = get_heap v" "users w = users v"
    by blast
  from ReturnFromGet_run [OF q f, of env w] assms(4) w(1,3) obtain rs where
    "ReturnFromGet env r t = Inr ((), w\<lparr>object_get_requests := rs, get_heap := AList.delete r (get_heap w)\<rparr>)"
    by (simp add: v_def m_def)
  moreover have "users v = users t" by (simp add: v_def users_def)
  moreover have "m = SendGetReply (SentMessage fd) ids (map (\<lambda>i. (i, place_of s i)) ids) (length ids) fds sizes"
    unfolding m_def by (rule reply_places) (use d in blast)
  ultimately show ?thesis
    using w d st by (intro exI [of _ "w\<lparr>object_get_requests := rs, get_heap := AList.delete r (get_heap w)\<rparr>"]
        exI [of _ fds] exI [of _ sizes] exI [of _ more])
      (auto simp: v_def serves_def delete_conv')
qed

section \<open>Objects in one file\<close>

text \<open>A sealed object in the file \<open>F\<close>, of which clients map \<open>m\<close> bytes.\<close>

definition in_pool :: "int \<Rightarrow> int \<Rightarrow> 'x store \<Rightarrow> UniqueID \<Rightarrow> bool" where
  "in_pool F m s i \<longleftrightarrow> (\<exists>e. map_of (objects s) i = Some e \<and> e_state e = PLASMA_SEALED \<and> e_fd e = F \<and>
     0 \<le> e_data_size e \<and> GetMmapSize F (mmap_records (alloc s)) = Inr m)"

lemma fds_pool:
  assumes "\<forall>i \<in> set ids. \<exists>ob. map_of objs i = Some ob \<and> o_store_fd ob = F \<and> o_data_size ob \<noteq> -1"
    and "F \<noteq> -1" and "GetMmapSize F recs = Inr m"
  shows "rfold (fds_step recs) ids (objs, fds, szs) =
     Inr (objs, if ids = [] \<or> F \<in> set fds then fds else fds @ [F], if ids = [] \<or> F \<in> set fds then szs else szs @ [m])"
  using assms(1)
proof (induction ids arbitrary: fds szs)
  case (Cons i ids)
  then obtain ob where "map_of objs i = Some ob" "o_store_fd ob = F" "o_data_size ob \<noteq> -1" by auto
  with assms(2,3) have "fds_step recs i (objs, fds, szs) =
      Inr (objs, if F \<in> set fds then fds else fds @ [F], if F \<in> set fds then szs else szs @ [m])"
    by (simp add: fds_step_def object_at_def Let_def)
  with Cons show ?case by auto
qed simp

text \<open>What a get leaves of the store, for the client \<open>fd\<close> that asked for \<open>ids\<close>.\<close>

definition got :: "int \<Rightarrow> int \<Rightarrow> UniqueID list \<Rightarrow> 'x store \<Rightarrow> 'x store \<Rightarrow> bool" where
  "got fd F ids s u \<longleftrightarrow> alloc u = alloc s \<and> memory u = memory s \<and> evloop u = evloop s \<and> mutex u = mutex s \<and>
     uncounted u = uncounted s \<and> policy_inv (policy u) \<and> (\<forall>i. users s i \<subseteq> users u i) \<and> (\<forall>i \<in> set ids. fd \<in> users u i) \<and>
     (\<forall>d. d \<noteq> fd \<longrightarrow> map_option c_used_fds (map_of (connected_clients u) d) = map_option c_used_fds (map_of (connected_clients s) d)) \<and>
     (\<forall>k. map_of (connected_clients s) fd = Some k \<longrightarrow>
        (\<exists>k'. map_of (connected_clients u) fd = Some k' \<and> set (c_used_fds k') = insert F (set (c_used_fds k))))"

lemma send_fd_once:
  assumes "map_of (connected_clients s) fd = Some k" and "0 < fst (env_send_fd env (tick s))"
  shows "mfold (send_store_fd env fd) [F] () s = Inr ((), if F \<in> set (c_used_fds k) then s
    else s\<lparr>tick := Suc (tick s), outbox := outbox s @ [SentFd fd F],
      connected_clients := AList.update fd (k\<lparr>c_used_fds := List.insert F (c_used_fds k)\<rparr>) (connected_clients s)\<rparr>)"
  using assms by (cases "env_send_fd env (tick s)")
    (simp add: send_store_fd_def mbind_def the_client_def mret_def send_fd_to_def warn_def WarnIfSigpipe_def set_client_def)

lemma ReturnFromGet_pool:
  assumes a: "answering r fd ids ids s t" and pool: "\<forall>i \<in> set ids. in_pool F m s i" and "ids \<noteq> []" and "F \<noteq> -1"
    and k: "map_of (connected_clients s) fd = Some k"
    and "\<forall>n. st_ok (fst (env_send env n))" and "\<forall>n. 0 < fst (env_send_fd env n)"
  shows "\<exists>u. ReturnFromGet env r t = Inr ((), u) \<and> got fd F ids s u \<and>
     object_get_requests u = fold (unwaited r) ids (object_get_requests s) \<and> map_of (get_heap u) = (map_of (get_heap t))(r := None) \<and>
     outbox u = outbox s @ SendGetReply (SentMessage fd) ids (map (\<lambda>i. (i, place_of s i)) ids) (length ids) [F] [m] #
       (if F \<in> set (c_used_fds k) then [] else [SentFd fd F])"
proof -
  from a obtain q where st: "serves s t" and q: "map_of (get_heap t) r = Some q" "gr_client q = fd" "gr_timer q = -1"
    "gr_object_ids q = ids" and d: "\<forall>i \<in> set ids. map_of (gr_objects q) i = Some (place_of s i) \<and> fd \<in> users t i"
    and pt: "policy_inv (policy t)"
    by (auto simp: answering_def)
  have "\<forall>i \<in> set ids. \<exists>ob. map_of (gr_objects q) i = Some ob \<and> o_store_fd ob = F \<and> o_data_size ob \<noteq> -1"
    using d pool by (fastforce simp: in_pool_def place_of_def PlasmaObject_init_def)
  moreover have "GetMmapSize F (mmap_records (alloc t)) = Inr m"
    using pool \<open>ids \<noteq> []\<close> st by (cases ids) (auto simp: in_pool_def serves_def)
  ultimately have f: "rfold (fds_step (mmap_records (alloc t))) ids (gr_objects q, [], []) = Inr (gr_objects q, [F], [m])"
    using fds_pool [of ids "gr_objects q" F _ m "[]" "[]"] assms(3,4) by simp
  have "map_option c_used_fds (map_of (connected_clients t) fd) = Some (c_used_fds k)"
    using st k by (simp add: serves_def)
  then obtain k' where k': "map_of (connected_clients t) fd = Some k'" "c_used_fds k' = c_used_fds k" by auto
  define v where "v = t\<lparr>get_heap := AList.update r q (get_heap t), tick := Suc (tick t), outbox := outbox t @
      [SendGetReply (SentMessage fd) ids (gr_objects q) (length ids) [F] [m]]\<rparr>"
  define w where "w = (if F \<in> set (c_used_fds k) then v
    else v\<lparr>tick := Suc (tick v), outbox := outbox v @ [SentFd fd F],
      connected_clients := AList.update fd (k'\<lparr>c_used_fds := List.insert F (c_used_fds k')\<rparr>) (connected_clients v)\<rparr>)"
  have "mfold (send_store_fd env fd) [F] () v = Inr ((), w)"
    using send_fd_once [of v fd k' env F] k' assms(7) by (simp add: w_def v_def)
  moreover have "get_heap w = AList.update r q (get_heap t)" by (simp add: w_def v_def)
  moreover define u where "u = w\<lparr>object_get_requests := fold (unwaited r) ids (object_get_requests w), get_heap := AList.delete r (get_heap w)\<rparr>"
  ultimately have run: "ReturnFromGet env r t = Inr ((), u)"
    using ReturnFromGet_run [OF q f, of env w] assms(6) by (simp add: v_def)
  have "users w = users t" using k'(1) by (auto simp: w_def v_def users_def ids_of_def update_conv' fun_eq_iff)
  moreover have "uncounted u = uncounted t"
    by (rule ext) (simp add: u_def w_def v_def uncounted_def)
  ultimately have "got fd F ids s u"
    using st d k k' pt by (auto simp: got_def serves_def u_def w_def v_def update_conv')
  moreover have "object_get_requests u = fold (unwaited r) ids (object_get_requests s)"
      "map_of (get_heap u) = (map_of (get_heap t))(r := None)"
    using st by (auto simp: u_def w_def v_def serves_def delete_conv' update_conv')
  moreover have "outbox u = outbox s @ SendGetReply (SentMessage fd) ids (map (\<lambda>i. (i, place_of s i)) ids) (length ids) [F] [m] #
       (if F \<in> set (c_used_fds k) then [] else [SentFd fd F])"
    using st reply_places [of ids "gr_objects q" "place_of s"] d by (auto simp: u_def w_def v_def serves_def)
  ultimately show ?thesis using run by blast
qed

section \<open>Requests\<close>

text \<open>A request for different objects that are here comes to its reply.\<close>

lemma get_request_answering:
  assumes "policy_inv (policy s)" and "\<not> mutex s" and "fd \<in> dom (map_of (connected_clients s))" and "distinct ids"
    and "\<forall>i \<in> set ids. served s i"
  shows "\<exists>t. answering (next_request s) fd ids ids s t \<and>
     ProcessGetRequest env fd ids timeout s = ReturnFromGet env (next_request s) t"
proof -
  let ?r = "next_request s"
  define s0 where "s0 = s\<lparr>get_heap := AList.update ?r (new_GetRequest fd ids) (get_heap s), next_request := Suc ?r\<rparr>"
  have 0: "serves s s0" by (simp add: s0_def serves_def uncounted_def users_def fun_eq_iff)
  have "answering ?r fd ids [] s s0"
    using 0 assms(1) by (simp add: answering_def s0_def new_GetRequest_def update_conv')
  from get_fold_served [OF this assms(5,2,3), of env] obtain t where
    t: "mfold (get_one env ?r fd) ids ([], []) s0 = Inr (([], []), t)" and a: "answering ?r fd ids ids s t" by auto
  from a assms(4) have "reply_or_wait env ?r timeout t = ReturnFromGet env ?r t"
    by (auto simp: answering_def reply_or_wait_def mbind_def the_request_def distinct_remdups_id)
  then have "ProcessGetRequest env fd ids timeout s = ReturnFromGet env ?r t"
    using t by (simp add: ProcessGetRequest_def Let_def mbind_def check_remote_def mret_def flip: s0_def)
  with a show ?thesis by blast
qed

text \<open>
  C12. A request for objects that are here is answered at once. For different objects that are
  sealed and local, on a store with a consistent eviction policy and sockets that take what they
  are given, \<open>ProcessGetRequest\<close> returns, whatever the time-out: the next message to the client is
  the reply that says for each object in order where it lies, the client has become a user of
  every object, and the request is gone.
\<close>
theorem get_of_sealed_objects_answered:
  assumes "policy_inv (policy s)" and "\<not> mutex s" and "map_of (connected_clients s) fd \<noteq> None" and "distinct ids"
    and "\<And>i. i \<in> set ids \<Longrightarrow> \<exists>e m. map_of (objects s) i = Some e \<and> e_state e = PLASMA_SEALED \<and>
       GetMmapSize (e_fd e) (mmap_records (alloc s)) = Inr m"
    and "\<And>n. st_ok (fst (env_send env n))" and "\<And>n. 0 \<le> fst (env_send_fd env n)"
  shows "\<exists>s' fds sizes more. ProcessGetRequest env fd ids timeout s = Inr ((), s') \<and>
     map_of (get_heap s') (next_request s) = None \<and>
     (\<forall>i \<in> set ids. \<exists>c. map_of (connected_clients s') fd = Some c \<and> i \<in> set (c_object_ids c)) \<and>
     outbox s' = outbox s @ SendGetReply (SentMessage fd) ids
       (map (\<lambda>i. (i, PlasmaObject_init (the (map_of (objects s) i)))) ids) (length ids) fds sizes # more"
proof -
  let ?r = "next_request s"
  have sv: "\<forall>i \<in> set ids. served s i" using assms(5) by (auto simp: served_def)
  have dom: "fd \<in> dom (map_of (connected_clients s))" using assms(3) by auto
  from get_request_answering [OF assms(1,2) dom assms(4) sv] obtain t where
    a: "answering ?r fd ids ids s t" and run: "ProcessGetRequest env fd ids timeout s = ReturnFromGet env ?r t" by blast
  from ReturnFromGet_total [OF a sv dom] assms(6,7) obtain u fds sizes more where
    u: "ReturnFromGet env ?r t = Inr ((), u)" "map_of (get_heap u) ?r = None" "\<forall>i \<in> set ids. fd \<in> users u i"
    "outbox u = outbox s @ SendGetReply (SentMessage fd) ids (map (\<lambda>i. (i, place_of s i)) ids) (length ids) fds sizes # more"
    by blast
  with run have "ProcessGetRequest env fd ids timeout s = Inr ((), u)" by simp
  moreover have eq: "map (\<lambda>i. (i, place_of s i)) ids = map (\<lambda>i. (i, PlasmaObject_init (the (map_of (objects s) i)))) ids"
    using sv by (auto simp: served_def place_of_def)
  ultimately show ?thesis
    using u(2,3) u(4) [unfolded eq] by (auto simp: users_def ids_of_def split: option.splits)
qed

text \<open>One sealed object and one client.\<close>

definition demo_sealed :: "unit store" where
  "demo_sealed = (demo_store ())\<lparr>connected_clients := [(5, new_Client 5)],
     objects := [(demo_id 7, new_ObjectTableEntry\<lparr>e_fd := 3, e_pointer := 4096, e_data_size := 100, e_state := PLASMA_SEALED\<rparr>)]\<rparr>"

theorem get_of_sealed_objects_answered_witness:
  "\<exists>s' fds sizes more. ProcessGetRequest (demo_env [] None) 5 [demo_id 7] (-1) demo_sealed = Inr ((), s') \<and>
     outbox s' = SendGetReply (SentMessage 5) [demo_id 7]
       [(demo_id 7, PlasmaObject_init (the (map_of (objects demo_sealed) (demo_id 7))))] 1 fds sizes # more"
proof -
  have inv: "policy_inv (policy demo_sealed)"
    using policy_inv_new by (simp add: demo_sealed_def demo_store_def PlasmaStore_def)
  have "\<exists>s' fds sizes more. ProcessGetRequest (demo_env [] None) 5 [demo_id 7] (-1) demo_sealed = Inr ((), s') \<and>
     map_of (get_heap s') (next_request demo_sealed) = None \<and>
     (\<forall>i \<in> set [demo_id 7]. \<exists>c. map_of (connected_clients s') 5 = Some c \<and> i \<in> set (c_object_ids c)) \<and>
     outbox s' = outbox demo_sealed @ SendGetReply (SentMessage 5) [demo_id 7]
       (map (\<lambda>i. (i, PlasmaObject_init (the (map_of (objects demo_sealed) i)))) [demo_id 7]) (length [demo_id 7]) fds sizes # more"
    by (rule get_of_sealed_objects_answered [OF inv])
       (simp_all add: demo_sealed_def demo_store_def PlasmaStore_def demo_env_def demo_alloc_def GetMmapSize_def)
  then show ?thesis by (simp add: demo_sealed_def demo_store_def PlasmaStore_def) blast
qed

end
