(* ===== verification/Store_Hazards.thy ===== *)
theory Store_Hazards
  imports Store_Liveness Store_Lifecycle
begin

text \<open>
  Situations the store does not handle: a request that names an object twice and never times out,
  an evicted object whose return needs an eviction, the release of an object of the peer store,
  and what is saved of an object that is written out.
\<close>

section \<open>The same object twice\<close>

lemma gr_counts:
  assumes "answering r fd ids ids s t" and "\<not> distinct ids"
  shows "\<exists>q. map_of (get_heap t) r = Some q \<and> gr_timer q = -1 \<and> gr_num_objects_to_wait_for q < gr_num_satisfied q"
proof -
  have "length (remdups ids) < length ids"
    using assms(2) length_remdups_leq [of ids] by (simp add: nat_less_le)
  with assms(1) show ?thesis by (auto simp: answering_def)
qed

text \<open>
  C33. A get request without time-out that names a sealed local object more than once is not
  answered. The store counts every occurrence but waits for the number of different objects, so
  the counts never meet: \<open>ProcessGetRequest\<close> sends nothing, sets no timer, and puts the request on
  no list of waiting requests, although every object is here.
\<close>
theorem repeated_get_unanswered:
  assumes "policy_inv (policy s)" and "\<not> mutex s" and "map_of (connected_clients s) fd \<noteq> None" and "\<not> distinct ids"
    and "\<And>i. i \<in> set ids \<Longrightarrow> \<exists>e m. map_of (objects s) i = Some e \<and> e_state e = PLASMA_SEALED \<and>
       GetMmapSize (e_fd e) (mmap_records (alloc s)) = Inr m"
  shows "\<exists>s' q. ProcessGetRequest env fd ids (-1) s = Inr ((), s') \<and> outbox s' = outbox s \<and>
     object_get_requests s' = object_get_requests s \<and> map_of (get_heap s') (next_request s) = Some q \<and>
     gr_timer q = -1 \<and> gr_num_objects_to_wait_for q < gr_num_satisfied q"
proof -
  let ?r = "next_request s"
  define s0 where "s0 = s\<lparr>get_heap := AList.update ?r (new_GetRequest fd ids) (get_heap s), next_request := Suc ?r\<rparr>"
  have sv: "\<forall>i \<in> set ids. served s i" using assms(5) by (auto simp: served_def)
  have "answering ?r fd ids [] s s0"
    using assms(1) by (simp add: answering_def s0_def new_GetRequest_def update_conv' serves_def uncounted_def users_def fun_eq_iff)
  from get_fold_served [OF this sv assms(2), of env] assms(3) obtain t where
    t: "mfold (get_one env ?r fd) ids ([], []) s0 = Inr (([], []), t)" and a: "answering ?r fd ids ids s t" by auto
  from gr_counts [OF a assms(4)] obtain q where
    q: "map_of (get_heap t) ?r = Some q" "gr_timer q = -1" "gr_num_objects_to_wait_for q < gr_num_satisfied q" by blast
  then have "reply_or_wait env ?r (-1) t = Inr ((), t)"
    by (simp add: reply_or_wait_def mbind_def the_request_def mret_def)
  then have "ProcessGetRequest env fd ids (-1) s = Inr ((), t)"
    using t by (simp add: ProcessGetRequest_def Let_def mbind_def check_remote_def mret_def flip: s0_def)
  moreover have "outbox t = outbox s" "object_get_requests t = object_get_requests s"
    using a by (simp_all add: answering_def serves_def)
  ultimately show ?thesis using q by blast
qed

theorem repeated_get_unanswered_witness:
  "\<exists>s'. ProcessGetRequest (demo_env [] None) 5 [demo_id 7, demo_id 7] (-1) demo_sealed = Inr ((), s') \<and>
     outbox s' = [] \<and> object_get_requests s' = []"
proof -
  have inv: "policy_inv (policy demo_sealed)"
    using policy_inv_new by (simp add: demo_sealed_def demo_store_def PlasmaStore_def)
  have "\<exists>s' q. ProcessGetRequest (demo_env [] None) 5 [demo_id 7, demo_id 7] (-1) demo_sealed = Inr ((), s') \<and>
     outbox s' = outbox demo_sealed \<and> object_get_requests s' = object_get_requests demo_sealed \<and>
     map_of (get_heap s') (next_request demo_sealed) = Some q \<and> gr_timer q = -1 \<and> gr_num_objects_to_wait_for q < gr_num_satisfied q"
    by (rule repeated_get_unanswered [OF inv])
       (simp_all add: demo_sealed_def demo_store_def PlasmaStore_def demo_env_def demo_alloc_def GetMmapSize_def)
  then show ?thesis by (auto simp: demo_sealed_def demo_store_def PlasmaStore_def)
qed

section \<open>Objects of the peer store\<close>

text \<open>
  Releasing an object of the peer store brings the store down. When the object is not in
  the table and the peer has it sealed, \<open>ProcessGetRequest\<close> answers with its place in the peer's
  pool, but no reference is recorded; the release request the client owes for it then fails
  \<open>ARROW_CHECK(entry != nullptr)\<close> in \<open>ReleaseObject\<close>.
\<close>
theorem remote_release_aborts:
  assumes "map_of (objects s) i = None" and "map_of (connected_clients s) fd \<noteq> None"
    and "RpcClient_GetObjects (env_rpc env (tick s)) [i] = [d]" and "d_status d = RD_OK"
    and "\<And>n. st_ok (fst (env_send env n))"
  shows "\<exists>s'. ProcessGetRequest env fd [i] timeout s = Inr ((), s') \<and>
     outbox s' = outbox s @ [SendGetReply (SentMessage fd) [i] [(i, remote_object (d_object d))] 1 [] []] \<and>
     ReleaseObject env i fd s' = Inl (CheckFailed ''entry != nullptr'')"
proof -
  let ?r = "next_request s" and ?o = "remote_object (d_object d)"
  define s0 where "s0 = s\<lparr>get_heap := AList.update ?r (new_GetRequest fd [i]) (get_heap s), next_request := Suc ?r\<rparr>"
  define q where "q = (new_GetRequest fd [i])\<lparr>gr_objects := [(i, ?o)], gr_num_satisfied := 1\<rparr>"
  define t where "t = s0\<lparr>tick := Suc (tick s), get_heap := AList.update ?r q (get_heap s0)\<rparr>"
  have 1: "mfold (get_one env ?r fd) [i] ([], []) s0 = Inr (([i], []), s0)"
    using assms(1) by (simp add: get_one_def mbind_def get_entry_def GetObjectTableEntry_def mret_def s0_def)
  have 2: "check_remote env ?r [i] s0 = Inr ((), t)"
    using assms(3,4)
    by (simp add: check_remote_def s0_def get_remote_def vec_get_def mbind_def mret_def set_request_def the_request_def t_def q_def
        update_conv' new_GetRequest_def)
  have q: "map_of (get_heap t) ?r = Some q" "gr_client q = fd" "gr_timer q = -1" "gr_object_ids q = [i]" "gr_objects q = [(i, ?o)]"
    "gr_num_satisfied q = gr_num_objects_to_wait_for q"
    by (simp_all add: t_def q_def update_conv' new_GetRequest_def)
  obtain k e where ke: "env_send env (tick t) = (k, e)" "st_ok k" using assms(5) by (metis fst_conv surj_pair)
  define v where "v = t\<lparr>get_heap := AList.update ?r q (get_heap t), tick := Suc (tick t),
      outbox := outbox t @ [SendGetReply (SentMessage fd) [i] [(i, ?o)] 1 [] []]\<rparr>"
  have "map_of (get_heap v) ?r = Some q" by (simp add: v_def update_conv')
  from RemoveGetRequest_total [OF this q(3)] obtain u where
    u: "RemoveGetRequest ?r v = Inr ((), u)" "outbox u = outbox v" by simp
  have fds: "rfold (fds_step recs) [i] ([(i, ?o)], [], []) = Inr ([(i, ?o)], [], [])" for recs
    by (simp add: fds_step_def object_at_def) (simp add: remote_object_def)
  have keep: "q\<lparr>gr_objects := [(i, ?o)]\<rparr> = q" by (simp add: q_def)
  have "ReturnFromGet env ?r t = Inr ((), u)"
    using q ke u(1) fds
    by (simp add: ReturnFromGet_def mbind_def the_request_def warn_def WarnIfSigpipe_def v_def send_to_def
        SendGetReply_def mret_def keep del: rfold.simps)
  then have "reply_or_wait env ?r timeout t = Inr ((), u)"
    using q by (simp add: reply_or_wait_def mbind_def the_request_def)
  then have "ProcessGetRequest env fd [i] timeout s = Inr ((), u)"
    using 1 2 by (simp add: ProcessGetRequest_def Let_def mbind_def mret_def flip: s0_def)
  moreover have "same v u" by (rule stepsD [OF same_RemoveGetRequest u(1)])
  then have "map_of (objects u) i = None" using assms(1) by (simp add: same_def v_def t_def s0_def)
  then have "ReleaseObject env i fd u = Inl (CheckFailed ''entry != nullptr'')"
    by (simp add: ReleaseObject_def mbind_def get_entry_def GetObjectTableEntry_def mcheck_def)
  ultimately show ?thesis using u(2) by (auto simp: v_def t_def s0_def)
qed

definition demo_remote :: "unit env" where
  "demo_remote = (demo_env [] None)\<lparr>env_rpc := (\<lambda>_ ids. map (\<lambda>_. \<lparr>d_status = RD_OK, d_object = zero_RpcObject\<rparr>) ids)\<rparr>"

theorem remote_release_aborts_witness:
  "\<exists>s'. ProcessGetRequest demo_remote 5 [demo_id 8] (-1) demo_sealed = Inr ((), s') \<and>
     ReleaseObject demo_remote (demo_id 8) 5 s' = Inl (CheckFailed ''entry != nullptr'')"
proof -
  have "\<exists>s'. ProcessGetRequest demo_remote 5 [demo_id 8] (-1) demo_sealed = Inr ((), s') \<and>
     outbox s' = outbox demo_sealed @ [SendGetReply (SentMessage 5) [demo_id 8] [(demo_id 8, remote_object
        (d_object \<lparr>d_status = RD_OK, d_object = zero_RpcObject\<rparr>))] 1 [] []] \<and>
     ReleaseObject demo_remote (demo_id 8) 5 s' = Inl (CheckFailed ''entry != nullptr'')"
    by (rule remote_release_aborts)
       (simp_all add: demo_remote_def demo_sealed_def demo_store_def PlasmaStore_def demo_env_def demo_id_def RpcClient_GetObjects_def)
  then show ?thesis by blast
qed

section \<open>Evicted objects\<close>

text \<open>With an external store, a successful eviction takes the mutex; a caller that holds it blocks.\<close>

lemma evict_fold_data:
  assumes "env_external env = Some ext" and "\<forall>i \<in> set ids. \<exists>e. unused s i e"
  shows "\<exists>ds. mfold (evict_one env) ids acc s = Inr (ds, s) \<and> length ds = length acc + length ids"
  using assms(2)
proof (induction ids arbitrary: acc)
  case (Cons i ids)
  then obtain e where "unused s i e" by auto
  then have "\<exists>d. evict_one env i acc s = Inr (acc @ [d], s)"
    using assms(1) by (auto simp: evict_one_def mbind_def get_entry_def GetObjectTableEntry_def mcheck_def unused_def)
  then obtain d where d: "evict_one env i acc s = Inr (acc @ [d], s)" ..
  from Cons.IH [of "acc @ [d]"] Cons.prems d show ?case by (auto simp: mbind_def)
qed (simp add: mret_def)

lemma EvictObjects_blocks:
  assumes "env_external env = Some ext" and "\<forall>i \<in> set ids. \<exists>e. unused s i e" and "ids \<noteq> []" and "mutex s"
    and "\<And>ds x. length ids = length ds \<Longrightarrow> \<exists>x'. es_Put ext ids ds x = Inr (Status_OK, x')"
  shows "EvictObjects env ids s = Inl SelfDeadlock"
proof -
  from evict_fold_data [OF assms(1,2), of "[]"] obtain ds where
    "mfold (evict_one env) ids [] s = Inr (ds, s)" and l: "length ids = length ds" by auto
  moreover from assms(5) [OF l] obtain x' where "es_Put ext ids ds (ext_state s) = Inr (Status_OK, x')" by blast
  ultimately show ?thesis
    using assms(1,3,4) by (simp add: EvictObjects_def mbind_def mcheck_def locked_def lock_mutex_def)
qed

text \<open>
  C30. Bringing an evicted object back deadlocks when room has to be made for it. \<open>ProcessGetRequest\<close>
  holds \<open>mutex_\<close> while it calls \<open>AllocateMemory\<close>; if the pool has no free region of the size and
  the policy names victims, \<open>EvictObjects\<close> writes them to the external store and locks \<open>mutex_\<close>
  again, which is not recursive.
\<close>
theorem evicted_get_deadlocks:
  assumes "map_of (objects s) i = Some e" and "e_state e = PLASMA_EVICTED" and "e_pointer e = 0" and "\<not> mutex s"
    and "env_external env = Some ext" and "\<And>ids ds x. length ids = length ds \<Longrightarrow> \<exists>x'. es_Put ext ids ds x = Inr (Status_OK, x')"
    and "per_client_cache (policy s) = []"
    and "Memalign kBlockSize (uint64_of (sadd64 (e_data_size e) (e_metadata_size e)))
        \<lparr>out_fd = e_fd e, out_map_size = e_map_size e, out_offset = e_offset e\<rparr> (alloc s) = (0, out, a)"
    and "RequireSpace a (int64_of (int (uint64_of (sadd64 (e_data_size e) (e_metadata_size e))))) [] (policy s) = Inr (ok, vs, p)"
    and "vs \<noteq> []" and "\<And>v. v \<in> set vs \<Longrightarrow> \<exists>d. map_of (objects s) v = Some d \<and> e_state d = PLASMA_SEALED \<and> e_ref_count d = 0"
  shows "ProcessGetRequest env fd (i # ids) timeout s = Inl SelfDeadlock"
proof -
  let ?r = "next_request s"
  define s0 where "s0 = s\<lparr>get_heap := AList.update ?r (new_GetRequest fd (i # ids)) (get_heap s), next_request := Suc ?r\<rparr>"
  let ?s = "s0\<lparr>mutex := True\<rparr>"
  have "EnforcePerClientQuota fd n cr ws (policy s) = Inr (True, ws, policy s)" for n cr ws
    using assms(7) by (simp add: EnforcePerClientQuota_def HasQuota_def)
  then have quota: "enforce_quota env n True fd False ?s = Inr (True, ?s)" for n
    by (simp add: enforce_quota_def EvictObjects_def mret_def s0_def)
  have "EvictObjects env vs (?s\<lparr>alloc := a, policy := p\<rparr>) = Inl SelfDeadlock"
    by (rule EvictObjects_blocks [OF assms(5)]) (use assms(6,10,11) in \<open>auto simp: s0_def unused_def\<close>)
  then have "alloc_loop env (Suc k) (uint64_of (sadd64 (e_data_size e) (e_metadata_size e))) True
      \<lparr>out_fd = e_fd e, out_map_size = e_map_size e, out_offset = e_offset e\<rparr> ?s = Inl SelfDeadlock" for k
    using assms(8,9) by (simp add: s0_def)
  then have "AllocateMemory env (uint64_of (sadd64 (e_data_size e) (e_metadata_size e))) True
      \<lparr>out_fd = e_fd e, out_map_size = e_map_size e, out_offset = e_offset e\<rparr> fd False ?s = Inl SelfDeadlock"
    using quota by (simp add: AllocateMemory_def alloc_fuel_def)
  then have "get_one env ?r fd i ([], []) s0 = Inl SelfDeadlock"
    using assms(1-4)
    by (simp add: get_one_def mbind_def get_entry_def GetObjectTableEntry_def mcheck_def locked_def lock_mutex_def s0_def)
  then show ?thesis by (simp add: ProcessGetRequest_def Let_def mbind_def flip: s0_def)
qed

text \<open>A pool of 1000 bytes, 600 of them with object 8, and object 7 of 600 bytes in the external store.\<close>

definition demo_full :: "HashTable store" where
  "demo_full = (demo_store [])\<lparr>connected_clients := [(5, new_Client 5)],
     alloc := demo_alloc\<lparr>allocated := 600, available_regions := [(400, 600)]\<rparr>,
     policy := (new_QuotaAwarePolicy 1000)\<lparr>cache := \<lparr>item_list = [(0, demo_id 8, 600)], item_map = [(demo_id 8, 0)], next_node = 1,
        lru_name = ''global lru'', original_capacity = 1000, capacity = 1000, used_capacity = 600,
        num_evictions_total = 0, bytes_evicted_total = 0\<rparr>\<rparr>,
     objects := [(demo_id 7, new_ObjectTableEntry\<lparr>e_data_size := 600, e_state := PLASMA_EVICTED\<rparr>),
       (demo_id 8, new_ObjectTableEntry\<lparr>e_fd := 3, e_pointer := 4096, e_data_size := 600, e_state := PLASMA_SEALED\<rparr>)]\<rparr>"

theorem evicted_get_deadlocks_witness:
  "ProcessGetRequest (demo_env [] (Some HashTableStore)) 5 [demo_id 7] (-1) demo_full = Inl SelfDeadlock"
proof -
  define e where "e = new_ObjectTableEntry\<lparr>e_data_size := 600, e_state := PLASMA_EVICTED\<rparr>"
  have put: "\<exists>x'. es_Put HashTableStore ids ds x = Inr (Status_OK, x')" if "length ids = length ds" for ids ds x
  proof -
    have "\<exists>t'. hts_put_loop ids ds x = Inr t'"
      using that by (induction ids ds x rule: hts_put_loop.induct) auto
    then show ?thesis by (auto simp: HashTableStore_def hts_Put_def)
  qed
  have mem: "\<exists>out a. Memalign kBlockSize (uint64_of (sadd64 (e_data_size e) (e_metadata_size e)))
      \<lparr>out_fd = e_fd e, out_map_size = e_map_size e, out_offset = e_offset e\<rparr> (alloc demo_full) = (0, out, a) \<and> a = alloc demo_full"
    by (simp add: e_def demo_full_def demo_eval create_eval)
  then obtain out where m: "Memalign kBlockSize (uint64_of (sadd64 (e_data_size e) (e_metadata_size e)))
      \<lparr>out_fd = e_fd e, out_map_size = e_map_size e, out_offset = e_offset e\<rparr> (alloc demo_full) = (0, out, alloc demo_full)" by blast
  have "\<exists>p. RequireSpace (alloc demo_full) (int64_of (int (uint64_of (sadd64 (e_data_size e) (e_metadata_size e))))) [] (policy demo_full)
     = Inr (True, [demo_id 8], p)"
    by (simp add: e_def demo_full_def new_ObjectTableEntry_def demo_alloc_def new_QuotaAwarePolicy_def RequireSpace_def
        ep_ChooseObjectsToEvict_def lru_ChooseObjectsToEvict_def lru_drop_def lru_Remove_def cdiv_def ssub64_def sadd64_def
        uint64_of_def int64_of_def Let_def Allocated_def GetFootprintLimit_def demo_id_def)
  then obtain p where r: "RequireSpace (alloc demo_full) (int64_of (int (uint64_of (sadd64 (e_data_size e) (e_metadata_size e))))) []
     (policy demo_full) = Inr (True, [demo_id 8], p)" ..
  show ?thesis
    by (rule evicted_get_deadlocks [OF _ _ _ _ _ put _ m r])
       (simp_all add: demo_full_def demo_env_def demo_store_def PlasmaStore_def new_QuotaAwarePolicy_def demo_id_def e_def new_ObjectTableEntry_def)
qed


text \<open>Object 8 at offset 500.\<close>

definition demo_upper :: "HashTable store" where
  "demo_upper = (demo_store [])\<lparr>alloc := demo_alloc\<lparr>allocated := 100, available_regions := [(400, 0)]\<rparr>,
     objects := [(demo_id 8, new_ObjectTableEntry\<lparr>e_fd := 3, e_pointer := 4096, e_offset := 500, e_data_size := 100,
       e_state := PLASMA_SEALED\<rparr>)]\<rparr>"

lemma demo_upper_evicts:
  "case EvictObjects (demo_env [] (Some HashTableStore)) [demo_id 8] demo_upper of Inr (_, t) \<Rightarrow> True | Inl _ \<Rightarrow> False"
  by (simp add: EvictObjects_def evict_one_def evict_free_def monad_eval demo_env_def demo_upper_def demo_store_def demo_id_def
      PlasmaStore_def new_ObjectTableEntry_def HashTableStore_def hts_Put_def Free_def demo_alloc_def uint64_of_def int64_of_def
      Let_def mm_emplace_def)


end
