(* ===== verification/Store_Waiting.thy ===== *)
theory Store_Waiting
  imports Store_Liveness
begin

text \<open>
  Requests that wait: a client asks for an object that is not sealed yet, and the seal of the
  object answers it and every other request that waits for the object.
\<close>

section \<open>Waiting\<close>

text \<open>The request \<open>r\<close> waits for the single object \<open>i\<close>, without time-out.\<close>

definition awaits :: "'x store \<Rightarrow> UniqueID \<Rightarrow> nat \<Rightarrow> bool" where
  "awaits s i r \<longleftrightarrow> (\<exists>q. map_of (get_heap s) r = Some q \<and> gr_timer q = -1 \<and> gr_object_ids q = [i] \<and>
     gr_num_satisfied q = 0 \<and> gr_num_objects_to_wait_for q = 1 \<and> map_of (connected_clients s) (gr_client q) \<noteq> None)"

text \<open>The requests on the list of an object.\<close>

definition waiters :: "'x store \<Rightarrow> UniqueID \<Rightarrow> nat list" where
  "waiters s i = (case map_of (object_get_requests s) i of Some rs \<Rightarrow> rs | None \<Rightarrow> [])"

definition asker :: "'x store \<Rightarrow> nat \<Rightarrow> int" where
  "asker s r = (case map_of (get_heap s) r of Some q \<Rightarrow> gr_client q | None \<Rightarrow> -1)"

lemma get_waits:
  assumes "case map_of (objects s) i of Some e \<Rightarrow> e_state e = PLASMA_CREATED | None \<Rightarrow> True"
    and "RpcClient_GetObjects (env_rpc env (tick s)) [i] = [d]" and "d_status d \<noteq> RD_OK"
    and "map_of (connected_clients s) fd \<noteq> None"
    and "\<forall>r \<in> set (waiters s i). awaits s i r \<and> r < next_request s"
  shows "\<exists>s'. ProcessGetRequest env fd [i] (-1) s = Inr ((), s') \<and> outbox s' = outbox s \<and> objects s' = objects s \<and>
     alloc s' = alloc s \<and> policy s' = policy s \<and> mutex s' = mutex s \<and> pending_notifications s' = pending_notifications s \<and>
     connected_clients s' = connected_clients s \<and>
     waiters s' i = waiters s i @ [next_request s] \<and> (\<forall>r \<in> set (waiters s' i). awaits s' i r) \<and>
     asker s' (next_request s) = fd \<and> (\<forall>r \<in> set (waiters s i). asker s' r = asker s r)"
proof -
  let ?r = "next_request s"
  define q where "q = (new_GetRequest fd [i])\<lparr>gr_objects := [(i, zero_PlasmaObject\<lparr>o_data_size := -1\<rparr>)]\<rparr>"
  define s0 where "s0 = s\<lparr>get_heap := AList.update ?r (new_GetRequest fd [i]) (get_heap s), next_request := Suc ?r\<rparr>"
  define s' where "s' = s\<lparr>tick := Suc (tick s), next_request := Suc ?r, get_heap := AList.update ?r q (get_heap s),
      object_get_requests := AList.update i (waiters s i @ [?r]) (object_get_requests s)\<rparr>"
  have 1: "mfold (get_one env ?r fd) [i] ([], []) s0 = Inr (([i], []), s0)"
    using assms(1) by (auto simp: get_one_def mbind_def get_entry_def GetObjectTableEntry_def mret_def s0_def split: option.splits)
  have 2: "check_remote env ?r [i] s0 = Inr ((), s')"
    using assms(2,3) by (simp add: check_remote_def s0_def get_remote_def vec_get_def mbind_def mret_def set_request_def
        the_request_def s'_def q_def update_conv' new_GetRequest_def object_at_def waiters_def)
  have "map_of (get_heap s') ?r = Some q" "gr_num_satisfied q = 0" "gr_num_objects_to_wait_for q = 1"
    by (simp_all add: s'_def q_def update_conv' new_GetRequest_def)
  then have "reply_or_wait env ?r (-1) s' = Inr ((), s')"
    by (simp add: reply_or_wait_def mbind_def the_request_def mret_def)
  then have "ProcessGetRequest env fd [i] (-1) s = Inr ((), s')"
    using 1 2 by (simp add: ProcessGetRequest_def Let_def mbind_def mret_def flip: s0_def)
  moreover have w: "waiters s' i = waiters s i @ [?r]" by (simp add: waiters_def s'_def update_conv')
  moreover have "awaits s' i ?r"
    using assms(4) by (simp add: awaits_def s'_def q_def new_GetRequest_def update_conv')
  moreover have "awaits s' i r \<and> asker s' r = asker s r" if "r \<in> set (waiters s i)" for r
    using assms(5) that by (fastforce simp: awaits_def asker_def s'_def update_conv')
  ultimately show ?thesis
    by (intro exI [of _ s']) (auto simp: s'_def asker_def update_conv' q_def new_GetRequest_def)
qed

section \<open>Waking\<close>

lemma got_in_pool: "got fd F ids s u \<Longrightarrow> in_pool F m s i \<Longrightarrow> in_pool F m u i" and got_place: "got fd F ids s u \<Longrightarrow> place_of u i = place_of s i"
proof -
  assume g: "got fd F ids s u"
  then have e: "uncounted u i = uncounted s i" "alloc u = alloc s" by (simp_all add: got_def)
  show "place_of u i = place_of s i" by (simp add: place_of_uncounted e)
  have un: "in_pool F m x i \<longleftrightarrow> (\<exists>e. uncounted x i = Some e \<and> e_state e = PLASMA_SEALED \<and> e_fd e = F \<and> 0 \<le> e_data_size e \<and>
     GetMmapSize F (mmap_records (alloc x)) = Inr m)" for x :: "'a store"
    by (auto simp: in_pool_def uncounted_def)
  show "in_pool F m s i \<Longrightarrow> in_pool F m u i" by (simp add: un e)
qed

lemma got_clients:
  assumes "got fd F ids s u" and "map_of (connected_clients s) d \<noteq> None"
  shows "map_of (connected_clients u) d \<noteq> None"
proof (cases "d = fd")
  case True
  with assms show ?thesis by (auto simp: got_def)
next
  case False
  with assms have "map_option c_used_fds (map_of (connected_clients u) d) \<noteq> None" by (auto simp: got_def)
  then show ?thesis by auto
qed

lemma wake_one:
  assumes "policy_inv (policy s)" and "\<not> mutex s" and pool: "in_pool F m s i" and "F \<noteq> -1"
    and w: "map_of (object_get_requests s) i = Some (r # rs)" and "awaits s i r"
    and "\<forall>n. st_ok (fst (env_send env n))" and "\<forall>n. 0 < fst (env_send_fd env n)"
  shows "\<exists>u more. update_loop env i (Suc n) 0 s = update_loop env i n 0 u \<and> got (asker s r) F [i] s u \<and>
     object_get_requests u = unwaited r i (object_get_requests s) \<and> map_of (get_heap u) = (map_of (get_heap s))(r := None) \<and>
     outbox u = outbox s @ SendGetReply (SentMessage (asker s r)) [i] [(i, place_of s i)] 1 [F] [m] # more"
proof -
  from assms(6) obtain q k where q: "map_of (get_heap s) r = Some q" "gr_timer q = -1" "gr_object_ids q = [i]"
    "gr_num_satisfied q = 0" "gr_num_objects_to_wait_for q = 1" "map_of (connected_clients s) (gr_client q) = Some k"
    by (auto simp: awaits_def)
  let ?fd = "gr_client q"
  have "answering r ?fd [i] [] s s" using q assms(1) serves_refl by (simp add: answering_def)
  moreover have "served s i" using pool by (auto simp: in_pool_def served_def)
  ultimately obtain q' e t where t: "map_of (get_heap s) r = Some q'" "map_of (objects s) i = Some e" "e_state e = PLASMA_SEALED"
    "AddToClientObjectIds i ?fd (s\<lparr>get_heap := AList.update r (satisfied i e q') (get_heap s)\<rparr>) = Inr ((), t)"
    "answering r ?fd [i] ([] @ [i]) s t" "get_heap t = AList.update r (satisfied i e q') (get_heap s)"
    using satisfy_one [of r ?fd "[i]" "[]" s s i] assms(2) q(6) by blast
  from ReturnFromGet_pool [of r ?fd "[i]" s t F m k env] t(5) pool assms(4,7,8) q(6) obtain u where
    u: "ReturnFromGet env r t = Inr ((), u)" "got ?fd F [i] s u" "object_get_requests u = unwaited r i (object_get_requests s)"
      "map_of (get_heap u) = (map_of (get_heap t))(r := None)"
      "\<exists>more. outbox u = outbox s @ SendGetReply (SentMessage ?fd) [i] [(i, place_of s i)] 1 [F] [m] # more" by auto
  have "update_loop env i (Suc n) 0 s = update_loop env i n 0 u"
    using w q t u(1)
    by (simp add: vec_get_def mbind_def get_entry_def GetObjectTableEntry_def set_request_def the_request_def satisfied_def update_conv')
  moreover have "map_of (get_heap u) = (map_of (get_heap s))(r := None)" using u(4) t(6) by (simp add: update_conv')
  ultimately show ?thesis using u q(1) by (auto simp: asker_def)
qed

lemma wake_all:
  assumes "policy_inv (policy s)" and "\<not> mutex s" and "in_pool F m s i" and "F \<noteq> -1"
    and "rs \<noteq> [] \<Longrightarrow> map_of (object_get_requests s) i = Some rs" and "distinct rs" and "\<forall>r \<in> set rs. awaits s i r"
    and sends: "\<forall>n. st_ok (fst (env_send env n))" "\<forall>n. 0 < fst (env_send_fd env n)"
  shows "\<exists>u more. update_loop env i (length rs) 0 s = Inr ((), u) \<and> outbox u = outbox s @ more \<and> (\<forall>j. users s j \<subseteq> users u j) \<and>
     (\<forall>r \<in> set rs. map_of (get_heap u) r = None \<and> asker s r \<in> users u i \<and>
        SendGetReply (SentMessage (asker s r)) [i] [(i, place_of s i)] 1 [F] [m] \<in> set more) \<and>
     (\<forall>r. map_of (get_heap s) r = None \<longrightarrow> map_of (get_heap u) r = None)"
  using assms(1-7)
proof (induction rs arbitrary: s)
  case Nil
  show ?case by (rule exI [of _ s]) (simp add: mret_def)
next
  case (Cons r rs)
  have "map_of (object_get_requests s) i = Some (r # rs)" "awaits s i r" using Cons.prems by simp_all
  from wake_one [OF Cons.prems(1-4) this sends, of "length rs"] obtain t more where
    t: "update_loop env i (Suc (length rs)) 0 s = update_loop env i (length rs) 0 t" "got (asker s r) F [i] s t"
     "object_get_requests t = unwaited r i (object_get_requests s)" "map_of (get_heap t) = (map_of (get_heap s))(r := None)"
     "outbox t = outbox s @ SendGetReply (SentMessage (asker s r)) [i] [(i, place_of s i)] 1 [F] [m] # more" by blast
  note conn = got_clients [OF t(2)]
  have aw: "awaits t i x \<and> asker t x = asker s x" if "x \<in> set rs" for x
    using Cons.prems(6,7) that conn t(4) by (fastforce simp: awaits_def asker_def)
  obtain u more' where u: "update_loop env i (length rs) 0 t = Inr ((), u)" "outbox u = outbox t @ more'" "\<forall>j. users t j \<subseteq> users u j"
     "\<forall>x \<in> set rs. map_of (get_heap u) x = None \<and> asker t x \<in> users u i \<and>
        SendGetReply (SentMessage (asker t x)) [i] [(i, place_of t i)] 1 [F] [m] \<in> set more'"
     "\<forall>r. map_of (get_heap t) r = None \<longrightarrow> map_of (get_heap u) r = None"
    using Cons.IH [of t] t(2,3) Cons.prems aw got_in_pool [OF t(2)]
    by (auto simp: got_def unwaited_def update_conv' split: if_splits)
  have "asker s r \<in> users t i" "\<forall>j. users s j \<subseteq> users t j" using t(2) by (simp_all add: got_def)
  then show ?case
    using t(1,4,5) u aw got_place [OF t(2)] by (intro exI [of _ u] exI) auto
qed

section \<open>The seal answers\<close>

lemma SealObjects_wakes:
  assumes "policy_inv (policy s)" and "\<not> mutex s" and e: "map_of (objects s) i = Some e" "e_state e = PLASMA_CREATED"
    and "e_fd e = F" "F \<noteq> -1" "0 \<le> e_data_size e" "GetMmapSize F (mmap_records (alloc s)) = Inr m"
    and "pending_notifications s = []" and "length dg = kDigestSize"
    and "waiters s i \<noteq> []" and "distinct (waiters s i)" and "\<forall>r \<in> set (waiters s i). awaits s i r"
    and sends: "\<forall>n. st_ok (fst (env_send env n))" "\<forall>n. 0 < fst (env_send_fd env n)"
  shows "\<exists>u more. SealObjects env [i] [dg] s = Inr ((), u) \<and> outbox u = outbox s @ more \<and> waiters u i = [] \<and>
     (\<forall>r \<in> set (waiters s i). map_of (get_heap u) r = None \<and> asker s r \<in> users u i \<and>
        SendGetReply (SentMessage (asker s r)) [i] [(i, PlasmaObject_init e)] 1 [F] [m] \<in> set more)"
proof -
  let ?e = "e\<lparr>e_state := PLASMA_SEALED, e_digest := dg, e_construct_duration := env_time env (tick s) - e_create_time e\<rparr>"
  define t where "t = s\<lparr>tick := Suc (tick s), mutex := False, objects := AList.update i ?e (objects s)\<rparr>"
  have eq: "waiters t i = waiters s i" "asker t = asker s" "awaits t = awaits s" "place_of t i = PlasmaObject_init e"
    "map_of (objects t) i = Some ?e" "outbox t = outbox s"
    by (auto simp: waiters_def asker_def awaits_def t_def fun_eq_iff place_of_def update_conv' PlasmaObject_init_def)
  have w: "map_of (object_get_requests t) i = Some (waiters s i)"
    using assms(11) by (auto simp: waiters_def t_def split: option.splits)
  have pool: "in_pool F m t i" using assms(5-8) eq(5) by (simp add: in_pool_def t_def)
  have t: "policy_inv (policy t)" "\<not> mutex t" using assms(1) by (simp_all add: t_def)
  from wake_all [OF t pool assms(6), of "waiters s i" env] w assms(12,13) sends obtain u more where
    u: "update_loop env i (length (waiters s i)) 0 t = Inr ((), u)" "outbox u = outbox s @ more"
     "\<forall>r \<in> set (waiters s i). map_of (get_heap u) r = None \<and> asker s r \<in> users u i \<and>
        SendGetReply (SentMessage (asker s r)) [i] [(i, PlasmaObject_init e)] 1 [F] [m] \<in> set more"
    by (auto simp: eq)
  have "mfold (seal_one env [dg] [i]) [0 ..< length [i]] [] s = Inr ([zero_ObjectInfoT\<lparr>oi_object_id := id_binary i,
      oi_data_size := e_data_size e, oi_metadata_size := e_metadata_size e, oi_digest := dg\<rparr>], t)"
    using assms(2,10) e by (simp add: seal_one_def mbind_def locked_def lock_mutex_def unlock_mutex_def get_entry_def
        GetObjectTableEntry_def mcheck_def now_def set_entry_def mret_def t_def)
  moreover have "PushNotifications env infos t = Inr ((), t)" for infos
    using assms(9) by (simp add: PushNotifications_def t_def mret_def)
  moreover define v where "v = u\<lparr>object_get_requests := AList.delete i (object_get_requests u)\<rparr>"
  moreover have "UpdateObjectGetRequests env i t = Inr ((), v)"
    using w u(1) by (simp add: UpdateObjectGetRequests_def mbind_def v_def)
  ultimately have "SealObjects env [i] [dg] s = Inr ((), v)"
    by (simp add: SealObjects_def mbind_def mret_def)
  moreover have "users v = users u" by (simp add: v_def)
  ultimately show ?thesis
    using u(2,3) by (intro exI [of _ v] exI [of _ more]) (simp add: v_def waiters_def delete_conv')
qed


text \<open>An object that client 4 has created, and client 5, which asks for it.\<close>

definition demo_waiting :: "unit store" where
  "demo_waiting = (demo_store ())\<lparr>connected_clients := [(4, (new_Client 4)\<lparr>c_object_ids := [demo_id 7]\<rparr>), (5, new_Client 5)],
     objects := [(demo_id 7, new_ObjectTableEntry\<lparr>e_fd := 3, e_pointer := 4096, e_data_size := 100, e_ref_count := 1,
       e_state := PLASMA_CREATED\<rparr>)]\<rparr>"


end
