(* ===== verification/Notifications.thy ===== *)
theory Notifications
  imports Store_Lifecycle Client
begin

text \<open>
  Notifications from the store to a subscriber: the buffer that \<open>SealObjects\<close> and the deletions
  queue (store.cc, protocol.cc), read by \<open>ReadMessageAsync\<close> (io.cc) and decoded by the client
  (client.cc).
\<close>

section \<open>The wire\<close>

lemma ReadMessageAsync_fair:
  assumes "fair outs (8 + length b)" and "length b < 2 ^ 63"
  shows "\<exists>outs'. ReadMessageAsync outs (int64_bytes (int (length b)) @ b @ rest) = Inr (Some (Some b, False, outs', rest))"
proof -
  let ?l = "int64_bytes (int (length b))"
  obtain o1 where 1: "ReadBytes 8 [] outs (?l @ b @ rest) = Some (Status_OK, ?l, o1, b @ rest)" "fair o1 (length b)"
    using ReadBytes_fair [of outs 8 "length b" "?l @ b @ rest" "[]"] assms(1) by auto
  obtain o2 where 2: "ReadBytes (length b) [] o1 (b @ rest) = Some (Status_OK, b, o2, rest)"
    using ReadBytes_fair [of o1 "length b" 0 "b @ rest" "[]"] 1(2) by auto
  have "bytes_int64 ?l = int (length b)" "uint64_of (int (length b)) = length b" "\<not> max_vector_size < length b"
    using assms(2) by (auto simp: bytes_int64_bytes in_int64_def uint64_of_int max_vector_size_def)
  with 1 2 show ?thesis by (simp add: ReadMessageAsync_def)
qed

text \<open>What a subscriber is told about an object.\<close>

definition told :: "ObjectInfoT \<Rightarrow> UniqueID \<times> int \<times> int" where
  "told n = (UniqueID (oi_object_id n),
     if oi_is_deletion n then (-1, -1) else (oi_data_size n, oi_metadata_size n))"

lemma decode_told: "length (oi_object_id n) = kUniqueIDSize \<Longrightarrow> decode_info (CreateObjectInfo n) = Inr (told n)"
  by (simp add: decode_info_def CreateObjectInfo_def id_field_def fb_field_def from_binary_def told_def)

lemma decode_all:
  "\<forall>n \<in> set infos. length (oi_object_id n) = kUniqueIDSize \<Longrightarrow>
     DecodeNotifications [FbTables (map CreateObjectInfo infos)] = Inr (map told infos)"
  by (simp add: DecodeNotifications_def fb_field_def) (induction infos, simp_all add: decode_told)

section \<open>What the store tells\<close>

definition object_notice :: "'x store \<Rightarrow> UniqueID \<Rightarrow> (UniqueID \<times> int \<times> int) option" where
  "object_notice s i = map_option (\<lambda>e. (i, e_data_size e, e_metadata_size e)) (map_of (objects s) i)"

lemma seal_one_told:
  assumes "seal_one env digests ids k infos s = Inr (infos', s')" and "id_ok (ids ! k)"
  shows "\<exists>n. infos' = infos @ [n] \<and> object_notice s (ids ! k) = Some (told n) \<and> length (oi_object_id n) = kUniqueIDSize \<and>
    object_notice s' = object_notice s"
proof -
  from assms(1) obtain e f where e: "map_of (objects s) (ids ! k) = Some e"
    and s': "map_of (objects s') = (map_of (objects s))(ids ! k \<mapsto> f)" "e_data_size f = e_data_size e" "e_metadata_size f = e_metadata_size e"
    and i: "infos' = infos @ [zero_ObjectInfoT\<lparr>oi_object_id := id_binary (ids ! k), oi_data_size := e_data_size e,
                   oi_metadata_size := e_metadata_size e, oi_digest := digests ! k\<rparr>]"
    by (auto simp: seal_one_def Let_def op_Inr update_conv' split: option.splits if_splits)
  have "UniqueID (id_binary (ids ! k)) = ids ! k" using assms(2) by (cases "ids ! k") (simp add: id_binary_ok)
  with e i assms(2) s' show ?thesis
    by (auto simp: told_def object_notice_def zero_ObjectInfoT_def length_id_binary fun_eq_iff)
qed

lemma seal_fold_told:
  assumes "mfold (seal_one env digests ids) ks infos s = Inr (infos', s')" and "\<forall>k \<in> set ks. id_ok (ids ! k)"
  shows "\<exists>ns. infos' = infos @ ns \<and> map (\<lambda>k. object_notice s (ids ! k)) ks = map (Some \<circ> told) ns \<and>
    (\<forall>n \<in> set ns. length (oi_object_id n) = kUniqueIDSize)"
  using assms
proof (induction ks arbitrary: infos s)
  case (Cons k ks)
  from Cons.prems(1) obtain a t where a: "seal_one env digests ids k infos s = Inr (a, t)"
    and t: "mfold (seal_one env digests ids) ks a t = Inr (infos', s')" by (auto simp: mbind_Inr)
  from seal_one_told [OF a] Cons.prems(2) obtain n where
    n: "a = infos @ [n]" "object_notice s (ids ! k) = Some (told n)" "length (oi_object_id n) = kUniqueIDSize" "object_notice t = object_notice s"
    by auto
  from Cons.IH [OF t] Cons.prems(2) obtain ns where
    "infos' = a @ ns" "map (\<lambda>k. object_notice t (ids ! k)) ks = map (Some \<circ> told) ns"
    "\<forall>n \<in> set ns. length (oi_object_id n) = kUniqueIDSize"
    by auto
  with n show ?case by (intro exI [of _ "n # ns"]) simp
qed simp

text \<open>
  C22. A subscriber learns exactly what was sealed. When \<open>SealObjects\<close> has sealed the objects
  \<open>ids\<close>, the notification buffer it makes of them, read under any fragmentation by
  \<open>ReadMessageAsync\<close> and decoded by the client, is the list of these objects in order with their
  data and metadata sizes, and what follows on the socket is untouched. \<open>enc\<close> and \<open>get_root\<close> are
  the flatbuffers library.
\<close>
theorem seal_notification_roundtrip:
  assumes "mfold (seal_one env digests ids) [0 ..< length ids] [] s = Inr (infos, t)" and "list_all id_ok ids"
    and "get_root (enc [FbTables (map CreateObjectInfo infos)]) = [FbTables (map CreateObjectInfo infos)]"
    and "length (enc [FbTables (map CreateObjectInfo infos)]) < 2 ^ 63"
    and "fair outs (8 + length (enc [FbTables (map CreateObjectInfo infos)]))"
  shows "\<exists>message outs'. ReadMessageAsync outs (CreatePlasmaNotificationBuffer enc infos @ rest) =
       Inr (Some (Some message, False, outs', rest)) \<and>
     DecodeNotifications (get_root message) =
       Inr (map (\<lambda>i. (i, e_data_size (the (map_of (objects s) i)), e_metadata_size (the (map_of (objects s) i)))) ids)"
proof -
  let ?f = "\<lambda>i. (i, e_data_size (the (map_of (objects s) i)), e_metadata_size (the (map_of (objects s) i)))"
  from seal_fold_told [OF assms(1)] assms(2) have
    t: "map (\<lambda>k. object_notice s (ids ! k)) [0 ..< length ids] = map (Some \<circ> told) infos"
    and l: "\<forall>n \<in> set infos. length (oi_object_id n) = kUniqueIDSize"
    by (auto simp: list_all_length)
  from t have n: "length infos = length ids" by (metis length_map length_upt minus_nat.diff_0)
  have "told (infos ! k) = ?f (ids ! k)" if "k < length ids" for k
    using arg_cong [OF t, of "\<lambda>xs. xs ! k"] that n by (auto simp: object_notice_def)
  then have "map told infos = map ?f ids" using n by (intro nth_equalityI) auto
  with decode_all [OF l] ReadMessageAsync_fair [OF assms(5,4), of rest] assms(3) show ?thesis
    by (auto simp: CreatePlasmaNotificationBuffer_def Let_def)
qed

definition demo_unsealed :: "unit store" where
  "demo_unsealed = (demo_store ())\<lparr>objects := [(demo_id 7, new_ObjectTableEntry\<lparr>e_pointer := 4096, e_data_size := 100,
     e_metadata_size := 20, e_state := PLASMA_CREATED\<rparr>)]\<rparr>"

lemma demo_seals:
  "case mfold (seal_one (demo_env [] None) [replicate 8 0] [demo_id 7]) [0 ..< length [demo_id 7]] [] demo_unsealed of
     Inr (infos, t) \<Rightarrow> True | Inl _ \<Rightarrow> False"
  by (simp add: demo_unsealed_def demo_store_def PlasmaStore_def demo_env_def demo_id_def monad_eval seal_eval new_ObjectTableEntry_def Let_def)

theorem seal_notification_roundtrip_witness:
  "\<exists>infos t message outs' enc get_root. mfold (seal_one (demo_env [] None) [replicate 8 0] [demo_id 7]) [0] [] demo_unsealed = Inr (infos, t) \<and>
     ReadMessageAsync (replicate 11 (IO_n 2)) (CreatePlasmaNotificationBuffer enc infos @ [9]) = Inr (Some (Some message, False, outs', [9])) \<and>
     DecodeNotifications (get_root message) = Inr [(demo_id 7, 100, 20)]"
proof -
  obtain infos t where run: "mfold (seal_one (demo_env [] None) [replicate 8 0] [demo_id 7]) [0 ..< length [demo_id 7]] [] demo_unsealed
      = Inr (infos, t)" using demo_seals by (auto split: sum.splits)
  let ?enc = "\<lambda>_ :: fb_table. [1, 2, 3 :: byte]" and ?root = "\<lambda>_ :: byte list. [FbTables (map CreateObjectInfo infos)]"
  have id: "list_all id_ok [demo_id 7]" by (simp add: id_ok_def demo_id_def kUniqueIDSize_def)
  have f: "fair (replicate 11 (IO_n 2)) (8 + length (?enc [FbTables (map CreateObjectInfo infos)]))"
    by (simp add: fair_def list_all_iff)
  from seal_notification_roundtrip [OF run id _ _ f, of ?root "[9]"] obtain message outs' where
    m: "ReadMessageAsync (replicate 11 (IO_n 2)) (CreatePlasmaNotificationBuffer ?enc infos @ [9]) = Inr (Some (Some message, False, outs', [9]))"
    and d: "DecodeNotifications (?root message) = Inr (map (\<lambda>i. (i, e_data_size (the (map_of (objects demo_unsealed) i)),
       e_metadata_size (the (map_of (objects demo_unsealed) i)))) [demo_id 7])"
    by auto
  from d have "DecodeNotifications (?root message) = Inr [(demo_id 7, 100, 20)]"
    by (simp add: demo_unsealed_def)
  moreover have "[0 ..< length [demo_id 7]] = [0]" by simp
  ultimately show ?thesis using run m
    by (intro exI [of _ infos] exI [of _ t] exI [of _ message] exI [of _ outs'] exI [of _ ?enc] exI [of _ ?root]) simp
qed

end
