(* ===== verification/Protocol_Types.thy ===== *)
theory Protocol_Types
  imports Protocol
begin

text \<open>
  The schema of the messages (src/arrow/cpp/src/plasma/plasma.fbs, common.fbs) as types of tables,
  and type safety of protocol.cc: what the Send functions build has the type of the message, and
  a Read function on any table of the type never uses a field at another type or one that is
  missing.
\<close>

section \<open>Types of the schema\<close>

datatype fb_type =
    TBool | TInt | TLong | TULong | TString
  | TStrings | TInts | TLongs | TSpec | TSpecs
  | TInfos
  | THandle | THandles

definition in_uint64 :: "int \<Rightarrow> bool" where
  "in_uint64 n \<longleftrightarrow> 0 \<le> n \<and> n < 2 ^ 64"

definition spec_typed :: "PlasmaObjectSpec \<Rightarrow> bool" where
  "spec_typed s \<longleftrightarrow> in_int32 (sp_segment_index s) \<and> in_uint64 (int (sp_data_offset s)) \<and> in_uint64 (int (sp_data_size s)) \<and>
     in_uint64 (int (sp_metadata_offset s)) \<and> in_uint64 (int (sp_metadata_size s)) \<and> in_int32 (sp_device_num s)"

text \<open>The table \<open>ObjectInfo\<close> of common.fbs.\<close>

definition info_schema :: "fb_type list" where
  "info_schema = [TString, TLong, TLong, TInt, TLong, TLong, TString, TBool]"

text \<open>
  A scalar that is not in the buffer has its default. Strings and vectors have to be there; the
  handle of a GPU object does not.
\<close>

definition base_typed :: "fb_type \<Rightarrow> fb_slot \<Rightarrow> bool" where
  "base_typed ty slot =
     (case slot of
        FbScalar n \<Rightarrow> ty = TBool \<and> n \<in> {0, 1} \<or> ty = TInt \<and> in_int32 n \<or> ty = TLong \<and> in_int64 n \<or> ty = TULong \<and> in_uint64 n
      | FbString s \<Rightarrow> ty = TString
      | FbAbsent \<Rightarrow> ty \<in> {TBool, TInt, TLong, TULong}
      | _ \<Rightarrow> False)"

definition table_typed :: "(fb_type \<Rightarrow> fb_slot \<Rightarrow> bool) \<Rightarrow> fb_type list \<Rightarrow> fb_table \<Rightarrow> bool" where
  "table_typed typed tys t \<longleftrightarrow> (\<forall>i < length tys. typed (tys ! i) (fb_field t i))"

definition slot_typed :: "fb_type \<Rightarrow> fb_slot \<Rightarrow> bool" where
  "slot_typed ty slot =
     (case slot of
        FbStrings s \<Rightarrow> ty = TStrings
      | FbInts ns \<Rightarrow> ty = TInts \<and> list_all in_int32 ns \<or> ty = TLongs \<and> list_all in_int64 ns
      | FbSpec s \<Rightarrow> ty = TSpec \<and> spec_typed s
      | FbSpecs ss \<Rightarrow> ty = TSpecs \<and> list_all spec_typed ss
      | FbTables ts \<Rightarrow> ty = THandles \<or> ty = TInfos \<and> list_all (table_typed base_typed info_schema) ts
      | _ \<Rightarrow> base_typed ty slot \<or> ty = THandle \<and> slot = FbAbsent)"

definition message_schema :: "MessageType \<Rightarrow> fb_type list" where
  "message_schema mt =
     (case mt of
        PlasmaSetOptionsRequest \<Rightarrow> [TString, TLong]
      | PlasmaSetOptionsReply \<Rightarrow> [TInt]
      | PlasmaGetDebugStringReply \<Rightarrow> [TString]
      | PlasmaCreateRequest \<Rightarrow> [TString, TBool, TULong, TULong, TInt]
      | PlasmaCreateReply \<Rightarrow> [TString, TSpec, TInt, TInt, TLong, THandle]
      | PlasmaCreateAndSealRequest \<Rightarrow> [TString, TBool, TString, TString, TString]
      | PlasmaCreateAndSealReply \<Rightarrow> [TInt]
      | PlasmaCreateAndSealBatchRequest \<Rightarrow> [TStrings, TBool, TStrings, TStrings, TStrings]
      | PlasmaCreateAndSealBatchReply \<Rightarrow> [TInt]
      | PlasmaAbortRequest \<Rightarrow> [TString]
      | PlasmaAbortReply \<Rightarrow> [TString]
      | PlasmaSealRequest \<Rightarrow> [TString, TString]
      | PlasmaSealReply \<Rightarrow> [TString, TInt]
      | PlasmaGetRequest \<Rightarrow> [TStrings, TLong]
      | PlasmaGetReply \<Rightarrow> [TStrings, TSpecs, TInts, TLongs, THandles]
      | PlasmaReleaseRequest \<Rightarrow> [TString]
      | PlasmaReleaseReply \<Rightarrow> [TString, TInt]
      | PlasmaDeleteRequest \<Rightarrow> [TInt, TStrings]
      | PlasmaDeleteReply \<Rightarrow> [TInt, TStrings, TInts]
      | PlasmaContainsRequest \<Rightarrow> [TString]
      | PlasmaContainsReply \<Rightarrow> [TString, TInt]
      | PlasmaListReply \<Rightarrow> [TInfos]
      | PlasmaConnectReply \<Rightarrow> [TLong]
      | PlasmaEvictRequest \<Rightarrow> [TULong]
      | PlasmaEvictReply \<Rightarrow> [TULong]
      | PlasmaNotification \<Rightarrow> [TInfos]
      | PlasmaDataRequest \<Rightarrow> [TString, TString, TInt]
      | PlasmaDataReply \<Rightarrow> [TString, TULong, TULong]
      | PlasmaRefreshLRURequest \<Rightarrow> [TStrings]
      | _ \<Rightarrow> [])"

definition well_typed :: "MessageType \<Rightarrow> fb_table \<Rightarrow> bool" where
  "well_typed mt t \<longleftrightarrow> table_typed slot_typed (message_schema mt) t"

section \<open>What the Send functions build\<close>

definition object_typed :: "PlasmaObject \<Rightarrow> bool" where
  "object_typed ob \<longleftrightarrow> in_int32 (o_store_fd ob) \<and> in_int32 (o_device_num ob)"

definition entry_typed :: "ObjectTableEntry \<Rightarrow> bool" where
  "entry_typed e \<longleftrightarrow> in_int64 (e_data_size e) \<and> in_int64 (e_metadata_size e) \<and> in_int32 (e_ref_count e) \<and>
     in_int64 (e_create_time e) \<and> in_int64 (e_construct_duration e)"

text \<open>The messages of each Send function, for arguments in the range of their C++ types.\<close>

inductive built :: "MessageType \<times> fb_table \<Rightarrow> bool" where
  "in_int64 n \<Longrightarrow> built (SendSetOptionsRequest Pair name n)"
| "built (SendSetOptionsReply Pair err)"
| "built (SendGetDebugStringRequest Pair)"
| "built (SendGetDebugStringReply Pair txt)"
| "in_int32 dev \<Longrightarrow> built (SendCreateRequest Pair i ev ds ms dev)"
| "object_typed ob \<Longrightarrow> in_int64 n \<Longrightarrow> SendCreateReply Pair i ob err n = Inr m \<Longrightarrow> built m"
| "built (SendCreateAndSealRequest Pair i ev data md digest)"
| "built (SendCreateAndSealReply Pair err)"
| "built (SendCreateAndSealBatchRequest Pair ids ev datas mds digests)"
| "built (SendCreateAndSealBatchReply Pair err)"
| "built (SendAbortRequest Pair i)"
| "built (SendAbortReply Pair i)"
| "built (SendSealRequest Pair i digest)"
| "built (SendSealReply Pair i err)"
| "in_int64 timeout \<Longrightarrow> built (SendGetRequest Pair ids k timeout)"
| "list_all (object_typed \<circ> snd) obs \<Longrightarrow> list_all in_int32 fds \<Longrightarrow> list_all in_int64 sizes \<Longrightarrow>
     built (SendGetReply Pair ids obs k fds sizes)"
| "built (SendReleaseRequest Pair i)"
| "built (SendReleaseReply Pair i err)"
| "built (SendDeleteRequest Pair ids)"
| "built (SendDeleteReply Pair ids errs)"
| "built (SendContainsRequest Pair i)"
| "built (SendContainsReply Pair i has)"
| "built (SendListRequest Pair)"
| "list_all (entry_typed \<circ> snd) table \<Longrightarrow> built (SendListReply Pair table)"
| "built (SendConnectRequest Pair)"
| "in_int64 n \<Longrightarrow> built (SendConnectReply Pair n)"
| "built (SendEvictRequest Pair n)"
| "built (SendEvictReply Pair n)"
| "built (SendSubscribeRequest Pair)"
| "in_int32 port \<Longrightarrow> built (SendDataRequest Pair i addr port)"
| "built (SendDataReply Pair i ds ms)"
| "built (SendRefreshLRURequest Pair ids)"
| "built (SendRefreshLRUReply Pair)"

section \<open>What the Read functions do\<close>

text \<open>The reader of each message type, for a caller that expects \<open>n\<close> objects in a get reply.\<close>

definition reads :: "nat \<Rightarrow> MessageType \<Rightarrow> fb_table \<Rightarrow> unit res" where
  "reads n mt t =
     (case mt of
        PlasmaSetOptionsRequest \<Rightarrow> rbind (ReadSetOptionsRequest t) (\<lambda>_. Inr ())
      | PlasmaSetOptionsReply \<Rightarrow> rbind (ReadSetOptionsReply t) (\<lambda>_. Inr ())
      | PlasmaGetDebugStringReply \<Rightarrow> rbind (ReadGetDebugStringReply t) (\<lambda>_. Inr ())
      | PlasmaCreateRequest \<Rightarrow> rbind (ReadCreateRequest t) (\<lambda>_. Inr ())
      | PlasmaCreateReply \<Rightarrow> rbind (ReadCreateReply t) (\<lambda>_. Inr ())
      | PlasmaCreateAndSealRequest \<Rightarrow> rbind (ReadCreateAndSealRequest t) (\<lambda>_. Inr ())
      | PlasmaCreateAndSealReply \<Rightarrow> rbind (ReadCreateAndSealReply t) (\<lambda>_. Inr ())
      | PlasmaCreateAndSealBatchRequest \<Rightarrow> rbind (ReadCreateAndSealBatchRequest t) (\<lambda>_. Inr ())
      | PlasmaCreateAndSealBatchReply \<Rightarrow> rbind (ReadCreateAndSealBatchReply t) (\<lambda>_. Inr ())
      | PlasmaAbortRequest \<Rightarrow> rbind (ReadAbortRequest t) (\<lambda>_. Inr ())
      | PlasmaAbortReply \<Rightarrow> rbind (ReadAbortReply t) (\<lambda>_. Inr ())
      | PlasmaSealRequest \<Rightarrow> rbind (ReadSealRequest t) (\<lambda>_. Inr ())
      | PlasmaSealReply \<Rightarrow> rbind (ReadSealReply t) (\<lambda>_. Inr ())
      | PlasmaGetRequest \<Rightarrow> rbind (ReadGetRequest t) (\<lambda>_. Inr ())
      | PlasmaGetReply \<Rightarrow> rbind (ReadGetReply t n) (\<lambda>_. Inr ())
      | PlasmaReleaseRequest \<Rightarrow> rbind (ReadReleaseRequest t) (\<lambda>_. Inr ())
      | PlasmaReleaseReply \<Rightarrow> rbind (ReadReleaseReply t) (\<lambda>_. Inr ())
      | PlasmaDeleteRequest \<Rightarrow> rbind (ReadDeleteRequest t) (\<lambda>_. Inr ())
      | PlasmaDeleteReply \<Rightarrow> rbind (ReadDeleteReply t) (\<lambda>_. Inr ())
      | PlasmaContainsRequest \<Rightarrow> rbind (ReadContainsRequest t) (\<lambda>_. Inr ())
      | PlasmaContainsReply \<Rightarrow> rbind (ReadContainsReply t) (\<lambda>_. Inr ())
      | PlasmaListRequest \<Rightarrow> ReadListRequest t
      | PlasmaListReply \<Rightarrow> rbind (ReadListReply t []) (\<lambda>_. Inr ())
      | PlasmaConnectRequest \<Rightarrow> ReadConnectRequest t
      | PlasmaConnectReply \<Rightarrow> rbind (ReadConnectReply t) (\<lambda>_. Inr ())
      | PlasmaEvictRequest \<Rightarrow> rbind (ReadEvictRequest t) (\<lambda>_. Inr ())
      | PlasmaEvictReply \<Rightarrow> rbind (ReadEvictReply t) (\<lambda>_. Inr ())
      | PlasmaDataRequest \<Rightarrow> rbind (ReadDataRequest t) (\<lambda>_. Inr ())
      | PlasmaDataReply \<Rightarrow> rbind (ReadDataReply t) (\<lambda>_. Inr ())
      | PlasmaRefreshLRURequest \<Rightarrow> rbind (ReadRefreshLRURequest t) (\<lambda>_. Inr ())
      | PlasmaRefreshLRUReply \<Rightarrow> ReadRefreshLRUReply t
      | _ \<Rightarrow> Inr ())"

section \<open>Type safety\<close>

lemma fb_field_tl [simp]: "fb_field (tl t) i = fb_field t (Suc i)"
  by (cases t) (simp_all add: fb_field_def)

lemma fb_field_Cons [simp]: "fb_field (x # t) 0 = x" "fb_field (x # t) (Suc i) = fb_field t i" "fb_field [] i = FbAbsent"
  by (simp_all add: fb_field_def)

lemma table_typed_simps [simp]:
  "table_typed typed [] t"
  "table_typed typed (ty # tys) t \<longleftrightarrow> typed ty (fb_field t 0) \<and> table_typed typed tys (tl t)"
  by (auto simp: table_typed_def nth_Cons less_Suc_eq_0_disj split: nat.splits)

text \<open>The values the senders compute are in range.\<close>

lemma sent_in_range [simp]:
  "in_int32 (pe_code err)" "in_uint64 (int (uint64_of n))" "in_int32 (int32_of n)" "in_int32 1" "in_int32 0"
  by (cases err) (simp_all add: in_int32_def in_uint64_def uint64_of_def int32_of_def)

lemma spec_of_typed [simp]: "object_typed ob \<Longrightarrow> spec_typed (spec_of ob)"
  by (simp add: spec_typed_def spec_of_def object_typed_def)

lemma store_fd_typed [simp]: "object_typed ob \<Longrightarrow> in_int32 (o_store_fd ob)"
  by (simp add: object_typed_def)

lemma object_at_typed [simp]: "list_all (object_typed \<circ> snd) obs \<Longrightarrow> object_typed (object_at obs i)"
proof (cases "map_of obs i")
  case (Some ob)
  assume "list_all (object_typed \<circ> snd) obs"
  with map_of_SomeD [OF Some] show ?thesis by (auto simp: object_at_def Some list_all_iff)
qed (simp add: object_at_def object_typed_def zero_PlasmaObject_def)

lemma list_info_typed: "entry_typed (snd p) \<Longrightarrow> table_typed base_typed info_schema (list_info p)"
  by (cases p) (simp add: info_schema_def list_info_def entry_typed_def base_typed_def)

lemma built_typed: "built m \<Longrightarrow> well_typed (fst m) (snd m)"
  by (induction rule: built.induct)
     (auto simp: well_typed_def message_schema_def slot_typed_def base_typed_def list_all_iff
       SendSetOptionsRequest_def SendSetOptionsReply_def SendGetDebugStringRequest_def SendGetDebugStringReply_def
       SendCreateRequest_def SendCreateReply_def SendCreateAndSealRequest_def SendCreateAndSealReply_def
       SendCreateAndSealBatchRequest_def SendCreateAndSealBatchReply_def SendAbortRequest_def SendAbortReply_def
       SendSealRequest_def SendSealReply_def SendGetRequest_def SendGetReply_def SendReleaseRequest_def
       SendReleaseReply_def SendDeleteRequest_def SendDeleteReply_def SendContainsRequest_def SendContainsReply_def
       SendListRequest_def SendListReply_def SendConnectRequest_def SendConnectReply_def SendEvictRequest_def
       SendEvictReply_def SendSubscribeRequest_def SendDataRequest_def SendDataReply_def SendRefreshLRURequest_def
       SendRefreshLRUReply_def ToFlatbuffer_ids_def ToFlatbuffer_strings_def rbind_eq_Inr
       intro!: spec_of_typed object_at_typed list_info_typed)

text \<open>Reading a field of the wrong type, or one that is not there, are the faults in question.\<close>

definition typed_read :: "'a res \<Rightarrow> bool" where
  "typed_read r \<longleftrightarrow> r \<noteq> Inl BadTable \<and> r \<noteq> Inl NullDeref"

lemma typed_bind: "typed_read m \<Longrightarrow> (\<And>x. m = Inr x \<Longrightarrow> typed_read (f x)) \<Longrightarrow> typed_read (rbind m f)"
  by (cases m) (auto simp: typed_read_def)

lemma typed_leaf [simp]:
  "typed_read (Inr x)" "typed_read (check b msg)" "typed_read (from_binary bs)" "typed_read (vec_get xs k)"
  "typed_read (PlasmaErrorStatus n)" "typed_read (Inl LengthError)"
  by (simp_all add: typed_read_def check_def from_binary_def vec_get_def PlasmaErrorStatus_def)

lemma typed_rmap: "(\<And>x. typed_read (f x)) \<Longrightarrow> typed_read (rmap f xs)"
  by (induction xs) (auto intro!: typed_bind)

lemma typed_rfold: "(\<And>x a. x \<in> set xs \<Longrightarrow> typed_read (f x a)) \<Longrightarrow> typed_read (rfold f xs a)"
  by (induction xs arbitrary: a) (auto intro!: typed_bind)

lemma typed_vectors [simp]:
  "typed_read (nth_id ids k)" "typed_read (ToVector n (nth_id ids))" "typed_read (ToVector n (vec_get xs))"
  "typed_read (ConvertToVector bs from_binary)" "typed_read (rmap (nth_id ids) ks)"
  "typed_read (rmap (\<lambda>k. rbind (vec_get xs k) (\<lambda>s. Inr (g s))) ks)"
  by (auto simp: nth_id_def ToVector_def ConvertToVector_def intro!: typed_bind typed_rmap)

text \<open>A slot of the type of the schema is read.\<close>

lemma base_slots:
  "base_typed TString slot \<Longrightarrow> typed_read (slot_string slot)"
  "base_typed ty slot \<Longrightarrow> ty \<in> {TBool, TInt, TLong, TULong} \<Longrightarrow> typed_read (slot_scalar slot)"
  by (cases slot; auto simp: base_typed_def typed_read_def)+

lemma typed_slots:
  "slot_typed TString slot \<Longrightarrow> typed_read (slot_string slot)"
  "slot_typed TBool slot \<Longrightarrow> typed_read (slot_scalar slot)" "slot_typed TInt slot \<Longrightarrow> typed_read (slot_scalar slot)"
  "slot_typed TLong slot \<Longrightarrow> typed_read (slot_scalar slot)" "slot_typed TULong slot \<Longrightarrow> typed_read (slot_scalar slot)"
  "slot_typed TStrings slot \<Longrightarrow> typed_read (slot_strings slot)"
  "slot_typed TInts slot \<Longrightarrow> typed_read (slot_ints slot)" "slot_typed TLongs slot \<Longrightarrow> typed_read (slot_ints slot)"
  "slot_typed TSpec slot \<Longrightarrow> typed_read (slot_spec slot)" "slot_typed TSpecs slot \<Longrightarrow> typed_read (slot_specs slot)"
  "slot_typed TInfos slot \<Longrightarrow> typed_read (slot_tables slot)"
  by (cases slot; auto simp: slot_typed_def base_typed_def typed_read_def)+

lemma list_entry_typed: "table_typed base_typed info_schema t \<Longrightarrow> typed_read (list_entry t)"
  unfolding list_entry_def id_field_def info_schema_def
  by (simp add: eval_nat_numeral) (intro typed_bind; auto intro: base_slots)

lemma ReadListReply_typed: "slot_typed TInfos (fb_field t 0) \<Longrightarrow> typed_read (ReadListReply t objs)"
  unfolding ReadListReply_def
  by (rule typed_bind, erule typed_slots)
     (cases "fb_field t 0"; auto simp: slot_typed_def base_typed_def list_all_iff intro!: typed_rfold typed_bind list_entry_typed)

lemmas read_defs = ReadSetOptionsRequest_def ReadSetOptionsReply_def ReadGetDebugStringReply_def ReadCreateRequest_def
  ReadCreateReply_def ReadCreateAndSealRequest_def ReadCreateAndSealReply_def ReadCreateAndSealBatchRequest_def
  ReadCreateAndSealBatchReply_def ReadAbortRequest_def ReadAbortReply_def ReadSealRequest_def ReadSealReply_def
  ReadGetRequest_def ReadGetReply_def ReadReleaseRequest_def ReadReleaseReply_def ReadDeleteRequest_def
  ReadDeleteReply_def ReadContainsRequest_def ReadContainsReply_def ReadListRequest_def ReadConnectRequest_def
  ReadConnectReply_def ReadEvictRequest_def ReadEvictReply_def ReadDataRequest_def ReadDataReply_def
  ReadRefreshLRURequest_def ReadRefreshLRUReply_def

lemma reads_typed: "well_typed mt t \<Longrightarrow> typed_read (reads n mt t)"
  unfolding well_typed_def
  by (cases mt; simp add: message_schema_def reads_def eval_nat_numeral id_field_def read_defs)
     (intro typed_bind ReadListReply_typed; (elim conjE)?; (simp | erule typed_slots | assumption))+



end
