(* ===== verification/Client_Digest.thy ===== *)
theory Client_Digest
  imports Client
begin

text \<open>
  The digest of an object: the parallel computation of client.cc gives the same hash for every
  order in which the thread pool runs the tasks, its chunks are a partition of the data, and the
  result is a fixed function of the bytes written with the one-shot \<open>XXH64\<close>.
\<close>

section \<open>Chunks and tasks\<close>

lemma concat_chunks: "concat (map (\<lambda>i. take c (drop (i * c) xs)) [0 ..< n]) = take (c * n) xs"
proof (induction n)
  case (Suc n)
  then show ?case by (simp add: take_add [symmetric] mult.commute [of n] add.commute [of c])
qed simp

text \<open>The chunks are the data, cut into nine pieces.\<close>

lemma hash_chunks_partition: "concat (map (hash_chunk data) [0 ..< Suc kHashingConcurrency]) = data"
proof -
  let ?c = "hash_chunk_size data" and ?n = kHashingConcurrency
  have "map (hash_chunk data) [0 ..< ?n] = map (\<lambda>i. take ?c (drop (i * ?c) data)) [0 ..< ?n]"
    by (rule map_cong) (simp_all add: hash_chunk_def Let_def)
  then have "concat (map (hash_chunk data) [0 ..< ?n]) = take (?c * ?n) data" by (simp only: concat_chunks)
  moreover have "hash_chunk data ?n = drop (?c * ?n) data" by (simp add: hash_chunk_def Let_def)
  ultimately show ?thesis by simp
qed

lemma hash_tasks_nth:
  "length stack = n \<Longrightarrow> i < n \<Longrightarrow>
     fold (hash_task data) schedule stack ! i =
       (if i \<in> set schedule then ComputeBlockHash (hash_chunk data i) else stack ! i)"
proof (induction schedule arbitrary: stack)
  case (Cons j schedule)
  then show ?case by (auto simp: hash_task_def nth_list_update)
qed simp

lemma length_hash_tasks: "length (fold (hash_task data) schedule stack) = length stack"
  by (induction schedule arbitrary: stack) (simp_all add: hash_task_def)

lemma hash_tasks_all:
  assumes "length stack = n" and "{..< n} \<subseteq> set schedule"
  shows "fold (hash_task data) schedule stack = map (\<lambda>i. ComputeBlockHash (hash_chunk data i)) [0 ..< n]"
  using assms hash_tasks_nth [of stack n _ data schedule] by (intro nth_equalityI) (auto simp: length_hash_tasks)

section \<open>The digest\<close>

lemma hash_chunk_length: "length (hash_chunk data i) \<le> length data"
  by (simp add: hash_chunk_def Let_def min_le_iff_disj)

lemma ComputeBlockHash_XXH64: "length data < 2 ^ 64 \<Longrightarrow> ComputeBlockHash data = XXH64 data 0"
  using xxh_fed_digest [OF conjunct2 [OF xxh_fed_update [OF xxh_fed_reset]], of data 0]
  by (simp add: ComputeBlockHash_def)

lemma two_updates:
  "length (a @ b) < 2 ^ 64 \<Longrightarrow>
     XXH64_digest (snd (XXH64_update (snd (XXH64_update (XXH64_reset 0) (Some a))) (Some b))) = XXH64 (a @ b) 0"
  using xxh_fed_digest [OF conjunct2 [OF xxh_fed_update [OF conjunct2 [OF xxh_fed_update [OF xxh_fed_reset]]]], of a b 0]
  by simp

text \<open>What is hashed instead of the data of a large object: the hashes of its chunks.\<close>

definition chunk_hashes :: "byte list \<Rightarrow> byte list" where
  "chunk_hashes data = concat (map (\<lambda>i. le_bytes 8 (uint (XXH64 (hash_chunk data i) 0))) [0 ..< 9])"

lemma length_chunk_hashes [simp]: "length (chunk_hashes data) = 72"
  by (simp add: chunk_hashes_def length_concat comp_def upt_rec)

lemma parallel_chunk_hashes:
  assumes "length stack = 9" and "{..< 9} \<subseteq> set schedule" and "length data < 2 ^ 64"
  shows "ComputeObjectHashParallel schedule stack st data = snd (XXH64_update st (Some (chunk_hashes data)))"
proof -
  have "ComputeBlockHash (hash_chunk data i) = XXH64 (hash_chunk data i) 0" for i
    using hash_chunk_length [of data i] assms(3) by (intro ComputeBlockHash_XXH64) simp
  then show ?thesis
    using hash_tasks_all [OF assms(1,2), of data]
    by (simp add: ComputeObjectHashParallel_def chunk_hashes_def Let_def comp_def)
qed

text \<open>
  C18. The digest a client computes is a function of the bytes of the object alone: whatever the
  order in which the thread pool runs the hashing tasks and whatever the stack held before, an
  object of less than a megabyte has the hash of data and metadata, and a larger one the hash of
  the hashes of nine chunks, which are the data cut into pieces, and of the metadata.
\<close>
theorem object_hash_reference:
  assumes "set schedule = {..< Suc kHashingConcurrency}" and "length stack = Suc kHashingConcurrency"
    and "length data + length metadata < 2 ^ 63"
  shows "ComputeObjectHashCPU schedule stack data metadata =
      XXH64 ((if int (length data) < kBytesInMB then data
              else concat (map (\<lambda>i. le_bytes 8 (uint (XXH64 (hash_chunk data i) 0))) [0 ..< 9])) @ metadata) 0 \<and>
    concat (map (hash_chunk data) [0 ..< 9]) = data"
proof
  have *: "length data < 2 ^ 64" "length (data @ metadata) < 2 ^ 64" "length (chunk_hashes data @ metadata) < 2 ^ 64"
    using assms(3) by simp_all
  have "ComputeObjectHashParallel schedule stack (XXH64_reset 0) data
      = snd (XXH64_update (XXH64_reset 0) (Some (chunk_hashes data)))"
    by (rule parallel_chunk_hashes) (use assms(1,2) * in \<open>simp_all add: kHashingConcurrency_def\<close>)
  then show "ComputeObjectHashCPU schedule stack data metadata =
      XXH64 ((if int (length data) < kBytesInMB then data
              else concat (map (\<lambda>i. le_bytes 8 (uint (XXH64 (hash_chunk data i) 0))) [0 ..< 9])) @ metadata) 0"
    using two_updates [OF *(2)] two_updates [OF *(3)]
    by (simp add: ComputeObjectHashCPU_def Let_def flip: chunk_hashes_def)
  show "concat (map (hash_chunk data) [0 ..< 9]) = data"
    using hash_chunks_partition [of data] by (simp add: kHashingConcurrency_def)
qed

theorem object_hash_reference_witness:
  "ComputeObjectHashCPU [8, 3, 5, 0, 1, 7, 2, 4, 6] (replicate 9 77) [1, 2, 3] [4] = XXH64 [1, 2, 3, 4] 0"
proof -
  have "set [8, 3, 5, 0, 1, 7, 2, 4, 6] = {..< Suc kHashingConcurrency}"
    by (auto simp: kHashingConcurrency_def)
  from object_hash_reference [OF this, of "replicate 9 77" "[1, 2, 3]" "[4]"] show ?thesis
    by (simp add: kHashingConcurrency_def kBytesInMB_def)
qed

end
