(* ===== verification/Client_Use.thy ===== *)
theory Client_Use
  imports Client
begin

text \<open>
  What a client may assume of its own bookkeeping, whatever the store answers: every call moves
  the use of each object along the steps of \<open>use_step\<close>, and a file that is mapped stays mapped
  where it is.
\<close>

section \<open>Effects of calls\<close>

definition csteps :: "('w client \<Rightarrow> 'w client \<Rightarrow> bool) \<Rightarrow> ('a, 'w) call \<Rightarrow> bool" where
  "csteps R m \<longleftrightarrow> (\<forall>s r s'. m s = Inr (r, s') \<longrightarrow> R s s')"

lemma cstepsI: "(\<And>s r s'. m s = Inr (r, s') \<Longrightarrow> R s s') \<Longrightarrow> csteps R m"
  by (simp add: csteps_def)

lemma cstepsD: "csteps R m \<Longrightarrow> m s = Inr (r, s') \<Longrightarrow> R s s'"
  by (simp add: csteps_def)

lemma case_sum_eq:
  "(case r of Inl a \<Rightarrow> f a | Inr b \<Rightarrow> g b) = y \<longleftrightarrow> (\<exists>a. r = Inl a \<and> f a = y) \<or> (\<exists>b. r = Inr b \<and> g b = y)"
  by (cases r) simp_all

lemma cbind_Inr:
  "cbind m f s = Inr (r, s') \<longleftrightarrow>
     (\<exists>st. m s = Inr (Inl st, s') \<and> r = Inl st) \<or> (\<exists>x t. m s = Inr (Inr x, t) \<and> f x t = Inr (r, s'))"
  by (auto simp: cbind_def rbind_eq_Inr case_sum_eq)

lemma ccheck_Inr: "ccheck b msg s = Inr (r, s') \<longleftrightarrow> b \<and> r = Inr () \<and> s' = s"
  by (auto simp: ccheck_def check_def)

lemma clift_Inr: "clift m s = Inr (r, s') \<longleftrightarrow> (\<exists>x. m = Inr x \<and> r = Inr x \<and> s' = s)"
  by (auto simp: clift_def rbind_eq_Inr)

lemma return_not_ok_Inr:
  "return_not_ok st s = Inr (r, s') \<longleftrightarrow> s' = s \<and> r = (if st_ok st then Inr () else Inl st)"
  by (auto simp: return_not_ok_def)

lemma with_world_Inr:
  "with_world f s = Inr (r, s') \<longleftrightarrow> r = Inr (fst (f (world s))) \<and> s' = s\<lparr>world := snd (f (world s))\<rparr>"
  by (auto simp: with_world_def split: prod.splits)

lemma set_use_Inr:
  "set_use i e s = Inr (r, s') \<longleftrightarrow> r = Inr () \<and> s' = s\<lparr>objects_in_use := AList.update i e (objects_in_use s)\<rparr>"
  by (auto simp: set_use_def)

lemmas call_Inr = set_use_Inr cbind_Inr ccheck_Inr clift_Inr return_not_ok_Inr with_world_Inr cret_def

text \<open>
  The interface of the bookkeeping: a relation that holds for the elementary changes of a client
  holds for every call.
\<close>

locale client_effect =
  fixes R :: "'w client \<Rightarrow> 'w client \<Rightarrow> bool"
  assumes frame: "mmap_table s' = mmap_table s \<Longrightarrow> objects_in_use s' = objects_in_use s \<Longrightarrow> R s s'"
    and trans: "R s t \<Longrightarrow> R t u \<Longrightarrow> R s u"
    and mapping: "map_of (mmap_table s) k = None \<Longrightarrow> R s (s\<lparr>mmap_table := AList.update k x (mmap_table s)\<rparr>)"
    and acquire: "map_of (objects_in_use s) i = None \<Longrightarrow>
      R s (s\<lparr>objects_in_use := AList.update i \<lparr>u_count = 1, u_object = ob, u_is_sealed = b\<rparr> (objects_in_use s)\<rparr>)"
    and more: "map_of (objects_in_use s) i = Some e \<Longrightarrow> 0 < u_count e \<Longrightarrow>
      R s (s\<lparr>objects_in_use := AList.update i (e\<lparr>u_count := u_count e + 1\<rparr>) (objects_in_use s)\<rparr>)"
    and less: "map_of (objects_in_use s) i = Some e \<Longrightarrow> 1 < u_count e \<Longrightarrow>
      R s (s\<lparr>objects_in_use := AList.update i (e\<lparr>u_count := u_count e - 1\<rparr>) (objects_in_use s)\<rparr>)"
    and last: "map_of (objects_in_use s) i = Some e \<Longrightarrow> u_count e = 1 \<Longrightarrow>
      R s (s\<lparr>objects_in_use := AList.delete i (objects_in_use s)\<rparr>)"
    and sealed: "map_of (objects_in_use s) i = Some e \<Longrightarrow> \<not> u_is_sealed e \<Longrightarrow>
      R s (s\<lparr>objects_in_use := AList.update i (e\<lparr>u_is_sealed := True\<rparr>) (objects_in_use s)\<rparr>)"
begin

lemma refl: "R s s"
  by (rule frame) simp_all

lemma ret: "csteps R (cret x)"
  by (simp add: csteps_def cret_def refl)

lemma bind: "csteps R m \<Longrightarrow> (\<And>x. csteps R (f x)) \<Longrightarrow> csteps R (cbind m f)"
  by (rule cstepsI) (auto simp: cbind_Inr dest: cstepsD intro: trans)

lemma check: "csteps R (ccheck b msg)"
  by (auto simp: csteps_def ccheck_Inr refl)

lemma lift: "csteps R (clift m)"
  by (auto simp: csteps_def clift_Inr refl)

lemma status: "csteps R (return_not_ok st)"
  by (auto simp: csteps_def return_not_ok_Inr refl)

lemma outside: "csteps R (with_world f)"
  by (auto simp: csteps_def with_world_Inr intro: frame)

lemma state: "(\<And>s. csteps R (f s)) \<Longrightarrow> csteps R (\<lambda>s. f s s)"
  by (simp add: csteps_def)

lemma each: "(\<And>x. csteps R (f x)) \<Longrightarrow> csteps R (cmap f xs)"
  by (induction xs) (auto intro!: ret bind)

lemma conn: "csteps R (\<lambda>s. with_world (f (store_conn s)) s)"
  by (rule state, rule outside)

lemma send: "csteps R (request P mt t)"
  unfolding request_def by (intro bind status conn)

lemma reply: "csteps R (read_reply P)"
  unfolding read_reply_def by (auto intro!: bind status ret conn split: prod.splits)

lemma received: "csteps R (receive P mt)"
  unfolding receive_def by (auto intro!: bind check ret reply split: prod.splits)

lemmas basic = ret bind check lift status outside each conn send reply received

lemma mapped:
  assumes "map_of (mmap_table s) k = None" and "mmap_table s' = AList.update k x (mmap_table s)"
    and "objects_in_use s' = objects_in_use s"
  shows "R s s'"
  by (rule trans [OF mapping [OF assms(1), of x] frame]) (simp_all add: assms)

lemma map_entry: "csteps R (LookupOrMmap P fd k n)"
proof (rule cstepsI)
  fix s :: "'w client" and r s'
  assume run: "LookupOrMmap P fd k n s = Inr (r, s')"
  show "R s s'"
  proof (cases "map_of (mmap_table s) k")
    case None
    with run show ?thesis
      by (auto simp: LookupOrMmap_def new_ClientMmapTableEntry_def Let_def call_Inr split: option.splits
          intro!: mapped)
  qed (use run in \<open>auto simp: LookupOrMmap_def refl\<close>)
qed

lemma store_fd: "csteps R (GetStoreFd P k)"
  by (rule cstepsI) (auto simp: GetStoreFd_def call_Inr refl split: option.splits intro: frame)

lemma mapped_file: "csteps R (LookupMmappedFile k)"
  by (rule cstepsI) (auto simp: LookupMmappedFile_def refl split: option.splits)

lemma count_up: "csteps R (IncrementObjectCount i ob b)"
  by (rule cstepsI) (auto simp: IncrementObjectCount_def call_Inr split: option.splits intro: acquire more)

lemma delete: "csteps R (Client_Delete P ids)"
proof (rule cstepsI)
  fix s :: "'w client" and r s'
  assume run: "Client_Delete P ids s = Inr (r, s')"
  let ?t = "s\<lparr>cl_deletion_cache := fold List.insert (filter (\<lambda>i. map_of (objects_in_use s) i \<noteq> None) ids)
    (cl_deletion_cache s)\<rparr>"
  have "csteps R (cbind (SendDeleteRequest (request P) ns) (\<lambda>_. cbind (receive P PlasmaDeleteReply) (\<lambda>t.
      cbind (clift (ReadDeleteReply t)) (\<lambda>_. cret ()))))" for ns
    by (auto simp: SendDeleteRequest_def intro!: basic)
  with run have "R ?t s'"
    by (auto simp: Client_Delete_def Let_def cret_def refl split: if_splits dest: cstepsD)
  moreover have "R s ?t" by (rule frame) simp_all
  ultimately show "R s s'" by (blast intro: trans)
qed

lemma release: "csteps R (Client_Release P i)"
proof (rule cstepsI)
  fix s :: "'w client" and r s'
  assume run: "Client_Release P i s = Inr (r, s')"
  show "R s s'"
  proof (cases "s' = s")
    case False
    with run obtain e where e: "map_of (objects_in_use s) i = Some e" and pos: "0 \<le> u_count e - 1"
      by (auto simp: Client_Release_def call_Inr split: option.splits if_splits)
    show ?thesis
    proof (cases "u_count e = 1")
      case True
      let ?t = "s\<lparr>objects_in_use := AList.delete i (objects_in_use s)\<rparr>"
      from run e True False obtain t where t: "R ?t t"
        and s': "s' = t \<or> R (t\<lparr>cl_deletion_cache := removeAll i (cl_deletion_cache t)\<rparr>) s'"
        by (auto simp: Client_Release_def MarkObjectUnused_def SendReleaseRequest_def call_Inr update_conv'
            delete_update_same dest!: cstepsD [OF send] cstepsD [OF delete] split: if_splits)
      have "R t (t\<lparr>cl_deletion_cache := removeAll i (cl_deletion_cache t)\<rparr>)" by (rule frame) simp_all
      with t s' have "R ?t s'" by (blast intro: trans)
      with last [OF e True] show ?thesis by (rule trans)
    next
      case two: False
      then have "s' = s\<lparr>objects_in_use := AList.update i (e\<lparr>u_count := u_count e - 1\<rparr>) (objects_in_use s)\<rparr>"
        using run e pos False by (auto simp: Client_Release_def call_Inr split: if_splits)
      with less [OF e] pos two show ?thesis by simp
    qed
  qed (simp add: refl)
qed

lemma create: "csteps R (Client_Create P i ds md ms dev ev)"
  unfolding Client_Create_def SendCreateRequest_def Let_def
  by (auto intro!: basic count_up map_entry store_fd split: prod.splits option.splits)

lemma buffer: "csteps R (make_buffer wrap ob)"
  unfolding make_buffer_def Let_def by (auto intro!: basic mapped_file)

lemma local_buffer: "csteps R (local_buffer wrap timeout i)"
proof -
  have 1: "csteps R (cbind (ccheck c m) (\<lambda>_. cret y))" for c m and y :: "ObjectBuffer option"
    by (intro basic)
  have 2: "csteps R (cbind (make_buffer wrap ob) (\<lambda>b. cbind (IncrementObjectCount i ob True) (\<lambda>_. cret (Some b))))" for ob
    by (intro basic buffer count_up)
  show ?thesis
    by (rule cstepsI) (auto simp: local_buffer_def refl split: option.splits if_splits dest: cstepsD [OF 1] cstepsD [OF 2])
qed

lemma fetch: "csteps R (fetch_buffers P wrap ids timeout present)"
  unfolding fetch_buffers_def SendGetRequest_def map_store_fd_def received_buffer_def
  by (auto intro!: basic map_entry store_fd buffer count_up split: prod.splits)

lemma kept: "csteps R m \<Longrightarrow> csteps R (keep_output out m)"
  by (auto simp: csteps_def keep_output_def rbind_eq_Inr)

lemma get_buffers: "csteps R (GetBuffers P wrap ids timeout)"
  unfolding GetBuffers_def by (auto intro!: basic local_buffer kept fetch)

lemma get: "csteps R (Client_Get P ids timeout)" "csteps R (Client_Get_raw P ids timeout)"
  unfolding Client_Get_def Client_Get_raw_def by (rule get_buffers)+

lemma destroy: "csteps R (destroy_PlasmaBuffer P i)"
  by (rule cstepsI) (auto simp: destroy_PlasmaBuffer_def rbind_eq_Inr dest: cstepsD [OF release])

lemma hash: "csteps R (Client_Hash P i)"
proof -
  have "csteps R (\<lambda>s. cret (ComputeObjectHash P b (world s)) s)" for b
    by (rule state, rule ret)
  then show ?thesis
    unfolding Client_Hash_def by (auto intro!: basic get destroy split: prod.splits option.splits)
qed

lemma seal: "csteps R (Client_Seal P i)"
proof (rule cstepsI)
  fix s :: "'w client" and r s'
  assume run: "Client_Seal P i s = Inr (r, s')"
  have rest: "csteps R (cbind (Client_Hash P i) (\<lambda>digest. cbind (SendSealRequest (request P) i digest) (\<lambda>_.
      cbind (receive P PlasmaSealReply) (\<lambda>t. cbind (clift (ReadSealReply t)) (\<lambda>(st, sealed_id).
      cbind (return_not_ok st) (\<lambda>_. cbind (ccheck (id_eq sealed_id i) ''sealed_id == object_id'') (\<lambda>_.
      Client_Release P i)))))))"
    unfolding SendSealRequest_def by (auto intro!: basic hash release split: prod.splits)
  show "R s s'"
  proof (cases "s' = s")
    case False
    with run obtain e where e: "map_of (objects_in_use s) i = Some e" "\<not> u_is_sealed e"
      by (auto simp: Client_Seal_def return_not_ok_Inr split: option.splits if_splits)
    let ?t = "s\<lparr>objects_in_use := AList.update i (e\<lparr>u_is_sealed := True\<rparr>) (objects_in_use s)\<rparr>"
    have "R ?t s'"
    proof (rule cstepsD [OF rest])
      show "cbind (Client_Hash P i) (\<lambda>digest. cbind (SendSealRequest (request P) i digest) (\<lambda>_.
        cbind (receive P PlasmaSealReply) (\<lambda>t. cbind (clift (ReadSealReply t)) (\<lambda>(st, sealed_id).
        cbind (return_not_ok st) (\<lambda>_. cbind (ccheck (id_eq sealed_id i) ''sealed_id == object_id'') (\<lambda>_.
        Client_Release P i)))))) ?t = Inr (r, s')"
        using run e by (simp add: Client_Seal_def cbind_def [of "set_use _ _"] set_use_def)
    qed
    with sealed [OF e] show ?thesis by (rule trans)
  qed (simp add: refl)
qed

lemma abort: "csteps R (Client_Abort P i)"
proof (rule cstepsI)
  fix s :: "'w client" and r s'
  assume run: "Client_Abort P i s = Inr (r, s')"
  have rest: "csteps R (cbind (read_reply P) (\<lambda>(_, t). cbind (clift (ReadAbortReply t)) (\<lambda>_. cret ())))"
    by (auto intro!: basic split: prod.splits)
  from run obtain e where e: "map_of (objects_in_use s) i = Some e"
    by (auto simp: Client_Abort_def split: option.splits)
  show "R s s'"
  proof (cases "1 < u_count e")
    case True
    with run e show ?thesis by (auto simp: Client_Abort_def call_Inr refl)
  next
    case False
    from run e obtain t where t: "request P PlasmaAbortRequest [FbString (id_binary i)] s = Inr (Inr (), t) \<or>
        (\<exists>st. request P PlasmaAbortRequest [FbString (id_binary i)] s = Inr (Inl st, t) \<and> s' = t)"
      by (auto simp: Client_Abort_def SendAbortRequest_def cbind_Inr ccheck_Inr False)
    then have st: "R s t" by (auto dest: cstepsD [OF send])
    show ?thesis
    proof (cases "s' = t")
      case True
      with st show ?thesis by simp
    next
      case new: False
      with t have r: "request P PlasmaAbortRequest [FbString (id_binary i)] s = Inr (Inr (), t)" by simp
      then have et: "map_of (objects_in_use t) i = Some e"
        using e by (auto simp: request_def call_Inr)
      from run e r False et have one: "u_count e = 1"
        and "cbind (read_reply P) (\<lambda>(_, t). cbind (clift (ReadAbortReply t)) (\<lambda>_. cret ()))
          (t\<lparr>objects_in_use := AList.delete i (objects_in_use t)\<rparr>) = Inr (r, s')"
        by (auto simp: Client_Abort_def SendAbortRequest_def cbind_def [of "ccheck _ _"] cbind_def [of "request _ _ _"]
            cbind_def [of "set_use _ _"] cbind_def [of "MarkObjectUnused _"] ccheck_def set_use_def MarkObjectUnused_def
            delete_update_same update_conv' check_def split: if_splits)
      from cstepsD [OF rest this(2)] trans [OF st last [OF et one]] show ?thesis by (blast intro: trans)
    qed
  qed
qed

lemma connect: "csteps R (Client_Connect P sock manager n)"
proof -
  have 1: "csteps R (\<lambda>s. return_not_ok st (s\<lparr>store_conn := fd\<rparr>))" for st fd
    by (rule cstepsI) (auto simp: return_not_ok_Inr intro: frame)
  have 2: "csteps R (\<lambda>s. Inr (Inr (), s\<lparr>store_capacity := k\<rparr>))" for k
    by (rule cstepsI) (auto intro: frame)
  show ?thesis
    unfolding Client_Connect_def SendConnectRequest_def by (auto intro!: basic 1 2 split: prod.splits)
qed

lemma notification: "csteps R (Client_GetNotification P fd)"
proof -
  have n: "csteps R next_notification"
    by (rule cstepsI) (auto simp: next_notification_def split: list.splits intro: frame)
  have "csteps R (\<lambda>s. next_notification (s\<lparr>pending_notification := ns\<rparr>))" for ns
    by (rule cstepsI) (auto simp: next_notification_def split: list.splits intro: frame)
  then have "csteps R (cbind (with_world (p_read_async P fd)) (\<lambda>message.
       case message of
         None \<Rightarrow> cbind (return_not_ok (IOError ''Failed to read object notification from Plasma socket''))
                  (\<lambda>_. next_notification)
       | Some t \<Rightarrow> cbind (clift (DecodeNotifications t)) (\<lambda>ns s. next_notification (s\<lparr>pending_notification := ns\<rparr>))))"
    by (auto intro!: basic n split: option.splits)
  with n show ?thesis
    by (auto simp: csteps_def Client_GetNotification_def)
qed

lemma simple_requests:
  "csteps R (Client_CreateAndSeal P i d m ev)" "csteps R (Client_List P)" "csteps R (Client_Evict P n)"
  "csteps R (Client_Refresh P ids)" "csteps R (Client_Subscribe P)" "csteps R (Client_SetClientOptions P name n)"
  "csteps R (MmapRemoteMemory P file)"
  unfolding Client_CreateAndSeal_def SendCreateAndSealRequest_def Client_List_def SendListRequest_def Client_Evict_def
    SendEvictRequest_def Client_Refresh_def SendRefreshLRURequest_def Client_Subscribe_def SendSubscribeRequest_def
    Client_SetClientOptions_def SendSetOptionsRequest_def MmapRemoteMemory_def
  by (auto intro!: basic map_entry split: prod.splits)

lemma batch: "csteps R (Client_CreateAndSealBatch P ids d m ev)"
proof -
  have "csteps R (\<lambda>s. cbind (SendCreateAndSealBatchRequest (request P) ids ev d m (batch_digests P ids d m (world s))) (\<lambda>_.
     cbind (receive P PlasmaCreateAndSealBatchReply) (\<lambda>t. cbind (clift (ReadCreateAndSealBatchReply t)) return_not_ok)) s)"
    unfolding SendCreateAndSealBatchRequest_def by (rule state, intro basic)
  then show ?thesis by (simp add: csteps_def Client_CreateAndSealBatch_def)
qed

lemma contains: "csteps R (Client_Contains P i)"
proof -
  have "csteps R (cbind (SendContainsRequest (request P) i) (\<lambda>_. cbind (receive P PlasmaContainsReply) (\<lambda>t.
      cbind (clift (ReadContainsReply t)) (\<lambda>(_, has_object). cret has_object))))"
    unfolding SendContainsRequest_def by (auto intro!: basic split: prod.splits)
  then show ?thesis by (auto simp: csteps_def Client_Contains_def refl)
qed

lemma disconnect: "csteps R (Client_Disconnect P)"
  by (rule cstepsI) (auto simp: Client_Disconnect_def intro: frame)

lemma debug: "csteps R (Client_DebugString P)"
  by (rule cstepsI)
     (auto simp: Client_DebugString_def SendGetDebugStringRequest_def rbind_eq_Inr case_sum_eq
       dest!: cstepsD [OF send] cstepsD [OF received] intro: trans)

end

section \<open>The calls of the library\<close>

datatype api =
    ApiCreate UniqueID int "byte list option" int int bool
  | ApiCreateAndSeal UniqueID "byte list" "byte list" bool
  | ApiCreateAndSealBatch "UniqueID list" "byte list list" "byte list list" bool
  | ApiGet "UniqueID list" int
  | ApiGetRaw "UniqueID list" int
  | ApiRelease UniqueID
  | ApiContains UniqueID
  | ApiList
  | ApiAbort UniqueID
  | ApiSeal UniqueID
  | ApiDelete "UniqueID list"
  | ApiEvict int
  | ApiRefresh "UniqueID list"
  | ApiHash UniqueID
  | ApiSubscribe
  | ApiGetNotification int
  | ApiConnect string string int
  | ApiSetClientOptions string int
  | ApiDisconnect
  | ApiMmapRemoteMemory string
  | ApiDebugString

text \<open>A call, with its results left out.\<close>

definition quiet :: "('a, 'w) call \<Rightarrow> (unit, 'w) call" where
  "quiet m = cbind m (\<lambda>_. cret ())"

fun api_call :: "'w peer \<Rightarrow> api \<Rightarrow> (unit, 'w) call" where
  "api_call P (ApiCreate i ds md ms dev ev) = quiet (Client_Create P i ds md ms dev ev)"
| "api_call P (ApiCreateAndSeal i d m ev) = quiet (Client_CreateAndSeal P i d m ev)"
| "api_call P (ApiCreateAndSealBatch is d m ev) = quiet (Client_CreateAndSealBatch P is d m ev)"
| "api_call P (ApiGet is n) = quiet (Client_Get P is n)"
| "api_call P (ApiGetRaw is n) = quiet (Client_Get_raw P is n)"
| "api_call P (ApiRelease i) = quiet (Client_Release P i)"
| "api_call P (ApiContains i) = quiet (Client_Contains P i)"
| "api_call P ApiList = quiet (Client_List P)"
| "api_call P (ApiAbort i) = quiet (Client_Abort P i)"
| "api_call P (ApiSeal i) = quiet (Client_Seal P i)"
| "api_call P (ApiDelete is) = quiet (Client_Delete P is)"
| "api_call P (ApiEvict n) = quiet (Client_Evict P n)"
| "api_call P (ApiRefresh is) = quiet (Client_Refresh P is)"
| "api_call P (ApiHash i) = quiet (Client_Hash P i)"
| "api_call P ApiSubscribe = quiet (Client_Subscribe P)"
| "api_call P (ApiGetNotification fd) = quiet (Client_GetNotification P fd)"
| "api_call P (ApiConnect sock manager n) = quiet (Client_Connect P sock manager n)"
| "api_call P (ApiSetClientOptions name n) = quiet (Client_SetClientOptions P name n)"
| "api_call P ApiDisconnect = quiet (Client_Disconnect P)"
| "api_call P (ApiMmapRemoteMemory file) = quiet (MmapRemoteMemory P file)"
| "api_call P ApiDebugString = quiet (Client_DebugString P)"

text \<open>A history of calls: errors are returned to the application, which goes on.\<close>

fun api_run :: "'w peer \<Rightarrow> api list \<Rightarrow> 'w client \<Rightarrow> 'w client res" where
  "api_run P [] s = Inr s"
| "api_run P (c # cs) s = rbind (api_call P c s) (\<lambda>(_, s). api_run P cs s)"

context client_effect
begin

lemma call: "csteps R (api_call P c)"
  by (cases c)
     (auto simp: quiet_def intro!: bind ret create simple_requests batch get release contains abort seal delete hash
       notification connect disconnect debug)

lemma run: "api_run P cs s = Inr s' \<Longrightarrow> R s s'"
proof (induction cs arbitrary: s)
  case (Cons c cs)
  then show ?case by (auto simp: rbind_eq_Inr dest: cstepsD [OF call] intro: trans)
qed (simp add: refl)

end

section \<open>The life of a use\<close>

inductive use_step :: "ObjectInUseEntry option \<Rightarrow> ObjectInUseEntry option \<Rightarrow> bool" where
  acquire: "use_step None (Some \<lparr>u_count = 1, u_object = ob, u_is_sealed = b\<rparr>)"
| more: "0 < u_count e \<Longrightarrow> use_step (Some e) (Some (e\<lparr>u_count := u_count e + 1\<rparr>))"
| less: "1 < u_count e \<Longrightarrow> use_step (Some e) (Some (e\<lparr>u_count := u_count e - 1\<rparr>))"
| last: "u_count e = 1 \<Longrightarrow> use_step (Some e) None"
| sealed: "\<not> u_is_sealed e \<Longrightarrow> use_step (Some e) (Some (e\<lparr>u_is_sealed := True\<rparr>))"

inductive_cases use_stepE: "use_step x y"

text \<open>Files stay mapped, and uses move along their life.\<close>

definition tracks :: "'w client \<Rightarrow> 'w client \<Rightarrow> bool" where
  "tracks s s' \<longleftrightarrow> (\<forall>k x. map_of (mmap_table s) k = Some x \<longrightarrow> map_of (mmap_table s') k = Some x) \<and>
     (\<forall>i. use_step\<^sup>*\<^sup>* (map_of (objects_in_use s) i) (map_of (objects_in_use s') i))"

lemma tracks_use:
  assumes "use_step (map_of (objects_in_use s) i) x" and "map_of (objects_in_use s') = (map_of (objects_in_use s))(i := x)"
    and "mmap_table s' = mmap_table s"
  shows "tracks s s'"
  using assms by (auto simp: tracks_def)

interpretation tracks: client_effect tracks
proof
  fix s t u :: "'w client"
  show "tracks s t \<Longrightarrow> tracks t u \<Longrightarrow> tracks s u"
    unfolding tracks_def by (blast intro: rtranclp_trans)
qed (auto simp: tracks_def update_conv' delete_conv' intro!: use_step.intros)


text \<open>A store that replies with given tables in order, and a kernel on which every call succeeds.\<close>

type_synonym script = "(MessageType \<times> fb_table) list"

definition demo_peer :: "script peer" where
  "demo_peer =
     \<lparr>p_send = (\<lambda>_ _ _ w. (Status_OK, w)),
      p_read = (\<lambda>_ w. case w of [] \<Rightarrow> ((IOError ''no reply'', 0, []), [])
                              | (mt, t) # rest \<Rightarrow> ((Status_OK, message_code mt, t), rest)),
      p_recv_fd = (\<lambda>_ w. (9, w)), p_send_fd = (\<lambda>_ _ w. (1, w)), p_close = (\<lambda>_ w. w),
      p_mmap = (\<lambda>_ _ w. (Some 8192, w)), p_munmap = (\<lambda>_ _ w. w), p_load = (\<lambda>_ n _. replicate n 0),
      p_store = (\<lambda>_ _ w. w), p_open = (\<lambda>_ w. ((-1, 0), w)), p_socketpair = (\<lambda>w. ((10, 11), w)),
      p_nonblock = (\<lambda>_ w. (0, w)), p_read_async = (\<lambda>_ w. (None, w)), p_connect = (\<lambda>_ _ _ w. ((Status_OK, 4), w)),
      p_strings = (\<lambda>_ _. [])\<rparr>"

definition demo_created_reply :: "UniqueID \<Rightarrow> MessageType \<times> fb_table" where
  "demo_created_reply i = (PlasmaCreateReply,
     [FbString (id_binary i), FbSpec \<lparr>sp_segment_index = 3, sp_data_offset = 40, sp_data_size = 10,
        sp_metadata_offset = 50, sp_metadata_size = 0, sp_device_num = 0\<rparr>, FbScalar 0, FbScalar 3, FbScalar 1000])"

lemma demo_client_create:
  "\<exists>s'. api_run demo_peer [ApiCreate (UniqueID (replicate 20 7)) 10 None 0 0 True]
       (new_client [demo_created_reply (UniqueID (replicate 20 7))]) = Inr s' \<and>
     map_option u_count (map_of (objects_in_use s') (UniqueID (replicate 20 7))) = Some 2"
  by (simp add: new_client_def quiet_def Client_Create_def SendCreateRequest_def request_def receive_def read_reply_def
      cbind_def with_world_def return_not_ok_def ccheck_def clift_def cret_def demo_peer_def demo_created_reply_def
      ReadCreateReply_def fb_field_def id_field_def from_binary_def id_binary_def kUniqueIDSize_def PlasmaErrorStatus_def
      object_of_def int64_of_def GetStoreFd_def LookupOrMmap_def new_ClientMmapTableEntry_def IncrementObjectCount_def
      Let_def)


end
