(* ===== verification/Link.thy ===== *)
theory Link
  imports Store_Liveness Client_Use
begin

text \<open>
  A client and the store at the two ends of one socket: the client library of \<open>Client\<close> on top of
  the process of \<open>Store_Dispatch\<close>.
\<close>

section \<open>The store's half of a get\<close>

text \<open>The message of the client, from the socket to the reply.\<close>

definition message_event :: "'x env \<Rightarrow> int \<Rightarrow> MessageType \<Rightarrow> fb_table \<Rightarrow> store_event" where
  "message_event env c mt t =
     EvMessage c \<lparr>ro_status = Status_OK, ro_type = message_code mt, ro_buffer = env_enc env t, ro_outs = [], ro_chan = []\<rparr>"

lemma store_answers_get:
  assumes "policy_inv (policy s)" and "\<not> mutex s" and k: "map_of (connected_clients s) c = Some k"
    and "map_of (file_callbacks (evloop s)) c = Some (ev, CbProcessMessage c)"
    and "env_root env (env_enc env t) = t" and "ReadGetRequest t = Inr (ids, timeout)"
    and pool: "\<forall>i \<in> set ids. in_pool F m s i" and "distinct ids" and "ids \<noteq> []" and "F \<noteq> -1"
    and "\<forall>n. st_ok (fst (env_send env n))" and "\<forall>n. 0 < fst (env_send_fd env n)"
  shows "\<exists>u. store_event_step env (message_event env c PlasmaGetRequest t) s = Inr ((), u) \<and> got c F ids s u \<and>
     outbox u = outbox s @ SendGetReply (SentMessage c) ids (map (\<lambda>i. (i, place_of s i)) ids) (length ids) [F] [m] #
       (if F \<in> set (c_used_fds k) then [] else [SentFd c F])"
proof -
  have "\<forall>i \<in> set ids. served s i" using pool by (auto simp: in_pool_def served_def)
  then obtain r t' where a: "answering r c ids ids s t'"
    and run: "ProcessGetRequest env c ids timeout s = ReturnFromGet env r t'"
    using get_request_answering [OF assms(1,2) _ assms(8), of c env timeout] k by blast
  from ReturnFromGet_pool [OF a pool assms(9,10) k] assms(11,12) obtain u where
    u: "ReturnFromGet env r t' = Inr ((), u)" "got c F ids s u"
     "outbox u = outbox s @ SendGetReply (SentMessage c) ids (map (\<lambda>i. (i, place_of s i)) ids) (length ids) [F] [m] #
       (if F \<in> set (c_used_fds k) then [] else [SentFd c F])" by blast
  have "store_event_step env (message_event env c PlasmaGetRequest t) s = Inr ((), u)"
    using assms(4-6) run u(1)
    by (simp add: store_event_step_def message_event_def ProcessMessage_def mbind_def mcheck_def mlift_def mret_def)
  with u show ?thesis by blast
qed

section \<open>The socket\<close>

text \<open>
  The world of a client that is linked to the store: the store process, how much of what the store
  sent to this client has been read, the descriptors the client received with the store's number
  for the same file, and whether the store still runs.
\<close>

record 'x link =
  l_store :: "'x store"
  l_taken :: nat
  l_files :: "(int \<times> int) list"
  l_up :: bool

definition to_client :: "int \<Rightarrow> sent \<Rightarrow> bool" where
  "to_client c x = (case x of SentMessage d _ _ \<Rightarrow> d = c | SentFd d _ \<Rightarrow> d = c | _ \<Rightarrow> False)"

definition link_stream :: "int \<Rightarrow> 'x link \<Rightarrow> sent list" where
  "link_stream c w = drop (l_taken w) (filter (to_client c) (outbox (l_store w)))"

lemma link_stream_next:
  "link_stream c (w\<lparr>l_taken := Suc (l_taken w)\<rparr>) = tl (link_stream c w)"
  "link_stream c (w\<lparr>l_files := fs\<rparr>) = link_stream c w"
  by (simp_all add: link_stream_def drop_Suc tl_drop)

lemma stream_more: "link_stream c w \<noteq> [] \<Longrightarrow> Suc (l_taken w) \<le> length (filter (to_client c) (outbox (l_store w)))"
  by (simp add: link_stream_def)

text \<open>
  The peer of that client. The store handles a message when it arrives, and its process ends with
  the first fault. The pool is mapped at \<open>B\<close> in the client's address space and at the base pointer
  of the allocator in the store's. Nothing else can be opened or connected.
\<close>

definition link_send :: "'x env \<Rightarrow> int \<Rightarrow> MessageType \<Rightarrow> fb_table \<Rightarrow> 'x link \<Rightarrow> Status \<times> 'x link" where
  "link_send env c mt t w =
     (if \<not> l_up w then (IOError ''broken pipe'', w)
      else case store_event_step env (message_event env c mt t) (l_store w) of
        Inl _ \<Rightarrow> (Status_OK, w\<lparr>l_up := False\<rparr>)
      | Inr (_, s) \<Rightarrow> (Status_OK, w\<lparr>l_store := s\<rparr>))"

definition link_read :: "int \<Rightarrow> 'x link \<Rightarrow> (Status \<times> int \<times> fb_table) \<times> 'x link" where
  "link_read c w =
     (case link_stream c w of
        SentMessage _ mt t # _ \<Rightarrow> ((Status_OK, message_code mt, t), w\<lparr>l_taken := Suc (l_taken w)\<rparr>)
      | _ \<Rightarrow> ((IOError ''nothing to read'', 0, []), w))"

definition link_recv_fd :: "int \<Rightarrow> 'x link \<Rightarrow> int \<times> 'x link" where
  "link_recv_fd c w =
     (case link_stream c w of
        SentFd _ k # _ \<Rightarrow>
          let fd = 3 + int (length (l_files w))
          in (fd, w\<lparr>l_taken := Suc (l_taken w), l_files := (fd, k) # l_files w\<rparr>)
      | _ \<Rightarrow> (-1, w))"

definition link_address :: "nat \<Rightarrow> nat \<Rightarrow> 'x link \<Rightarrow> nat" where
  "link_address B a w = base_pointer (alloc (l_store w)) + (a - B)"

definition link_peer :: "'x env \<Rightarrow> int \<Rightarrow> nat \<Rightarrow> 'x link peer" where
  "link_peer env c B =
     \<lparr>p_send = (\<lambda>_. link_send env c), p_read = (\<lambda>_. link_read c), p_recv_fd = (\<lambda>_. link_recv_fd c),
      p_send_fd = (\<lambda>_ _ w. (-1, w)), p_close = (\<lambda>_ w. w),
      p_mmap = (\<lambda>fd _ w. (if map_of (l_files w) fd = Some (pa_fd (alloc (l_store w))) then Some B else None, w)),
      p_munmap = (\<lambda>_ _ w. w),
      p_load = (\<lambda>a n w. buffer_bytes (l_store w) (link_address B a w) n),
      p_store = (\<lambda>a bs w. w\<lparr>l_store := (l_store w)\<lparr>memory := mem_write (link_address B a w) bs (memory (l_store w))\<rparr>\<rparr>),
      p_open = (\<lambda>_ w. ((-1, 0), w)), p_socketpair = (\<lambda>w. ((-1, -1), w)), p_nonblock = (\<lambda>_ w. (-1, w)),
      p_read_async = (\<lambda>_ w. (None, w)), p_connect = (\<lambda>_ _ _ w. ((IOError ''connect'', -1), w)),
      p_strings = (\<lambda>_ _. [])\<rparr>"

text \<open>
  The two ends are in step: everything sent has been read, the client has the pool mapped exactly
  when the store believes it has sent the descriptor, and the store knows the client as a user of
  every object the client uses.
\<close>

definition in_step :: "int \<Rightarrow> nat \<Rightarrow> 'x link client \<Rightarrow> bool" where
  "in_step c B s \<longleftrightarrow> (let w = world s; S = l_store w in
     l_up w \<and> link_stream c w = [] \<and> l_taken w \<le> length (filter (to_client c) (outbox S)) \<and>
     (\<exists>k. map_of (connected_clients S) c = Some k \<and>
        (case map_of (mmap_table s) (pa_fd (alloc S)) of
           None \<Rightarrow> pa_fd (alloc S) \<notin> set (c_used_fds k)
         | Some me \<Rightarrow> pa_fd (alloc S) \<in> set (c_used_fds k) \<and> mm_pointer me = B)) \<and>
     (\<forall>i. map_of (objects_in_use s) i \<noteq> None \<longrightarrow> c \<in> users S i))"

section \<open>The client's half of a get\<close>

definition buffer_at :: "bool \<Rightarrow> nat \<Rightarrow> PlasmaObject \<Rightarrow> ObjectBuffer" where
  "buffer_at wrap base ob =
     \<lparr>b_data = (nat (int base + o_data_offset ob), o_data_size ob),
      b_metadata = (nat (int base + o_data_offset ob + o_data_size ob), o_metadata_size ob),
      b_device_num = o_device_num ob, b_wrapped = wrap\<rparr>"

definition first_use :: "PlasmaObject \<Rightarrow> ObjectInUseEntry" where
  "first_use ob = \<lparr>u_count = 1, u_object = ob, u_is_sealed = True\<rparr>"

lemma local_none:
  "\<forall>i \<in> set ids. map_of (objects_in_use s) i = None \<Longrightarrow>
     cmap (local_buffer wrap timeout) ids s = Inr (Inr (map (\<lambda>_. None) ids), s)"
  by (induction ids) (simp_all add: cret_def cbind_def local_buffer_def)

lemma received_all:
  assumes "map_of (mmap_table s) F = Some me" and "distinct ids" and "\<forall>i \<in> set ids. map_of (objects_in_use s) i = None"
    and "\<forall>i \<in> set ids. o_device_num (ob i) = 0 \<and> o_store_fd (ob i) = F \<and> o_data_size (ob i) \<noteq> -1"
  shows "cmap (received_buffer wrap) (zip (zip ids (map ob ids)) (map (\<lambda>_. None) ids)) s =
     Inr (Inr (map (\<lambda>i. Some (buffer_at wrap (mm_pointer me) (ob i))) ids),
       s\<lparr>objects_in_use := fold (\<lambda>i. AList.update i (first_use (ob i))) ids (objects_in_use s)\<rparr>)"
  using assms
proof (induction ids arbitrary: s)
  case (Cons i ids)
  define t where "t = s\<lparr>objects_in_use := AList.update i (first_use (ob i)) (objects_in_use s)\<rparr>"
  have "received_buffer wrap ((i, ob i), None) s = Inr (Inr (Some (buffer_at wrap (mm_pointer me) (ob i))), t)"
    using Cons.prems
    by (simp add: received_buffer_def cbind_def make_buffer_def ccheck_def LookupMmappedFile_def cret_def
        IncrementObjectCount_def t_def first_use_def buffer_at_def Let_def)
  moreover have "\<forall>j \<in> set ids. map_of (objects_in_use t) j = None" "map_of (mmap_table t) F = Some me"
    using Cons.prems by (auto simp: t_def update_conv')
  ultimately show ?case using Cons.IH [of t] Cons.prems(2,4) by (simp add: cbind_def cret_def t_def)
qed (simp add: cret_def)

lemma fold_uses:
  "distinct ids \<Longrightarrow> map_of (fold (\<lambda>i. AList.update i (f i)) ids us) j = (if j \<in> set ids then Some (f j) else map_of us j)"
  by (induction ids arbitrary: us) (auto simp: update_conv')

text \<open>After the reply, the rest of the stream is the descriptor of the pool or nothing.\<close>

definition pool_mapped :: "nat \<Rightarrow> 'x link client \<Rightarrow> bool" where
  "pool_mapped B s \<longleftrightarrow> (\<exists>me. map_of (mmap_table s) (pa_fd (alloc (l_store (world s)))) = Some me \<and> mm_pointer me = B)"

lemma fetch_pool:
  assumes "F = pa_fd (alloc (l_store (world s)))"
    and "case map_of (mmap_table s) F of
        None \<Rightarrow> link_stream c (world s) = [SentFd c F]
      | Some me \<Rightarrow> link_stream c (world s) = [] \<and> mm_pointer me = B"
    and "l_taken (world s) \<le> length (filter (to_client c) (outbox (l_store (world s))))"
  shows "\<exists>fd t s'. GetStoreFd (link_peer env c B) F s = Inr (Inr fd, t) \<and> LookupOrMmap (link_peer env c B) fd F m t = Inr (Inr B, s') \<and>
     pool_mapped B s' \<and> link_stream c (world s') = [] \<and> l_store (world s') = l_store (world s) \<and> l_up (world s') = l_up (world s) \<and>
     l_taken (world s') \<le> length (filter (to_client c) (outbox (l_store (world s')))) \<and>
     objects_in_use s' = objects_in_use s \<and> store_conn s' = store_conn s"
proof (cases "map_of (mmap_table s) F")
  case None
  define w where "w = (world s)\<lparr>l_taken := Suc (l_taken (world s)),
      l_files := (3 + int (length (l_files (world s))), F) # l_files (world s)\<rparr>"
  have st: "link_stream c (world s) = [SentFd c F]" using None assms(2) by simp
  have recv: "link_recv_fd c (world s) = (3 + int (length (l_files (world s))), w)"
    by (simp add: link_recv_fd_def st w_def Let_def)
  have rest: "link_stream c w = tl (link_stream c (world s))"
    by (simp add: link_stream_next w_def)
  define e where "e = \<lparr>mm_fd = 3 + int (length (l_files (world s))), mm_pointer = B, mm_length = uint64_of (m - kMmapRegionsGap)\<rparr>"
  have "GetStoreFd (link_peer env c B) F s = Inr (Inr (3 + int (length (l_files (world s)))), s\<lparr>world := w\<rparr>)"
    using None recv by (simp add: cbind_def GetStoreFd_def with_world_def link_peer_def ccheck_def cret_def)
  moreover have "LookupOrMmap (link_peer env c B) (3 + int (length (l_files (world s)))) F m (s\<lparr>world := w\<rparr>) =
      Inr (Inr B, s\<lparr>world := w, mmap_table := AList.update F e (mmap_table s)\<rparr>)"
    using None assms(1) by (simp add: cbind_def with_world_def link_peer_def cret_def LookupOrMmap_def
        new_ClientMmapTableEntry_def Let_def e_def w_def)
  moreover have "l_taken w \<le> length (filter (to_client c) (outbox (l_store w)))"
    using stream_more [of c "world s"] st by (simp add: w_def)
  ultimately show ?thesis using assms(1) st rest by (auto simp: pool_mapped_def update_conv' w_def e_def)
next
  case (Some me)
  then have "GetStoreFd (link_peer env c B) F s = Inr (Inr (mm_fd me), s)"
    "LookupOrMmap (link_peer env c B) (mm_fd me) F m s = Inr (Inr (mm_pointer me), s)"
    by (simp_all add: GetStoreFd_def LookupOrMmap_def)
  then show ?thesis using Some assms by (auto simp: pool_mapped_def)
qed

lemma stream_send:
  assumes "link_stream c w = []" and "l_taken w \<le> length (filter (to_client c) (outbox (l_store w)))"
    and "outbox u = outbox (l_store w) @ xs"
  shows "link_stream c (w\<lparr>l_store := u\<rparr>) = filter (to_client c) xs"
  using assms by (simp add: link_stream_def)

lemma read_reply_link:
  assumes "link_stream c (world s) = SentMessage c mt t # rest"
  shows "receive (link_peer env c B) mt s = Inr (Inr t, s\<lparr>world := (world s)\<lparr>l_taken := Suc (l_taken (world s))\<rparr>\<rparr>)"
    and "link_stream c ((world s)\<lparr>l_taken := Suc (l_taken (world s))\<rparr>) = rest"
  using assms
  by (simp_all add: receive_def read_reply_def cbind_def with_world_def link_peer_def link_read_def return_not_ok_def cret_def
      ccheck_def link_stream_next)

text \<open>A reply that announces the pool, its descriptor when it is new, and the mapping.\<close>

lemma pool_reply:
  assumes str: "link_stream c (world s) = SentMessage c mt t # (if map_of (mmap_table s) F = None then [SentFd c F] else [])"
    and F: "F = pa_fd (alloc (l_store (world s)))" and me: "\<And>me. map_of (mmap_table s) F = Some me \<Longrightarrow> mm_pointer me = B"
  shows "\<exists>s1 fd s2 s3. receive (link_peer env c B) mt s = Inr (Inr t, s1) \<and> GetStoreFd (link_peer env c B) F s1 = Inr (Inr fd, s2) \<and>
     LookupOrMmap (link_peer env c B) fd F m s2 = Inr (Inr B, s3) \<and>
     pool_mapped B s3 \<and> link_stream c (world s3) = [] \<and> l_store (world s3) = l_store (world s) \<and> l_up (world s3) = l_up (world s) \<and>
     l_taken (world s3) \<le> length (filter (to_client c) (outbox (l_store (world s3)))) \<and>
     objects_in_use s3 = objects_in_use s \<and> store_conn s3 = store_conn s"
proof -
  define s1 where "s1 = s\<lparr>world := (world s)\<lparr>l_taken := Suc (l_taken (world s))\<rparr>\<rparr>"
  have "receive (link_peer env c B) mt s = Inr (Inr t, s1)"
    and "link_stream c (world s1) = (if map_of (mmap_table s) F = None then [SentFd c F] else [])"
    using read_reply_link [OF str] by (simp_all add: s1_def)
  moreover have "F = pa_fd (alloc (l_store (world s1)))" using F by (simp add: s1_def)
  moreover have "l_taken (world s1) \<le> length (filter (to_client c) (outbox (l_store (world s1))))"
    using stream_more [of c "world s"] str by (simp add: s1_def)
  ultimately show ?thesis
    using fetch_pool [of F s1 c B env m] me by (auto simp: s1_def split: option.splits)
qed

lemma request_link:
  assumes "l_up (world s)" and "store_event_step env (message_event env c mt t) (l_store (world s)) = Inr ((), u)"
  shows "request (link_peer env c B) mt t s = Inr (Inr (), s\<lparr>world := (world s)\<lparr>l_store := u\<rparr>\<rparr>)"
  using assms by (simp add: request_def cbind_def with_world_def link_peer_def link_send_def return_not_ok_def)

section \<open>Getting objects\<close>

text \<open>
  An object that clients can read: sealed, in the pool of \<open>a\<close>, and in the part of it that a client
  maps when it is told \<open>m\<close> bytes.
\<close>

definition deliverable :: "PlasmaAllocator \<Rightarrow> int \<Rightarrow> ObjectTableEntry \<Rightarrow> bool" where
  "deliverable a m e \<longleftrightarrow> e_state e = PLASMA_SEALED \<and> e_fd e = pa_fd a \<and> e_device_num e = 0 \<and>
     0 \<le> e_offset e \<and> 0 \<le> e_data_size e \<and> 0 \<le> e_metadata_size e \<and>
     e_offset e + e_data_size e + e_metadata_size e \<le> m - kMmapRegionsGap \<and> in_int64 m"

lemma deliverable_object_ok: "deliverable a m e \<Longrightarrow> object_ok (PlasmaObject_init e)"
  by (auto simp: deliverable_def object_ok_def PlasmaObject_init_def in_int64_def sadd64_def int64_of_def kMmapRegionsGap_def)

lemma object_at_map: "i \<in> set ids \<Longrightarrow> object_at (map (\<lambda>i. (i, f i)) ids) i = f i"
  by (simp add: object_at_def map_of_map_restrict)

text \<open>The request reaches the store and the reply is on its way.\<close>

lemma linked_request:
  fixes s :: "'x link client"
  defines "S \<equiv> l_store (world s)"
  assumes step: "in_step c B s" and "policy_inv (policy S)" and "\<not> mutex S"
    and "map_of (file_callbacks (evloop S)) c = Some (ev, CbProcessMessage c)"
    and codec: "env_root env (env_enc env (snd (SendGetRequest Pair ids (length ids) timeout))) =
       snd (SendGetRequest Pair ids (length ids) timeout)"
    and "\<forall>i \<in> set ids. in_pool (pa_fd (alloc S)) m S i" and "distinct ids" and "ids \<noteq> []" and "list_all id_ok ids"
    and "pa_fd (alloc S) \<noteq> -1"
    and "\<forall>n. st_ok (fst (env_send env n))" and "\<forall>n. 0 < fst (env_send_fd env n)"
  shows "\<exists>u. SendGetRequest (request (link_peer env c B)) ids (length ids) timeout s =
       Inr (Inr (), s\<lparr>world := (world s)\<lparr>l_store := u\<rparr>\<rparr>) \<and> got c (pa_fd (alloc S)) ids S u \<and>
     link_stream c ((world s)\<lparr>l_store := u\<rparr>) =
       SendGetReply (SentMessage c) ids (map (\<lambda>i. (i, place_of S i)) ids) (length ids) [pa_fd (alloc S)] [m] #
       (if map_of (mmap_table s) (pa_fd (alloc S)) = None then [SentFd c (pa_fd (alloc S))] else [])"
proof -
  let ?t = "snd (SendGetRequest Pair ids (length ids) timeout)"
  from step obtain k where k: "map_of (connected_clients S) c = Some k"
    and fds: "pa_fd (alloc S) \<in> set (c_used_fds k) \<longleftrightarrow> map_of (mmap_table s) (pa_fd (alloc S)) \<noteq> None"
    and st: "l_up (world s)" "link_stream c (world s) = []" "l_taken (world s) \<le> length (filter (to_client c) (outbox S))"
    by (auto simp: in_step_def Let_def S_def split: option.splits)
  have "ReadGetRequest ?t = Inr (ids, timeout)"
    using assms(10) by (simp add: object_messages rmap_from_binary)
  from store_answers_get [OF assms(3,4) k assms(5) codec this assms(7-9,11-13)] obtain u where
    u: "store_event_step env (message_event env c PlasmaGetRequest ?t) S = Inr ((), u)" "got c (pa_fd (alloc S)) ids S u"
     "outbox u = outbox S @ SendGetReply (SentMessage c) ids (map (\<lambda>i. (i, place_of S i)) ids) (length ids) [pa_fd (alloc S)] [m] #
       (if pa_fd (alloc S) \<in> set (c_used_fds k) then [] else [SentFd c (pa_fd (alloc S))])" by blast
  have "SendGetRequest (request (link_peer env c B)) ids (length ids) timeout s =
      Inr (Inr (), s\<lparr>world := (world s)\<lparr>l_store := u\<rparr>\<rparr>)"
    using request_link [OF st(1) u(1) [unfolded S_def]] by (simp add: SendGetRequest_def)
  moreover have "link_stream c ((world s)\<lparr>l_store := u\<rparr>) =
       SendGetReply (SentMessage c) ids (map (\<lambda>i. (i, place_of S i)) ids) (length ids) [pa_fd (alloc S)] [m] #
       (if map_of (mmap_table s) (pa_fd (alloc S)) = None then [SentFd c (pa_fd (alloc S))] else [])"
    using stream_send [OF st(2) st(3) [unfolded S_def] u(3) [unfolded S_def]] fds
    by (simp add: SendGetReply_def to_client_def S_def)
  ultimately show ?thesis using u(2) by blast
qed

text \<open>What a buffer shows is what lies in the store's memory at the place of the object.\<close>

lemma buffer_shows:
  assumes "0 \<le> o_data_offset ob" and "0 \<le> o_data_size ob"
  shows "p_load (link_peer env c B) (fst (b_data (buffer_at wrap B ob))) (nat (snd (b_data (buffer_at wrap B ob)))) w =
      buffer_bytes (l_store w) (base_pointer (alloc (l_store w)) + nat (o_data_offset ob)) (nat (o_data_size ob))"
    and "p_load (link_peer env c B) (fst (b_metadata (buffer_at wrap B ob))) (nat (snd (b_metadata (buffer_at wrap B ob)))) w =
      buffer_bytes (l_store w) (base_pointer (alloc (l_store w)) + nat (o_data_offset ob) + nat (o_data_size ob)) (nat (o_metadata_size ob))"
proof -
  have "nat (int B + o_data_offset ob) - B = nat (o_data_offset ob)"
    "nat (int B + o_data_offset ob + o_data_size ob) - B = nat (o_data_offset ob) + nat (o_data_size ob)"
    using assms by auto
  then show "p_load (link_peer env c B) (fst (b_data (buffer_at wrap B ob))) (nat (snd (b_data (buffer_at wrap B ob)))) w =
      buffer_bytes (l_store w) (base_pointer (alloc (l_store w)) + nat (o_data_offset ob)) (nat (o_data_size ob))"
    "p_load (link_peer env c B) (fst (b_metadata (buffer_at wrap B ob))) (nat (snd (b_metadata (buffer_at wrap B ob)))) w =
      buffer_bytes (l_store w) (base_pointer (alloc (l_store w)) + nat (o_data_offset ob) + nat (o_data_size ob)) (nat (o_metadata_size ob))"
    by (simp_all add: link_peer_def buffer_at_def link_address_def add.assoc)
qed

lemma linked_get:
  fixes s :: "'x link client"
  defines "S \<equiv> l_store (world s)"
  assumes step: "in_step c B s" and "policy_inv (policy S)" and "\<not> mutex S"
    and "map_of (file_callbacks (evloop S)) c = Some (ev, CbProcessMessage c)"
    and codec: "env_root env (env_enc env (snd (SendGetRequest Pair ids (length ids) timeout))) =
       snd (SendGetRequest Pair ids (length ids) timeout)"
    and ent: "\<forall>i \<in> set ids. \<exists>e. map_of (objects S) i = Some e \<and> deliverable (alloc S) m e"
    and "GetMmapSize (pa_fd (alloc S)) (mmap_records (alloc S)) = Inr m" and "pa_fd (alloc S) \<noteq> -1"
    and "distinct ids" and "ids \<noteq> []" and "list_all id_ok ids"
    and fresh: "\<forall>i \<in> set ids. map_of (objects_in_use s) i = None"
    and "\<forall>n. st_ok (fst (env_send env n))" and "\<forall>n. 0 < fst (env_send_fd env n)"
  shows "\<exists>s'. Client_Get (link_peer env c B) ids timeout s =
       Inr (Inr (Status_OK, map (\<lambda>i. Some (buffer_at True B (place_of S i))) ids), s') \<and>
     got c (pa_fd (alloc S)) ids S (l_store (world s')) \<and> pool_mapped B s' \<and>
     link_stream c (world s') = [] \<and> l_taken (world s') \<le> length (filter (to_client c) (outbox (l_store (world s')))) \<and>
     l_up (world s') \<and>
     (\<forall>j. map_of (objects_in_use s') j = (if j \<in> set ids then Some (first_use (place_of S j)) else map_of (objects_in_use s) j))"
proof -
  let ?P = "link_peer env c B" and ?F = "pa_fd (alloc S)" and ?n = "length ids" and ?objs = "map (\<lambda>i. (i, place_of S i)) ids"
  have pool: "\<forall>i \<in> set ids. in_pool ?F m S i"
    using ent assms(8) by (auto simp: in_pool_def deliverable_def)
  have pl: "object_ok (place_of S i) \<and> o_device_num (place_of S i) = 0 \<and> o_store_fd (place_of S i) = ?F \<and> o_data_size (place_of S i) \<noteq> -1"
    if "i \<in> set ids" for i
    using ent that deliverable_object_ok by (fastforce simp: deliverable_def place_of_def PlasmaObject_init_def)
  from linked_request [OF step, folded S_def, OF assms(3-5) codec pool assms(10-12,9,14,15)] obtain u where
    send: "SendGetRequest (request ?P) ids ?n timeout s = Inr (Inr (), s\<lparr>world := (world s)\<lparr>l_store := u\<rparr>\<rparr>)"
    and got: "got c ?F ids S u"
    and str: "link_stream c ((world s)\<lparr>l_store := u\<rparr>) = SendGetReply (SentMessage c) ids ?objs ?n [?F] [m] #
       (if map_of (mmap_table s) ?F = None then [SentFd c ?F] else [])" by blast
  define s1 where "s1 = s\<lparr>world := (world s)\<lparr>l_store := u\<rparr>\<rparr>"
  let ?t = "snd (SendGetReply Pair ids ?objs ?n [?F] [m])"
  have msg: "link_stream c (world s1) = SentMessage c PlasmaGetReply ?t # (if map_of (mmap_table s1) ?F = None then [SentFd c ?F] else [])"
    using str by (simp add: s1_def SendGetReply_def)
  have read: "ReadGetReply ?t ?n = Inr (ids, map (place_of S) ids, [?F], [m])"
    using get_reply_read [of ids ?objs "[?F]" "[m]"] pl assms(12) by (simp add: object_at_map)
  have F: "?F = pa_fd (alloc (l_store (world s1)))" using got by (simp add: s1_def got_def)
  have "\<And>me. map_of (mmap_table s1) ?F = Some me \<Longrightarrow> mm_pointer me = B" and "l_up (world s1)"
    using step by (auto simp: s1_def in_step_def Let_def S_def split: option.splits)
  with pool_reply [OF msg F, of B env m] obtain s2 fd t3 s3 where
    reply: "receive ?P PlasmaGetReply s1 = Inr (Inr ?t, s2)"
    and "GetStoreFd ?P ?F s2 = Inr (Inr fd, t3)" "LookupOrMmap ?P fd ?F m t3 = Inr (Inr B, s3)"
    and s3: "pool_mapped B s3" "link_stream c (world s3) = []" "l_store (world s3) = u" "l_up (world s3)"
      "objects_in_use s3 = objects_in_use s" "l_taken (world s3) \<le> length (filter (to_client c) (outbox (l_store (world s3))))"
    by (auto simp: s1_def)
  then have maps: "cmap (map_store_fd ?P) [(?F, m)] s2 = Inr (Inr [()], s3)"
    by (simp add: map_store_fd_def cbind_def cret_def)
  from s3(1,3) got obtain me where me: "map_of (mmap_table s3) ?F = Some me" "mm_pointer me = B"
    by (auto simp: pool_mapped_def got_def)
  define s' where "s' = s3\<lparr>objects_in_use := fold (\<lambda>i. AList.update i (first_use (place_of S i))) ids (objects_in_use s3)\<rparr>"
  have bufs: "cmap (received_buffer True) (zip (zip ids (map (place_of S) ids)) (map (\<lambda>_. None) ids)) s3 =
      Inr (Inr (map (\<lambda>i. Some (buffer_at True B (place_of S i))) ids), s')"
    using received_all [OF me(1) assms(10), of "place_of S" True] fresh pl me(2) by (simp add: s3(5) s'_def)
  have "fetch_buffers ?P True ids timeout (map (\<lambda>_. None) ids) s =
      Inr (Inr (map (\<lambda>i. Some (buffer_at True B (place_of S i))) ids), s')"
    using send reply read maps bufs by (simp add: fetch_buffers_def cbind_def clift_def flip: s1_def)
  then have "Client_Get ?P ids timeout s = Inr (Inr (Status_OK, map (\<lambda>i. Some (buffer_at True B (place_of S i))) ids), s')"
    using local_none [OF fresh, of True timeout] assms(11)
    by (cases ids) (simp_all add: Client_Get_def GetBuffers_def cbind_def keep_output_def)
  then show ?thesis
    using got s3 assms(10) by (intro exI [of _ s']) (simp add: s'_def fold_uses pool_mapped_def)
qed

text \<open>
  C8. Client and store together deliver objects. A client and the store are in step (everything
  sent was read, the pool is mapped where both think it is, the store knows the client's uses);
  the store's pool holds the sealed objects \<open>ids\<close>, none of which the client uses yet; sends succeed.
  Then \<open>Get\<close> of the client library, run against the store process, returns OK whatever the
  time-out. The bytes the client reads through each buffer, data and metadata, are the bytes in the
  store's memory at the place of that object, each object is in use once, the store has the client
  as its user, and both ends are in step again, for the next call.
\<close>
theorem linked_get_delivers:
  fixes s :: "'x link client" and S :: "'x store"
  assumes "S = l_store (world s)" and "in_step c B s" and "policy_inv (policy S)" and "\<not> mutex S"
    and "map_of (file_callbacks (evloop S)) c = Some (ev, CbProcessMessage c)"
    and "env_root env (env_enc env (snd (SendGetRequest Pair ids (length ids) timeout))) =
       snd (SendGetRequest Pair ids (length ids) timeout)"
    and ent: "\<And>i. i \<in> set ids \<Longrightarrow> \<exists>e. map_of (objects S) i = Some e \<and> deliverable (alloc S) m e"
    and "GetMmapSize (pa_fd (alloc S)) (mmap_records (alloc S)) = Inr m" and "pa_fd (alloc S) \<noteq> -1"
    and "distinct ids" and "ids \<noteq> []" and "list_all id_ok ids"
    and "\<And>i. i \<in> set ids \<Longrightarrow> map_of (objects_in_use s) i = None"
    and "\<And>n. st_ok (fst (env_send env n))" and "\<And>n. 0 < fst (env_send_fd env n)"
  shows "\<exists>s' bs. Client_Get (link_peer env c B) ids timeout s = Inr (Inr (Status_OK, map Some bs), s') \<and>
     length bs = length ids \<and> in_step c B s' \<and>
     (\<forall>k e. k < length ids \<longrightarrow> map_of (objects S) (ids ! k) = Some e \<longrightarrow>
        p_load (link_peer env c B) (fst (b_data (bs ! k))) (nat (snd (b_data (bs ! k)))) (world s') =
          buffer_bytes S (base_pointer (alloc S) + nat (e_offset e)) (nat (e_data_size e)) \<and>
        p_load (link_peer env c B) (fst (b_metadata (bs ! k))) (nat (snd (b_metadata (bs ! k)))) (world s') =
          buffer_bytes S (base_pointer (alloc S) + nat (e_offset e) + nat (e_data_size e)) (nat (e_metadata_size e)) \<and>
        map_option u_count (map_of (objects_in_use s') (ids ! k)) = Some 1 \<and> c \<in> users (l_store (world s')) (ids ! k))"
proof -
  from linked_get [OF assms(2), folded assms(1), OF assms(3-6) _ assms(8-12)] assms(7,13-15) obtain s' where
    run: "Client_Get (link_peer env c B) ids timeout s =
       Inr (Inr (Status_OK, map (\<lambda>i. Some (buffer_at True B (place_of S i))) ids), s')"
    and got: "got c (pa_fd (alloc S)) ids S (l_store (world s'))" and "pool_mapped B s'"
    and "link_stream c (world s') = []" "l_taken (world s') \<le> length (filter (to_client c) (outbox (l_store (world s'))))"
     "l_up (world s')"
    and uses: "\<forall>j. map_of (objects_in_use s') j = (if j \<in> set ids then Some (first_use (place_of S j)) else map_of (objects_in_use s) j)"
    by blast
  then have "in_step c B s'"
    using assms(1,2) by (auto simp: in_step_def Let_def got_def pool_mapped_def)
  moreover have "Client_Get (link_peer env c B) ids timeout s =
      Inr (Inr (Status_OK, map Some (map (\<lambda>i. buffer_at True B (place_of S i)) ids)), s')"
    using run by (simp add: comp_def)
  moreover have "buffer_bytes (l_store (world s')) = buffer_bytes S" "alloc (l_store (world s')) = alloc S"
    using got by (simp_all add: got_def buffer_bytes_def fun_eq_iff)
  then have "p_load (link_peer env c B) (fst (b_data b)) (nat (snd (b_data b))) (world s') =
          buffer_bytes S (base_pointer (alloc S) + nat (e_offset e)) (nat (e_data_size e)) \<and>
        p_load (link_peer env c B) (fst (b_metadata b)) (nat (snd (b_metadata b))) (world s') =
          buffer_bytes S (base_pointer (alloc S) + nat (e_offset e) + nat (e_data_size e)) (nat (e_metadata_size e))"
    if "i \<in> set ids" and "map_of (objects S) i = Some e" and "b = buffer_at True B (place_of S i)" for i e b
    using buffer_shows [of "PlasmaObject_init e" env c B True "world s'"] ent [OF that(1)] that(2,3)
    by (simp add: place_of_def deliverable_def PlasmaObject_init_def)
  moreover have "map_option u_count (map_of (objects_in_use s') i) = Some 1" "c \<in> users (l_store (world s')) i" if "i \<in> set ids" for i
    using that uses got by (simp_all add: first_use_def got_def)
  ultimately show ?thesis
    by (intro exI [of _ s'] exI [of _ "map (\<lambda>i. buffer_at True B (place_of S i)) ids"]) simp
qed

text \<open>One sealed object of four bytes, and a client that has not mapped the pool.\<close>

definition demo_linked :: "unit link client" where
  "demo_linked = new_client \<lparr>l_store = (demo_store ())\<lparr>connected_clients := [(5, new_Client 5)],
       evloop := (new_EventLoop 0)\<lparr>file_callbacks := [(5, (1, CbProcessMessage 5))]\<rparr>, memory := (\<lambda>a. of_nat a),
       objects := [(demo_id 7, new_ObjectTableEntry\<lparr>e_fd := 3, e_pointer := 4096, e_offset := 16, e_data_size := 3,
         e_metadata_size := 1, e_state := PLASMA_SEALED\<rparr>)]\<rparr>,
     l_taken = 0, l_files = [], l_up = True\<rparr>"

definition demo_link_env :: "fb_table \<Rightarrow> unit env" where
  "demo_link_env t = (demo_env [] None)\<lparr>env_root := \<lambda>_. t\<rparr>"

theorem linked_get_delivers_witness:
  "\<exists>s' b. Client_Get (link_peer (demo_link_env (snd (SendGetRequest Pair [demo_id 7] 1 0))) 5 900000) [demo_id 7] 0 demo_linked =
       Inr (Inr (Status_OK, [Some b]), s') \<and>
     p_load (link_peer (demo_link_env (snd (SendGetRequest Pair [demo_id 7] 1 0))) 5 900000)
       (fst (b_data b)) (nat (snd (b_data b))) (world s') = [16, 17, 18]"
proof -
  let ?S = "l_store (world demo_linked)" and ?env = "demo_link_env (snd (SendGetRequest Pair [demo_id 7] 1 0))"
  let ?e = "new_ObjectTableEntry\<lparr>e_fd := 3, e_pointer := 4096, e_offset := 16, e_data_size := 3, e_metadata_size := 1, e_state := PLASMA_SEALED\<rparr>"
  note demo = demo_linked_def new_client_def demo_store_def PlasmaStore_def demo_alloc_def
  have inv: "policy_inv (policy ?S)" using policy_inv_new by (simp add: demo)
  have step: "in_step 5 900000 demo_linked" by (simp add: in_step_def demo new_Client_def link_stream_def Let_def)
  have e: "map_of (objects ?S) (demo_id 7) = Some ?e" by (simp add: demo_linked_def new_client_def)
  have "deliverable (alloc ?S) 1000 ?e"
    by (simp add: demo deliverable_def new_ObjectTableEntry_def in_int64_def kMmapRegionsGap_def)
  with e have ent: "\<And>i. i \<in> set [demo_id 7] \<Longrightarrow> \<exists>e. map_of (objects ?S) i = Some e \<and> deliverable (alloc ?S) 1000 e" by simp
  have "\<exists>s' bs. Client_Get (link_peer ?env 5 900000) [demo_id 7] 0 demo_linked = Inr (Inr (Status_OK, map Some bs), s') \<and>
     length bs = length [demo_id 7] \<and> in_step 5 900000 s' \<and>
     (\<forall>k e. k < length [demo_id 7] \<longrightarrow> map_of (objects ?S) ([demo_id 7] ! k) = Some e \<longrightarrow>
        p_load (link_peer ?env 5 900000) (fst (b_data (bs ! k))) (nat (snd (b_data (bs ! k)))) (world s') =
          buffer_bytes ?S (base_pointer (alloc ?S) + nat (e_offset e)) (nat (e_data_size e)) \<and>
        p_load (link_peer ?env 5 900000) (fst (b_metadata (bs ! k))) (nat (snd (b_metadata (bs ! k)))) (world s') =
          buffer_bytes ?S (base_pointer (alloc ?S) + nat (e_offset e) + nat (e_data_size e)) (nat (e_metadata_size e)) \<and>
        map_option u_count (map_of (objects_in_use s') ([demo_id 7] ! k)) = Some 1 \<and> 5 \<in> users (l_store (world s')) ([demo_id 7] ! k))"
    by (rule linked_get_delivers [OF refl step inv])
       (use ent in \<open>simp_all add: demo demo_link_env_def demo_env_def GetMmapSize_def id_ok_def demo_id_def kUniqueIDSize_def\<close>)
  then obtain s' bs where
    run: "Client_Get (link_peer ?env 5 900000) [demo_id 7] 0 demo_linked = Inr (Inr (Status_OK, map Some bs), s')"
    and len: "length bs = 1" and
    data: "p_load (link_peer ?env 5 900000) (fst (b_data (bs ! 0))) (nat (snd (b_data (bs ! 0)))) (world s') =
          buffer_bytes ?S (base_pointer (alloc ?S) + nat (e_offset ?e)) (nat (e_data_size ?e))"
    using e by fastforce
  have "buffer_bytes ?S (base_pointer (alloc ?S) + nat (e_offset ?e)) (nat (e_data_size ?e)) = [16, 17, 18]"
    by (simp add: demo buffer_bytes_def upt_rec)
  moreover from len obtain b where "bs = [b]" by (cases bs) auto
  ultimately show ?thesis using run data by auto
qed

end
