(* ===== verification/Link_Write.thy ===== *)
theory Link_Write
  imports Link
begin

text \<open>
  From writer to reader: a client creates an object, writes it through its mapping of the pool and
  seals it; another client gets it and reads what was written.
\<close>

section \<open>The store creates an object\<close>

text \<open>
  The identifier is new here and at the peer store, nobody uses it, the policy does not know it,
  and the client has no quota.
\<close>

definition creatable :: "'x env \<Rightarrow> int \<Rightarrow> UniqueID \<Rightarrow> 'x store \<Rightarrow> bool" where
  "creatable env c i S \<longleftrightarrow> map_of (objects S) i = None \<and> users S i = {} \<and> \<not> tracked (policy S) i \<and>
     map_of (per_client_cache (policy S)) c = None \<and> size_ok (objects S) \<and>
     (\<exists>d. RpcClient_GetObject (env_rpc env (tick S)) i = Inr d \<and> d_status d = RD_MISSING)"

definition no_out :: AllocOut where
  "no_out = \<lparr>out_fd = -1, out_map_size = 0, out_offset = 0\<rparr>"

definition created_entry :: "int \<Rightarrow> int \<Rightarrow> nat \<Rightarrow> AllocOut \<Rightarrow> int \<Rightarrow> ObjectTableEntry" where
  "created_entry ds ms p out t = new_ObjectTableEntry\<lparr>e_data_size := ds, e_metadata_size := ms, e_pointer := p,
            e_fd := out_fd out, e_map_size := out_map_size out, e_offset := out_offset out,
            e_state := PLASMA_CREATED, e_device_num := 0, e_create_time := t, e_construct_duration := -1\<rparr>"

definition created_object :: "int \<Rightarrow> int \<Rightarrow> AllocOut \<Rightarrow> PlasmaObject" where
  "created_object ds ms out = \<lparr>o_store_fd = out_fd out, o_data_offset = out_offset out,
     o_metadata_offset = sadd64 (out_offset out) ds, o_data_size = ds, o_metadata_size = ms, o_device_num = 0\<rparr>"

lemma AllocateMemory_room:
  assumes "map_of (per_client_cache (policy S)) c = None"
    and "Memalign kBlockSize n no_out (alloc S) = (p, out, a)" and "p \<noteq> 0" and "out_fd out \<noteq> -1"
  shows "AllocateMemory env n ev no_out c True S = Inr ((p, out), S\<lparr>alloc := a\<rparr>)"
proof -
  have "enforce_quota env n ev c True S = Inr (True, S)"
    using assms(1) by (simp add: enforce_quota_def EnforcePerClientQuota_def HasQuota_def EvictObjects_def mret_def)
  then show ?thesis using assms(2-4) by (simp add: AllocateMemory_def alloc_fuel_def)
qed

lemma size_ok_update:
  "size_ok objs \<Longrightarrow> 0 \<le> sadd64 (e_data_size e) (e_metadata_size e) \<Longrightarrow> size_ok (AList.update i e objs)"
  by (auto simp: size_ok_def GetObjectSize_def GetObjectTableEntry_def update_conv' split: option.splits if_splits)

lemma CreateObject_room:
  assumes "policy_inv (policy S)" and "\<not> mutex S" and k: "map_of (connected_clients S) c = Some k"
    and new: "creatable env c i S"
    and room: "Memalign kBlockSize (uint64_of (sadd64 ds ms)) no_out (alloc S) = (p, out, a)" "p \<noteq> 0" "out_fd out \<noteq> -1"
    and "0 \<le> sadd64 ds ms"
  shows "\<exists>q. policy_inv q \<and> CreateObject env i ev ds ms 0 c zero_PlasmaObject S = Inr ((OK, created_object ds ms out),
     S\<lparr>tick := Suc (Suc (tick S)), alloc := a, policy := q, mutex := False,
       objects := AList.update i ((created_entry ds ms p out (env_time env (Suc (tick S))))\<lparr>e_ref_count := 1\<rparr>) (objects S),
       connected_clients := AList.update c (k\<lparr>c_object_ids := c_object_ids k @ [i]\<rparr>) (connected_clients S)\<rparr>)"
proof -
  let ?e = "created_entry ds ms p out (env_time env (Suc (tick S)))"
  define s1 where "s1 = S\<lparr>tick := Suc (tick S)\<rparr>"
  define s2 where "s2 = S\<lparr>tick := Suc (Suc (tick S)), alloc := a, mutex := False, objects := AList.update i ?e (objects S)\<rparr>"
  have 1: "ObjectExists_store env i S = Inr (False, s1)"
    using new by (auto simp: creatable_def ObjectExists_store_def mbind_def get_entry_def GetObjectTableEntry_def
        remote_status_def mret_def s1_def)
  have 2: "AllocateMemory env (uint64_of (sadd64 ds ms)) ev no_out c True s1 = Inr ((p, out), s1\<lparr>alloc := a\<rparr>)"
    using new room by (intro AllocateMemory_room) (auto simp: creatable_def s1_def)
  have 3: "AddObjectTableEntry env i ds ms p out 0 (s1\<lparr>alloc := a\<rparr>) = Inr ((), s2)"
    using assms(2) by (simp add: AddObjectTableEntry_def locked_def lock_mutex_def unlock_mutex_def mbind_def mret_def now_def
        s1_def s2_def created_entry_def)
  have ent: "GetObjectTableEntry (objects s2) i = Some ?e" by (simp add: s2_def GetObjectTableEntry_def update_conv')
  have nt: "\<not> tracked (policy S) i" using new by (simp add: creatable_def)
  obtain p1 where p1: "ObjectCreated (objects s2) i c True (policy S) = Inr p1"
    using ObjectCreated_total [OF assms(1) ent nt] by blast
  have "size_ok (objects s2)"
    using new assms(8) by (auto simp: s2_def creatable_def created_entry_def intro!: size_ok_update)
  from ObjectCreated_spec [OF assms(1) this nt p1] have inv1: "policy_inv p1" by blast
  obtain q where q: "BeginObjectAccess (objects s2) i p1 = Inr q"
    using BeginObjectAccess_total [OF inv1 ent] by blast
  have "i \<notin> set (c_object_ids k)" using new k by (auto simp: creatable_def users_def ids_of_def)
  moreover have "e_ref_count ?e = 0" by (simp add: created_entry_def new_ObjectTableEntry_def)
  ultimately have 4: "AddToClientObjectIds i c (s2\<lparr>policy := p1\<rparr>) = Inr ((), S\<lparr>tick := Suc (Suc (tick S)), alloc := a, policy := q,
       mutex := False, objects := AList.update i (?e\<lparr>e_ref_count := 1\<rparr>) (objects S),
       connected_clients := AList.update c (k\<lparr>c_object_ids := c_object_ids k @ [i]\<rparr>) (connected_clients S)\<rparr>)"
    using k q ent
    by (simp add: AddToClientObjectIds_def mbind_def the_client_def deref_entry_def set_entry_def set_client_def
        on_policy_def locked_def lock_mutex_def unlock_mutex_def mret_def s2_def GetObjectTableEntry_def update_conv')
  have "CreateObject env i ev ds ms 0 c zero_PlasmaObject S = Inr ((OK, created_object ds ms out),
     S\<lparr>tick := Suc (Suc (tick S)), alloc := a, policy := q, mutex := False,
       objects := AList.update i (?e\<lparr>e_ref_count := 1\<rparr>) (objects S),
       connected_clients := AList.update c (k\<lparr>c_object_ids := c_object_ids k @ [i]\<rparr>) (connected_clients S)\<rparr>)"
    using 1 2 3 4 p1 room(2)
    by (simp add: CreateObject_def mbind_def on_policy_def mret_def no_out_def created_object_def zero_PlasmaObject_def)
       (simp add: s2_def)
  with BeginObjectAccess_spec(1) [OF inv1 q] show ?thesis by blast
qed

text \<open>What the request of the client \<open>c\<close> for a new object \<open>i\<close> leaves of the store.\<close>

definition created_for :: "int \<Rightarrow> UniqueID \<Rightarrow> PlasmaAllocator \<Rightarrow> 'x store \<Rightarrow> 'x store \<Rightarrow> bool" where
  "created_for c i a S u \<longleftrightarrow> alloc u = a \<and> memory u = memory S \<and> evloop u = evloop S \<and> \<not> mutex u \<and> policy_inv (policy u) \<and>
     pending_notifications u = pending_notifications S \<and> object_get_requests u = object_get_requests S \<and>
     c \<in> users u i \<and> (\<forall>j. users S j \<subseteq> users u j) \<and>
     (\<forall>d. d \<noteq> c \<longrightarrow> map_of (connected_clients u) d = map_of (connected_clients S) d) \<and>
     (\<forall>k. map_of (connected_clients S) c = Some k \<longrightarrow>
        (\<exists>k'. map_of (connected_clients u) c = Some k' \<and> set (c_used_fds k') = insert (pa_fd a) (set (c_used_fds k))))"

definition create_reply :: "UniqueID \<Rightarrow> PlasmaObject \<Rightarrow> int \<Rightarrow> fb_table" where
  "create_reply i ob m = [FbString (id_binary i), FbSpec (spec_of ob), FbScalar (pe_code OK), FbScalar (o_store_fd ob), FbScalar m]"

lemma store_answers_create:
  assumes "policy_inv (policy S)" and "\<not> mutex S" and k: "map_of (connected_clients S) c = Some k"
    and "map_of (file_callbacks (evloop S)) c = Some (evs, CbProcessMessage c)"
    and "env_root env (env_enc env t) = t" and "ReadCreateRequest t = Inr (i, ev, ds, ms, 0)"
    and new: "creatable env c i S"
    and room: "Memalign kBlockSize (uint64_of (sadd64 ds ms)) no_out (alloc S) = (p, out, a)" "p \<noteq> 0" "out_fd out \<noteq> -1"
    and "out_fd out = pa_fd a"
    and "0 \<le> sadd64 ds ms" and "GetMmapSize (pa_fd a) (mmap_records a) = Inr m"
    and "\<forall>n. st_ok (fst (env_send env n))" and "\<forall>n. 0 < fst (env_send_fd env n)"
  shows "\<exists>u. store_event_step env (message_event env c PlasmaCreateRequest t) S = Inr ((), u) \<and> created_for c i a S u \<and>
     map_of (objects u) i = Some ((created_entry ds ms p out (env_time env (Suc (tick S))))\<lparr>e_ref_count := 1\<rparr>) \<and>
     outbox u = outbox S @ SentMessage c PlasmaCreateReply (create_reply i (created_object ds ms out) m) #
       (if pa_fd a \<in> set (c_used_fds k) then [] else [SentFd c (pa_fd a)])"
proof -
  let ?e = "(created_entry ds ms p out (env_time env (Suc (tick S))))\<lparr>e_ref_count := 1\<rparr>" and ?F = "pa_fd a"
  let ?msg = "SentMessage c PlasmaCreateReply (create_reply i (created_object ds ms out) m)"
  define k1 where "k1 = k\<lparr>c_object_ids := c_object_ids k @ [i]\<rparr>"
  from CreateObject_room [OF assms(1-3) new room assms(12), of ev] obtain q s1 where q: "policy_inv q" and
    cr: "CreateObject env i ev ds ms 0 c zero_PlasmaObject S = Inr ((OK, created_object ds ms out), s1)"
    and s1: "s1 = S\<lparr>tick := Suc (Suc (tick S)), alloc := a, policy := q, mutex := False,
       objects := AList.update i ?e (objects S), connected_clients := AList.update c k1 (connected_clients S)\<rparr>"
    by (auto simp: k1_def)
  define v where "v = s1\<lparr>tick := Suc (tick s1), outbox := outbox s1 @ [?msg]\<rparr>"
  have kv: "map_of (connected_clients v) c = Some k1" by (simp add: v_def s1 update_conv')
  define u where "u = (if ?F \<in> set (c_used_fds k1) then v
    else v\<lparr>tick := Suc (tick v), outbox := outbox v @ [SentFd c ?F],
      connected_clients := AList.update c (k1\<lparr>c_used_fds := List.insert ?F (c_used_fds k1)\<rparr>) (connected_clients v)\<rparr>)"
  have fd: "send_store_fd env c ?F () v = Inr ((), u)"
    using send_fd_once [OF kv, of env ?F] assms(15) by (simp add: mbind_def mret_def rbind_eq_Inr u_def)
  obtain st e where ok: "env_send env (tick s1) = (st, e)" "st_ok st" using assms(14) by (metis fst_conv surj_pair)
  then have send: "send_to env c PlasmaCreateReply (create_reply i (created_object ds ms out) m) s1 = Inr ((st, e), v)"
    by (simp add: send_to_def v_def)
  have ob: "o_store_fd (created_object ds ms out) = ?F" "o_device_num (created_object ds ms out) = 0" "alloc s1 = a"
    by (simp_all add: created_object_def assms(11) s1)
  have "mbind (the_client c) (\<lambda>c'. if ?F \<notin> set (c_used_fds c') then mbind (send_store_fd env c ?F ()) (\<lambda>_. mret Status_OK)
      else mret Status_OK) v = Inr (Status_OK, u)"
    using fd kv by (simp add: mbind_def mret_def the_client_def) (simp add: u_def)
  then have "process_create env c t S = Inr (Status_OK, u)"
    using assms(6,13) cr send [unfolded create_reply_def] ok(2) ob
    by (simp add: process_create_def mbind_def mlift_def SendCreateReply_def handle_def HANDLE_SIGPIPE_def cong: if_cong)
  then have "store_event_step env (message_event env c PlasmaCreateRequest t) S = Inr ((), u)"
    using assms(4,5) by (simp add: store_event_step_def message_event_def ProcessMessage_def mbind_def mcheck_def)
  moreover have usv: "users v = (users S)(i := insert c (users S i))"
    using k by (auto simp: v_def s1 k1_def users_def ids_of_def update_conv' fun_eq_iff)
  have "users u = users v"
    using kv by (auto simp: u_def users_def ids_of_def update_conv' fun_eq_iff)
  then have "created_for c i a S u"
    using q k usv by (auto simp: created_for_def u_def v_def s1 k1_def update_conv')
  moreover have "map_of (objects u) i = Some ?e" by (simp add: u_def v_def s1 update_conv')
  moreover have "outbox u = outbox S @ ?msg # (if ?F \<in> set (c_used_fds k) then [] else [SentFd c ?F])"
    by (simp add: u_def v_def s1 k1_def)
  ultimately show ?thesis by blast
qed

section \<open>The client creates an object\<close>

text \<open>
  The allocator places \<open>ds + ms\<close> bytes at the offset of \<open>out\<close> in its pool, in the part that a client
  maps when it is told \<open>m\<close> bytes, and becomes \<open>a\<close>.
\<close>

definition places :: "PlasmaAllocator \<Rightarrow> int \<Rightarrow> int \<Rightarrow> AllocOut \<Rightarrow> PlasmaAllocator \<Rightarrow> int \<Rightarrow> bool" where
  "places b ds ms out a m \<longleftrightarrow>
     Memalign kBlockSize (uint64_of (sadd64 ds ms)) no_out b = (base_pointer b, out, a) \<and> base_pointer b \<noteq> 0 \<and>
     out_fd out = pa_fd b \<and> pa_fd a = pa_fd b \<and> base_pointer a = base_pointer b \<and> mmap_records a = mmap_records b \<and>
     pa_fd b \<noteq> -1 \<and> GetMmapSize (pa_fd b) (mmap_records b) = Inr m \<and> in_int64 m \<and>
     0 \<le> out_offset out \<and> 0 \<le> ds \<and> 0 \<le> ms \<and> out_offset out + ds + ms \<le> m - kMmapRegionsGap"

lemma places_sums:
  assumes "places b ds ms out a m"
  shows "sadd64 ds ms = ds + ms" and "sadd64 (out_offset out) ds = out_offset out + ds"
    and "in_int64 ds" and "in_int64 ms" and "object_ok (created_object ds ms out)"
  using assms
  by (auto simp: places_def object_ok_def created_object_def in_int64_def sadd64_def int64_of_def kMmapRegionsGap_def)

definition unsealed_use :: "PlasmaObject \<Rightarrow> ObjectInUseEntry" where
  "unsealed_use ob = \<lparr>u_count = 2, u_object = ob, u_is_sealed = False\<rparr>"

lemma IncrementObjectCount_twice:
  assumes "map_of (objects_in_use s) i = None"
  shows "\<exists>t. IncrementObjectCount i ob False s = Inr (Inr (), t) \<and>
     IncrementObjectCount i ob False t = Inr (Inr (), s\<lparr>objects_in_use := AList.update i (unsealed_use ob) (objects_in_use s)\<rparr>)"
  using assms by (simp add: cbind_def IncrementObjectCount_def update_conv' ccheck_def unsealed_use_def)

lemma linked_create_request:
  fixes s :: "'x link client"
  defines "S \<equiv> l_store (world s)"
  assumes step: "in_step c B s" and "policy_inv (policy S)" and "\<not> mutex S"
    and "map_of (file_callbacks (evloop S)) c = Some (evs, CbProcessMessage c)"
    and codec: "env_root env (env_enc env (snd (SendCreateRequest Pair i ev ds ms 0))) = snd (SendCreateRequest Pair i ev ds ms 0)"
    and new: "creatable env c i S" and place: "places (alloc S) ds ms out a m" and "id_ok i"
    and "\<forall>n. st_ok (fst (env_send env n))" and "\<forall>n. 0 < fst (env_send_fd env n)"
  shows "\<exists>u. SendCreateRequest (request (link_peer env c B)) i ev ds ms 0 s = Inr (Inr (), s\<lparr>world := (world s)\<lparr>l_store := u\<rparr>\<rparr>) \<and>
     created_for c i a S u \<and>
     map_of (objects u) i = Some ((created_entry ds ms (base_pointer a) out (env_time env (Suc (tick S))))\<lparr>e_ref_count := 1\<rparr>) \<and>
     (\<forall>d. d \<noteq> c \<longrightarrow> filter (to_client d) (outbox u) = filter (to_client d) (outbox S)) \<and>
     link_stream c ((world s)\<lparr>l_store := u\<rparr>) = SentMessage c PlasmaCreateReply (create_reply i (created_object ds ms out) m) #
       (if map_of (mmap_table s) (pa_fd a) = None then [SentFd c (pa_fd a)] else [])"
proof -
  let ?t = "snd (SendCreateRequest Pair i ev ds ms 0)"
  have pl: "Memalign kBlockSize (uint64_of (sadd64 ds ms)) no_out (alloc S) = (base_pointer a, out, a)" "base_pointer a \<noteq> 0"
    "out_fd out \<noteq> -1" "out_fd out = pa_fd a" "0 \<le> sadd64 ds ms" "GetMmapSize (pa_fd a) (mmap_records a) = Inr m"
    "pa_fd a = pa_fd (alloc S)"
    using place places_sums(1) [OF place] by (auto simp: places_def)
  from step obtain k where k: "map_of (connected_clients S) c = Some k"
    and fds: "pa_fd a \<in> set (c_used_fds k) \<longleftrightarrow> map_of (mmap_table s) (pa_fd a) \<noteq> None"
    and st: "l_up (world s)" "link_stream c (world s) = []" "l_taken (world s) \<le> length (filter (to_client c) (outbox S))"
    by (auto simp: in_step_def Let_def S_def pl(7) split: option.splits)
  have "ReadCreateRequest ?t = Inr (i, ev, ds, ms, 0)"
    using assms(9) places_sums(3,4) [OF place] by (simp add: create_messages int64_uint64_roundtrip)
  from store_answers_create [OF assms(3,4) k assms(5) codec this new pl(1-6) assms(10,11)] obtain u where
    u: "store_event_step env (message_event env c PlasmaCreateRequest ?t) S = Inr ((), u)" "created_for c i a S u"
     "map_of (objects u) i = Some ((created_entry ds ms (base_pointer a) out (env_time env (Suc (tick S))))\<lparr>e_ref_count := 1\<rparr>)"
     "outbox u = outbox S @ SentMessage c PlasmaCreateReply (create_reply i (created_object ds ms out) m) #
       (if pa_fd a \<in> set (c_used_fds k) then [] else [SentFd c (pa_fd a)])" by blast
  have "SendCreateRequest (request (link_peer env c B)) i ev ds ms 0 s = Inr (Inr (), s\<lparr>world := (world s)\<lparr>l_store := u\<rparr>\<rparr>)"
    using request_link [OF st(1) u(1) [unfolded S_def]] by (simp add: SendCreateRequest_def)
  moreover have "link_stream c ((world s)\<lparr>l_store := u\<rparr>) = SentMessage c PlasmaCreateReply (create_reply i (created_object ds ms out) m) #
       (if map_of (mmap_table s) (pa_fd a) = None then [SentFd c (pa_fd a)] else [])"
    using stream_send [OF st(2) st(3) [unfolded S_def] u(4) [unfolded S_def]] fds by (simp add: to_client_def)
  moreover have "\<forall>d. d \<noteq> c \<longrightarrow> filter (to_client d) (outbox u) = filter (to_client d) (outbox S)"
    by (simp add: u(4) to_client_def)
  ultimately show ?thesis using u(2,3) by blast
qed

lemma create_reply_read:
  "id_ok i \<Longrightarrow> object_ok ob \<Longrightarrow> ReadCreateReply (create_reply i ob m) = Inr (Status_OK, i, ob, o_store_fd ob, m)"
  by (simp add: create_reply_def ReadCreateReply_def PlasmaErrorStatus_def)

text \<open>The writes of a client go to the memory of the store.\<close>

definition poke :: "'x env \<Rightarrow> int \<Rightarrow> nat \<Rightarrow> nat \<Rightarrow> byte list \<Rightarrow> 'x link client \<Rightarrow> 'x link client" where
  "poke env c B p bs s = s\<lparr>world := p_store (link_peer env c B) p bs (world s)\<rparr>"

lemma in_step_poke: "in_step c B s \<Longrightarrow> in_step c B (poke env c B p bs s)"
proof -
  have "users (t\<lparr>memory := x\<rparr>) = users t" for t :: "'a store" and x by (simp add: users_def fun_eq_iff)
  then show "in_step c B s \<Longrightarrow> in_step c B (poke env c B p bs s)"
    by (simp add: in_step_def poke_def link_peer_def link_stream_def Let_def cong: option.case_cong)
qed

lemma in_step_created:
  assumes step: "in_step c B s" and created_for: "created_for c i a (l_store (world s)) u" and "pa_fd a = pa_fd (alloc (l_store (world s)))"
    and s3: "pool_mapped B s3" "link_stream c (world s3) = []" "l_store (world s3) = u" "l_up (world s3)"
      "objects_in_use s3 = objects_in_use s" "l_taken (world s3) \<le> length (filter (to_client c) (outbox (l_store (world s3))))"
  shows "in_step c B (s3\<lparr>objects_in_use := AList.update i x (objects_in_use s3)\<rparr>)"
proof -
  from step created_for assms(3) obtain k' where "map_of (connected_clients u) c = Some k'" "pa_fd a \<in> set (c_used_fds k')"
    by (auto simp: in_step_def Let_def created_for_def)
  moreover have "c \<in> users u j" if "map_of (AList.update i x (objects_in_use s3)) j \<noteq> None" for j
    using that step created_for s3(5) by (auto simp: update_conv' in_step_def Let_def created_for_def split: if_splits)
  ultimately show ?thesis
    using s3 created_for by (auto simp: in_step_def Let_def pool_mapped_def created_for_def)
qed

lemma linked_create:
  fixes s :: "'x link client"
  defines "S \<equiv> l_store (world s)"
  assumes step: "in_step c B s" and "policy_inv (policy S)" and "\<not> mutex S"
    and "map_of (file_callbacks (evloop S)) c = Some (evs, CbProcessMessage c)"
    and codec: "env_root env (env_enc env (snd (SendCreateRequest Pair i ev ds ms 0))) = snd (SendCreateRequest Pair i ev ds ms 0)"
    and new: "creatable env c i S" and place: "places (alloc S) ds ms out a m" and "id_ok i" and "nat ms = length md"
    and "\<forall>n. st_ok (fst (env_send env n))" and "\<forall>n. 0 < fst (env_send_fd env n)"
  shows "\<exists>s' u. Client_Create (link_peer env c B) i ds (Some md) ms 0 ev s = Inr (Inr (B + nat (out_offset out), ds), s') \<and>
     created_for c i a S u \<and> l_store (world s') = u\<lparr>memory := mem_write (base_pointer a + nat (out_offset out) + nat ds) md (memory S)\<rparr> \<and>
     map_of (objects u) i = Some ((created_entry ds ms (base_pointer a) out (env_time env (Suc (tick S))))\<lparr>e_ref_count := 1\<rparr>) \<and>
     (\<forall>d. d \<noteq> c \<longrightarrow> filter (to_client d) (outbox u) = filter (to_client d) (outbox S)) \<and> in_step c B s' \<and>
     map_of (objects_in_use s') i = Some (unsealed_use (created_object ds ms out)) \<and> pool_mapped B s' \<and> store_conn s' = store_conn s"
proof -
  let ?P = "link_peer env c B" and ?F = "pa_fd a" and ?ob = "created_object ds ms out"
  from linked_create_request [OF step, folded S_def, OF assms(3-5) codec new place assms(9,11,12)] obtain u where
    send: "SendCreateRequest (request ?P) i ev ds ms 0 s = Inr (Inr (), s\<lparr>world := (world s)\<lparr>l_store := u\<rparr>\<rparr>)"
    and created_for: "created_for c i a S u"
    and ent: "map_of (objects u) i = Some ((created_entry ds ms (base_pointer a) out (env_time env (Suc (tick S))))\<lparr>e_ref_count := 1\<rparr>)"
    and others: "\<forall>d. d \<noteq> c \<longrightarrow> filter (to_client d) (outbox u) = filter (to_client d) (outbox S)"
    and str: "link_stream c ((world s)\<lparr>l_store := u\<rparr>) = SentMessage c PlasmaCreateReply (create_reply i ?ob m) #
       (if map_of (mmap_table s) ?F = None then [SentFd c ?F] else [])" by blast
  define s1 where "s1 = s\<lparr>world := (world s)\<lparr>l_store := u\<rparr>\<rparr>"
  have msg: "link_stream c (world s1) = SentMessage c PlasmaCreateReply (create_reply i ?ob m) #
       (if map_of (mmap_table s1) ?F = None then [SentFd c ?F] else [])" using str by (simp add: s1_def)
  have F: "?F = pa_fd (alloc (l_store (world s1)))" using created_for by (simp add: s1_def created_for_def)
  have FS: "?F = pa_fd (alloc S)" using place by (simp add: places_def)
  have "\<And>me. map_of (mmap_table s1) ?F = Some me \<Longrightarrow> mm_pointer me = B" and "l_up (world s1)"
    using step by (auto simp: s1_def in_step_def Let_def S_def FS split: option.splits)
  with pool_reply [OF msg F, of B env m] obtain s2 fd t s3 where
    reply: "receive ?P PlasmaCreateReply s1 = Inr (Inr (create_reply i ?ob m), s2)"
    and s3: "GetStoreFd ?P ?F s2 = Inr (Inr fd, t)" "LookupOrMmap ?P fd ?F m t = Inr (Inr B, s3)"
     "pool_mapped B s3" "link_stream c (world s3) = []" "l_store (world s3) = u" "l_up (world s3)" "objects_in_use s3 = objects_in_use s"
     "l_taken (world s3) \<le> length (filter (to_client c) (outbox (l_store (world s3))))" "store_conn s3 = store_conn s"
    by (auto simp: s1_def)
  define s4 where "s4 = poke env c B (B + nat (out_offset out) + nat ds) md s3"
  define s' where "s' = s4\<lparr>objects_in_use := AList.update i (unsealed_use ?ob) (objects_in_use s4)\<rparr>"
  have off: "0 \<le> out_offset out" "0 \<le> ds" "0 \<le> ms" using place by (simp_all add: places_def)
  have unused: "map_of (objects_in_use s4) i = None"
    using step new s3(7) by (auto simp: s4_def poke_def in_step_def Let_def creatable_def S_def)
  have ob: "o_store_fd ?ob = ?F" "o_data_size ?ob = ds" "o_metadata_size ?ob = ms" "o_metadata_offset ?ob = o_data_offset ?ob + ds"
      "o_data_offset ?ob = out_offset out"
    using place places_sums(2) [OF place] by (simp_all add: created_object_def places_def)
  obtain s5 where inc: "IncrementObjectCount i ?ob False s4 = Inr (Inr (), s5)" "IncrementObjectCount i ?ob False s5 = Inr (Inr (), s')"
    using IncrementObjectCount_twice [OF unused, of ?ob] by (auto simp: s'_def)
  have "Client_Create ?P i ds (Some md) ms 0 ev s = Inr (Inr (B + nat (out_offset out), ds), s')"
    using send reply create_reply_read [OF assms(9) places_sums(5) [OF place], of m] s3(1,2) off ob assms(10) inc
    by (simp add: Client_Create_def cbind_def clift_def return_not_ok_def ccheck_def Let_def with_world_def cret_def
        nat_add_distrib nat_int_add s4_def poke_def flip: s1_def)
  moreover have "l_store (world s') = u\<lparr>memory := mem_write (base_pointer a + nat (out_offset out) + nat ds) md (memory S)\<rparr>"
    using created_for s3(5) by (simp add: s'_def s4_def poke_def link_peer_def link_address_def created_for_def add.assoc)
  moreover have "pool_mapped B s'"
    using s3(3) by (simp add: pool_mapped_def s'_def s4_def poke_def link_peer_def)
  moreover have "in_step c B s'"
    using in_step_poke [OF in_step_created [OF step created_for [unfolded S_def] FS [unfolded S_def] s3(3-8), of "unsealed_use ?ob"],
      of env "B + nat (out_offset out) + nat ds" md]
    by (cases s3) (simp add: s'_def s4_def poke_def)
  ultimately show ?thesis
    using created_for ent others s3(9) by (intro exI [of _ s'] exI [of _ u]) (simp add: s'_def s4_def poke_def update_conv')
qed

section \<open>Sealing\<close>

definition seal_reply :: "UniqueID \<Rightarrow> fb_table" where
  "seal_reply i = [FbString (id_binary i), FbScalar (pe_code OK)]"

lemma store_answers_seal:
  assumes "\<not> mutex S" and "map_of (file_callbacks (evloop S)) c = Some (evs, CbProcessMessage c)"
    and "env_root env (env_enc env t) = t" and "ReadSealRequest t = Inr (i, dg)" and "length dg = kDigestSize"
    and e: "map_of (objects S) i = Some e" "e_state e = PLASMA_CREATED"
    and quiet: "pending_notifications S = []" "map_of (object_get_requests S) i = None"
    and "\<forall>n. st_ok (fst (env_send env n))"
  shows "store_event_step env (message_event env c PlasmaSealRequest t) S = Inr ((),
     S\<lparr>tick := Suc (Suc (tick S)), mutex := False,
       objects := AList.update i (e\<lparr>e_state := PLASMA_SEALED, e_digest := dg,
         e_construct_duration := env_time env (tick S) - e_create_time e\<rparr>) (objects S),
       outbox := outbox S @ [SentMessage c PlasmaSealReply (seal_reply i)]\<rparr>)"
proof -
  define v where "v = S\<lparr>tick := Suc (tick S), mutex := False,
       objects := AList.update i (e\<lparr>e_state := PLASMA_SEALED, e_digest := dg,
         e_construct_duration := env_time env (tick S) - e_create_time e\<rparr>) (objects S)\<rparr>"
  have "SealObjects env [i] [dg] S = Inr ((), v)"
    using assms(1,5) e quiet
    by (simp add: SealObjects_def seal_one_def mbind_def locked_def lock_mutex_def unlock_mutex_def get_entry_def
        GetObjectTableEntry_def mcheck_def now_def set_entry_def mret_def PushNotifications_def UpdateObjectGetRequests_def v_def)
  moreover obtain st er where "env_send env (tick v) = (st, er)" "st_ok st" using assms(10) by (metis fst_conv surj_pair)
  ultimately show ?thesis
    using assms(2-4)
    by (simp add: store_event_step_def message_event_def ProcessMessage_def mbind_def mcheck_def mlift_def handle_def send_to_def
        SendSealReply_def HANDLE_SIGPIPE_def mret_def seal_reply_def) (simp add: v_def)
qed

definition sealed_use :: "int \<Rightarrow> PlasmaObject \<Rightarrow> ObjectInUseEntry" where
  "sealed_use n ob = \<lparr>u_count = n, u_object = ob, u_is_sealed = True\<rparr>"

text \<open>A release that leaves uses says nothing to the store.\<close>

lemma Client_Release_used:
  assumes "map_of (objects_in_use s) i = Some (sealed_use n ob)" and "1 < n" and "0 \<le> store_conn s"
  shows "Client_Release P i s = Inr (Inr (), s\<lparr>objects_in_use := AList.update i (sealed_use (n - 1) ob) (objects_in_use s)\<rparr>)"
  using assms by (simp add: Client_Release_def cbind_def set_use_def ccheck_def cret_def sealed_use_def)

lemma Client_Hash_local:
  assumes use: "map_of (objects_in_use s) i = Some (sealed_use n ob)" and "1 < n" and "0 \<le> store_conn s"
    and me: "map_of (mmap_table s) (o_store_fd ob) = Some me" and "o_device_num ob = 0"
  shows "\<exists>s'. Client_Hash P i s = Inr (Inr (ComputeObjectHash P (buffer_at True (mm_pointer me) ob) (world s)), s') \<and>
     s' = s\<lparr>objects_in_use := AList.update i (sealed_use n ob) (objects_in_use s)\<rparr>"
proof -
  define t where "t = s\<lparr>objects_in_use := AList.update i (sealed_use (n + 1) ob) (objects_in_use s)\<rparr>"
  have "local_buffer True 0 i s = Inr (Inr (Some (buffer_at True (mm_pointer me) ob)), t)"
    using assms by (simp add: local_buffer_def cbind_def make_buffer_def ccheck_def LookupMmappedFile_def cret_def
        IncrementObjectCount_def buffer_at_def sealed_use_def Let_def t_def)
  then have "Client_Get P [i] 0 s = Inr (Inr (Status_OK, [Some (buffer_at True (mm_pointer me) ob)]), t)"
    by (simp add: Client_Get_def GetBuffers_def cbind_def cret_def)
  moreover have "Client_Release P i t = Inr (Inr (), s\<lparr>objects_in_use := AList.update i (sealed_use n ob) (objects_in_use s)\<rparr>)"
    using Client_Release_used [of t i "n + 1" ob P] assms(2,3) by (simp add: t_def update_conv')
  ultimately show ?thesis
    by (simp add: Client_Hash_def cbind_def return_not_ok_def destroy_PlasmaBuffer_def cret_def t_def)
qed

definition sealed_entry :: "'x env \<Rightarrow> 'x store \<Rightarrow> byte list \<Rightarrow> ObjectTableEntry \<Rightarrow> ObjectTableEntry" where
  "sealed_entry env S dg e = e\<lparr>e_state := PLASMA_SEALED, e_digest := dg,
     e_construct_duration := env_time env (tick S) - e_create_time e\<rparr>"

lemma linked_seal:
  fixes s :: "'x link client"
  defines "S \<equiv> l_store (world s)"
  assumes step: "in_step c B s" and "\<not> mutex S"
    and "map_of (file_callbacks (evloop S)) c = Some (evs, CbProcessMessage c)"
    and dg: "dg = ComputeObjectHash (link_peer env c B) (buffer_at True B ob) (world s)"
    and codec: "env_root env (env_enc env (snd (SendSealRequest Pair i dg))) = snd (SendSealRequest Pair i dg)"
    and use: "map_of (objects_in_use s) i = Some (unsealed_use ob)" and "pool_mapped B s" and "0 \<le> store_conn s"
    and ob: "o_store_fd ob = pa_fd (alloc S)" "o_device_num ob = 0"
    and e: "map_of (objects S) i = Some e" "e_state e = PLASMA_CREATED"
    and quiet: "pending_notifications S = []" "map_of (object_get_requests S) i = None" and "id_ok i"
    and "\<forall>n. st_ok (fst (env_send env n))"
  shows "\<exists>s'. Client_Seal (link_peer env c B) i s = Inr (Inr (), s') \<and> in_step c B s' \<and>
     l_store (world s') = S\<lparr>tick := Suc (Suc (tick S)), mutex := False,
       objects := AList.update i (sealed_entry env S dg e) (objects S),
       outbox := outbox S @ [SentMessage c PlasmaSealReply (seal_reply i)]\<rparr>"
proof -
  let ?P = "link_peer env c B"
  define u where "u = S\<lparr>tick := Suc (Suc (tick S)), mutex := False, objects := AList.update i (sealed_entry env S dg e) (objects S),
       outbox := outbox S @ [SentMessage c PlasmaSealReply (seal_reply i)]\<rparr>"
  define s1 where "s1 = s\<lparr>objects_in_use := AList.update i (sealed_use 2 ob) (objects_in_use s)\<rparr>"
  define s2 where "s2 = s1\<lparr>world := (world s)\<lparr>l_store := u\<rparr>\<rparr>"
  define s3 where "s3 = s2\<lparr>world := (world s2)\<lparr>l_taken := Suc (l_taken (world s2))\<rparr>\<rparr>"
  from \<open>pool_mapped B s\<close> ob obtain me where me: "map_of (mmap_table s1) (o_store_fd ob) = Some me" "mm_pointer me = B"
    by (auto simp: pool_mapped_def S_def s1_def)
  have hash: "Client_Hash ?P i s1 = Inr (Inr dg, s1)"
    using Client_Hash_local [of s1 i 2 ob me ?P] me assms(9) ob(2) by (simp add: s1_def update_conv' dg)
  have len: "length dg = kDigestSize"
    using ob(2) by (simp add: dg ComputeObjectHash_def buffer_at_def object_digest_def kDigestSize_def)
  have "ReadSealRequest (snd (SendSealRequest Pair i dg)) = Inr (i, dg)"
    using len \<open>id_ok i\<close> by (simp add: create_messages)
  from store_answers_seal [OF assms(3,4) codec this len e quiet assms(17)]
  have ev: "store_event_step env (message_event env c PlasmaSealRequest (snd (SendSealRequest Pair i dg))) (l_store (world s1)) = Inr ((), u)"
    by (simp add: u_def sealed_entry_def s1_def S_def)
  have up: "l_up (world s1)" "link_stream c (world s) = []" "l_taken (world s) \<le> length (filter (to_client c) (outbox S))"
    using step by (simp_all add: in_step_def Let_def s1_def S_def)
  have send: "SendSealRequest (request ?P) i dg s1 = Inr (Inr (), s2)"
    using request_link [OF up(1) ev, of B] by (simp add: SendSealRequest_def s2_def s1_def)
  have str: "link_stream c (world s2) = [SentMessage c PlasmaSealReply (seal_reply i)]"
    using stream_send [OF up(2), of u "[SentMessage c PlasmaSealReply (seal_reply i)]"] up(3)
    by (simp add: s2_def u_def to_client_def S_def)
  note reply = read_reply_link(1) [OF str, of env B] read_reply_link(2) [OF str]
  have read: "ReadSealReply (seal_reply i) = Inr (Status_OK, i)"
    using \<open>id_ok i\<close> by (simp add: seal_reply_def ReadSealReply_def PlasmaErrorStatus_def)
  define s' where "s' = s3\<lparr>objects_in_use := AList.update i (sealed_use 1 ob) (objects_in_use s3)\<rparr>"
  have rel: "Client_Release ?P i s3 = Inr (Inr (), s')"
    using Client_Release_used [of s3 i 2 ob ?P] assms(9) by (simp add: s'_def s3_def s2_def s1_def update_conv')
  have "set_use i (unsealed_use ob\<lparr>u_is_sealed := True\<rparr>) s = Inr (Inr (), s1)"
    by (simp add: set_use_def s1_def sealed_use_def unsealed_use_def)
  then have "Client_Seal ?P i s = Inr (Inr (), s')"
    using use hash send reply(1) read rel
    by (simp add: Client_Seal_def cbind_def clift_def return_not_ok_def ccheck_def s3_def id_eq_def unsealed_use_def)
  moreover have "in_step c B s'"
  proof -
    have "link_stream c (world s') = []" "Suc (l_taken (world s)) \<le> length (filter (to_client c) (outbox u))"
      using reply(2) up(3) by (simp_all add: s'_def s3_def u_def to_client_def)
    moreover have "users u = users S" by (simp add: u_def users_def fun_eq_iff)
    moreover have "c \<in> users S i" using step use by (simp add: in_step_def Let_def S_def)
    ultimately show ?thesis
      using step by (auto simp: in_step_def Let_def s'_def s3_def s2_def s1_def update_conv' S_def u_def split: if_splits option.splits)
  qed
  ultimately show ?thesis by (auto simp: s'_def s3_def s2_def u_def)
qed

section \<open>From writer to reader\<close>

lemma written_bytes:
  "map (mem_write x d (mem_write (x + length d) md m)) [x ..< x + length d] = d"
  "map (mem_write x d (mem_write (x + length d) md m)) [x + length d ..< x + length d + length md] = md"
  by (rule nth_equalityI, simp_all add: mem_write_def)+

text \<open>A client that was in step stays so when the store has only served another client.\<close>

definition joins :: "'x link client \<Rightarrow> 'x link client \<Rightarrow> 'x link client" where
  "joins s r = r\<lparr>world := (world r)\<lparr>l_store := l_store (world s)\<rparr>\<rparr>"

lemma in_step_joins:
  fixes s r :: "'x link client"
  defines "S \<equiv> l_store (world r)" and "U \<equiv> l_store (world s)"
  assumes "in_step d D r" and "filter (to_client d) (outbox U) = filter (to_client d) (outbox S)"
    and "map_of (connected_clients U) d = map_of (connected_clients S) d" and "pa_fd (alloc U) = pa_fd (alloc S)"
    and "\<And>j. users S j \<subseteq> users U j"
  shows "in_step d D (joins s r)"
  using assms by (auto simp: in_step_def Let_def joins_def link_stream_def cong: option.case_cong)

lemma places_Memalign:
  assumes "pool_inv b L" and "Memalign kBlockSize (length data + length md) no_out b = (p, out, a)" and "p \<noteq> 0"
    and "length data + length md < 2 ^ 63"
    and "pa_fd b \<noteq> -1" and "GetMmapSize (pa_fd b) (mmap_records b) = Inr m" and "in_int64 m"
    and "out_offset out + int (length data) + int (length md) \<le> m - kMmapRegionsGap"
  shows "places b (int (length data)) (int (length md)) out a m"
proof -
  have "sadd64 (int (length data)) (int (length md)) = int (length data + length md)"
    using assms(4) by (simp add: sadd64_def int64_of_small)
  then have "uint64_of (sadd64 (int (length data)) (int (length md))) = length data + length md"
    using assms(4) uint64_of_int [of "length data + length md"] by simp
  moreover note M = Memalign_Some [OF assms(1,4,2,3)]
  moreover have "pa_fd a = pa_fd b" "base_pointer a = base_pointer b" "mmap_records a = mmap_records b"
    using M(6) by (metis PlasmaAllocator.select_convs PlasmaAllocator.surjective PlasmaAllocator.update_convs)+
  ultimately show ?thesis using assms by (simp add: places_def)
qed

text \<open>
  What the writer leaves: the object is sealed at the offset of \<open>out\<close> with the bytes of the writer
  in its place, and the other clients see the same connections as before.
\<close>

definition written :: "int \<Rightarrow> UniqueID \<Rightarrow> byte list \<Rightarrow> byte list \<Rightarrow> AllocOut \<Rightarrow> 'x store \<Rightarrow> 'x store \<Rightarrow> bool" where
  "written c i data md out S W \<longleftrightarrow> pa_fd (alloc W) = pa_fd (alloc S) \<and> mmap_records (alloc W) = mmap_records (alloc S) \<and>
     evloop W = evloop S \<and> \<not> mutex W \<and> policy_inv (policy W) \<and>
     (\<exists>e. map_of (objects W) i = Some e \<and> e_state e = PLASMA_SEALED \<and> e_fd e = out_fd out \<and> e_device_num e = 0 \<and>
        e_offset e = out_offset out \<and> e_data_size e = int (length data) \<and> e_metadata_size e = int (length md)) \<and>
     buffer_bytes W (base_pointer (alloc W) + nat (out_offset out)) (length data) = data \<and>
     buffer_bytes W (base_pointer (alloc W) + nat (out_offset out) + length data) (length md) = md \<and>
     (\<forall>j. users S j \<subseteq> users W j) \<and>
     (\<forall>d. d \<noteq> c \<longrightarrow> filter (to_client d) (outbox W) = filter (to_client d) (outbox S) \<and>
        map_of (connected_clients W) d = map_of (connected_clients S) d)"

lemma linked_write:
  fixes s :: "'x link client"
  defines "S \<equiv> l_store (world s)"
  assumes "in_step c B s" and "policy_inv (policy S)" and "\<not> mutex S"
    and "pending_notifications S = []" and "map_of (object_get_requests S) i = None"
    and "map_of (file_callbacks (evloop S)) c = Some (evc, CbProcessMessage c)"
    and new: "creatable env c i S" and "id_ok i" and "0 \<le> store_conn s"
    and place: "places (alloc S) (int (length data)) (int (length md)) out a m"
    and codec: "\<forall>t \<in> {snd (SendCreateRequest Pair i ev (int (length data)) (int (length md)) 0),
         snd (SendSealRequest Pair i (object_digest data md))}. env_root env (env_enc env t) = t"
    and sends: "\<forall>n. st_ok (fst (env_send env n))" "\<forall>n. 0 < fst (env_send_fd env n)"
  shows "\<exists>x s1 s2.
     Client_Create (link_peer env c B) i (int (length data)) (Some md) (int (length md)) 0 ev s = Inr (Inr (x, int (length data)), s1) \<and>
     Client_Seal (link_peer env c B) i (poke env c B x data s1) = Inr (Inr (), s2) \<and> written c i data md out S (l_store (world s2))"
proof -
  let ?ds = "int (length data)" and ?ms = "int (length md)" and ?ob = "created_object (int (length data)) (int (length md)) out"
  let ?X = "base_pointer a + nat (out_offset out)"
  from linked_create [of c B s evc env i ev ?ds ?ms out a m md] assms(2-4,7-9) codec sends place
  obtain s1 u where create: "Client_Create (link_peer env c B) i ?ds (Some md) ?ms 0 ev s = Inr (Inr (B + nat (out_offset out), ?ds), s1)"
    and created_for: "created_for c i a S u" and st1: "l_store (world s1) = u\<lparr>memory := mem_write (?X + length data) md (memory S)\<rparr>"
    and ent: "map_of (objects u) i = Some ((created_entry ?ds ?ms (base_pointer a) out (env_time env (Suc (tick S))))\<lparr>e_ref_count := 1\<rparr>)"
    and others: "\<forall>d. d \<noteq> c \<longrightarrow> filter (to_client d) (outbox u) = filter (to_client d) (outbox S)" and in1: "in_step c B s1"
    and use1: "map_of (objects_in_use s1) i = Some (unsealed_use ?ob)" and "pool_mapped B s1" "store_conn s1 = store_conn s"
    by (auto simp: S_def)
  let ?e = "(created_entry ?ds ?ms (base_pointer a) out (env_time env (Suc (tick S))))\<lparr>e_ref_count := 1\<rparr>"
  define s1' where "s1' = poke env c B (B + nat (out_offset out)) data s1"
  define V where "V = u\<lparr>memory := mem_write ?X data (mem_write (?X + length data) md (memory S))\<rparr>"
  have u: "alloc u = a" "evloop u = evloop S" "\<not> mutex u" "policy_inv (policy u)" "pending_notifications u = []"
      "map_of (object_get_requests u) i = None"
    using created_for assms(5,6) by (simp_all add: created_for_def)
  have a: "pa_fd a = pa_fd (alloc S)" "mmap_records a = mmap_records (alloc S)" "0 \<le> out_offset out"
    "out_fd out = pa_fd a"
    using place by (simp_all add: places_def)
  have st2: "l_store (world s1') = V"
    by (simp add: s1'_def poke_def link_peer_def link_address_def st1 u(1) V_def)
  have shown: "buffer_bytes V ?X (length data) = data" "buffer_bytes V (?X + length data) (length md) = md" "alloc V = a"
    by (simp_all add: buffer_bytes_def V_def written_bytes u(1))
  have dg: "object_digest data md = ComputeObjectHash (link_peer env c B) (buffer_at True B ?ob) (world s1')"
    using buffer_shows [of ?ob env c B True "world s1'"] shown a(3)
    by (simp add: ComputeObjectHash_def st2 created_object_def) (simp add: buffer_at_def)
  have V: "\<not> mutex V" "map_of (file_callbacks (evloop V)) c = Some (evc, CbProcessMessage c)" "map_of (objects V) i = Some ?e"
    "pending_notifications V = []" "map_of (object_get_requests V) i = None" "e_state ?e = PLASMA_CREATED"
    "o_store_fd ?ob = pa_fd (alloc V)" "o_device_num ?ob = 0"
    using u assms(7) ent a(4) by (simp_all add: V_def created_entry_def created_object_def)
  have "in_step c B s1'" "map_of (objects_in_use s1') i = Some (unsealed_use ?ob)" "pool_mapped B s1'" "0 \<le> store_conn s1'"
    using in1 use1 \<open>pool_mapped B s1\<close> \<open>store_conn s1 = store_conn s\<close> assms(10) 
    by (simp_all add: s1'_def in_step_poke) (simp_all add: poke_def pool_mapped_def link_peer_def)
  with linked_seal [of c B s1' evc "object_digest data md" env ?ob i ?e] V dg codec sends assms(9)
  obtain s2 where seal: "Client_Seal (link_peer env c B) i s1' = Inr (Inr (), s2)" and
     st3: "l_store (world s2) = V\<lparr>tick := Suc (Suc (tick V)), mutex := False,
       objects := AList.update i (sealed_entry env V (object_digest data md) ?e) (objects V),
       outbox := outbox V @ [SentMessage c PlasmaSealReply (seal_reply i)]\<rparr>"
    unfolding st2 by auto
  have "users (l_store (world s2)) = users u"
    by (simp add: st3 V_def users_def fun_eq_iff)
  then have "written c i data md out S (l_store (world s2))"
    using shown u a created_for others by (simp add: written_def st3 V_def update_conv' sealed_entry_def created_entry_def to_client_def
        created_for_def buffer_bytes_def)
  with create seal show ?thesis by (auto simp: s1'_def)
qed

text \<open>
  C5. What one client writes, another client reads. The allocator has room for a new object; a
  client that is in step with the store creates it with its metadata, writes its data through the
  mapping of the pool, and seals it; then another client that was in step asks for it. All three
  calls of the client library succeed against the store process, and the bytes the reader loads
  through its own mapping of the pool are the data and the metadata of the writer.
\<close>
theorem written_object_is_read:
  fixes s r :: "'x link client" and S :: "'x store"
  assumes S: "S = l_store (world s)" "S = l_store (world r)" and "in_step c B s" and reader: "in_step d D r" and "c \<noteq> d"
    and "policy_inv (policy S)" and "\<not> mutex S" and "pending_notifications S = []" and "map_of (object_get_requests S) i = None"
    and "map_of (file_callbacks (evloop S)) c = Some (evc, CbProcessMessage c)"
    and "map_of (file_callbacks (evloop S)) d = Some (evd, CbProcessMessage d)"
    and new: "creatable env c i S" and "id_ok i" and "0 \<le> store_conn s"
    and "pool_inv (alloc S) L" and "Memalign kBlockSize (length data + length md) no_out (alloc S) = (p, out, a)" and "p \<noteq> 0"
    and "length data + length md < 2 ^ 63" and "pa_fd (alloc S) \<noteq> -1"
    and "GetMmapSize (pa_fd (alloc S)) (mmap_records (alloc S)) = Inr m" and "in_int64 m"
    and "out_offset out + int (length data) + int (length md) \<le> m - kMmapRegionsGap"
    and codec: "\<And>t. t \<in> {snd (SendCreateRequest Pair i ev (int (length data)) (int (length md)) 0),
         snd (SendSealRequest Pair i (object_digest data md)), snd (SendGetRequest Pair [i] 1 timeout)} \<Longrightarrow>
         env_root env (env_enc env t) = t"
    and sends: "\<And>n. st_ok (fst (env_send env n))" "\<And>n. 0 < fst (env_send_fd env n)"
  shows "\<exists>x s1 s2 b r'.
     Client_Create (link_peer env c B) i (int (length data)) (Some md) (int (length md)) 0 ev s = Inr (Inr (x, int (length data)), s1) \<and>
     Client_Seal (link_peer env c B) i (poke env c B x data s1) = Inr (Inr (), s2) \<and>
     Client_Get (link_peer env d D) [i] timeout (joins s2 r) = Inr (Inr (Status_OK, [Some b]), r') \<and>
     p_load (link_peer env d D) (fst (b_data b)) (nat (snd (b_data b))) (world r') = data \<and>
     p_load (link_peer env d D) (fst (b_metadata b)) (nat (snd (b_metadata b))) (world r') = md"
proof -
  from linked_write [OF assms(3), folded S(1), OF assms(6-10,12-14) places_Memalign [OF assms(15-22)], of ev] codec sends
  obtain x s1 s2 where writer:
     "Client_Create (link_peer env c B) i (int (length data)) (Some md) (int (length md)) 0 ev s = Inr (Inr (x, int (length data)), s1)"
     "Client_Seal (link_peer env c B) i (poke env c B x data s1) = Inr (Inr (), s2)" and w: "written c i data md out S (l_store (world s2))"
    by auto
  let ?W = "l_store (world s2)"
  have W: "l_store (world (joins s2 r)) = ?W" by (simp add: joins_def)
  have F: "out_fd out = pa_fd (alloc S)" "0 \<le> out_offset out"
    using places_Memalign [OF assms(15-22)] by (simp_all add: places_def)
  from w obtain e where e: "map_of (objects ?W) i = Some e" "e_offset e = out_offset out" "e_data_size e = int (length data)"
      "e_metadata_size e = int (length md)" "deliverable (alloc ?W) m e"
    using assms(21,22) F by (auto simp: written_def deliverable_def)
  have "in_step d D (joins s2 r)"
    using in_step_joins [OF reader, of s2] w assms(5) by (simp add: written_def flip: S(2))
  moreover have "map_of (objects_in_use (joins s2 r)) i = None"
    using reader new by (auto simp: in_step_def Let_def creatable_def joins_def simp flip: S(2))
  ultimately obtain r' where
    get: "Client_Get (link_peer env d D) [i] timeout (joins s2 r) = Inr (Inr (Status_OK, [Some (buffer_at True D (place_of ?W i))]), r')"
    and got: "got d (pa_fd (alloc ?W)) [i] ?W (l_store (world r'))"
    using linked_get [of d D "joins s2 r" evd env "[i]" timeout m] w e(1,5) assms(11,13,19,20) codec sends
    unfolding W by (auto simp: written_def)
  have "place_of ?W i = PlasmaObject_init e" by (simp add: place_of_def e)
  moreover have "buffer_bytes (l_store (world r')) = buffer_bytes ?W" "alloc (l_store (world r')) = alloc ?W"
    using got by (simp_all add: got_def buffer_bytes_def fun_eq_iff)
  ultimately show ?thesis
    using writer get w e(2-4) F(2) buffer_shows [of "place_of ?W i" env d D True "world r'"]
    by (intro exI conjI) (auto simp: written_def PlasmaObject_init_def)
qed

text \<open>An empty store with two connected clients, and an encoding of three tables.\<close>

definition demo_pair :: "unit link client" where
  "demo_pair = new_client \<lparr>l_store = (demo_store ())\<lparr>connected_clients := [(5, new_Client 5), (6, new_Client 6)],
       evloop := (new_EventLoop 0)\<lparr>file_callbacks := [(5, (1, CbProcessMessage 5)), (6, (1, CbProcessMessage 6))]\<rparr>\<rparr>,
     l_taken = 0, l_files = [], l_up = True\<rparr>"

definition demo_codec :: "fb_table \<Rightarrow> fb_table \<Rightarrow> fb_table \<Rightarrow> unit env" where
  "demo_codec t0 t1 t2 = (demo_env [t0, t1, t2] None)\<lparr>env_enc := \<lambda>t. [if t = t0 then 0 else if t = t1 then 1 else 2]\<rparr>"

lemma demo_codec_root: "t \<in> {t0, t1, t2} \<Longrightarrow> env_root (demo_codec t0 t1 t2) (env_enc (demo_codec t0 t1 t2) t) = t"
  by (auto simp: demo_codec_def demo_env_def)

theorem written_object_is_read_witness:
  "\<exists>env x s1 s2 b r'.
     Client_Create (link_peer env 5 900000) (demo_id 7) 3 (Some [9]) 1 0 True demo_pair = Inr (Inr (x, 3), s1) \<and>
     Client_Seal (link_peer env 5 900000) (demo_id 7) (poke env 5 900000 x [1, 2, 3] s1) = Inr (Inr (), s2) \<and>
     Client_Get (link_peer env 6 70000) [demo_id 7] 0 (joins s2 demo_pair) = Inr (Inr (Status_OK, [Some b]), r') \<and>
     p_load (link_peer env 6 70000) (fst (b_data b)) (nat (snd (b_data b))) (world r') = [1, 2, 3] \<and>
     p_load (link_peer env 6 70000) (fst (b_metadata b)) (nat (snd (b_metadata b))) (world r') = [9]"
proof -
  note demo = demo_pair_def new_client_def demo_store_def PlasmaStore_def demo_alloc_def
  let ?S = "l_store (world demo_pair)" and ?d = "[1, 2, 3] :: byte list" and ?m = "[9] :: byte list"
  define env where "env = demo_codec (snd (SendCreateRequest Pair (demo_id 7) True (int (length ?d)) (int (length ?m)) 0))
    (snd (SendSealRequest Pair (demo_id 7) (object_digest ?d ?m))) (snd (SendGetRequest Pair [demo_id 7] 1 0))"
  have steps: "in_step 5 900000 demo_pair" "in_step 6 70000 demo_pair"
    by (simp_all add: in_step_def demo new_Client_def link_stream_def Let_def)
  have inv: "policy_inv (policy ?S)" using policy_inv_new by (simp add: demo)
  have new: "creatable env 5 (demo_id 7) ?S"
    by (simp add: creatable_def demo users_def ids_of_def new_Client_def tracked_def new_QuotaAwarePolicy_def new_LRUCache_def
        lru_keys_def lru_items_def size_ok_def GetObjectSize_def GetObjectTableEntry_def env_def demo_codec_def demo_env_def demo_stub_def
        RpcClient_GetObject_def RpcClient_GetObjects_def vec_get_def)
  have pool: "pool_inv (alloc ?S) []"
    by (simp add: demo pool_inv_def pool_partition_def)
  obtain p out a where m: "Memalign kBlockSize (length ?d + length ?m) no_out (alloc ?S) = (p, out, a)" and p: "p \<noteq> 0" "out_offset out = 0"
    by (simp add: demo Memalign_def FindRegion_def mm_lower_bound_def sadd64_def int64_of_def kBlockSize_def)
  have "\<exists>x s1 s2 b r'.
     Client_Create (link_peer env 5 900000) (demo_id 7) (int (length ?d)) (Some ?m) (int (length ?m)) 0 True demo_pair =
       Inr (Inr (x, int (length ?d)), s1) \<and>
     Client_Seal (link_peer env 5 900000) (demo_id 7) (poke env 5 900000 x ?d s1) = Inr (Inr (), s2) \<and>
     Client_Get (link_peer env 6 70000) [demo_id 7] 0 (joins s2 demo_pair) = Inr (Inr (Status_OK, [Some b]), r') \<and>
     p_load (link_peer env 6 70000) (fst (b_data b)) (nat (snd (b_data b))) (world r') = ?d \<and>
     p_load (link_peer env 6 70000) (fst (b_metadata b)) (nat (snd (b_metadata b))) (world r') = ?m"
  proof (rule written_object_is_read [where m = 1000, OF refl refl steps _ inv _ _ _ _ _ new _ _ pool m p(1)])
    show "env_root env (env_enc env t) = t"
      if "t \<in> {snd (SendCreateRequest Pair (demo_id 7) True (int (length ?d)) (int (length ?m)) 0),
        snd (SendSealRequest Pair (demo_id 7) (object_digest ?d ?m)), snd (SendGetRequest Pair [demo_id 7] 1 0)}" for t
      unfolding env_def using that by (rule demo_codec_root)
  qed (simp_all add: demo p(2) env_def demo_codec_def demo_env_def id_ok_def demo_id_def kUniqueIDSize_def GetMmapSize_def in_int64_def
      kMmapRegionsGap_def)
  then show ?thesis by (intro exI [of _ env]) simp
qed

end
