(* ===== verification/Link_Remote.thy ===== *)
theory Link_Remote
  imports Link_Write
begin

text \<open>
  Disaggregated memory from end to end: a client, the store it is connected to, and the store of
  another node whose pool the client has mapped.
\<close>

section \<open>The store's half of a get\<close>

text \<open>The place of a sealed object of the peer's table \<open>T\<close>, as the store passes it on.\<close>

definition far_place :: "ObjectTable \<Rightarrow> UniqueID \<Rightarrow> PlasmaObject" where
  "far_place T i = remote_object (d_object (object_details (map_of T i)))"

lemma far_place_fd [simp]: "o_store_fd (far_place T i) = -1"
  by (simp add: far_place_def remote_object_def)

lemma far_place_entry:
  assumes "map_of T i = Some e" and "deliverable a m e"
  shows "far_place T i = \<lparr>o_store_fd = -1, o_data_offset = e_offset e, o_metadata_offset = e_offset e + e_data_size e,
     o_data_size = e_data_size e, o_metadata_size = e_metadata_size e, o_device_num = 0\<rparr>"
proof -
  have "in_int64 (e_offset e)" "in_int64 (e_offset e + e_data_size e)" "in_int64 (e_data_size e)" "in_int64 (e_metadata_size e)"
    using assms(2) by (auto simp: deliverable_def in_int64_def kMmapRegionsGap_def)
  with assms show ?thesis
    by (simp add: far_place_def object_details_def deliverable_def remote_object_def int64_uint64_roundtrip int32_of_def)
qed

lemma get_fold_missing:
  "\<forall>i \<in> set ids. map_of (objects s) i = None \<Longrightarrow>
     mfold (get_one env r fd) ids (rem, evs) s = Inr ((rem @ ids, evs), s)"
  by (induction ids arbitrary: rem) (simp_all add: mret_def mbind_def get_one_def get_entry_def GetObjectTableEntry_def)

lemma get_remote_fold:
  assumes "map_of (get_heap t) r = Some q" and "\<forall>k \<in> set ks. k < length ds \<and> d_status (ds ! k) = RD_OK"
  shows "\<exists>H. mfold (get_remote r ds ids) ks () t = Inr ((), t\<lparr>get_heap := H\<rparr>) \<and>
     map_of H r = Some (q\<lparr>gr_objects := fold (\<lambda>k. AList.update (ids ! k) (remote_object (d_object (ds ! k)))) ks (gr_objects q),
       gr_num_satisfied := gr_num_satisfied q + int (length ks)\<rparr>)"
  using assms
proof (induction ks arbitrary: t q)
  case Nil
  then show ?case by (intro exI [of _ "get_heap t"]) (simp add: mret_def)
next
  case (Cons k ks)
  define p where "p = q\<lparr>gr_objects := AList.update (ids ! k) (remote_object (d_object (ds ! k))) (gr_objects q),
     gr_num_satisfied := gr_num_satisfied q + 1\<rparr>"
  define u where "u = t\<lparr>get_heap := AList.update r p (get_heap t)\<rparr>"
  have "get_remote r ds ids k () t = Inr ((), u)"
    using Cons.prems by (simp add: get_remote_def vec_get_def set_request_def mbind_def the_request_def u_def p_def)
  moreover from Cons.IH [of u p] Cons.prems(2) obtain H where
    "mfold (get_remote r ds ids) ks () u = Inr ((), u\<lparr>get_heap := H\<rparr>)"
    "map_of H r = Some (p\<lparr>gr_objects := fold (\<lambda>k. AList.update (ids ! k) (remote_object (d_object (ds ! k)))) ks (gr_objects p),
       gr_num_satisfied := gr_num_satisfied p + int (length ks)\<rparr>)"
    by (auto simp: u_def update_conv')
  ultimately show ?case
    by (intro exI [of _ H]) (simp add: mbind_def u_def p_def)
qed

lemma fds_far:
  assumes "\<forall>i \<in> set ids. \<exists>ob. map_of objs i = Some ob \<and> o_store_fd ob = -1"
  shows "rfold (fds_step recs) ids (objs, fds, szs) = Inr (objs, fds, szs)"
  using assms by (induction ids) (auto simp: fds_step_def object_at_def)

text \<open>What the request leaves of the store: nothing but messages and requests has changed.\<close>

definition asked :: "'x store \<Rightarrow> 'x store \<Rightarrow> bool" where
  "asked s u \<longleftrightarrow> objects u = objects s \<and> alloc u = alloc s \<and> memory u = memory s \<and> connected_clients u = connected_clients s \<and>
     evloop u = evloop s \<and> mutex u = mutex s \<and> policy u = policy s"

lemma get_request_remote:
  assumes "\<forall>i \<in> set ids. map_of (objects s) i = None" and "distinct ids" and "ids \<noteq> []"
    and rpc: "RpcClient_GetObjects (env_rpc env (tick s)) ids = map (\<lambda>i. object_details (map_of T i)) ids"
    and there: "\<forall>i \<in> set ids. \<exists>e. map_of T i = Some e \<and> e_state e = PLASMA_SEALED"
    and "\<forall>n. st_ok (fst (env_send env n))"
  shows "\<exists>u. ProcessGetRequest env c ids timeout s = Inr ((), u) \<and> asked s u \<and>
     outbox u = outbox s @ [SendGetReply (SentMessage c) ids (map (\<lambda>i. (i, far_place T i)) ids) (length ids) [] []]"
proof -
  let ?r = "next_request s" and ?ds = "map (\<lambda>i. object_details (map_of T i)) ids" and ?n = "length ids"
  define s0 where "s0 = s\<lparr>get_heap := AList.update ?r (new_GetRequest c ids) (get_heap s), next_request := Suc ?r\<rparr>"
  have 1: "mfold (get_one env ?r c) ids ([], []) s0 = Inr ((ids, []), s0)"
    using get_fold_missing [of ids s0 env ?r c "[]" "[]"] assms(1) by (simp add: s0_def)
  define t where "t = s0\<lparr>tick := Suc (tick s)\<rparr>"
  have "map_of (get_heap t) ?r = Some (new_GetRequest c ids)" by (simp add: t_def s0_def update_conv')
  moreover have ok: "d_status (?ds ! k) = RD_OK" if "k < ?n" for k
  proof -
    from that there have "\<exists>e. map_of T (ids ! k) = Some e \<and> e_state e = PLASMA_SEALED" by simp
    with that show ?thesis by (auto simp: object_details_def)
  qed
  ultimately obtain H where H: "mfold (get_remote ?r ?ds ids) [0 ..< ?n] () t = Inr ((), t\<lparr>get_heap := H\<rparr>)"
    "map_of H ?r = Some ((new_GetRequest c ids)\<lparr>gr_objects := fold (\<lambda>k. AList.update (ids ! k) (remote_object (d_object (?ds ! k)))) [0 ..< ?n] [],
       gr_num_satisfied := int ?n\<rparr>)"
    using get_remote_fold [of t ?r "new_GetRequest c ids" "[0 ..< ?n]" ?ds ids] by (auto simp: new_GetRequest_def)
  have 2: "check_remote env ?r ids s0 = Inr ((), t\<lparr>get_heap := H\<rparr>)"
    using H(1) rpc assms(3) by (simp add: check_remote_def t_def) (simp add: s0_def)
  define q where "q = (new_GetRequest c ids)\<lparr>gr_objects := fold (\<lambda>i. AList.update i (far_place T i)) ids [], gr_num_satisfied := int ?n\<rparr>"
  have "fold (\<lambda>k. AList.update (ids ! k) (remote_object (d_object (?ds ! k)))) [0 ..< ?n] [] =
      fold (\<lambda>i. AList.update i (far_place T i)) (map ((!) ids) [0 ..< ?n]) ([] :: (UniqueID \<times> PlasmaObject) list)"
    by (auto simp: fold_map far_place_def intro!: fold_cong)
  with H(2) have q: "map_of H ?r = Some q" by (simp add: q_def map_nth)
  have objs: "map_of (gr_objects q) i = Some (far_place T i)" if "i \<in> set ids" for i
    using that by (simp add: q_def fold_uses [OF assms(2)])
  then have f: "rfold (fds_step (mmap_records (alloc (t\<lparr>get_heap := H\<rparr>)))) ids (gr_objects q, [], []) = Inr (gr_objects q, [], [])"
    by (intro fds_far) auto
  have fields: "gr_client q = c" "gr_timer q = -1" "gr_object_ids q = ids" "gr_num_satisfied q = gr_num_objects_to_wait_for q"
    using assms(2) by (simp_all add: q_def new_GetRequest_def distinct_remdups_id)
  have heap: "map_of (get_heap (t\<lparr>get_heap := H\<rparr>)) ?r = Some q" using q by simp
  define w where "w = t\<lparr>get_heap := AList.update ?r q H, tick := Suc (tick t),
      outbox := outbox t @ [SendGetReply (SentMessage c) ids (gr_objects q) ?n [] []]\<rparr>"
  define u where "u = w\<lparr>object_get_requests := fold (unwaited ?r) ids (object_get_requests w), get_heap := AList.delete ?r (get_heap w)\<rparr>"
  have "ReturnFromGet env ?r (t\<lparr>get_heap := H\<rparr>) = Inr ((), u)"
    unfolding u_def by (rule ReturnFromGet_run [OF heap fields(1-3) f]) (use assms(6) in \<open>simp_all add: w_def mret_def\<close>)
  then have "reply_or_wait env ?r timeout (t\<lparr>get_heap := H\<rparr>) = Inr ((), u)"
    using heap fields(4) by (simp add: reply_or_wait_def mbind_def the_request_def)
  then have "ProcessGetRequest env c ids timeout s = Inr ((), u)"
    using 1 2 by (simp add: ProcessGetRequest_def Let_def mbind_def mret_def flip: s0_def)
  moreover have "SendGetReply (SentMessage c) ids (gr_objects q) ?n [] [] =
      SendGetReply (SentMessage c) ids (map (\<lambda>i. (i, far_place T i)) ids) ?n [] []"
    by (rule reply_places) (use objs in blast)
  ultimately show ?thesis by (auto simp: asked_def u_def w_def t_def s0_def)
qed

section \<open>The client's half\<close>

text \<open>
  The peer of a client that can also open the memory of the other node: the file has \<open>Z\<close> bytes and
  is mapped at \<open>R\<close>, and what is read there lies in the memory of the store \<open>far\<close>. Its connection to
  its own store has been accepted there.
\<close>

definition remote_peer :: "'x env \<Rightarrow> int \<Rightarrow> nat \<Rightarrow> nat \<Rightarrow> int \<Rightarrow> string \<Rightarrow> 'y store \<Rightarrow> 'x link peer" where
  "remote_peer env c B R Z path far = (link_peer env c B)
     \<lparr>p_open := (\<lambda>f w. (if f = path then (2, Z) else (-1, 0), w)),
      p_mmap := (\<lambda>fd n w. if fd = 2 then (Some R, w) else p_mmap (link_peer env c B) fd n w),
      p_load := (\<lambda>a n w. if R \<le> a \<and> a + n \<le> R + nat (Z - kMmapRegionsGap)
        then buffer_bytes far (base_pointer (alloc far) + (a - R)) n else p_load (link_peer env c B) a n w),
      p_connect := (\<lambda>_ _ _ w. ((Status_OK, 1), w))\<rparr>"

lemma remote_messages [simp]:
  "request (remote_peer env c B R Z path far) = request (link_peer env c B)"
  "receive (remote_peer env c B R Z path far) = receive (link_peer env c B)"
  by (simp_all add: request_def receive_def read_reply_def remote_peer_def fun_eq_iff)

lemma map_remote:
  assumes "map_of (mmap_table s) (-1) = None"
  shows "MmapRemoteMemory (remote_peer env c B R Z path far) path s = Inr (Inr (), s\<lparr>mmap_table :=
     AList.update (-1) \<lparr>mm_fd = 2, mm_pointer = R, mm_length = uint64_of (Z - kMmapRegionsGap)\<rparr> (mmap_table s)\<rparr>)"
  using assms
  by (simp add: MmapRemoteMemory_def cbind_def with_world_def remote_peer_def LookupOrMmap_def new_ClientMmapTableEntry_def
      Let_def cret_def) (simp add: link_peer_def)

lemma in_step_map_remote:
  "in_step c B s \<Longrightarrow> pa_fd (alloc (l_store (world s))) \<noteq> -1 \<Longrightarrow> in_step c B (s\<lparr>mmap_table := AList.update (-1) me (mmap_table s)\<rparr>)"
  by (simp add: in_step_def Let_def update_conv')

lemma remote_get:
  fixes s :: "'x link client"
  defines "S \<equiv> l_store (world s)"
  assumes step: "in_step c B s" and me: "map_of (mmap_table s) (-1) = Some me"
    and cb: "map_of (file_callbacks (evloop S)) c = Some (ev, CbProcessMessage c)"
    and codec: "env_root env (env_enc env (snd (SendGetRequest Pair ids (length ids) timeout))) =
       snd (SendGetRequest Pair ids (length ids) timeout)"
    and rpc: "reaches (env_rpc env (tick S)) T"
    and ent: "\<forall>i \<in> set ids. map_of (objects S) i = None \<and> (\<exists>e. map_of T i = Some e \<and> deliverable a m e)"
    and ids: "distinct ids" "ids \<noteq> []" "list_all id_ok ids"
    and fresh: "\<forall>i \<in> set ids. map_of (objects_in_use s) i = None"
    and sends: "\<forall>n. st_ok (fst (env_send env n))"
  shows "\<exists>s'. GetBuffers (remote_peer env c B R Z path far) wrap ids timeout s =
       Inr (Inr (Status_OK, map (\<lambda>i. Some (buffer_at wrap (mm_pointer me) (far_place T i))) ids), s') \<and>
     asked S (l_store (world s')) \<and> l_up (world s') \<and> store_conn s' = store_conn s \<and> cl_deletion_cache s' = cl_deletion_cache s \<and>
     (\<forall>j. map_of (objects_in_use s') j = (if j \<in> set ids then Some (first_use (far_place T j)) else map_of (objects_in_use s) j))"
proof -
  let ?P = "remote_peer env c B R Z path far" and ?n = "length ids" and ?objs = "map (\<lambda>i. (i, far_place T i)) ids"
  let ?q = "snd (SendGetRequest Pair ids ?n timeout)" and ?t = "snd (SendGetReply Pair ids ?objs ?n [] [])"
  from step have st: "l_up (world s)" "link_stream c (world s) = []" "l_taken (world s) \<le> length (filter (to_client c) (outbox S))"
    by (auto simp: in_step_def Let_def S_def)
  have there: "\<forall>i \<in> set ids. \<exists>e. map_of T i = Some e \<and> e_state e = PLASMA_SEALED" "\<forall>i \<in> set ids. map_of (objects S) i = None"
    using ent by (auto simp: deliverable_def)
  have "RpcClient_GetObjects (env_rpc env (tick S)) ids = map (\<lambda>i. object_details (map_of T i)) ids"
    using reaches_ids [OF rpc ids(3)] by (simp add: GetObjectTableEntry_def)
  from get_request_remote [OF there(2) ids(1,2) this there(1) sends, of c timeout] obtain u where
    u: "ProcessGetRequest env c ids timeout S = Inr ((), u)" "asked S u" "outbox u = outbox S @ [SendGetReply (SentMessage c) ids ?objs ?n [] []]"
    by blast
  have "ReadGetRequest ?q = Inr (ids, timeout)" using ids(3) by (simp add: object_messages rmap_from_binary)
  then have "store_event_step env (message_event env c PlasmaGetRequest ?q) S = Inr ((), u)"
    using cb codec u(1)
    by (simp add: store_event_step_def message_event_def ProcessMessage_def mbind_def mcheck_def mlift_def mret_def)
  then have "request (link_peer env c B) PlasmaGetRequest ?q s = Inr (Inr (), s\<lparr>world := (world s)\<lparr>l_store := u\<rparr>\<rparr>)"
    using request_link [OF st(1)] by (simp add: S_def)
  then have send: "SendGetRequest (request ?P) ids ?n timeout s = Inr (Inr (), s\<lparr>world := (world s)\<lparr>l_store := u\<rparr>\<rparr>)"
    by (simp add: SendGetRequest_def)
  define s1 where "s1 = s\<lparr>world := (world s)\<lparr>l_store := u\<rparr>\<rparr>"
  have "link_stream c (world s1) = [SentMessage c PlasmaGetReply ?t]"
    using stream_send [OF st(2) st(3) [unfolded S_def] u(3) [unfolded S_def]]
    by (simp add: s1_def SendGetReply_def to_client_def)
  from read_reply_link(1) [OF this, of env B] obtain s2 where
    reply: "receive ?P PlasmaGetReply s1 = Inr (Inr ?t, s2)" and s2: "s2 = s1\<lparr>world := (world s1)\<lparr>l_taken := Suc (l_taken (world s1))\<rparr>\<rparr>"
    by simp
  have pl: "object_ok (far_place T i) \<and> o_device_num (far_place T i) = 0 \<and> o_data_size (far_place T i) \<noteq> -1" if "i \<in> set ids" for i
  proof -
    from ent that obtain e where "map_of T i = Some e" "deliverable a m e" by blast
    with far_place_entry [OF this] show ?thesis by (auto simp: object_ok_def deliverable_def in_int64_def kMmapRegionsGap_def)
  qed
  have read: "ReadGetReply ?t ?n = Inr (ids, map (far_place T) ids, [], [])"
    using get_reply_read [of ids ?objs "[]" "[]"] pl ids(3) by (simp add: object_at_map)
  define s' where "s' = s2\<lparr>objects_in_use := fold (\<lambda>i. AList.update i (first_use (far_place T i))) ids (objects_in_use s2)\<rparr>"
  have me2: "map_of (mmap_table s2) (-1) = Some me" using me by (simp add: s2 s1_def)
  have bufs: "cmap (received_buffer wrap) (zip (zip ids (map (far_place T) ids)) (map (\<lambda>_. None) ids)) s2 =
      Inr (Inr (map (\<lambda>i. Some (buffer_at wrap (mm_pointer me) (far_place T i))) ids), s')"
    using received_all [OF me2 ids(1), of "far_place T" wrap] fresh pl by (simp add: s2 s1_def s'_def)
  have "fetch_buffers ?P wrap ids timeout (map (\<lambda>_. None) ids) s =
      Inr (Inr (map (\<lambda>i. Some (buffer_at wrap (mm_pointer me) (far_place T i))) ids), s')"
    using send reply read bufs by (simp add: fetch_buffers_def cbind_def clift_def cret_def flip: s1_def)
  then have "GetBuffers ?P wrap ids timeout s = Inr (Inr (Status_OK, map (\<lambda>i. Some (buffer_at wrap (mm_pointer me) (far_place T i))) ids), s')"
    using local_none [OF fresh, of wrap timeout] ids(2)
    by (cases ids) (simp_all add: GetBuffers_def cbind_def keep_output_def)
  then show ?thesis
    using u(2) st(1) ids(1) by (intro exI [of _ s']) (simp add: s'_def s2 s1_def fold_uses)
qed

text \<open>The release of an object the store has no entry for.\<close>

lemma release_unknown:
  fixes s :: "'x link client"
  assumes "l_up (world s)" and "0 \<le> store_conn s" and "map_of (objects_in_use s) i = Some e" and "u_count e = 1"
    and "i \<notin> set (cl_deletion_cache s)" and "map_of (objects (l_store (world s))) i = None" and "id_ok i"
    and "map_of (file_callbacks (evloop (l_store (world s)))) c = Some (ev, CbProcessMessage c)"
    and "env_root env (env_enc env (snd (SendReleaseRequest Pair i))) = snd (SendReleaseRequest Pair i)"
  shows "\<exists>s'. Client_Release (remote_peer env c B R Z path far) i s = Inr (Inr (), s') \<and> \<not> l_up (world s')"
proof -
  let ?q = "snd (SendReleaseRequest Pair i)"
  have "ReadReleaseRequest ?q = Inr i" using assms(7) by (simp add: object_messages)
  then have "store_event_step env (message_event env c PlasmaReleaseRequest ?q) (l_store (world s)) =
      Inl (CheckFailed ''entry != nullptr'')"
    using assms(6,8,9)
    by (simp add: store_event_step_def message_event_def ProcessMessage_def mbind_def mcheck_def mlift_def mret_def
        ReleaseObject_def get_entry_def GetObjectTableEntry_def)
  then have "link_send env c PlasmaReleaseRequest ?q (world s) = (Status_OK, (world s)\<lparr>l_up := False\<rparr>)"
    using assms(1) by (simp add: link_send_def)
  then show ?thesis
    using assms(2-5)
    by (simp add: Client_Release_def cbind_def set_use_def ccheck_def MarkObjectUnused_def update_conv' SendReleaseRequest_def
        request_def with_world_def link_peer_def return_not_ok_def)
qed

section \<open>Remote objects are delivered, and cannot be released\<close>


text \<open>
  An object of four bytes that lies in the pool of another store; the client's own store is empty.
\<close>

definition demo_near :: "unit link client" where
  "demo_near = demo_linked\<lparr>world := (world demo_linked)\<lparr>l_store := (l_store (world demo_linked))\<lparr>objects := []\<rparr>\<rparr>\<rparr>"

definition demo_far :: "unit store" where
  "demo_far = l_store (world demo_linked)"

definition demo_rpc :: "unit env" where
  "demo_rpc = (let t = snd (SendReleaseRequest Pair (demo_id 7)) in (demo_codec (snd (SendGetRequest Pair [demo_id 7] 1 0)) t t)
     \<lparr>env_rpc := \<lambda>_ ids. case RpcService_GetObjects (objects demo_far) ids of Inr r \<Rightarrow> r | Inl _ \<Rightarrow> []\<rparr>)"


end
