(* ===== verification/Bench.thy ===== *)
theory Bench
  imports Link_Remote
begin

unbundle bit_operations_syntax

text \<open>
  The benchmark programs of the repository (bench_setup.cc, bench_local.cc and bench_remote.cc in
  src), as callers of the client library. \<open>n\<close> and \<open>sz\<close> are the arguments after \<open>strtol\<close>, with \<open>n\<close>
  below 2^31, since the loops count with \<open>int\<close>; the times they print are left out, and so is the
  generator of random bytes (\<open>rand_data\<close>). \<open>result\<close> is what the heap holds when the array of results is made.

  \<open>bench_remote\<close> is the program disaggregation is for: run against its own store and the store of
  the other node it reads every object of the other node, and both stores survive.
\<close>

section \<open>The programs\<close>

text \<open>\<open>std::bitset<20>(i).to_string()\<close>: the low twenty bits, the highest first, as characters.\<close>

definition bench_id :: "nat \<Rightarrow> UniqueID" where
  "bench_id i = UniqueID (map (\<lambda>k. if bit i (19 - k) then 49 else 48) [0 ..< 20])"

definition bench_ids :: "nat \<Rightarrow> UniqueID list" where
  "bench_ids n = map bench_id [0 ..< n]"

text \<open>\<open>ARROW_CHECK_OK\<close>.\<close>

definition check_ok :: "('a, 'w) call \<Rightarrow> ('a, 'w) call" where
  "check_ok m s = rbind (m s) (\<lambda>(r, s). case r of Inl st \<Rightarrow> Inl (CheckFailed ''Bad status'') | Inr x \<Rightarrow> Inr (Inr x, s))"

fun cfold :: "('a \<Rightarrow> 'b \<Rightarrow> ('b, 'w) call) \<Rightarrow> 'a list \<Rightarrow> 'b \<Rightarrow> ('b, 'w) call" where
  "cfold f [] y = cret y"
| "cfold f (x # xs) y = cbind (f x y) (cfold f xs)"

definition write_object_data :: "'w peer \<Rightarrow> nat \<Rightarrow> byte list \<Rightarrow> nat \<times> nat \<times> int \<Rightarrow> (unit, 'w) call" where
  "write_object_data P sz rand_data = (\<lambda>(i, data, _).
     with_world (\<lambda>w. ((), p_store P data (take sz (drop (i * sz) rand_data)) w)))"

definition bench_CreateObjects :: "'w peer \<Rightarrow> byte list \<Rightarrow> nat \<Rightarrow> nat \<Rightarrow> (unit, 'w) call" where
  "bench_CreateObjects P rand_data n sz =
     cbind (cmap (\<lambda>i. check_ok (Client_Create P i (int sz) (Some []) 0 0 True)) (bench_ids n)) (\<lambda>data.
     cbind (cmap (write_object_data P sz rand_data) (zip [0 ..< n] data)) (\<lambda>_.
     cbind (cmap (\<lambda>i. check_ok (Client_Seal P i)) (bench_ids n)) (\<lambda>_.
     cbind (cmap (\<lambda>i. check_ok (Client_Release P i)) (bench_ids n)) (\<lambda>_. cret ()))))"

definition copy_out :: "'w peer \<Rightarrow> nat \<Rightarrow> nat \<times> ObjectBuffer option \<Rightarrow> byte list \<Rightarrow> (byte list, 'w) call" where
  "copy_out P sz = (\<lambda>(i, b) result s.
     case b of
       None \<Rightarrow> Inl NullDeref
     | Some b \<Rightarrow>
         let bytes = p_load P (fst (b_data b)) (nat (snd (b_data b))) (world s) in
         if i * sz + length bytes \<le> length result
         then Inr (Inr (take (i * sz) result @ bytes @ drop (i * sz + length bytes) result), s)
         else Inl OutOfBounds)"

definition bench_GetObjects :: "'w peer \<Rightarrow> nat \<Rightarrow> nat \<Rightarrow> byte list \<Rightarrow> (byte list, 'w) call" where
  "bench_GetObjects P n sz result =
     cbind (Client_Get_raw P (bench_ids n) 0) (\<lambda>(st, object_buffers).
     cbind (ccheck (st_ok st) ''Bad status'') (\<lambda>_.
     cfold (copy_out P sz) (zip [0 ..< n] object_buffers) result))"

definition bench_remote :: "'w peer \<Rightarrow> string \<Rightarrow> string \<Rightarrow> nat \<Rightarrow> nat \<Rightarrow> byte list \<Rightarrow> (byte list, 'w) call" where
  "bench_remote P plasma_socket remote_memory_file n sz result =
     cbind (check_ok (MmapRemoteMemory P remote_memory_file)) (\<lambda>_.
     cbind (check_ok (Client_Connect P plasma_socket '''' (-1))) (\<lambda>_.
     cbind (bench_GetObjects P n sz result) (\<lambda>result.
     cbind (check_ok (Client_Disconnect P)) (\<lambda>_. cret result))))"

definition bench_setup :: "'w peer \<Rightarrow> string \<Rightarrow> string \<Rightarrow> nat \<Rightarrow> nat \<Rightarrow> byte list \<Rightarrow> (unit, 'w) call" where
  "bench_setup P plasma_socket remote_memory_file n sz rand_data =
     cbind (check_ok (MmapRemoteMemory P remote_memory_file)) (\<lambda>_.
     cbind (check_ok (Client_Connect P plasma_socket '''' (-1))) (\<lambda>_.
     cbind (check_ok (Client_Evict P 1000000000)) (\<lambda>_.
     cbind (bench_CreateObjects P rand_data n sz) (\<lambda>_.
     check_ok (Client_Disconnect P)))))"

text \<open>The local benchmark gives the objects back, and does not look at the status of the eviction.\<close>

definition bench_local :: "'w peer \<Rightarrow> string \<Rightarrow> string \<Rightarrow> nat \<Rightarrow> nat \<Rightarrow> byte list \<Rightarrow> byte list \<Rightarrow> (byte list, 'w) call" where
  "bench_local P plasma_socket remote_memory_file n sz rand_data result =
     cbind (check_ok (MmapRemoteMemory P remote_memory_file)) (\<lambda>_.
     cbind (check_ok (Client_Connect P plasma_socket '''' (-1))) (\<lambda>_.
     cbind (bench_CreateObjects P rand_data n sz) (\<lambda>_.
     cbind (bench_GetObjects P n sz result) (\<lambda>result.
     cbind (cmap (\<lambda>i. check_ok (Client_Release P i)) (bench_ids n)) (\<lambda>_ s.
     rbind (Client_Evict P 1000000000 s) (\<lambda>(_, s).
     cbind (check_ok (Client_Disconnect P)) (\<lambda>_. cret result) s))))))"

section \<open>The identifiers\<close>

lemma bench_id_ok [simp]: "id_ok (bench_id i)"
  by (simp add: bench_id_def id_ok_def kUniqueIDSize_def)

lemma bench_id_eq: "bench_id i = bench_id j \<longleftrightarrow> take_bit 20 i = take_bit 20 j"
proof -
  have "bench_id i = bench_id j \<longleftrightarrow> (\<forall>k \<in> set [0 ..< 20]. bit i (19 - k) = bit j (19 - k))"
    unfolding bench_id_def UniqueID.inject map_eq_conv by (intro ball_cong) (auto split: if_splits)
  also have "\<dots> \<longleftrightarrow> (\<forall>k < 20. bit i k = bit j k)"
  proof
    assume h: "\<forall>k \<in> set [0 ..< 20]. bit i (19 - k) = bit j (19 - k)"
    show "\<forall>k < 20. bit i k = bit j k"
    proof (intro allI impI)
      fix k :: nat assume "k < 20"
      with h [rule_format, of "19 - k"] show "bit i k = bit j k" by simp
    qed
  qed auto
  also have "\<dots> \<longleftrightarrow> take_bit 20 i = take_bit 20 j"
    by (auto simp: bit_eq_iff bit_take_bit_iff)
  finally show ?thesis .
qed

text \<open>The names are different exactly for up to 2^20 objects; beyond that they repeat.\<close>
theorem bench_ids_distinct: "distinct (bench_ids n) \<longleftrightarrow> n \<le> 2 ^ 20"
proof
  assume "n \<le> 2 ^ 20"
  then have "inj_on bench_id {0 ..< n}"
    by (intro inj_onI) (simp add: bench_id_eq take_bit_nat_eq_self_iff [THEN iffD2])
  then show "distinct (bench_ids n)" by (simp add: bench_ids_def distinct_map)
next
  assume d: "distinct (bench_ids n)"
  show "n \<le> 2 ^ 20"
  proof (rule ccontr)
    assume "\<not> n \<le> 2 ^ 20"
    moreover have "bench_id (2 ^ 20) = bench_id 0" by (simp add: bench_id_eq)
    moreover have "inj_on bench_id {0 ..< n}" using d by (simp add: bench_ids_def distinct_map)
    ultimately show False using inj_onD [of bench_id "{0 ..< n}" "2 ^ 20" 0] by simp
  qed
qed

section \<open>The remote benchmark\<close>

lemma copy_all:
  assumes "\<And>k. k < length bs \<Longrightarrow> length (f (bs ! k)) = sz \<and>
      p_load P (fst (b_data (bs ! k))) (nat (snd (b_data (bs ! k)))) (world s) = f (bs ! k)"
    and "length rest = length bs * sz" and "length pre = i * sz"
  shows "cfold (copy_out P sz) (zip [i ..< i + length bs] (map Some bs)) (pre @ rest) s =
     Inr (Inr (pre @ concat (map f bs)), s)"
  using assms
proof (induction bs arbitrary: i pre rest)
  case Nil
  then show ?case by (simp add: cret_def)
next
  case (Cons b bs)
  from Cons.prems(1) [of 0] have b: "length (f b) = sz" "p_load P (fst (b_data b)) (nat (snd (b_data b))) (world s) = f b" by simp_all
  have "copy_out P sz (i, Some b) (pre @ rest) s = Inr (Inr ((pre @ f b) @ drop sz rest), s)"
    using Cons.prems(2,3) b by (simp add: copy_out_def Let_def)
  moreover have "cfold (copy_out P sz) (zip [Suc i ..< Suc i + length bs] (map Some bs)) ((pre @ f b) @ drop sz rest) s =
      Inr (Inr ((pre @ f b) @ concat (map f bs)), s)"
    using Cons.prems(2,3) b(1) Cons.prems(1) [of "Suc k" for k] by (intro Cons.IH) auto
  moreover have "[i ..< i + length (b # bs)] = i # [Suc i ..< Suc i + length bs]" by (simp add: upt_rec)
  ultimately show ?case by (simp add: cbind_def)
qed

lemma remote_connect:
  fixes s :: "'x link client"
  assumes step: "in_step c B s" and "map_of (file_callbacks (evloop (l_store (world s)))) c = Some (ev, CbProcessMessage c)"
    and "env_root env (env_enc env []) = []" and "\<forall>n. st_ok (fst (env_send env n))"
  shows "\<exists>s'. Client_Connect (remote_peer env c B R Z path far) sock '''' k s = Inr (Inr (), s') \<and> in_step c B s' \<and>
     asked (l_store (world s)) (l_store (world s')) \<and> store_conn s' = 1 \<and> mmap_table s' = mmap_table s \<and>
     objects_in_use s' = objects_in_use s"
proof -
  let ?P = "remote_peer env c B R Z path far" and ?S = "l_store (world s)"
  let ?t = "[FbScalar (GetFootprintLimit (alloc ?S))]"
  define u where "u = ?S\<lparr>tick := Suc (tick ?S), outbox := outbox ?S @ [SentMessage c PlasmaConnectReply ?t]\<rparr>"
  obtain r e where re: "env_send env (tick ?S) = (r, e)" "st_ok r" using assms(4) by (metis fst_conv surj_pair)
  have ev: "store_event_step env (message_event env c PlasmaConnectRequest []) ?S = Inr ((), u)"
    using assms(2,3) re
    by (simp add: store_event_step_def message_event_def ProcessMessage_def mbind_def mcheck_def mret_def handle_def
        SendConnectReply_def send_to_def HANDLE_SIGPIPE_def u_def)
  define s1 where "s1 = s\<lparr>store_conn := 1\<rparr>"
  define s2 where "s2 = s1\<lparr>world := (world s)\<lparr>l_store := u\<rparr>\<rparr>"
  from step have st: "l_up (world s)" "link_stream c (world s) = []" "l_taken (world s) \<le> length (filter (to_client c) (outbox ?S))"
    by (auto simp: in_step_def Let_def)
  have send: "SendConnectRequest (request ?P) s1 = Inr (Inr (), s2)"
    using request_link [of s1 env c PlasmaConnectRequest "[]" u B] st(1) ev by (simp add: SendConnectRequest_def s1_def s2_def)
  have "link_stream c (world s2) = [SentMessage c PlasmaConnectReply ?t]"
    using stream_send [OF st(2,3), of u "[SentMessage c PlasmaConnectReply ?t]"] by (simp add: s2_def u_def to_client_def)
  note reply = read_reply_link(1) [OF this, of env B] read_reply_link(2) [OF this]
  have conn: "p_connect ?P = (\<lambda>_ _ _ w. ((Status_OK, 1), w))" by (simp add: remote_peer_def)
  define s3 where "s3 = s2\<lparr>world := (world s2)\<lparr>l_taken := Suc (l_taken (world s2))\<rparr>, store_capacity := GetFootprintLimit (alloc ?S)\<rparr>"
  have "Client_Connect ?P sock '''' k s = Inr (Inr (), s3)"
    using send reply(1)
    by (simp add: Client_Connect_def cbind_def with_world_def return_not_ok_def clift_def ReadConnectReply_def fb_field_def
        conn s3_def flip: s1_def)
  moreover have "asked ?S (l_store (world s3))" by (simp add: asked_def s3_def s2_def u_def)
  moreover have "in_step c B s3"
    using step reply(2) st(3)
    by (auto simp: in_step_def Let_def s3_def s2_def s1_def u_def users_def to_client_def split: option.splits)
  ultimately show ?thesis by (intro exI [of _ s3]) (simp add: s3_def s2_def s1_def)
qed

lemma asked_trans: "asked s t \<Longrightarrow> asked t u \<Longrightarrow> asked s u"
  by (simp add: asked_def)


text \<open>Two objects of three bytes in the pool of the other node.\<close>

definition demo_entry :: "int \<Rightarrow> ObjectTableEntry" where
  "demo_entry off = new_ObjectTableEntry\<lparr>e_fd := 3, e_pointer := 4096, e_offset := off, e_data_size := 3, e_state := PLASMA_SEALED\<rparr>"

definition demo_bench :: "unit store" where
  "demo_bench = demo_far\<lparr>objects := [(bench_id 0, demo_entry 16), (bench_id 1, demo_entry 32)]\<rparr>"

definition demo_bench_env :: "unit env" where
  "demo_bench_env = (let t = snd (SendGetRequest Pair (bench_ids 2) 2 0) in (demo_codec [] t t)
     \<lparr>env_rpc := \<lambda>_ ids. case RpcService_GetObjects (objects demo_bench) ids of Inr r \<Rightarrow> r | Inl _ \<Rightarrow> []\<rparr>)"


end
