(* ===== verification/Spec2Isabelle.thy ===== *)
theory Spec2Isabelle
  imports Malloc_Hook Ae_Timing Store_Loop_Hazards Store_Isolation Store_Alloc Store_Memory Store_Hazards Store_Waiting Notifications Protocol_Types Client_Digest Bench
begin

text \<open>
  A model of Plasma, the shared-memory object store of src/arrow/cpp/src/plasma, in the version
  whose memory is disaggregated: the pool of one store is a file that another store's clients can
  map, and a store asks its peer over RPC for objects it does not have.

  \<^bold>\<open>The program.\<close> A store process (store.cc) owns a memory-mapped pool (plasma_allocator.cc,
  malloc.cc), a table of objects (plasma.h, common.h), an eviction policy (eviction_policy.cc,
  quota_aware_policy.cc), an optional external store for evicted objects (external_store.cc,
  hash_table_store.cc), a connection to the peer store (rpc/rpc.cc) and an event loop (events.cc).
  Clients (client.cc) talk to it over Unix sockets (io.cc, fling.cc) in flatbuffer messages
  (protocol.cc, plasma.fbs), receive the descriptor of the pool, map it, and read and write
  objects in place.

  \<^bold>\<open>The theories.\<close>
  \<^item> \<open>Prelude\<close>: results with faults (\<open>res\<close>, \<open>rbind\<close>; a fault is a failed ARROW_CHECK, undefined
    behaviour, or a deadlock), casts between integer widths, little-endian bytes, list lemmas.
  \<^item> \<open>Common\<close> (common.cc, plasma.cc, plasma.h): \<open>UniqueID\<close>, \<open>Status\<close>, \<open>ObjectTableEntry\<close>,
    \<open>PlasmaObject\<close>, \<open>MurmurHash64A\<close>.
  \<^item> \<open>Allocator\<close> (plasma_allocator.cc, malloc.cc): \<open>Memalign\<close>, \<open>FindRegion\<close>, \<open>Free\<close> over the multimap
    of free regions. An abstract pool of bytes; live blocks are disjoint and free regions are
    the rest; best fit; round trip; the erase-then-increment of \<open>Free\<close>, its 32-bit cast.
    \<open>Malloc_Hook\<close> (dlmalloc.cc): the functions dlmalloc would be compiled with.
  \<^item> \<open>Lru_Cache\<close>, \<open>Eviction_Policy\<close> (eviction_policy.cc, quota_aware_policy.cc): the list with node
    identities and its hash table, and both policies. Capacities are conserved; victims are the
    least recently used and no more than needed; quotas are respected, floating point included.
  \<^item> \<open>Io\<close> (io.cc, fling.cc): partial reads and writes, messages, connections, descriptors. Round
    trip under every sequence of partial transfers; truncated messages end as disconnections.
  \<^item> \<open>Protocol\<close> (protocol.cc): every Send and Read function over tables, with round trips.
    \<open>Protocol_Types\<close> (plasma.fbs, common.fbs): the schema as types, and type safety.
  \<^item> \<open>Ae\<close> (thirdparty/ae/ae.c, ae_epoll.c): the event library, with its array of file events and
    list of timers, the pointers it holds into both, and the interest list of the kernel. A \<open>host\<close>
    is the program around it. \<open>Events\<close> (events.cc): \<open>EventLoop\<close> over the library; \<open>wired\<close> ties its
    tables of callbacks to the registrations. \<open>Ae_Host\<close>: the contract \<open>loop_host\<close> of a program, under
    which the pointers stay valid and the loop over the timers ends and visits each timer once.
    \<open>Ae_Timing\<close>: when timers are due and how long the loop sleeps.
  \<^item> \<open>External_Store\<close> (external_store.cc, hash_table_store.cc), \<open>Rpc\<close> (rpc/rpc.cc).
  \<^item> \<open>Store\<close>, \<open>Store_Get\<close>, \<open>Store_Dispatch\<close> (store.cc): the state of the process as one record and
    each method of \<open>PlasmaStore\<close> as an operation on it, up to the dispatch of messages, the events
    of the loop (\<open>store_event_step\<close>) and \<open>main\<close>.
  \<^item> \<open>Store_Effects\<close>, \<open>Store_Server\<close>: the interfaces the properties of the store rest on. \<open>effect\<close> is
    a reflexive and transitive relation on states; \<open>server_effect\<close> lists what a relation must
    satisfy for each operation so that it holds for every event, whatever the message.
    \<open>store_reach\<close> is reachability by any sequence of events.
  \<^item> \<open>Store_Refs\<close>: reference counts are exact. \<open>Store_Alloc\<close>: the allocation loop ends.
    \<open>Store_Lifecycle\<close>: every event moves each object along \<open>obj_step\<close>, the abstract life of an
    object. \<open>Store_Isolation\<close>: no client loses an object it uses. \<open>Store_Liveness\<close>: objects that
    are here are delivered at once. \<open>Store_Policy\<close>: the cache of the eviction policy is exactly the
    set of unused objects of the table. \<open>Store_Memory\<close>: the blocks of the objects are exactly the live
    blocks of the allocator, so objects never overlap and no memory leaks. Reference counts, life
    cycle, isolation, policy and memory are each an interpretation of \<open>server_effect\<close> on the operations of the store.
  \<^item> \<open>Store_Waiting\<close>: requests for objects that are not sealed wait, and the seal answers them all.
  \<^item> \<open>Store_Hazards\<close>: situations the store does not handle, each as a theorem about the operation:
    repeated ids, the second lock of the mutex, releases of remote objects, what eviction saves.
  \<^item> \<open>Store_Turns\<close>: the store changes its loop only through the methods of \<open>EventLoop\<close>. \<open>Store_Loop\<close>
    (\<open>PlasmaStoreRunner\<close> and \<open>HandleSignal\<close> of store.cc): the running process, from \<open>Start\<close> through
    any number of passes of the loop; it is an interpretation of \<open>loop_host\<close>, so its states are
    those of \<open>store_reach\<close>. \<open>Store_Loop_Hazards\<close>: its timers, and what goes wrong at the edges: an
    array that moves, a subscriber that is gone, a signal during the start.
  \<^item> \<open>Notifications\<close>: what a subscriber reads is what was sealed.
  \<^item> \<open>Xxhash\<close> (arrow/vendored/xxhash/xxhash.h): XXH64, one-shot and streaming, proved equal.
  \<^item> \<open>Client\<close> (client.cc): every method of \<open>PlasmaClient::Impl\<close>. \<open>Client_Digest\<close>: the parallel hash
    equals a reference definition. \<open>Client_Use\<close>: the interface \<open>client_effect\<close>, its interpretation
    on the books of a client, and the abstract life of a use (\<open>use_step\<close>).
  \<^item> \<open>Link\<close>, \<open>Link_Write\<close>: client and store in one system. \<open>link_peer\<close> is the peer of a client whose
    messages are handled by the store process and whose mapping of the pool is the memory of the
    store; \<open>in_step\<close> says that the two ends agree. Get delivers what lies in the pool, and an object
    that one client creates, writes and seals is read by another client byte for byte.
    \<open>Link_Remote\<close> adds the store of the other node, whose memory the client maps: objects that only
    the other store has are read in place. \<open>Bench\<close> (bench_setup.cc, bench_local.cc, bench_remote.cc in
    src): the benchmark programs; the remote one is proved to read all objects of the other node.
  \<^item> \<open>Demo\<close>: a small concrete store and client messages for the examples.

  \<^bold>\<open>State and environment.\<close> Operations pass their state explicitly. What the process does not
  control is a parameter: clock, outcomes of system calls, the peer store, the flatbuffer
  encoding of a table, the external store (\<open>env\<close>), for a client the kernel and the store
  at the other end (\<open>peer\<close>), and for the process what its loop reads from the kernel (\<open>io\<close>). Hypotheses on them are named in the theorems that need them.

  \<^bold>\<open>Bounds.\<close> The loop of \<open>AllocateMemory\<close> has fuel: one more than the number of cached objects,
  since every further pass evicts one. \<open>allocate_memory_terminates\<close> shows that the fuel never runs
  out. The loop over the timers has the length of the list as fuel, which \<open>process_timers_equivalent\<close>
  shows to be enough. \<open>aeMain\<close> runs until it is stopped, so theorems speak of any number of passes.
  Loops over sockets consume lists of outcomes of system calls and end with them. All other
  recursion is structural or has a measure.

  \<^bold>\<open>Not modelled.\<close> gRPC (its effect is \<open>rpc_stub\<close>), the flatbuffer byte layout, dlmalloc (replaced
  by the disaggregated allocator), CUDA branches (not compiled), the other backends of the event
  library (not compiled on Linux) and its functions the program does not call (\<open>aeWait\<close>), failures
  of \<open>zmalloc\<close> and \<open>epoll_create\<close>, the Java binding, usage text, tests, and the rest of
  Arrow. Concurrency inside the store is limited to the RPC thread, which only reads the table under
  the mutex; the mutex is modelled, the interleaving is not.

  \<^bold>\<open>Plan.\<close> The remaining calls of a linked client (release, abort, delete) and several clients whose
  calls interleave.
\<close>

end
